(* ===== verification/Prelude.thy ===== *)
theory Prelude
  imports Main
begin

text \<open>
  Shared vocabulary of the development: the exceptions the application raises, the
  state-and-exception shape of its handlers, a weakest-precondition calculus and a
  preservation calculus over that shape, keyed tables (lists of rows) with their lookup
  laws, and the two interfaces that several components share: machines with absorbing
  terminal states and clocks with a latched fault.
\<close>

subsection \<open>Exceptions\<close>

text \<open>
  The four application errors of \<open>app/core/errors.py\<close>, and the Python and framework
  exceptions that the modelled code raises or catches.
\<close>

datatype exn =
    EntityNotFoundError
  | ConflictError
  | InvalidReferenceError
  | UnavailableError
  | ValueError
  | TypeError
  | KeyError
  | ValidationError
  | PermissionDenied
  | AuthenticationError
  | TokenError
  | IntegrityError
  | ConnectionError
  | HTTPException nat
  | ProvisioningConflict
  | ProvisioningExpired
  | AttributeError
  | RuntimeError
  | TransportError
  | TimeoutError
  | CancelledError
  | RequestValidationError
  | OSError

text \<open>
  \<open>except Exception\<close> catches everything but the cancellation of a task. \<open>TransportError\<close> is
  the error of the MQTT library.
\<close>

definition is_exception :: "exn \<Rightarrow> bool" where
  "is_exception e \<longleftrightarrow> e \<noteq> CancelledError"

subsection \<open>Operations: state passing with exceptions\<close>

text \<open>
  An operation takes the state and returns a value or an exception together with the
  state at that point: a Python exception does not undo the assignments made before it.
\<close>

type_synonym ('s, 'a) op = "'s \<Rightarrow> (exn + 'a) \<times> 's"

definition ret :: "'a \<Rightarrow> ('s, 'a) op" where
  "ret x = (\<lambda>s. (Inr x, s))"

definition raise :: "exn \<Rightarrow> ('s, 'a) op" where
  "raise e = (\<lambda>s. (Inl e, s))"

definition bnd :: "('s, 'a) op \<Rightarrow> ('a \<Rightarrow> ('s, 'b) op) \<Rightarrow> ('s, 'b) op" where
  "bnd m f = (\<lambda>s. case m s of (Inl e, t) \<Rightarrow> (Inl e, t) | (Inr x, t) \<Rightarrow> f x t)"

definition andthen :: "('s, 'a) op \<Rightarrow> ('s, 'b) op \<Rightarrow> ('s, 'b) op" where
  "andthen m k = bnd m (\<lambda>_. k)"

definition reject :: "bool \<Rightarrow> exn \<Rightarrow> ('s, unit) op" where
  "reject b e = (if b then raise e else ret ())"

definition gets :: "('s \<Rightarrow> 'a) \<Rightarrow> ('s, 'a) op" where
  "gets f = (\<lambda>s. (Inr (f s), s))"

definition modify :: "('s \<Rightarrow> 's) \<Rightarrow> ('s, unit) op" where
  "modify f = (\<lambda>s. (Inr (), f s))"

definition handle :: "('s, 'a) op \<Rightarrow> (exn \<Rightarrow> ('s, 'a) op) \<Rightarrow> ('s, 'a) op" where
  "handle m h = (\<lambda>s. case m s of (Inl e, t) \<Rightarrow> h e t | (Inr x, t) \<Rightarrow> (Inr x, t))"

definition lift :: "exn + 'a \<Rightarrow> ('s, 'a) op" where
  "lift r = (\<lambda>s. (r, s))"

primrec for_each :: "('a \<Rightarrow> ('s, unit) op) \<Rightarrow> 'a list \<Rightarrow> ('s, unit) op" where
  "for_each f [] = ret ()"
| "for_each f (x # xs) = andthen (f x) (for_each f xs)"

definition is_ok :: "exn + 'a \<Rightarrow> bool" where
  "is_ok r \<longleftrightarrow> (case r of Inl _ \<Rightarrow> False | Inr _ \<Rightarrow> True)"

text \<open>Pure checks raise without a state: the first failing check decides.\<close>

definition check :: "bool \<Rightarrow> exn \<Rightarrow> exn + unit" where
  "check b e = (if b then Inr () else Inl e)"

definition seq :: "exn + unit \<Rightarrow> exn + 'a \<Rightarrow> exn + 'a" where
  "seq r k = (case r of Inl e \<Rightarrow> Inl e | Inr _ \<Rightarrow> k)"

definition ebind :: "exn + 'a \<Rightarrow> ('a \<Rightarrow> exn + 'b) \<Rightarrow> exn + 'b" where
  "ebind r f = (case r of Inl e \<Rightarrow> Inl e | Inr x \<Rightarrow> f x)"

fun emap :: "('a \<Rightarrow> exn + 'b) \<Rightarrow> 'a list \<Rightarrow> exn + 'b list" where
  "emap f [] = Inr []"
| "emap f (x # xs) = ebind (f x) (\<lambda>y. ebind (emap f xs) (\<lambda>ys. Inr (y # ys)))"

lemmas op_defs = ret_def raise_def bnd_def andthen_def reject_def gets_def modify_def
  handle_def lift_def

lemma ret_apply [simp]: "ret x s = (Inr x, s)"
  and raise_apply [simp]: "raise e s = (Inl e, s)"
  and gets_apply [simp]: "gets f s = (Inr (f s), s)"
  and modify_apply [simp]: "modify g s = (Inr (), g s)"
  and lift_apply [simp]: "lift r s = (r, s)"
  by (simp_all add: op_defs)

text \<open>Evaluation unfolds a step only once its state is there.\<close>

lemma op_code [code]:
  "ret x s = (Inr x, s)"
  "raise e s = (Inl e, s)"
  "bnd m f s = (case m s of (r, t) \<Rightarrow> (case r of Inl e \<Rightarrow> (Inl e, t) | Inr y \<Rightarrow> f y t))"
  "andthen m k s = (case m s of (r, t) \<Rightarrow> (case r of Inl e \<Rightarrow> (Inl e, t) | Inr y \<Rightarrow> k t))"
  "reject b e s = (if b then (Inl e, s) else (Inr (), s))"
  "gets g s = (Inr (g s), s)"
  "modify u s = (Inr (), u s)"
  "handle n h s = (case n s of (r, t) \<Rightarrow> (case r of Inl e \<Rightarrow> h e t | Inr y \<Rightarrow> (Inr y, t)))"
  "lift res s = (res, s)"
  by (simp_all add: op_defs split: prod.splits)

lemma bnd_ret [simp]: "bnd (ret x) f = f x"
  and bnd_raise [simp]: "bnd (raise e) f = raise e"
  and andthen_raise [simp]: "andthen (raise e) k = raise e"
  and andthen_ret [simp]: "andthen (ret y) k = k"
  by (simp_all add: op_defs fun_eq_iff)

lemma reject_simps [simp]:
  "reject True e = raise e" "reject False e = ret ()"
  by (simp_all add: reject_def)

lemma bnd_gets_apply [simp]: "bnd (gets f) k s = k (f s) s"
  by (simp add: op_defs)

lemma andthen_modify_apply [simp]: "andthen (modify g) k s = k (g s)"
  by (simp add: op_defs)

lemma andthen_reject_apply: "andthen (reject b e) k s = (if b then (Inl e, s) else k s)"
  by (simp add: op_defs)

lemma bnd_lift_apply: "bnd (lift r) f s = (case r of Inl e \<Rightarrow> (Inl e, s) | Inr x \<Rightarrow> f x s)"
  by (simp add: op_defs)

lemma bnd_assoc: "bnd (bnd m f) g = bnd m (\<lambda>x. bnd (f x) g)"
  by (auto simp: bnd_def fun_eq_iff split: prod.splits sum.splits)

lemma bnd_cong [fundef_cong]:
  assumes "m s = m' s" and "\<And>x t. m' s = (Inr x, t) \<Longrightarrow> f x t = f' x t" and "s = s'"
  shows "bnd m f s = bnd m' f' s'"
  using assms by (auto simp: bnd_def split: prod.splits sum.splits)

lemma bnd_Inr_iff:
  "bnd m f s = (Inr y, u) \<longleftrightarrow> (\<exists>x t. m s = (Inr x, t) \<and> f x t = (Inr y, u))"
  by (auto simp: bnd_def split: prod.splits sum.splits)

lemma andthen_Inr_iff:
  "andthen m k s = (Inr y, u) \<longleftrightarrow> (\<exists>x t. m s = (Inr x, t) \<and> k t = (Inr y, u))"
  by (simp add: andthen_def bnd_Inr_iff)

lemma reject_Inr_iff [simp]: "reject b e s = (Inr u, t) \<longleftrightarrow> \<not> b \<and> t = s"
  by (auto simp: op_defs)

lemma check_Inr_iff [simp]: "check b e = Inr u \<longleftrightarrow> b"
  and check_Inl_iff [simp]: "check b e = Inl e' \<longleftrightarrow> \<not> b \<and> e' = e"
  by (auto simp: check_def)

lemma seq_Inr_iff [simp]: "seq r k = Inr y \<longleftrightarrow> r = Inr () \<and> k = Inr y"
  by (auto simp: seq_def split: sum.splits)

lemma seq_simps [simp]: "seq (Inl e) k = Inl e" "seq (Inr u) k = k"
  by (simp_all add: seq_def)

lemma ebind_simps [simp]: "ebind (Inl e) f = Inl e" "ebind (Inr x) f = f x"
  by (simp_all add: ebind_def)

lemma ebind_Inr_iff: "ebind r f = Inr y \<longleftrightarrow> (\<exists>x. r = Inr x \<and> f x = Inr y)"
  by (cases r) auto

lemma is_ok_simps [simp]: "is_ok (Inr x)" "\<not> is_ok (Inl e)"
  by (simp_all add: is_ok_def)

lemma is_ok_iff: "is_ok r \<longleftrightarrow> (\<exists>x. r = Inr x)"
  by (cases r) simp_all

subsection \<open>Weakest preconditions\<close>

text \<open>
  \<open>wp m Q E s\<close> holds when running \<open>m\<close> from \<open>s\<close> either returns \<open>x\<close> in a state
  satisfying \<open>Q x\<close> or raises \<open>e\<close> in a state satisfying \<open>E e\<close>. The equations
  compute it by rewriting, so a triple is usually one \<open>simp\<close>.
\<close>

named_theorems wp_simps \<open>equations that compute weakest preconditions\<close>

definition wp :: "('s, 'a) op \<Rightarrow> ('a \<Rightarrow> 's \<Rightarrow> bool) \<Rightarrow> (exn \<Rightarrow> 's \<Rightarrow> bool) \<Rightarrow> 's \<Rightarrow> bool" where
  "wp m Q E s \<longleftrightarrow> (case m s of (Inr x, t) \<Rightarrow> Q x t | (Inl e, t) \<Rightarrow> E e t)"

lemma wp_ret [wp_simps]: "wp (ret x) Q E = Q x"
  and wp_raise [wp_simps]: "wp (raise e) Q E = E e"
  and wp_gets [wp_simps]: "wp (gets f) R E = (\<lambda>s. R (f s) s)"
  and wp_modify [wp_simps]: "wp (modify g) T E = (\<lambda>s. T () (g s))"
  and wp_reject [wp_simps]: "wp (reject b e) T E = (\<lambda>s. if b then E e s else T () s)"
  by (auto simp: fun_eq_iff wp_def op_defs)

lemma wp_bnd [wp_simps]: "wp (bnd m f) Q E = wp m (\<lambda>x. wp (f x) Q E) E"
  by (auto simp: fun_eq_iff wp_def bnd_def split: prod.splits sum.splits)

lemma wp_andthen [wp_simps]: "wp (andthen m k) Q E = wp m (\<lambda>_. wp k Q E) E"
  by (simp add: andthen_def wp_bnd)

lemma wp_handle [wp_simps]: "wp (handle m h) Q E = wp m Q (\<lambda>e. wp (h e) Q E)"
  by (auto simp: fun_eq_iff wp_def handle_def split: prod.splits sum.splits)

lemma wp_lift [wp_simps]:
  "wp (lift r) Q E = (\<lambda>s. case r of Inl e \<Rightarrow> E e s | Inr x \<Rightarrow> Q x s)"
  by (simp add: fun_eq_iff wp_def lift_def)

lemma wp_if [wp_simps]: "wp (if b then m else k) Q E = (if b then wp m Q E else wp k Q E)"
  by simp

lemma wp_option [wp_simps]:
  "wp (case x of None \<Rightarrow> m | Some y \<Rightarrow> f y) Q E =
    (case x of None \<Rightarrow> wp m Q E | Some y \<Rightarrow> wp (f y) Q E)"
  by (cases x) simp_all

lemma wp_pair [wp_simps]:
  "wp (case p of (x, y) \<Rightarrow> f x y) Q E = (case p of (x, y) \<Rightarrow> wp (f x y) Q E)"
  by (cases p) simp

lemma wp_mono:
  assumes "wp m Q E s" and "\<And>x t. Q x t \<Longrightarrow> Q' x t" and "\<And>e t. E e t \<Longrightarrow> E' e t"
  shows "wp m Q' E' s"
  using assms by (auto simp: wp_def split: prod.splits sum.splits)

lemma wp_Inr: "wp m Q E s \<Longrightarrow> m s = (Inr x, t) \<Longrightarrow> Q x t"
  by (simp add: wp_def)

lemma wp_Inl: "wp m Q E s \<Longrightarrow> m s = (Inl e, t) \<Longrightarrow> E e t"
  by (simp add: wp_def)

subsection \<open>Preservation\<close>

text \<open>
  \<open>preserves P m\<close>: whatever happens in \<open>m\<close>, return or exception, \<open>P\<close> still holds.
  The collection \<open>pres\<close> closes it under the constructs above; each component adds its
  own operations.
\<close>

named_theorems pres \<open>preservation rules\<close>

definition preserves :: "('s \<Rightarrow> bool) \<Rightarrow> ('s, 'a) op \<Rightarrow> bool" where
  "preserves P m \<longleftrightarrow> (\<forall>s. P s \<longrightarrow> P (snd (m s)))"

lemma preservesI: "(\<And>s. P s \<Longrightarrow> P (snd (m s))) \<Longrightarrow> preserves P m"
  by (simp add: preserves_def)

lemma preservesD: "preserves P m \<Longrightarrow> P s \<Longrightarrow> P (snd (m s))"
  by (simp add: preserves_def)

lemma preserves_result: "preserves P m \<Longrightarrow> P s \<Longrightarrow> m s = (r, t) \<Longrightarrow> P t"
  by (drule (1) preservesD) simp

lemma pres_ret [pres, intro!]: "preserves P (ret x)"
  and pres_raise [pres, intro!]: "preserves P (raise e)"
  and pres_gets [pres, intro!]: "preserves P (gets f)"
  and pres_reject [pres, intro!]: "preserves P (reject b e)"
  and pres_lift [pres, intro!]: "preserves P (lift r)"
  by (simp_all add: preserves_def op_defs)

lemma pres_bnd [pres]: "preserves P m \<Longrightarrow> (\<And>x. preserves P (f x)) \<Longrightarrow> preserves P (bnd m f)"
  by (fastforce simp: preserves_def bnd_def split: prod.splits sum.splits)

lemma pres_andthen [pres]: "preserves P m \<Longrightarrow> preserves P k \<Longrightarrow> preserves P (andthen m k)"
  by (simp add: andthen_def pres_bnd)

lemma pres_handle [pres]:
  "preserves P m \<Longrightarrow> (\<And>e. preserves P (h e)) \<Longrightarrow> preserves P (handle m h)"
  by (fastforce simp: preserves_def handle_def split: prod.splits sum.splits)

lemma pres_modify [pres]: "(\<And>s. P s \<Longrightarrow> P (g s)) \<Longrightarrow> preserves P (modify g)"
  by (simp add: preserves_def op_defs)

lemma pres_if [pres]:
  "(b \<Longrightarrow> preserves P m) \<Longrightarrow> (\<not> b \<Longrightarrow> preserves P k) \<Longrightarrow> preserves P (if b then m else k)"
  by simp

lemma pres_bnd_lift: "(\<And>v. r = Inr v \<Longrightarrow> preserves P (f v)) \<Longrightarrow> preserves P (bnd (lift r) f)"
  by (cases r) (simp_all add: preserves_def bnd_lift_apply)

text \<open>What the first operation establishes is available to preserve the rest.\<close>

lemma pres_bnd_strengthen:
  assumes "preserves P m" and "\<And>s x t. P s \<Longrightarrow> m s = (Inr x, t) \<Longrightarrow> Q x t"
    and "\<And>x. preserves (Q x) (f x)" and "\<And>x t. Q x t \<Longrightarrow> P t"
  shows "preserves P (bnd m f)"
proof (rule preservesI)
  fix s
  assume P: "P s"
  show "P (snd (bnd m f s))"
  proof (cases "m s")
    case (Pair r t)
    show ?thesis
    proof (cases r)
      case (Inl e)
      with Pair preservesD [OF assms(1) P] show ?thesis by (simp add: bnd_def)
    next
      case (Inr x)
      with Pair assms(2) [OF P] have "Q x t" by simp
      from assms(4) [OF preservesD [OF assms(3) this]] Pair Inr show ?thesis by (simp add: bnd_def)
    qed
  qed
qed

lemma pres_bnd_fact:
  assumes "preserves P m" and "\<And>s x t. P s \<Longrightarrow> m s = (Inr x, t) \<Longrightarrow> F x"
    and "\<And>x. F x \<Longrightarrow> preserves P (f x)"
  shows "preserves P (bnd m f)"
proof (rule pres_bnd_strengthen [OF assms(1), where Q = "\<lambda>x t. F x \<and> P t"])
  show "P s \<Longrightarrow> m s = (Inr x, t) \<Longrightarrow> F x \<and> P t" for s x t
    using assms(2) preserves_result [OF assms(1)] by blast
  show "preserves (\<lambda>t. F x \<and> P t) (f x)" for x
    using assms(3) [of x] by (auto simp: preserves_def)
qed simp

lemma pres_andthen_reject:
  "(\<not> b \<Longrightarrow> preserves P k) \<Longrightarrow> preserves P (andthen (reject b e) k)"
  by (cases b) (simp_all add: pres_raise)

lemma pres_option [pres]:
  "(x = None \<Longrightarrow> preserves P m) \<Longrightarrow> (\<And>y. x = Some y \<Longrightarrow> preserves P (f y)) \<Longrightarrow>
   preserves P (case x of None \<Rightarrow> m | Some y \<Rightarrow> f y)"
  by (cases x) simp_all

lemma pres_for_each [pres]:
  "(\<And>x. preserves P (f x)) \<Longrightarrow> preserves P (for_each f xs)"
  by (induction xs) (auto intro: pres)

lemma preserves_wp:
  assumes "\<And>s. P s \<Longrightarrow> wp m (\<lambda>_. P) (\<lambda>_. P) s"
  shows "preserves P m"
proof (rule preservesI)
  fix s
  assume "P s"
  from assms [OF this] show "P (snd (m s))"
    by (auto simp: wp_def split: prod.splits sum.splits)
qed

text \<open>A frame fact: the operation leaves the observation \<open>f\<close> of the state alone.\<close>

definition frames :: "('s \<Rightarrow> 'v) \<Rightarrow> ('s, 'a) op \<Rightarrow> bool" where
  "frames f m \<longleftrightarrow> (\<forall>s. f (snd (m s)) = f s)"

lemma frames_preserves: "frames f m \<longleftrightarrow> (\<forall>v. preserves (\<lambda>s. f s = v) m)"
  by (auto simp: frames_def preserves_def)

lemma framesD: "frames f m \<Longrightarrow> m s = (r, t) \<Longrightarrow> f t = f s"
  by (metis frames_def snd_conv)

subsection \<open>Keyed tables\<close>

text \<open>
  A database table is the list of its rows in insertion order. \<open>tfind\<close> is a select
  with \<open>scalar\<close> (first match), \<open>tput\<close> replaces the row with the same primary key
  or appends a new one, \<open>tdel\<close> deletes.
\<close>

definition tfind :: "('r \<Rightarrow> bool) \<Rightarrow> 'r list \<Rightarrow> 'r option" where
  "tfind p rows = find p rows"

definition tget :: "('r \<Rightarrow> 'k) \<Rightarrow> 'k \<Rightarrow> 'r list \<Rightarrow> 'r option" where
  "tget key k rows = find (\<lambda>r. key r = k) rows"

definition tput :: "('r \<Rightarrow> 'k) \<Rightarrow> 'r \<Rightarrow> 'r list \<Rightarrow> 'r list" where
  "tput key r rows = map (\<lambda>x. if key x = key r then r else x) rows"

definition tdel :: "('r \<Rightarrow> bool) \<Rightarrow> 'r list \<Rightarrow> 'r list" where
  "tdel p rows = filter (\<lambda>r. \<not> p r) rows"

definition unique :: "('r \<Rightarrow> 'k) \<Rightarrow> 'r list \<Rightarrow> bool" where
  "unique key rows \<longleftrightarrow> distinct (map key rows)"

lemma find_SomeD: "find p xs = Some x \<Longrightarrow> x \<in> set xs \<and> p x"
  by (induction xs) (auto split: if_splits)

lemma find_None_iff: "find p xs = None \<longleftrightarrow> (\<forall>x \<in> set xs. \<not> p x)"
  by (induction xs) auto

lemma find_append: "find p (xs @ ys) = (case find p xs of None \<Rightarrow> find p ys | Some x \<Rightarrow> Some x)"
  by (induction xs) auto

lemma tget_SomeD: "tget key k rows = Some r \<Longrightarrow> r \<in> set rows \<and> key r = k"
  unfolding tget_def by (drule find_SomeD) simp

lemma tget_None_iff: "tget key k rows = None \<longleftrightarrow> k \<notin> key ` set rows"
  by (auto simp: tget_def find_None_iff)

lemma tget_Nil [simp]: "tget key k [] = None"
  by (simp add: tget_def)

lemma tget_Cons: "tget key k (r # rows) = (if key r = k then Some r else tget key k rows)"
  by (simp add: tget_def)

lemma tget_append: "tget key k (xs @ ys) =
    (case tget key k xs of None \<Rightarrow> tget key k ys | Some x \<Rightarrow> Some x)"
  by (induction xs) (auto simp: tget_Cons)

lemma tget_tput_same:
  "tget key (key r) rows \<noteq> None \<Longrightarrow> tget key (key r) (tput key r rows) = Some r"
  by (induction rows) (auto simp: tput_def tget_Cons)

lemma tget_tput_other: "k \<noteq> key r \<Longrightarrow> tget key k (tput key r rows) = tget key k rows"
  by (induction rows) (auto simp: tput_def tget_Cons)

lemma map_key_tput [simp]: "map key (tput key r rows) = map key rows"
  by (simp add: tput_def)

lemma length_tput [simp]: "length (tput key r rows) = length rows"
  by (simp add: tput_def)

lemma unique_tput [simp]: "unique key (tput key r rows) = unique key rows"
  by (simp add: unique_def)

lemma set_tput_subset: "set (tput key r rows) \<subseteq> insert r (set rows)"
  by (auto simp: tput_def)

lemma unique_append_one:
  "unique key (rows @ [r]) \<longleftrightarrow> unique key rows \<and> tget key (key r) rows = None"
  by (auto simp: unique_def tget_None_iff image_iff)

lemma unique_tdel: "unique key rows \<Longrightarrow> unique key (tdel p rows)"
  by (simp add: unique_def tdel_def distinct_map_filter)

lemma unique_tget: "unique key rows \<Longrightarrow> r \<in> set rows \<Longrightarrow> tget key (key r) rows = Some r"
  by (induction rows) (auto simp: unique_def tget_Cons rev_image_eqI)

lemma unique_eqD: "unique key rows \<Longrightarrow> r \<in> set rows \<Longrightarrow> r' \<in> set rows \<Longrightarrow> key r = key r' \<Longrightarrow> r = r'"
  by (auto simp: unique_def distinct_map dest: inj_onD)

subsection \<open>Association lists: Python dictionaries in insertion order\<close>

definition alookup :: "'k \<Rightarrow> ('k \<times> 'v) list \<Rightarrow> 'v option" where
  "alookup k kvs = map_of kvs k"

fun aput :: "'k \<Rightarrow> 'v \<Rightarrow> ('k \<times> 'v) list \<Rightarrow> ('k \<times> 'v) list" where
  "aput k v [] = [(k, v)]"
| "aput k v ((k', v') # kvs) = (if k = k' then (k, v) # kvs else (k', v') # aput k v kvs)"

definition apop :: "'k \<Rightarrow> ('k \<times> 'v) list \<Rightarrow> ('k \<times> 'v) list" where
  "apop k kvs = filter (\<lambda>(k', _). k' \<noteq> k) kvs"

lemma alookup_simps [simp]:
  "alookup k [] = None"
  "alookup k ((k', v) # kvs) = (if k = k' then Some v else alookup k kvs)"
  by (simp_all add: alookup_def)

lemma alookup_append: "alookup k (xs @ ys) =
    (case alookup k xs of Some v \<Rightarrow> Some v | None \<Rightarrow> alookup k ys)"
  by (induction xs) auto

lemma alookup_SomeD: "alookup k kvs = Some v \<Longrightarrow> (k, v) \<in> set kvs"
  by (simp add: alookup_def map_of_SomeD)

lemma alookup_None_iff: "alookup k kvs = None \<longleftrightarrow> k \<notin> fst ` set kvs"
  by (simp add: alookup_def map_of_eq_None_iff)

lemma alookup_aput: "alookup k (aput k' v kvs) = (if k = k' then Some v else alookup k kvs)"
  by (induction kvs) auto

lemma alookup_apop: "alookup k (apop k' kvs) = (if k = k' then None else alookup k kvs)"
  by (induction kvs) (auto simp: apop_def)

lemma keys_aput: "map fst (aput k v kvs) =
    (if k \<in> fst ` set kvs then map fst kvs else map fst kvs @ [k])"
  by (induction k v kvs rule: aput.induct) auto

lemma set_aput_subset: "set (aput k v kvs) \<subseteq> insert (k, v) (set kvs)"
  by (induction k v kvs rule: aput.induct) auto

lemma aput_other: "(k', x) \<in> set (aput k v kvs) \<Longrightarrow> k' \<noteq> k \<Longrightarrow> (k', x) \<in> set kvs"
  by (induction k v kvs rule: aput.induct) (auto split: if_splits)

lemma distinct_aput: "distinct (map fst kvs) \<Longrightarrow> distinct (map fst (aput k v kvs))"
  unfolding keys_aput by simp

lemma length_aput:
  "length (aput k v kvs) = (if k \<in> fst ` set kvs then length kvs else Suc (length kvs))"
  using arg_cong [OF keys_aput, of length k v kvs] by (simp split: if_splits)

lemma distinct_apop: "distinct (map fst kvs) \<Longrightarrow> distinct (map fst (apop k kvs))"
  by (simp add: apop_def distinct_map_filter)

lemma set_apop_subset: "set (apop k kvs) \<subseteq> set kvs"
  by (auto simp: apop_def)

lemma length_apop_le: "length (apop k kvs) \<le> length kvs"
  by (simp add: apop_def)

lemma fold_apop:
  "set (fold apop ks kvs) \<subseteq> set kvs" "length (fold apop ks kvs) \<le> length kvs"
  "distinct (map fst kvs) \<Longrightarrow> distinct (map fst (fold apop ks kvs))"
proof -
  show "set (fold apop ks kvs) \<subseteq> set kvs"
    by (induction ks arbitrary: kvs) (auto dest: set_mp [OF set_apop_subset])
  show "length (fold apop ks kvs) \<le> length kvs"
    by (induction ks arbitrary: kvs) (auto intro: order_trans [OF _ length_apop_le])
  show "distinct (map fst kvs) \<Longrightarrow> distinct (map fst (fold apop ks kvs))"
    by (induction ks arbitrary: kvs) (auto simp: distinct_apop)
qed

end
