(* ===== verification/Text.thy ===== *)
theory Text
  imports Prelude
begin

text \<open>
  Strings of the program. A Python \<open>str\<close> is modelled by its UTF-8 bytes: \<open>byte_length\<close>
  is \<open>len(s.encode("utf-8"))\<close> and \<open>py_length\<close> (which does not count continuation bytes)
  is \<open>len(s)\<close>. Character classes, splitting, joining and ASCII case folding are the
  string operations the modelled code uses.
\<close>

definition ord_of :: "char \<Rightarrow> nat" where
  "ord_of c = of_char c"

definition byte_length :: "string \<Rightarrow> nat" where
  "byte_length s = length s"

definition py_length :: "string \<Rightarrow> nat" where
  "py_length s = length (filter (\<lambda>c. \<not> (128 \<le> ord_of c \<and> ord_of c < 192)) s)"

definition is_digit :: "char \<Rightarrow> bool" where
  "is_digit c \<longleftrightarrow> 48 \<le> ord_of c \<and> ord_of c \<le> 57"

definition is_upper :: "char \<Rightarrow> bool" where
  "is_upper c \<longleftrightarrow> 65 \<le> ord_of c \<and> ord_of c \<le> 90"

definition is_lower :: "char \<Rightarrow> bool" where
  "is_lower c \<longleftrightarrow> 97 \<le> ord_of c \<and> ord_of c \<le> 122"

definition is_alnum :: "char \<Rightarrow> bool" where
  "is_alnum c \<longleftrightarrow> is_digit c \<or> is_upper c \<or> is_lower c"

text \<open>The second character class of the identifier patterns, \<open>[A-Za-z0-9_.-]\<close>.\<close>

definition is_id_char :: "char \<Rightarrow> bool" where
  "is_id_char c \<longleftrightarrow> is_alnum c \<or> c = CHR ''_'' \<or> c = CHR ''.'' \<or> c = CHR ''-''"

text \<open>URL-safe base64 characters, \<open>[A-Za-z0-9_-]\<close>.\<close>

definition is_token_char :: "char \<Rightarrow> bool" where
  "is_token_char c \<longleftrightarrow> is_alnum c \<or> c = CHR ''_'' \<or> c = CHR ''-''"

definition is_hex_char :: "char \<Rightarrow> bool" where
  "is_hex_char c \<longleftrightarrow> is_digit c \<or> (97 \<le> ord_of c \<and> ord_of c \<le> 102)"

text \<open>\<open>re.fullmatch\<close> of \<open>[class]{n}\<close>.\<close>

definition matches_n :: "(char \<Rightarrow> bool) \<Rightarrow> nat \<Rightarrow> string \<Rightarrow> bool" where
  "matches_n p n s \<longleftrightarrow> length s = n \<and> list_all p s"

text \<open>\<open>[A-Za-z0-9][class]*\<close> with a bound on the length.\<close>

definition id_pattern :: "(char \<Rightarrow> bool) \<Rightarrow> nat \<Rightarrow> string \<Rightarrow> bool" where
  "id_pattern p n s \<longleftrightarrow>
     (case s of [] \<Rightarrow> False | c # cs \<Rightarrow> is_alnum c \<and> list_all p cs) \<and> length s \<le> n"

text \<open>\<open>TopicID\<close> of \<open>app/schemas/onboarding.py\<close>.\<close>

definition topic_id :: "string \<Rightarrow> bool" where
  "topic_id s \<longleftrightarrow> id_pattern is_id_char 64 s"

subsection \<open>Case folding and trimming\<close>

text \<open>
  On the ASCII characters: strings are UTF-8 bytes, and the cases and blanks that Python's
  \<open>str.lower\<close> and \<open>str.strip\<close> know outside ASCII are left as they are.
\<close>

definition lower_char :: "char \<Rightarrow> char" where
  "lower_char c = (if is_upper c then char_of (ord_of c + 32) else c)"

definition lower :: "string \<Rightarrow> string" where
  "lower s = map lower_char s"

definition is_space :: "char \<Rightarrow> bool" where
  "is_space c \<longleftrightarrow> ord_of c = 32 \<or> (9 \<le> ord_of c \<and> ord_of c \<le> 13) \<or> (28 \<le> ord_of c \<and> ord_of c \<le> 31)"

definition strip :: "string \<Rightarrow> string" where
  "strip s = rev (dropWhile is_space (rev (dropWhile is_space s)))"

lemma ord_of_char_of [simp]: "n < 256 \<Longrightarrow> ord_of (char_of n) = n"
  by (simp add: ord_of_def)

lemma lower_char_idem [simp]: "lower_char (lower_char c) = lower_char c"
proof (cases "is_upper c")
  case True
  then have "ord_of c + 32 < 256" by (simp add: is_upper_def)
  with True show ?thesis by (simp add: lower_char_def is_upper_def)
qed (simp add: lower_char_def)

lemma lower_idem [simp]: "lower (lower s) = lower s"
  by (simp add: lower_def)

lemma length_lower [simp]: "length (lower s) = length s"
  by (simp add: lower_def)

lemma dropWhile_fixed: "(case s of [] \<Rightarrow> True | c # _ \<Rightarrow> \<not> p c) \<Longrightarrow> dropWhile p s = s"
  by (cases s) simp_all

lemma hd_dropWhile: "case dropWhile p s of [] \<Rightarrow> True | c # _ \<Rightarrow> \<not> p c"
  by (induction s) auto

lemma dropWhile_rev_keeps_head:
  assumes "case s of [] \<Rightarrow> True | c # _ \<Rightarrow> \<not> p c"
  shows "case rev (dropWhile p (rev s)) of [] \<Rightarrow> True | c # _ \<Rightarrow> \<not> p c"
proof (cases s)
  case (Cons c cs)
  with assms have "\<not> p c" by simp
  then have "dropWhile p (rev s) = dropWhile p (rev cs) @ [c]"
    using Cons by (simp add: dropWhile_append)
  with \<open>\<not> p c\<close> show ?thesis by simp
qed simp

lemma strip_idem [simp]: "strip (strip s) = strip s"
proof -
  let ?t = "dropWhile is_space s"
  have "dropWhile is_space (rev (dropWhile is_space (rev ?t))) = rev (dropWhile is_space (rev ?t))"
    by (rule dropWhile_fixed [OF dropWhile_rev_keeps_head [OF hd_dropWhile]])
  moreover have "dropWhile is_space (dropWhile is_space (rev ?t)) = dropWhile is_space (rev ?t)"
    by simp
  ultimately show ?thesis by (simp add: strip_def)
qed

subsection \<open>Splitting and joining\<close>

fun split_on :: "char \<Rightarrow> string \<Rightarrow> string list" where
  "split_on sep [] = [[]]"
| "split_on sep (c # cs) =
     (if c = sep then [] # split_on sep cs
      else (case split_on sep cs of [] \<Rightarrow> [[c]] | p # ps \<Rightarrow> (c # p) # ps))"

fun join_with :: "char \<Rightarrow> string list \<Rightarrow> string" where
  "join_with sep [] = []"
| "join_with sep [p] = p"
| "join_with sep (p # ps) = p @ sep # join_with sep ps"

lemma split_on_not_Nil [simp]: "split_on sep s \<noteq> []"
  by (cases s) (auto split: list.splits)

lemma join_with_push: "join_with sep ((c # p) # ps) = c # join_with sep (p # ps)"
  by (cases ps) simp_all

lemma join_with_Nil_Cons: "ps \<noteq> [] \<Longrightarrow> join_with sep ([] # ps) = sep # join_with sep ps"
  by (cases ps) simp_all

lemma join_split [simp]: "join_with sep (split_on sep s) = s"
  by (induction s) (auto simp: join_with_push join_with_Nil_Cons split: list.splits)

lemma split_on_no_sep: "sep \<notin> set s \<Longrightarrow> split_on sep s = [s]"
  by (induction s) auto

lemma split_on_prefix:
  "sep \<notin> set s \<Longrightarrow> split_on sep (s @ sep # t) = s # split_on sep t"
  by (induction s) auto

lemma split_join:
  "ps \<noteq> [] \<Longrightarrow> \<forall>p \<in> set ps. sep \<notin> set p \<Longrightarrow> split_on sep (join_with sep ps) = ps"
  by (induction sep ps rule: join_with.induct) (auto simp: split_on_no_sep split_on_prefix)

lemma split_on_pieces: "p \<in> set (split_on sep s) \<Longrightarrow> sep \<notin> set p"
proof (induction s arbitrary: p)
  case (Cons c cs)
  then show ?case
    by (cases "split_on sep cs") (auto split: if_splits)
qed simp

text \<open>\<open>str.split()\<close> without arguments: the maximal runs of non-space characters.\<close>

fun words_acc :: "string \<Rightarrow> string \<Rightarrow> string list" where
  "words_acc acc [] = (if acc = [] then [] else [rev acc])"
| "words_acc acc (c # cs) =
     (if is_space c then (if acc = [] then words_acc [] cs else rev acc # words_acc [] cs)
      else words_acc (c # acc) cs)"

definition words :: "string \<Rightarrow> string list" where
  "words s = words_acc [] s"

definition starts_with :: "string \<Rightarrow> string \<Rightarrow> bool" where
  "starts_with p s \<longleftrightarrow> take (length p) s = p"

definition ends_with :: "string \<Rightarrow> string \<Rightarrow> bool" where
  "ends_with p s \<longleftrightarrow> starts_with (rev p) (rev s)"

fun contains :: "string \<Rightarrow> string \<Rightarrow> bool" where
  "contains p [] = (p = [])"
| "contains p (c # cs) = (starts_with p (c # cs) \<or> contains p cs)"

subsection \<open>Facts about the classes\<close>

lemmas char_class_defs = is_digit_def is_upper_def is_lower_def is_alnum_def is_id_char_def
  is_token_char_def is_hex_char_def ord_of_def

lemma slash_not_id_char [simp]: "\<not> is_id_char CHR ''/''" and slash_not_alnum [simp]: "\<not> is_alnum CHR ''/''"
  by (simp_all add: char_class_defs)

lemma id_pattern_no_slash: "id_pattern is_id_char n s \<Longrightarrow> CHR ''/'' \<notin> set s"
  by (auto simp: id_pattern_def list_all_iff split: list.splits)

end
