(* ===== verification/Mqtt_Topics.thy ===== *)
theory Mqtt_Topics
  imports Text
begin

text \<open>
  \<open>app/transports/mqtt_topics.py\<close>: topic kinds and their delivery policy, building and
  parsing of topics, and the subscriptions the core asks for.
\<close>

datatype topic_kind =
    STATE | SET | ACK | TELEMETRY | STATUS
  | CONTROL_COMMAND | CONTROL_REQUEST | CONTROL_REPLY

definition PROTOCOL_VERSION :: string where
  "PROTOCOL_VERSION = ''v1''"

definition TOPIC_ROOT :: string where
  "TOPIC_ROOT = ''kzhome/'' @ PROTOCOL_VERSION"

fun kind_value :: "topic_kind \<Rightarrow> string" where
  "kind_value STATE = ''state''"
| "kind_value SET = ''set''"
| "kind_value ACK = ''ack''"
| "kind_value TELEMETRY = ''telemetry''"
| "kind_value STATUS = ''status''"
| "kind_value CONTROL_COMMAND = ''control/command''"
| "kind_value CONTROL_REQUEST = ''control/request''"
| "kind_value CONTROL_REPLY = ''control/reply''"

definition all_kinds :: "topic_kind list" where
  "all_kinds = [STATE, SET, ACK, TELEMETRY, STATUS, CONTROL_COMMAND, CONTROL_REQUEST,
     CONTROL_REPLY]"

record topic_policy =
  tp_qos :: nat
  tp_retain :: bool

fun TOPIC_POLICY :: "topic_kind \<Rightarrow> topic_policy" where
  "TOPIC_POLICY STATE = \<lparr>tp_qos = 1, tp_retain = True\<rparr>"
| "TOPIC_POLICY SET = \<lparr>tp_qos = 1, tp_retain = False\<rparr>"
| "TOPIC_POLICY ACK = \<lparr>tp_qos = 1, tp_retain = False\<rparr>"
| "TOPIC_POLICY TELEMETRY = \<lparr>tp_qos = 0, tp_retain = False\<rparr>"
| "TOPIC_POLICY STATUS = \<lparr>tp_qos = 1, tp_retain = True\<rparr>"
| "TOPIC_POLICY CONTROL_COMMAND = \<lparr>tp_qos = 1, tp_retain = False\<rparr>"
| "TOPIC_POLICY CONTROL_REQUEST = \<lparr>tp_qos = 1, tp_retain = False\<rparr>"
| "TOPIC_POLICY CONTROL_REPLY = \<lparr>tp_qos = 1, tp_retain = False\<rparr>"

record parsed_topic =
  topic_house_id :: string
  topic_device_id :: string
  topic_kind :: topic_kind

text \<open>\<open>_IDENTIFIER\<close>: an alphanumeric character and at most 127 identifier characters.\<close>

definition valid_identifier :: "string \<Rightarrow> bool" where
  "valid_identifier s \<longleftrightarrow> id_pattern is_id_char 128 s"

definition validate_identifier :: "string \<Rightarrow> exn + unit" where
  "validate_identifier s = check (valid_identifier s) ValueError"

definition build_topic :: "string \<Rightarrow> string \<Rightarrow> topic_kind \<Rightarrow> exn + string" where
  "build_topic house_id device_id kind =
     seq (validate_identifier house_id)
     (seq (validate_identifier device_id)
     (Inr (TOPIC_ROOT @ ''/'' @ house_id @ ''/'' @ device_id @ ''/'' @ kind_value kind)))"

text \<open>\<open>TopicKind(raw_kind)\<close>: the enum member with that value.\<close>

definition kind_of_value :: "string \<Rightarrow> exn + topic_kind" where
  "kind_of_value raw =
     (case find (\<lambda>k. kind_value k = raw) all_kinds of None \<Rightarrow> Inl ValueError | Some k \<Rightarrow> Inr k)"

definition parse_topic :: "string \<Rightarrow> exn + parsed_topic" where
  "parse_topic topic =
     (let parts = split_on (CHR ''/'') topic in
      if length parts \<notin> {5, 6} \<or> take 2 parts \<noteq> [''kzhome'', PROTOCOL_VERSION] then Inl ValueError
      else
        let house_id = parts ! 2; device_id = parts ! 3;
            raw_kind = join_with (CHR ''/'') (drop 4 parts) in
        seq (validate_identifier house_id)
        (seq (validate_identifier device_id)
        (ebind (kind_of_value raw_kind) (\<lambda>kind.
         Inr \<lparr>topic_house_id = house_id, topic_device_id = device_id, topic_kind = kind\<rparr>))))"

definition inbound :: "topic_kind list" where
  "inbound = [STATE, ACK, TELEMETRY, STATUS, CONTROL_REQUEST]"

definition subscription_topics :: "(string \<times> nat) list" where
  "subscription_topics =
     map (\<lambda>kind. (TOPIC_ROOT @ ''/+/+/'' @ kind_value kind, tp_qos (TOPIC_POLICY kind))) inbound"

subsection \<open>Lemmas\<close>

lemma kind_in_all_kinds: "k \<in> set all_kinds"
  by (cases k) (simp_all add: all_kinds_def)

lemma kind_value_inj: "kind_value k = kind_value k' \<Longrightarrow> k = k'"
  by (cases k; cases k') simp_all

lemma kind_of_value_kind_value [simp]: "kind_of_value (kind_value k) = Inr k"
  by (cases k) (simp_all add: kind_of_value_def all_kinds_def)

lemma kind_of_value_Inr: "kind_of_value raw = Inr k \<Longrightarrow> raw = kind_value k"
  by (auto simp: kind_of_value_def split: option.splits dest: find_SomeD)

lemma kind_parts: "split_on (CHR ''/'') (kind_value k) \<in>
    {[''state''], [''set''], [''ack''], [''telemetry''], [''status''],
     [''control'', ''command''], [''control'', ''request''], [''control'', ''reply'']}"
  by (cases k) simp_all

lemma valid_identifier_no_slash: "valid_identifier s \<Longrightarrow> CHR ''/'' \<notin> set s"
  by (simp add: valid_identifier_def id_pattern_no_slash)

lemma validate_identifier_Inr [simp]: "validate_identifier s = Inr u \<longleftrightarrow> valid_identifier s"
  by (simp add: validate_identifier_def)

lemma build_topic_Inr:
  "build_topic h d k = Inr t \<longleftrightarrow> valid_identifier h \<and> valid_identifier d \<and>
     t = TOPIC_ROOT @ ''/'' @ h @ ''/'' @ d @ ''/'' @ kind_value k"
  by (auto simp: build_topic_def)

lemma split_topic:
  assumes "CHR ''/'' \<notin> set h" and "CHR ''/'' \<notin> set d"
  shows "split_on (CHR ''/'') (TOPIC_ROOT @ ''/'' @ h @ ''/'' @ d @ ''/'' @ rest) =
    [''kzhome'', ''v1'', h, d] @ split_on (CHR ''/'') rest"
  using assms split_on_prefix [of "CHR ''/''" h "d @ ''/'' @ rest"]
    split_on_prefix [of "CHR ''/''" d rest]
  by (simp add: TOPIC_ROOT_def PROTOCOL_VERSION_def)

lemma parse_build:
  assumes "build_topic h d k = Inr t"
  shows "parse_topic t = Inr \<lparr>topic_house_id = h, topic_device_id = d, topic_kind = k\<rparr>"
proof -
  from assms have ids: "valid_identifier h" "valid_identifier d"
    and t: "t = TOPIC_ROOT @ ''/'' @ h @ ''/'' @ d @ ''/'' @ kind_value k"
    by (auto simp: build_topic_Inr)
  have parts: "split_on (CHR ''/'') t = [''kzhome'', ''v1'', h, d] @ split_on (CHR ''/'') (kind_value k)"
    unfolding t by (rule split_topic) (simp_all add: ids valid_identifier_no_slash)
  have "length (split_on (CHR ''/'') (kind_value k)) \<in> {1, 2}"
    using kind_parts [of k] by auto
  then show ?thesis
    using ids by (auto simp: parse_topic_def parts PROTOCOL_VERSION_def validate_identifier_def check_def)
qed

lemma build_parse:
  assumes "parse_topic t = Inr p"
  shows "build_topic (topic_house_id p) (topic_device_id p) (topic_kind p) = Inr t"
proof -
  let ?s = "split_on (CHR ''/'') t"
  from assms have len: "length ?s \<in> {5, 6}" and root: "take 2 ?s = [''kzhome'', ''v1'']"
    and ids: "valid_identifier (?s ! 2)" "valid_identifier (?s ! 3)"
    and kind: "kind_of_value (join_with (CHR ''/'') (drop 4 ?s)) = Inr (topic_kind p)"
    and p: "topic_house_id p = ?s ! 2" "topic_device_id p = ?s ! 3"
    by (auto simp: parse_topic_def Let_def PROTOCOL_VERSION_def ebind_Inr_iff split: if_splits)
  obtain rest where s: "?s = [''kzhome'', ''v1'', ?s ! 2, ?s ! 3] @ rest" and "rest \<noteq> []"
    and rest: "drop 4 ?s = rest"
  proof -
    have "?s = take 2 ?s @ [?s ! 2, ?s ! 3] @ drop 4 ?s"
      using len by (auto simp: numeral_eq_Suc length_Suc_conv)
    moreover have "drop 4 ?s \<noteq> []" using len by auto
    ultimately show ?thesis using that [of "drop 4 ?s"] root by simp
  qed
  have "t = join_with (CHR ''/'') ?s" by simp
  also have "\<dots> = join_with (CHR ''/'') ([''kzhome'', ''v1'', ?s ! 2, ?s ! 3] @ rest)"
    using s by (rule arg_cong)
  also have "\<dots> = TOPIC_ROOT @ ''/'' @ ?s ! 2 @ ''/'' @ ?s ! 3 @ ''/'' @ join_with (CHR ''/'') rest"
    using \<open>rest \<noteq> []\<close> by (cases rest) (simp_all add: TOPIC_ROOT_def PROTOCOL_VERSION_def)
  finally show ?thesis
    using ids p kind_of_value_Inr [OF kind] rest by (simp add: build_topic_Inr)
qed

subsection \<open>Properties\<close>

text \<open>
  C38. Topics round-trip both ways: a string is the topic built for a house, a device and a kind
  exactly when the parser reads back those three; no other string is accepted.
\<close>

theorem topic_roundtrip:
  "build_topic h d k = Inr t \<longleftrightarrow>
   parse_topic t = Inr \<lparr>topic_house_id = h, topic_device_id = d, topic_kind = k\<rparr>"
proof
  show "build_topic h d k = Inr t" if "parse_topic t = Inr \<lparr>topic_house_id = h, topic_device_id = d, topic_kind = k\<rparr>"
    using build_parse [OF that] by simp
qed (rule parse_build)

end
