(* ===== verification/Json.thy ===== *)
theory Json
  imports Text Complex_Main
begin

text \<open>
  JSON values as the program holds them: device state, metadata, event payloads and MQTT
  bodies are Python objects made of \<open>None\<close>, \<open>bool\<close>, \<open>int\<close>, \<open>float\<close>, \<open>str\<close>, \<open>list\<close> and
  \<open>dict\<close>. Equality and ordering follow Python: booleans are numbers, a comparison of
  unrelated types is a \<open>TypeError\<close>, NaN compares false. The nesting and length bounds of
  \<open>app/transports/mqtt_models.py\<close> are here too.
\<close>

datatype pyfloat = Fin rat | PInf | NInf | NaN

datatype json =
    JNull
  | JBool bool
  | JInt int
  | JFloat pyfloat
  | JStr string
  | JArr "json list"
  | JObj "(string \<times> json) list"

type_synonym obj = "(string \<times> json) list"

subsection \<open>Python equality and ordering\<close>

fun num_of :: "json \<Rightarrow> pyfloat option" where
  "num_of (JBool b) = Some (Fin (if b then 1 else 0))"
| "num_of (JInt n) = Some (Fin (of_int n))"
| "num_of (JFloat x) = Some x"
| "num_of _ = None"

fun num_eq :: "pyfloat \<Rightarrow> pyfloat \<Rightarrow> bool" where
  "num_eq (Fin x) (Fin y) = (x = y)"
| "num_eq PInf PInf = True"
| "num_eq NInf NInf = True"
| "num_eq _ _ = False"

fun num_lt :: "pyfloat \<Rightarrow> pyfloat \<Rightarrow> bool" where
  "num_lt NaN _ = False"
| "num_lt _ NaN = False"
| "num_lt (Fin x) (Fin y) = (x < y)"
| "num_lt NInf y = (y \<noteq> NInf)"
| "num_lt x PInf = (x \<noteq> PInf)"
| "num_lt _ _ = False"

fun str_lt :: "string \<Rightarrow> string \<Rightarrow> bool" where
  "str_lt _ [] = False"
| "str_lt [] (_ # _) = True"
| "str_lt (c # cs) (d # ds) = (ord_of c < ord_of d \<or> (c = d \<and> str_lt cs ds))"

fun py_eq :: "json \<Rightarrow> json \<Rightarrow> bool" where
  "py_eq JNull JNull = True"
| "py_eq (JStr s) (JStr t) = (s = t)"
| "py_eq (JArr xs) (JArr ys) = list_all2 py_eq xs ys"
| "py_eq (JObj kvs) (JObj kws) =
     (length kvs = length kws \<and>
      list_all (\<lambda>(k, v). case alookup k kws of None \<Rightarrow> False | Some w \<Rightarrow> py_eq v w) kvs)"
| "py_eq v w =
     (case (num_of v, num_of w) of (Some x, Some y) \<Rightarrow> num_eq x y | _ \<Rightarrow> False)"

datatype order_op = OpGt | OpGe | OpLt | OpLe

fun num_order :: "order_op \<Rightarrow> pyfloat \<Rightarrow> pyfloat \<Rightarrow> bool" where
  "num_order OpGt x y = num_lt y x"
| "num_order OpGe x y = (num_lt y x \<or> num_eq y x)"
| "num_order OpLt x y = num_lt x y"
| "num_order OpLe x y = (num_lt x y \<or> num_eq x y)"

fun str_order :: "order_op \<Rightarrow> string \<Rightarrow> string \<Rightarrow> bool" where
  "str_order OpGt s t = str_lt t s"
| "str_order OpGe s t = (str_lt t s \<or> s = t)"
| "str_order OpLt s t = str_lt s t"
| "str_order OpLe s t = (str_lt s t \<or> s = t)"

text \<open>
  The rich comparisons; \<open>None\<close> is a \<open>TypeError\<close>. Lists compare at the first position
  where they differ, and by length when one is a prefix of the other.
\<close>

function py_order :: "order_op \<Rightarrow> json \<Rightarrow> json \<Rightarrow> bool option" where
  "py_order op v w =
     (case (v, w) of
        (JStr s, JStr t) \<Rightarrow> Some (str_order op s t)
      | (JArr xs, JArr ys) \<Rightarrow>
          (case find (\<lambda>(x, y). \<not> py_eq x y) (zip xs ys) of
             None \<Rightarrow> Some (num_order op (Fin (of_nat (length xs))) (Fin (of_nat (length ys))))
           | Some (x, y) \<Rightarrow> py_order op x y)
      | _ \<Rightarrow> (case (num_of v, num_of w) of
                (Some x, Some y) \<Rightarrow> Some (num_order op x y)
              | _ \<Rightarrow> None))"
  by pat_completeness auto
termination
proof (relation "measure (\<lambda>(op, v, w). size v)", goal_cases)
  case (2 op v w x1 x2 xs ys pr x y)
  then have "x \<in> set xs" by (auto dest!: find_SomeD dest: set_zip_leftD)
  then have "size x < size (JArr xs)" by (induction xs) auto
  with 2 show ?case by auto
qed simp

declare py_order.simps [simp del]

definition truthy :: "json \<Rightarrow> bool" where
  "truthy v = (case v of JNull \<Rightarrow> False | JBool b \<Rightarrow> b | JInt n \<Rightarrow> n \<noteq> 0
     | JFloat x \<Rightarrow> \<not> num_eq x (Fin 0) | JStr s \<Rightarrow> s \<noteq> [] | JArr xs \<Rightarrow> xs \<noteq> [] | JObj kvs \<Rightarrow> kvs \<noteq> [])"

fun is_bool :: "json \<Rightarrow> bool" where
  "is_bool (JBool _) = True"
| "is_bool _ = False"

fun is_int :: "json \<Rightarrow> bool" where
  "is_int (JInt _) = True"
| "is_int _ = False"

text \<open>\<open>d.get(k)\<close> and \<open>{**a, **b}\<close>.\<close>

definition oget :: "string \<Rightarrow> obj \<Rightarrow> json" where
  "oget k d = (case alookup k d of None \<Rightarrow> JNull | Some v \<Rightarrow> v)"

definition omerge :: "obj \<Rightarrow> obj \<Rightarrow> obj" where
  "omerge a b = fold (\<lambda>(k, v). aput k v) b a"

definition wf_obj :: "obj \<Rightarrow> bool" where
  "wf_obj d \<longleftrightarrow> distinct (map fst d)"

lemma py_eq_refl_simple: "is_bool v \<or> is_int v \<or> v = JNull \<or> (\<exists>s. v = JStr s) \<Longrightarrow> py_eq v v"
  by (cases v) auto

lemma alookup_fold_aput:
  "alookup k (fold (\<lambda>(k, v). aput k v) b a) =
    (case alookup k (rev b) of Some v \<Rightarrow> Some v | None \<Rightarrow> alookup k a)"
proof (induction b arbitrary: a)
  case (Cons p b)
  then show ?case
    by (cases p) (auto simp: alookup_aput alookup_append split: option.splits)
qed simp

lemma alookup_rev: "wf_obj b \<Longrightarrow> alookup k (rev b) = alookup k b"
  unfolding wf_obj_def alookup_def
  by (metis map_of_eqI distinct_rev map_of_inject_set rev_map set_rev)

lemma alookup_omerge: "wf_obj b \<Longrightarrow> alookup k (omerge a b) =
    (case alookup k b of Some v \<Rightarrow> Some v | None \<Rightarrow> alookup k a)"
  by (simp add: omerge_def alookup_fold_aput alookup_rev)

lemma wf_omerge: "wf_obj a \<Longrightarrow> wf_obj (omerge a b)"
  unfolding wf_obj_def omerge_def
proof (induction b arbitrary: a)
  case (Cons p b)
  then show ?case by (cases p) (simp add: distinct_aput)
qed simp

subsection \<open>Bounds on inbound JSON\<close>

definition MAX_CONTROL_PAYLOAD :: nat where
  "MAX_CONTROL_PAYLOAD = 16 * 1024"

definition MAX_TELEMETRY_PAYLOAD :: nat where
  "MAX_TELEMETRY_PAYLOAD = 32 * 1024"

definition MAX_STATE_FIELDS :: nat where
  "MAX_STATE_FIELDS = 64"

definition MAX_TELEMETRY_FIELDS :: nat where
  "MAX_TELEMETRY_FIELDS = 128"

definition MAX_JSON_DEPTH :: nat where
  "MAX_JSON_DEPTH = 8"

definition max_list :: "nat list \<Rightarrow> nat" where
  "max_list xs = foldr max xs 0"

fun json_depth :: "json \<Rightarrow> nat \<Rightarrow> nat" where
  "json_depth (JArr xs) current =
     (if xs = [] then current else max_list (map (\<lambda>child. json_depth child (current + 1)) xs))"
| "json_depth (JObj kvs) current =
     (if kvs = [] then current
      else max_list (map (\<lambda>(_, child). json_depth child (current + 1)) kvs))"
| "json_depth _ current = current"

text \<open>
  The explicit stack of \<open>validate_json_bounds\<close>; the head of the list is the end of the
  Python list, so \<open>pop\<close> takes the head and \<open>extend\<close> pushes in reverse.
\<close>

fun json_children :: "json \<Rightarrow> json list" where
  "json_children (JObj kvs) = map (\<lambda>(k, _). JStr k) kvs @ map snd kvs"
| "json_children (JArr xs) = xs"
| "json_children _ = []"

fun string_too_long :: "json \<Rightarrow> bool" where
  "string_too_long (JStr s) = (1024 < byte_length s)"
| "string_too_long _ = False"

fun weight :: "json \<Rightarrow> nat" where
  "weight (JArr xs) = 1 + sum_list (map weight xs)"
| "weight (JObj kvs) = 1 + sum_list (map (\<lambda>(_, v). 1 + weight v) kvs)"
| "weight _ = 1"

lemma weight_children: "sum_list (map weight (json_children v)) < weight v"
proof (cases v)
  case (JObj kvs)
  have "sum_list (map weight (json_children (JObj kvs))) = sum_list (map (\<lambda>(_, w). 1 + weight w) kvs)"
    by (induction kvs) auto
  with JObj show ?thesis by simp
qed simp_all

lemma weight_pos [simp]: "0 < weight v"
  by (cases v) simp_all

function scan_strings :: "json list \<Rightarrow> exn + unit" where
  "scan_strings [] = Inr ()"
| "scan_strings (item # stack) =
     (if string_too_long item then Inl ValueError
      else scan_strings (rev (json_children item) @ stack))"
  by pat_completeness auto
termination
  by (relation "measure (\<lambda>st. sum_list (map weight st))")
    (simp_all add: rev_map [symmetric] weight_children sum_list_rev)

definition validate_json_bounds :: "json \<Rightarrow> exn + unit" where
  "validate_json_bounds value =
     (if json_depth value 1 > MAX_JSON_DEPTH then Inl ValueError else scan_strings [value])"

text \<open>The recursive reading of the scan: every string and every key is short enough.\<close>

fun strings_ok :: "json \<Rightarrow> bool" where
  "strings_ok (JStr s) = (byte_length s \<le> 1024)"
| "strings_ok (JArr xs) = list_all strings_ok xs"
| "strings_ok (JObj kvs) = list_all (\<lambda>(k, v). byte_length k \<le> 1024 \<and> strings_ok v) kvs"
| "strings_ok _ = True"

lemma strings_ok_children:
  "strings_ok v \<longleftrightarrow> \<not> string_too_long v \<and> list_all strings_ok (json_children v)"
proof (cases v)
  case (JObj kvs)
  have "strings_ok (JObj kvs) = list_all strings_ok (json_children (JObj kvs))"
    by (induction kvs) auto
  with JObj show ?thesis by simp
qed auto

lemma scan_strings_iff: "scan_strings st = Inr () \<longleftrightarrow> list_all strings_ok st"
proof (induction st rule: scan_strings.induct)
  case (2 item stack)
  then show ?case using strings_ok_children [of item] by (auto simp: list_all_iff)
qed simp

text \<open>The depth in closed form: leaves and empty containers count one level.\<close>

fun depth :: "json \<Rightarrow> nat" where
  "depth (JArr xs) = Suc (max_list (map depth xs))"
| "depth (JObj kvs) = Suc (max_list (map (\<lambda>(_, v). depth v) kvs))"
| "depth _ = 1"

lemma max_list_simps [simp]: "max_list [] = 0" "max_list (x # xs) = max x (max_list xs)"
  by (simp_all add: max_list_def)

lemma depth_pos [simp]: "1 \<le> depth v"
  by (cases v) simp_all

lemma max_list_add:
  "xs \<noteq> [] \<Longrightarrow> (\<And>x. x \<in> set xs \<Longrightarrow> f x = c + g x) \<Longrightarrow>
   max_list (map f xs) = c + max_list (map g xs)"
  by (induction xs rule: list_nonempty_induct) auto

lemma json_depth_eq: "json_depth v c + 1 = c + depth v"
proof (induction v c rule: json_depth.induct)
  case (1 xs c)
  then show ?case
    using max_list_add [of xs "\<lambda>v. json_depth v (c + 1)" c depth] by (cases xs) auto
next
  case (2 kvs c)
  show ?case
  proof (cases "kvs = []")
    case False
    have "json_depth (snd p) (c + 1) = c + depth (snd p)" if "p \<in> set kvs" for p
      using 2 [OF False that, of "fst p" "snd p"] by simp
    then have "max_list (map (\<lambda>p. json_depth (snd p) (c + 1)) kvs) =
        c + max_list (map (\<lambda>p. depth (snd p)) kvs)"
      by (intro max_list_add False) simp
    with False show ?thesis by (simp add: case_prod_unfold)
  qed simp
qed simp_all

lemma validate_json_bounds_iff:
  "validate_json_bounds v = Inr () \<longleftrightarrow> depth v \<le> MAX_JSON_DEPTH \<and> strings_ok v"
proof -
  have "json_depth v 1 = depth v" using json_depth_eq [of v 1] by simp
  then show ?thesis
    by (simp add: validate_json_bounds_def scan_strings_iff del: scan_strings.simps strings_ok.simps)
qed

subsection \<open>Properties\<close>

text \<open>
  C39. The iterative bounds check of a payload, with its explicit stack and its running depth,
  accepts exactly the values that nest at most eight levels and whose strings and keys are at
  most 1024 bytes long; otherwise it raises \<open>ValueError\<close>.
\<close>

theorem json_bounds_correct:
  "validate_json_bounds v =
     (if depth v \<le> MAX_JSON_DEPTH \<and> strings_ok v then Inr () else Inl ValueError)"
proof -
  have "scan_strings st = Inr () \<or> scan_strings st = Inl ValueError" for st
    by (induction st rule: scan_strings.induct) auto
  then have "validate_json_bounds v = Inr () \<or> validate_json_bounds v = Inl ValueError"
    by (simp add: validate_json_bounds_def del: scan_strings.simps)
  then show ?thesis using validate_json_bounds_iff [of v] by auto
qed

end
