(* ===== verification/State_Validator.thy ===== *)
theory State_Validator
  imports Json
begin

text \<open>
  \<open>app/services/state_validator.py\<close>: which state fields a device may be commanded to or
  may report, by the capabilities it advertises.
\<close>

definition FIELD_CAPABILITIES :: "(string \<times> string) list" where
  "FIELD_CAPABILITIES =
    [(''on'', ''on_off''),
     (''brightness'', ''brightness''),
     (''position'', ''position''),
     (''temperature'', ''temperature''),
     (''target_temperature'', ''target_temperature''),
     (''motion'', ''motion''),
     (''humidity'', ''humidity''),
     (''leak'', ''leak''),
     (''illuminance'', ''illuminance'')]"

definition READ_ONLY_FIELDS :: "string list" where
  "READ_ONLY_FIELDS = [''temperature'', ''motion'', ''humidity'', ''leak'', ''illuminance'']"

definition BOOLEAN_FIELDS :: "string list" where
  "BOOLEAN_FIELDS = [''on'', ''motion'', ''leak'']"

definition INTEGER_RANGES :: "(string \<times> int \<times> int) list" where
  "INTEGER_RANGES = [(''brightness'', 0, 100), (''position'', 0, 100)]"

text \<open>\<open>FIELD_CAPABILITIES.get(field) not in capabilities\<close>: an unknown field maps to \<open>None\<close>.\<close>

definition unsupported :: "string list \<Rightarrow> obj \<Rightarrow> string list" where
  "unsupported capabilities state =
     filter (\<lambda>field. case alookup field FIELD_CAPABILITIES of
         None \<Rightarrow> True | Some c \<Rightarrow> c \<notin> set capabilities) (map fst state)"

definition validate_capabilities :: "string list \<Rightarrow> obj \<Rightarrow> exn + unit" where
  "validate_capabilities capabilities state =
     (if unsupported capabilities state \<noteq> [] then Inl InvalidReferenceError else Inr ())"

fun int_in_range :: "int \<times> int \<Rightarrow> json \<Rightarrow> bool" where
  "int_in_range (minimum, maximum) (JInt value) = (minimum \<le> value \<and> value \<le> maximum)"
| "int_in_range _ _ = False"

definition valid_value :: "string \<Rightarrow> json \<Rightarrow> bool" where
  "valid_value field value \<longleftrightarrow>
     value \<noteq> JNull \<and>
     (field \<in> set BOOLEAN_FIELDS \<longrightarrow> is_bool value) \<and>
     (case alookup field INTEGER_RANGES of None \<Rightarrow> True | Some r \<Rightarrow> int_in_range r value)"

fun validate_values :: "obj \<Rightarrow> exn + unit" where
  "validate_values [] = Inr ()"
| "validate_values ((field, value) # rest) =
     (if value = JNull then Inl InvalidReferenceError
      else if field \<in> set BOOLEAN_FIELDS \<and> \<not> is_bool value then Inl InvalidReferenceError
      else case alookup field INTEGER_RANGES of
          None \<Rightarrow> validate_values rest
        | Some (minimum, maximum) \<Rightarrow>
            (if \<not> is_int value \<or> \<not> int_in_range (minimum, maximum) value
             then Inl InvalidReferenceError
             else validate_values rest))"

text \<open>The validator of a device: \<open>device.capabilities\<close> is all it uses of the device.\<close>

definition validate :: "string list \<Rightarrow> obj \<Rightarrow> exn + unit" where
  "validate capabilities state = validate_capabilities capabilities state"

definition validate_command :: "string list \<Rightarrow> obj \<Rightarrow> exn + unit" where
  "validate_command capabilities state =
     seq (validate capabilities state)
     (seq (validate_values state)
     (let read_only = filter (\<lambda>f. f \<in> set READ_ONLY_FIELDS) (map fst state) in
      if read_only \<noteq> [] then Inl InvalidReferenceError
      else if state = [] then Inl InvalidReferenceError
      else Inr ()))"

definition validate_report :: "string list \<Rightarrow> obj \<Rightarrow> exn + unit" where
  "validate_report capabilities state =
     seq (validate capabilities state) (validate_values state)"

subsection \<open>Lemmas\<close>

definition supported_field :: "string list \<Rightarrow> string \<Rightarrow> bool" where
  "supported_field capabilities field \<longleftrightarrow>
     (\<exists>c \<in> set capabilities. alookup field FIELD_CAPABILITIES = Some c)"

lemma validate_capabilities_iff:
  "validate_capabilities caps state = Inr () \<longleftrightarrow>
   (\<forall>(field, _) \<in> set state. supported_field caps field)"
  by (induction state) (auto simp: validate_capabilities_def unsupported_def supported_field_def
      split: option.splits if_splits)

lemma int_in_range_is_int: "int_in_range r v \<Longrightarrow> is_int v"
  by (cases v; cases r) simp_all

lemma validate_values_iff:
  "validate_values state = Inr () \<longleftrightarrow> (\<forall>(field, value) \<in> set state. valid_value field value)"
proof (induction state rule: validate_values.induct)
  case (2 field v rest)
  then show ?case
    by (auto simp: valid_value_def dest: int_in_range_is_int split: option.splits if_splits)
qed simp

lemma validate_only_invalid_reference:
  "validate_capabilities caps state = Inl e \<Longrightarrow> e = InvalidReferenceError"
  "validate_values state = Inl e \<Longrightarrow> e = InvalidReferenceError"
  by (simp add: validate_capabilities_def split: if_splits)
    (induction state rule: validate_values.induct, auto split: option.splits if_splits)

lemma validate_command_iff:
  "validate_command caps state = Inr () \<longleftrightarrow>
     state \<noteq> [] \<and>
     (\<forall>(field, value) \<in> set state.
        supported_field caps field \<and> field \<notin> set READ_ONLY_FIELDS \<and> valid_value field value)"
  by (auto simp: validate_command_def validate_def validate_capabilities_iff validate_values_iff
      filter_empty_conv split: if_splits)

lemma validate_report_iff:
  "validate_report caps state = Inr () \<longleftrightarrow>
     (\<forall>(field, value) \<in> set state. supported_field caps field \<and> valid_value field value)"
  by (auto simp: validate_report_def validate_def validate_capabilities_iff validate_values_iff)

subsection \<open>Properties\<close>

text \<open>
  C40. The validator raises \<open>InvalidReferenceError\<close> or accepts, and it accepts a command exactly
  when the command is not empty and every field is backed by a capability of the device, may
  be written, and has a value of its type and range; a report may be empty and may contain
  read-only fields.
\<close>

theorem state_validator_correct:
  "validate_command caps state =
     (if state \<noteq> [] \<and> list_all (\<lambda>p. supported_field caps (fst p) \<and>
           fst p \<notin> set READ_ONLY_FIELDS \<and> valid_value (fst p) (snd p)) state
      then Inr () else Inl InvalidReferenceError) \<and>
   validate_report caps state =
     (if list_all (\<lambda>p. supported_field caps (fst p) \<and> valid_value (fst p) (snd p)) state
      then Inr () else Inl InvalidReferenceError)"
proof
  have only: "r = Inr () \<or> r = Inl InvalidReferenceError"
    if "r = validate_command caps state \<or> r = validate_report caps state" for r
    using that
    by (cases "validate_capabilities caps state"; cases "validate_values state")
      (auto simp: validate_command_def validate_report_def validate_def Let_def
        dest: validate_only_invalid_reference split: if_splits)
  show "validate_command caps state =
     (if state \<noteq> [] \<and> list_all (\<lambda>p. supported_field caps (fst p) \<and>
           fst p \<notin> set READ_ONLY_FIELDS \<and> valid_value (fst p) (snd p)) state
      then Inr () else Inl InvalidReferenceError)"
    using only [of "validate_command caps state"] validate_command_iff [of caps state]
    by (auto simp: case_prod_unfold list_all_iff)
  show "validate_report caps state =
     (if list_all (\<lambda>p. supported_field caps (fst p) \<and> valid_value (fst p) (snd p)) state
      then Inr () else Inl InvalidReferenceError)"
    using only [of "validate_report caps state"] validate_report_iff [of caps state]
    by (auto simp: case_prod_unfold list_all_iff)
qed

end
