(* ===== verification/Interfaces.thy ===== *)
theory Interfaces
  imports Prelude "HOL-Library.Option_ord"
begin

text \<open>
  The contracts that several components of the program share, each a locale whose lemmas
  are proved once and reach the properties through interpretations on the model's own
  definitions: machines whose terminal states absorb every event, machines that only move
  forward, clocks that latch a fault, and tables of rows inside the database record.
\<close>

subsection \<open>Machines with absorbing states\<close>

text \<open>
  \<open>step e s\<close> is the state after event \<open>e\<close>; an event the code refuses leaves the state
  alone. \<open>final\<close> states accept nothing.
\<close>

locale absorbing_machine =
  fixes step :: "'ev \<Rightarrow> 'st \<Rightarrow> 'st"
    and final :: "'st \<Rightarrow> bool"
  assumes final_stuck: "final s \<Longrightarrow> step e s = s"
begin

lemma run_final: "final s \<Longrightarrow> fold step es s = s"
  by (induction es) (simp_all add: final_stuck)

lemma run_final_split: "final (fold step es s) \<Longrightarrow> fold step (es @ es') s = fold step es s"
  by (simp add: run_final)

end

text \<open>A machine that also carries a rank which no event raises.\<close>

locale progress_machine = absorbing_machine +
  fixes rank :: "'b \<Rightarrow> nat"
  assumes rank_step: "rank (step e s) \<le> rank s"
begin

lemma rank_run: "rank (fold step es s) \<le> rank s"
proof (induction es arbitrary: s)
  case (Cons e es)
  have "rank (fold step es (step e s)) \<le> rank (step e s)" by (rule Cons.IH)
  also have "\<dots> \<le> rank s" by (rule rank_step)
  finally show ?case by simp
qed simp

lemma rank_run_split: "rank (fold step (es @ es') s) \<le> rank (fold step es s)"
  by (simp add: rank_run)

end

text \<open>A machine whose accepted events also preserve an invariant.\<close>

locale invariant_machine =
  fixes step :: "'ev \<Rightarrow> 'st \<Rightarrow> 'st"
    and inv :: "'st \<Rightarrow> bool"
  assumes inv_step: "inv s \<Longrightarrow> inv (step e s)"
begin

lemma inv_run: "inv s \<Longrightarrow> inv (fold step es s)"
  by (induction es arbitrary: s) (simp_all add: inv_step)

end

subsection \<open>Clocks that latch a fault\<close>

text \<open>
  \<open>read r c\<close> consults the clock \<open>c\<close> when the underlying timers show \<open>r\<close>; it serves a
  value or raises. \<open>upto c\<close> bounds every value served so far, and nothing below it is served
  any more. \<open>fault\<close> is the fault that stops this way of reading: it stays, and nothing is
  served under it.
\<close>

locale latching_clock =
  fixes read :: "'r \<Rightarrow> 'c \<Rightarrow> (exn + 'v::linorder) \<times> 'c"
    and fault :: "'c \<Rightarrow> bool"
    and upto :: "'c \<Rightarrow> 'v option"
  assumes fault_refuses: "fault c \<Longrightarrow> \<exists>e. fst (read r c) = Inl e"
    and fault_kept: "fault c \<Longrightarrow> fault (snd (read r c))"
    and serves_above: "fst (read r c) = Inr v \<Longrightarrow> upto c \<le> Some v"
    and serves_upto: "fst (read r c) = Inr v \<Longrightarrow> Some v \<le> upto (snd (read r c))"
    and upto_mono: "upto c \<le> upto (snd (read r c))"
begin

primrec served :: "'r list \<Rightarrow> 'c \<Rightarrow> 'v list" where
  "served [] c = []"
| "served (r # rs) c =
     (case fst (read r c) of Inl e \<Rightarrow> served rs (snd (read r c))
      | Inr v \<Rightarrow> v # served rs (snd (read r c)))"

lemma served_ge: "v \<in> set (served rs c) \<Longrightarrow> upto c \<le> Some v"
proof (induction rs arbitrary: c)
  case (Cons r rs)
  have le: "upto c \<le> upto (snd (read r c))" by (rule upto_mono)
  from Cons.prems consider "v \<in> set (served rs (snd (read r c)))"
    | "fst (read r c) = Inr v"
    by (auto split: sum.splits)
  then show ?case
  proof cases
    case 1
    then have "upto (snd (read r c)) \<le> Some v" by (rule Cons.IH)
    with le show ?thesis by (rule order_trans)
  next
    case 2
    then show ?thesis by (rule serves_above)
  qed
qed simp

lemma served_sorted: "sorted (served rs c)"
proof (induction rs arbitrary: c)
  case (Cons r rs)
  show ?case
  proof (cases "fst (read r c)")
    case (Inr v)
    have "v \<le> w" if "w \<in> set (served rs (snd (read r c)))" for w
      using order_trans [OF serves_upto [OF Inr] served_ge [OF that]] by simp
    with Inr Cons.IH show ?thesis by simp
  qed (simp add: Cons.IH)
qed simp

lemma served_fault: "fault c \<Longrightarrow> served rs c = []"
proof (induction rs arbitrary: c)
  case (Cons r rs)
  from fault_refuses [OF Cons.prems, of r] obtain e where "fst (read r c) = Inl e" ..
  with Cons.IH [OF fault_kept [OF Cons.prems]] show ?case by simp
qed simp

end

subsection \<open>Tables of a database record\<close>

text \<open>
  \<open>rows\<close> and \<open>set_rows\<close> select one table of the database, \<open>key\<close> is its primary key.
  The laws are those of a record field; the lemmas are what services rely on when they
  write a row and read it back.
\<close>

locale row_table =
  fixes rows :: "'d \<Rightarrow> 'r list"
    and set_rows :: "('r list \<Rightarrow> 'r list) \<Rightarrow> 'd \<Rightarrow> 'd"
    and key :: "'r \<Rightarrow> 'k"
  assumes rows_set: "rows (set_rows f d) = f (rows d)"
begin

lemma get_put_same:
  "tget key (key r) (rows d) \<noteq> None \<Longrightarrow>
   tget key (key r) (rows (set_rows (tput key r) d)) = Some r"
  by (simp add: rows_set tget_tput_same)

lemma get_put_other:
  "k \<noteq> key r \<Longrightarrow> tget key k (rows (set_rows (tput key r) d)) = tget key k (rows d)"
  by (simp add: rows_set tget_tput_other)

lemma get_insert:
  "tget key k (rows (set_rows (\<lambda>t. t @ [r]) d)) =
    (case tget key k (rows d) of Some x \<Rightarrow> Some x
     | None \<Rightarrow> (if key r = k then Some r else None))"
  by (simp add: rows_set tget_append tget_Cons split: option.splits)

lemma unique_put: "unique key (rows (set_rows (tput key r) d)) = unique key (rows d)"
  by (simp add: rows_set)

lemma unique_insert:
  "unique key (rows (set_rows (\<lambda>t. t @ [r]) d)) \<longleftrightarrow>
   unique key (rows d) \<and> tget key (key r) (rows d) = None"
  by (simp add: rows_set unique_append_one)

end

end
