(* ===== verification/Schemas.thy ===== *)
theory Schemas
  imports Json
begin

text \<open>
  \<open>app/schemas/entities.py\<close> and \<open>app/schemas/auth.py\<close>: the request and read schemas with
  their field bounds and validators. A field bound is a boolean check on the value; a
  Pydantic \<open>ValidationError\<close> is the check failing. Update schemas carry \<open>None\<close> for a field
  that is unset or null, which \<open>model_dump(exclude_unset, exclude_none)\<close> drops alike.
\<close>

definition bounded :: "nat \<Rightarrow> nat \<Rightarrow> string \<Rightarrow> bool" where
  "bounded lo hi s \<longleftrightarrow> lo \<le> py_length s \<and> py_length s \<le> hi"

definition opt_ok :: "('a \<Rightarrow> bool) \<Rightarrow> 'a option \<Rightarrow> bool" where
  "opt_ok p x \<longleftrightarrow> (case x of None \<Rightarrow> True | Some y \<Rightarrow> p y)"

definition dflt :: "'a \<Rightarrow> 'a option \<Rightarrow> 'a" where
  "dflt d x = (case x of None \<Rightarrow> d | Some y \<Rightarrow> y)"

subsection \<open>Structure\<close>

record house_create =
  hc_id :: string
  hc_name :: string

record floor_create =
  fc_id :: string
  fc_house_id :: string
  fc_name :: string
  fc_order :: int

record floor_update =
  fu_house_id :: "string option"
  fu_name :: "string option"
  fu_order :: "int option"

record room_create =
  rc_id :: string
  rc_floor_id :: string
  rc_name :: string
  rc_icon :: "string option"

record room_update =
  ru_floor_id :: "string option"
  ru_name :: "string option"
  ru_icon :: "string option"

definition house_create_ok :: "house_create \<Rightarrow> bool" where
  "house_create_ok x \<longleftrightarrow> bounded 1 64 (hc_id x) \<and> bounded 1 255 (hc_name x)"

definition floor_create_ok :: "floor_create \<Rightarrow> bool" where
  "floor_create_ok x \<longleftrightarrow> bounded 1 64 (fc_id x) \<and> bounded 1 255 (fc_name x)"

definition floor_update_ok :: "floor_update \<Rightarrow> bool" where
  "floor_update_ok x \<longleftrightarrow> opt_ok (bounded 1 255) (fu_name x)"

definition room_create_ok :: "room_create \<Rightarrow> bool" where
  "room_create_ok x \<longleftrightarrow> bounded 1 64 (rc_id x) \<and> bounded 1 255 (rc_name x)"

definition room_update_ok :: "room_update \<Rightarrow> bool" where
  "room_update_ok x \<longleftrightarrow> opt_ok (bounded 1 255) (ru_name x)"

subsection \<open>Devices\<close>

definition device_types :: "string list" where
  "device_types = [''light'', ''relay'', ''switch'', ''motion_sensor'', ''temperature_sensor'',
     ''humidity_sensor'', ''leak_sensor'', ''curtain'', ''thermostat'', ''socket'']"

definition capability_names :: "string list" where
  "capability_names = [''on_off'', ''brightness'', ''open_close'', ''position'', ''temperature'',
     ''target_temperature'', ''motion'', ''humidity'', ''leak'', ''illuminance'']"

record device_create =
  dc_id :: string
  dc_name :: string
  dc_room_id :: string
  dc_type :: string
  dc_state :: obj
  dc_online :: bool
  dc_capabilities :: "string list"
  dc_metadata :: obj

record device_update =
  du_name :: "string option"
  du_room_id :: "string option"
  du_type :: "string option"
  du_state :: "obj option"
  du_online :: "bool option"
  du_capabilities :: "string list option"
  du_metadata :: "obj option"
  du_fields_set :: "string list"

definition device_create_ok :: "device_create \<Rightarrow> bool" where
  "device_create_ok x \<longleftrightarrow> bounded 1 64 (dc_id x) \<and> bounded 1 255 (dc_name x) \<and>
     dc_type x \<in> set device_types \<and> list_all (\<lambda>c. c \<in> set capability_names) (dc_capabilities x)"

definition device_update_ok :: "device_update \<Rightarrow> bool" where
  "device_update_ok x \<longleftrightarrow> opt_ok (bounded 1 255) (du_name x) \<and>
     opt_ok (\<lambda>t. t \<in> set device_types) (du_type x) \<and>
     opt_ok (list_all (\<lambda>c. c \<in> set capability_names)) (du_capabilities x)"

subsection \<open>Scenes and automations\<close>

definition operator_names :: "string list" where
  "operator_names = [''eq'', ''neq'', ''gt'', ''gte'', ''lt'', ''lte'']"

record device_action =
  act_device_id :: string
  act_state :: obj

definition device_action_ok :: "device_action \<Rightarrow> bool" where
  "device_action_ok a \<longleftrightarrow> bounded 1 64 (act_device_id a) \<and> length (act_state a) \<le> 32"

text \<open>Delays are seconds as Python floats.\<close>

datatype automation_action = DeviceAction device_action | DelayAction pyfloat

fun automation_action_ok :: "automation_action \<Rightarrow> bool" where
  "automation_action_ok (DeviceAction a) = device_action_ok a"
| "automation_action_ok (DelayAction s) = (num_lt (Fin 0) s \<and> num_order OpLe s (Fin 86400))"

record trigger =
  tr_device_id :: string
  tr_field :: string
  tr_operator :: string
  tr_value :: json

definition trigger_ok :: "trigger \<Rightarrow> bool" where
  "trigger_ok t \<longleftrightarrow> bounded 1 64 (tr_device_id t) \<and> bounded 1 64 (tr_field t) \<and>
     tr_operator t \<in> set operator_names"

definition digit_value :: "char \<Rightarrow> nat" where
  "digit_value c = ord_of c - 48"

definition nat_of_digits :: "string \<Rightarrow> nat" where
  "nat_of_digits s = foldl (\<lambda>n c. 10 * n + digit_value c) 0 s"

definition digit_char :: "nat \<Rightarrow> char" where
  "digit_char n = char_of (48 + n)"

definition two_digits :: "nat \<Rightarrow> string" where
  "two_digits n = [digit_char (n div 10), digit_char (n mod 10)]"

text \<open>
  \<open>valid_time\<close>: two groups of digits, an hour and a minute in range, written back as
  \<open>HH:MM\<close>. \<open>isdigit\<close> is false of the empty string; the digits are the ASCII ones, those of other
  scripts that \<open>isdigit\<close> accepts are not modelled.
\<close>

definition valid_time :: "string \<Rightarrow> exn + string" where
  "valid_time value =
     (let parts = split_on (CHR '':'') value in
      if length parts \<noteq> 2 \<or> \<not> list_all (\<lambda>p. p \<noteq> [] \<and> list_all is_digit p) parts then Inl ValueError
      else let hour = nat_of_digits (parts ! 0); minute = nat_of_digits (parts ! 1) in
        if hour > 23 \<or> minute > 59 then Inl ValueError
        else Inr (two_digits hour @ '':'' @ two_digits minute))"

datatype automation_condition = DeviceStateCondition trigger | TimeCondition string string

text \<open>Validation of a condition yields the normalised condition.\<close>

fun check_condition :: "automation_condition \<Rightarrow> exn + automation_condition" where
  "check_condition (DeviceStateCondition t) =
     (if trigger_ok t then Inr (DeviceStateCondition t) else Inl ValidationError)"
| "check_condition (TimeCondition after before) =
     ebind (valid_time after) (\<lambda>a. ebind (valid_time before) (\<lambda>b. Inr (TimeCondition a b)))"

record scene_create =
  sc_id :: string
  sc_name :: string
  sc_house_id :: string
  sc_actions :: "device_action list"

record scene_update =
  su_name :: "string option"
  su_house_id :: "string option"
  su_actions :: "device_action list option"

definition scene_create_ok :: "scene_create \<Rightarrow> bool" where
  "scene_create_ok x \<longleftrightarrow> bounded 1 64 (sc_id x) \<and> bounded 1 255 (sc_name x) \<and>
     length (sc_actions x) \<le> 100 \<and> list_all device_action_ok (sc_actions x)"

record automation_create =
  ac_id :: string
  ac_name :: string
  ac_house_id :: string
  ac_enabled :: bool
  ac_trigger :: trigger
  ac_conditions :: "automation_condition list"
  ac_actions :: "automation_action list"

record automation_update =
  au_name :: "string option"
  au_house_id :: "string option"
  au_enabled :: "bool option"
  au_trigger :: "trigger option"
  au_conditions :: "automation_condition list option"
  au_actions :: "automation_action list option"

definition check_automation :: "automation_create \<Rightarrow> exn + automation_create" where
  "check_automation x =
     (if bounded 1 64 (ac_id x) \<and> bounded 1 255 (ac_name x) \<and> trigger_ok (ac_trigger x) \<and>
         length (ac_conditions x) \<le> 50 \<and>
         1 \<le> length (ac_actions x) \<and> length (ac_actions x) \<le> 100 \<and>
         list_all automation_action_ok (ac_actions x)
      then ebind (emap check_condition (ac_conditions x)) (\<lambda>cs. Inr (x\<lparr>ac_conditions := cs\<rparr>))
      else Inl ValidationError)"

subsection \<open>Legacy automation documents\<close>

text \<open>
  \<open>migrate_equals\<close> and \<open>migrate_legacy_rule\<close> run on the raw request body before
  validation: \<open>equals\<close> becomes \<open>value\<close>, and conditions and actions without a \<open>type\<close> are
  device-state entries.
\<close>

fun migrate_equals :: "json \<Rightarrow> json" where
  "migrate_equals (JObj d) =
     (case alookup ''equals'' d of
        None \<Rightarrow> JObj d
      | Some v \<Rightarrow> JObj (aput ''value'' v (apop ''equals'' d)))"
| "migrate_equals v = v"

definition setdefault :: "string \<Rightarrow> json \<Rightarrow> obj \<Rightarrow> obj" where
  "setdefault k v d = (case alookup k d of None \<Rightarrow> aput k v d | Some _ \<Rightarrow> d)"

definition migrate_trigger :: "obj \<Rightarrow> obj" where
  "migrate_trigger d =
     (case oget ''trigger'' d of
        JObj t \<Rightarrow>
          (case alookup ''equals'' t of
             None \<Rightarrow> d
           | Some v \<Rightarrow>
               aput ''trigger''
                 (JObj (setdefault ''type'' (JStr ''device_state'')
                   (setdefault ''operator'' (JStr ''eq'')
                     (aput ''value'' v (apop ''equals'' t))))) d)
      | _ \<Rightarrow> d)"

fun add_type :: "json \<Rightarrow> json" where
  "add_type (JObj v) =
     (if alookup ''type'' v = None then JObj ((''type'', JStr ''device_state'') # v) else JObj v)"
| "add_type v = v"

definition migrate_list :: "string \<Rightarrow> obj \<Rightarrow> obj" where
  "migrate_list key d =
     (case oget key d of JArr values \<Rightarrow> aput key (JArr (map add_type values)) d | _ \<Rightarrow> d)"

fun migrate_legacy_rule :: "json \<Rightarrow> json" where
  "migrate_legacy_rule (JObj d) =
     JObj (migrate_list ''actions'' (migrate_list ''conditions'' (migrate_trigger d)))"
| "migrate_legacy_rule v = v"

subsection \<open>Authentication requests\<close>

definition validate_email :: "string \<Rightarrow> exn + string" where
  "validate_email value =
     (let normalized = lower (strip value) in
      if length (filter (\<lambda>c. c = CHR ''@'') normalized) \<noteq> 1 \<or>
         starts_with ''@'' normalized \<or> ends_with ''@'' normalized
      then Inl ValueError else Inr normalized)"

definition check_login :: "string \<Rightarrow> string \<Rightarrow> exn + string \<times> string" where
  "check_login email password =
     (if bounded 3 320 email \<and> bounded 1 256 password
      then ebind (validate_email email) (\<lambda>e. Inr (e, password))
      else Inl ValidationError)"

subsection \<open>Lemmas\<close>

lemma is_digit_digit_char: "n < 10 \<Longrightarrow> is_digit (digit_char n)"
  by (simp add: is_digit_def digit_char_def)

lemma digit_value_digit_char [simp]: "n < 10 \<Longrightarrow> digit_value (digit_char n) = n"
  by (simp add: digit_value_def digit_char_def)

lemma nat_of_two_digits [simp]: "n < 100 \<Longrightarrow> nat_of_digits (two_digits n) = n"
  by (simp add: nat_of_digits_def two_digits_def)

lemma two_digits_digits: "n < 100 \<Longrightarrow> c \<in> set (two_digits n) \<Longrightarrow> is_digit c"
  by (auto simp: two_digits_def is_digit_digit_char)

lemma two_digits_not_Nil [simp]: "two_digits n \<noteq> []"
  by (simp add: two_digits_def)

lemma colon_not_digit: "\<not> is_digit CHR '':''"
  by (simp add: is_digit_def ord_of_def)

lemma split_hh_mm:
  assumes "n < 100" and "m < 100"
  shows "split_on (CHR '':'') (two_digits n @ '':'' @ two_digits m) = [two_digits n, two_digits m]"
proof -
  have "CHR '':'' \<notin> set (two_digits n)" "CHR '':'' \<notin> set (two_digits m)"
    using assms two_digits_digits colon_not_digit by blast+
  then show ?thesis by (simp add: split_on_prefix split_on_no_sep)
qed

lemma valid_time_Inr:
  assumes "valid_time s = Inr t"
  obtains h m where "h \<le> 23" "m \<le> 59" "t = two_digits h @ '':'' @ two_digits m"
  using assms
  by (fastforce simp: valid_time_def Let_def not_less split: if_splits)

lemma valid_time_canonical:
  assumes "h \<le> 23" and "m \<le> 59"
  shows "valid_time (two_digits h @ '':'' @ two_digits m) = Inr (two_digits h @ '':'' @ two_digits m)"
proof -
  have "list_all is_digit (two_digits h)" "list_all is_digit (two_digits m)"
    using assms two_digits_digits [of h] two_digits_digits [of m] by (auto simp: list_all_iff)
  with assms split_hh_mm [of h m] show ?thesis
    by (simp add: valid_time_def del: append_Cons)
qed

end
