(* ===== verification/Security.thy ===== *)
theory Security
  imports Text
begin

text \<open>
  \<open>app/security.py\<close>: the permission matrix, the password length policy around the Argon2
  hasher, and the token codec around the JWT library. The hasher, the JWT library and
  SHA-256 are third-party code: they are parameters.
\<close>

datatype permission =
    HOUSE_READ | HOUSE_MANAGE | MEMBER_READ | MEMBER_MANAGE
  | DEVICE_READ | DEVICE_CONTROL | DEVICE_MANAGE | DEVICE_ONBOARD
  | SCENE_READ | SCENE_RUN | SCENE_MANAGE
  | AUTOMATION_READ | AUTOMATION_MANAGE | EVENT_READ | SECURITY_AUDIT_READ

fun permission_value :: "permission \<Rightarrow> string" where
  "permission_value HOUSE_READ = ''house.read''"
| "permission_value HOUSE_MANAGE = ''house.manage''"
| "permission_value MEMBER_READ = ''member.read''"
| "permission_value MEMBER_MANAGE = ''member.manage''"
| "permission_value DEVICE_READ = ''device.read''"
| "permission_value DEVICE_CONTROL = ''device.control''"
| "permission_value DEVICE_MANAGE = ''device.manage''"
| "permission_value DEVICE_ONBOARD = ''device.onboard''"
| "permission_value SCENE_READ = ''scene.read''"
| "permission_value SCENE_RUN = ''scene.run''"
| "permission_value SCENE_MANAGE = ''scene.manage''"
| "permission_value AUTOMATION_READ = ''automation.read''"
| "permission_value AUTOMATION_MANAGE = ''automation.manage''"
| "permission_value EVENT_READ = ''event.read''"
| "permission_value SECURITY_AUDIT_READ = ''security.audit.read''"

definition ALL_PERMISSIONS :: "permission list" where
  "ALL_PERMISSIONS =
    [HOUSE_READ, HOUSE_MANAGE, MEMBER_READ, MEMBER_MANAGE, DEVICE_READ, DEVICE_CONTROL,
     DEVICE_MANAGE, DEVICE_ONBOARD, SCENE_READ, SCENE_RUN, SCENE_MANAGE, AUTOMATION_READ,
     AUTOMATION_MANAGE, EVENT_READ, SECURITY_AUDIT_READ]"

text \<open>The roles the database admits (\<open>ck_membership_role\<close>).\<close>

datatype role = Owner | Installer | Technician | Resident

definition all_roles :: "role list" where
  "all_roles = [Owner, Installer, Technician, Resident]"

fun ROLE_PERMISSIONS :: "role \<Rightarrow> permission list" where
  "ROLE_PERMISSIONS Owner = ALL_PERMISSIONS"
| "ROLE_PERMISSIONS Installer =
    [HOUSE_READ, DEVICE_READ, DEVICE_CONTROL, DEVICE_MANAGE, DEVICE_ONBOARD,
     SCENE_READ, SCENE_RUN, SCENE_MANAGE, AUTOMATION_READ, AUTOMATION_MANAGE, EVENT_READ]"
| "ROLE_PERMISSIONS Technician =
    [HOUSE_READ, DEVICE_READ, DEVICE_CONTROL, DEVICE_MANAGE, EVENT_READ]"
| "ROLE_PERMISSIONS Resident =
    [HOUSE_READ, DEVICE_READ, DEVICE_CONTROL, SCENE_READ, SCENE_RUN]"

subsection \<open>Passwords\<close>

definition MIN_LENGTH :: nat where
  "MIN_LENGTH = 12"

definition MAX_LENGTH :: nat where
  "MAX_LENGTH = 256"

text \<open>
  \<open>hasher\<close> and \<open>verifier\<close> are the Argon2 operations; \<open>verifier\<close> is \<open>None\<close> where the library
  raises \<open>VerificationError\<close> or \<open>InvalidHashError\<close>.
\<close>

definition password_hash :: "(string \<Rightarrow> string) \<Rightarrow> string \<Rightarrow> exn + string" where
  "password_hash hasher password =
     (if \<not> (MIN_LENGTH \<le> py_length password \<and> py_length password \<le> MAX_LENGTH)
      then Inl ValueError else Inr (hasher password))"

definition password_verify ::
  "(string \<Rightarrow> string \<Rightarrow> bool option) \<Rightarrow> string \<Rightarrow> string \<Rightarrow> bool" where
  "password_verify verifier hashed password =
     (if py_length password > MAX_LENGTH then False
      else case verifier hashed password of Some ok \<Rightarrow> ok | None \<Rightarrow> False)"

subsection \<open>Tokens\<close>

datatype token_type = Access | Refresh

text \<open>Times are microseconds.\<close>

record claims =
  cl_subject :: string
  cl_type :: token_type
  cl_iat :: int
  cl_exp :: int
  cl_jti :: string

record codec =
  access_minutes :: int
  refresh_days :: int

definition token_lifetime :: "codec \<Rightarrow> token_type \<Rightarrow> int" where
  "token_lifetime c token_type =
     (if token_type = Access then access_minutes c * 60000000
      else refresh_days c * 86400000000)"

text \<open>
  \<open>encode\<close> is \<open>jwt.encode\<close> with the codec's secret and algorithm; \<open>issued\<close> is the clock
  and \<open>fresh\<close> the \<open>uuid4\<close> drawn.
\<close>

definition token_issue ::
  "codec \<Rightarrow> (claims \<Rightarrow> string) \<Rightarrow> string \<Rightarrow> token_type \<Rightarrow> int \<Rightarrow> string \<Rightarrow> string \<times> claims" where
  "token_issue c encode user token_type issued fresh =
     (let cl = \<lparr>cl_subject = user, cl_type = token_type, cl_iat = issued,
                cl_exp = issued + token_lifetime c token_type, cl_jti = fresh\<rparr>
      in (encode cl, cl))"

text \<open>
  \<open>decode\<close> is \<open>jwt.decode\<close>, which checks the signature, the expiry and the presence of the
  five claims; \<open>None\<close> is any \<open>PyJWTError\<close>.
\<close>

definition token_decode ::
  "(string \<Rightarrow> claims option) \<Rightarrow> string \<Rightarrow> token_type \<Rightarrow> exn + claims" where
  "token_decode decode token expected_type =
     (case decode token of
        None \<Rightarrow> Inl TokenError
      | Some cl \<Rightarrow> if cl_type cl \<noteq> expected_type then Inl TokenError else Inr cl)"

definition hash_jti :: "(string \<Rightarrow> string) \<Rightarrow> string \<Rightarrow> string" where
  "hash_jti sha256 j = sha256 j"

subsection \<open>Lemmas\<close>

lemma all_permissions_complete: "p \<in> set ALL_PERMISSIONS"
  by (cases p) (simp_all add: ALL_PERMISSIONS_def)

lemma permission_value_inj: "permission_value p = permission_value q \<Longrightarrow> p = q"
  by (cases p; cases q) simp_all

lemma token_decode_Inr:
  "token_decode decode token ty = Inr cl \<longleftrightarrow> decode token = Some cl \<and> cl_type cl = ty"
  by (auto simp: token_decode_def split: option.splits if_splits)

end
