(* ===== verification/Database.thy ===== *)
theory Database
  imports Interfaces Schemas Security
begin

text \<open>
  The persistent state: one record per table of \<open>app/models\<close>, the constraints the schema
  declares (primary and foreign keys, unique and partial unique indexes, checks), and the
  SQLAlchemy session that reads and writes them. A table is the list of its rows. A
  session sees its own uncommitted rows in \<open>work\<close>; \<open>commit\<close> checks the constraints and
  publishes them, \<open>rollback\<close> and the end of a request drop them. Timestamps are
  microseconds since the epoch, UTC; the server-generated \<open>created_at\<close> and \<open>updated_at\<close>
  columns of \<open>TimestampMixin\<close>, which no modelled decision reads, are left out.
\<close>

subsection \<open>Rows\<close>

record house_row =
  h_id :: string
  h_name :: string

record user_row =
  u_id :: string
  u_email :: string
  u_password_hash :: string
  u_is_active :: bool
  u_is_superuser :: bool

record membership_row =
  m_id :: string
  m_user_id :: string
  m_house_id :: string
  m_role :: role

record refresh_row =
  rs_jti_hash :: string
  rs_user_id :: string
  rs_expires_at :: int
  rs_revoked_at :: "int option"

record floor_row =
  f_id :: string
  f_house_id :: string
  f_name :: string
  f_order :: int

record room_row =
  r_id :: string
  r_floor_id :: string
  r_name :: string
  r_icon :: "string option"

record device_row =
  d_id :: string
  d_name :: string
  d_room_id :: string
  d_type :: string
  d_state :: obj
  d_capabilities :: "string list"
  d_metadata :: obj
  d_online :: bool

record scene_row =
  s_id :: string
  s_name :: string
  s_house_id :: string
  s_actions :: "device_action list"

record automation_row =
  a_id :: string
  a_name :: string
  a_house_id :: string
  a_enabled :: bool
  a_trigger :: trigger
  a_conditions :: "automation_condition list"
  a_actions :: "automation_action list"

record event_log_row =
  ev_id :: string
  ev_house_id :: "string option"
  ev_event_type :: string
  ev_entity_id :: "string option"
  ev_payload :: obj
  ev_correlation_id :: string

text \<open>\<open>ck_physical_status\<close> lists the statuses: the column is an enumeration.\<close>

datatype physical_status = Unprovisioned | Provisioning | Active | Inactive | Revoked

record physical_row =
  p_device_id :: string
  p_hardware_id :: string
  p_hardware_model :: string
  p_protocol_version :: string
  p_status :: physical_status
  p_claim_code_hash :: "string option"
  p_house_id :: "string option"
  p_bound_device_id :: "string option"

text \<open>\<open>ck_provisioning_status\<close>: only these three statuses are stored.\<close>

datatype session_status = S_discovered | S_cancelled | S_expired

record provisioning_row =
  ps_id :: string
  ps_house_id :: string
  ps_room_id :: string
  ps_device_id :: string
  ps_actor_id :: string
  ps_name :: string
  ps_status :: session_status
  ps_revision :: int
  ps_created_at :: int
  ps_expires_at :: int
  ps_challenge_hash :: string
  ps_token_hash :: string
  ps_create_key_hash :: string
  ps_request_hash :: string
  ps_cancel_key_hash :: "string option"
  ps_cancel_actor_id :: "string option"
  ps_cancel_revision :: "int option"

datatype command_status = Queued | Dispatched | Applied | Failed | Timed_out

datatype ack_status = Ack_accepted | Ack_applied | Ack_rejected | Ack_failed

datatype failure_code =
  Device_rejected | Device_failed | Publish_unconfirmed | Deadline_exceeded

record command_row =
  c_command_id :: string
  c_correlation_id :: string
  c_house_id :: string
  c_device_id :: string
  c_requested_by :: string
  c_idempotency_hash :: string
  c_requested_on :: bool
  c_status :: command_status
  c_ack_status :: "ack_status option"
  c_reported_on :: "bool option"
  c_failure_code :: "failure_code option"
  c_created_at :: int
  c_updated_at :: int
  c_expires_at :: int
  c_dispatch_started_at :: "int option"
  c_dispatched_at :: "int option"
  c_ack_received_at :: "int option"
  c_state_received_at :: "int option"
  c_completed_at :: "int option"

record control_row =
  k_command_id :: string
  k_execution_profile :: string
  k_authority_epoch :: string
  k_wire_payload :: string
  k_wire_sha256 :: string
  k_permit_binding_sha256 :: "string option"

record db =
  houses :: "house_row list"
  users :: "user_row list"
  memberships :: "membership_row list"
  refresh_sessions :: "refresh_row list"
  floors :: "floor_row list"
  rooms :: "room_row list"
  devices :: "device_row list"
  scenes :: "scene_row list"
  automations :: "automation_row list"
  event_logs :: "event_log_row list"
  physical_devices :: "physical_row list"
  provisioning_sessions :: "provisioning_row list"
  device_commands :: "command_row list"
  command_control :: "control_row list"

definition empty_db :: db where
  "empty_db = \<lparr>houses = [], users = [], memberships = [], refresh_sessions = [], floors = [],
     rooms = [], devices = [], scenes = [], automations = [], event_logs = [],
     physical_devices = [], provisioning_sessions = [], device_commands = [],
     command_control = []\<rparr>"

subsection \<open>Constraints\<close>

definition PENDING :: "command_status list" where
  "PENDING = [Queued, Dispatched]"

definition PROFILE :: string where
  "PROFILE = ''deadline-permit-v1''"

text \<open>Foreign keys: the referenced key is present; a null reference is allowed.\<close>

definition fk :: "('r \<Rightarrow> 'k) \<Rightarrow> ('t \<Rightarrow> 'k) \<Rightarrow> 't list \<Rightarrow> 'r list \<Rightarrow> bool" where
  "fk ref key targets rows \<longleftrightarrow> list_all (\<lambda>r. tget key (ref r) targets \<noteq> None) rows"

definition fk_null :: "('r \<Rightarrow> 'k option) \<Rightarrow> ('t \<Rightarrow> 'k) \<Rightarrow> 't list \<Rightarrow> 'r list \<Rightarrow> bool" where
  "fk_null ref key targets rows \<longleftrightarrow>
     list_all (\<lambda>r. case ref r of None \<Rightarrow> True | Some k \<Rightarrow> tget key k targets \<noteq> None) rows"

text \<open>Unique indexes ignore null values; a partial index ranges over the rows it selects.\<close>

definition unique_null :: "('r \<Rightarrow> 'k option) \<Rightarrow> 'r list \<Rightarrow> bool" where
  "unique_null f rows \<longleftrightarrow> distinct (map f (filter (\<lambda>r. f r \<noteq> None) rows))"

definition unique_where :: "('r \<Rightarrow> bool) \<Rightarrow> ('r \<Rightarrow> 'k) \<Rightarrow> 'r list \<Rightarrow> bool" where
  "unique_where p f rows \<longleftrightarrow> distinct (map f (filter p rows))"

definition pending :: "command_row \<Rightarrow> bool" where
  "pending r \<longleftrightarrow> c_status r \<in> set PENDING"

definition accounts_ok :: "db \<Rightarrow> bool" where
  "accounts_ok d \<longleftrightarrow>
     unique h_id (houses d) \<and>
     unique u_id (users d) \<and> unique u_email (users d) \<and>
     unique m_id (memberships d) \<and> unique (\<lambda>m. (m_user_id m, m_house_id m)) (memberships d) \<and>
     fk m_user_id u_id (users d) (memberships d) \<and> fk m_house_id h_id (houses d) (memberships d) \<and>
     unique rs_jti_hash (refresh_sessions d) \<and> fk rs_user_id u_id (users d) (refresh_sessions d)"

definition structure_ok :: "db \<Rightarrow> bool" where
  "structure_ok d \<longleftrightarrow>
     unique f_id (floors d) \<and> fk f_house_id h_id (houses d) (floors d) \<and>
     unique r_id (rooms d) \<and> fk r_floor_id f_id (floors d) (rooms d) \<and>
     unique d_id (devices d) \<and> fk d_room_id r_id (rooms d) (devices d) \<and>
     unique s_id (scenes d) \<and> fk s_house_id h_id (houses d) (scenes d) \<and>
     unique a_id (automations d) \<and> fk a_house_id h_id (houses d) (automations d) \<and>
     unique ev_id (event_logs d) \<and> fk_null ev_house_id h_id (houses d) (event_logs d)"

definition physical_row_ok :: "physical_row \<Rightarrow> bool" where
  "physical_row_ok p \<longleftrightarrow>
     p_protocol_version p = ''v1'' \<and>
     ((p_status p = Unprovisioned \<and> p_house_id p = None \<and> p_bound_device_id p = None \<and>
       p_claim_code_hash p \<noteq> None) \<or>
      (p_status p \<noteq> Unprovisioned \<and> p_house_id p \<noteq> None \<and>
       p_bound_device_id p = Some (p_device_id p) \<and> p_claim_code_hash p = None))"

definition physical_ok :: "db \<Rightarrow> bool" where
  "physical_ok d \<longleftrightarrow>
     unique p_device_id (physical_devices d) \<and> unique p_hardware_id (physical_devices d) \<and>
     unique_null p_bound_device_id (physical_devices d) \<and>
     fk_null p_house_id h_id (houses d) (physical_devices d) \<and>
     fk_null p_bound_device_id d_id (devices d) (physical_devices d) \<and>
     list_all physical_row_ok (physical_devices d)"

definition provisioning_row_ok :: "provisioning_row \<Rightarrow> bool" where
  "provisioning_row_ok r \<longleftrightarrow> 0 \<le> ps_revision r \<and> ps_created_at r < ps_expires_at r"

definition provisioning_ok :: "db \<Rightarrow> bool" where
  "provisioning_ok d \<longleftrightarrow>
     unique ps_id (provisioning_sessions d) \<and>
     unique (\<lambda>r. (ps_house_id r, ps_actor_id r, ps_create_key_hash r)) (provisioning_sessions d) \<and>
     unique_where (\<lambda>r. ps_status r = S_discovered) ps_device_id (provisioning_sessions d) \<and>
     fk ps_house_id h_id (houses d) (provisioning_sessions d) \<and>
     fk ps_room_id r_id (rooms d) (provisioning_sessions d) \<and>
     fk ps_device_id p_device_id (physical_devices d) (provisioning_sessions d) \<and>
     fk ps_actor_id u_id (users d) (provisioning_sessions d) \<and>
     fk_null ps_cancel_actor_id u_id (users d) (provisioning_sessions d) \<and>
     list_all provisioning_row_ok (provisioning_sessions d)"

definition command_row_ok :: "command_row \<Rightarrow> bool" where
  "command_row_ok r \<longleftrightarrow> c_created_at r < c_expires_at r"

definition control_row_ok :: "control_row \<Rightarrow> bool" where
  "control_row_ok r \<longleftrightarrow>
     py_length (k_authority_epoch r) = 36 \<and> k_execution_profile r = PROFILE \<and>
     py_length (k_wire_sha256 r) = 64 \<and> py_length (k_wire_payload r) \<le> 4096 \<and>
     opt_ok (\<lambda>b. py_length b = 64) (k_permit_binding_sha256 r)"

definition commands_ok :: "db \<Rightarrow> bool" where
  "commands_ok d \<longleftrightarrow>
     unique c_command_id (device_commands d) \<and> unique c_correlation_id (device_commands d) \<and>
     unique (\<lambda>r. (c_house_id r, c_requested_by r, c_idempotency_hash r)) (device_commands d) \<and>
     unique_where pending c_device_id (device_commands d) \<and>
     fk c_house_id h_id (houses d) (device_commands d) \<and>
     fk c_device_id d_id (devices d) (device_commands d) \<and>
     fk c_requested_by u_id (users d) (device_commands d) \<and>
     list_all command_row_ok (device_commands d) \<and>
     unique k_command_id (command_control d) \<and>
     unique_null k_permit_binding_sha256 (command_control d) \<and>
     fk k_command_id c_command_id (device_commands d) (command_control d) \<and>
     list_all control_row_ok (command_control d)"

definition db_ok :: "db \<Rightarrow> bool" where
  "db_ok d \<longleftrightarrow> accounts_ok d \<and> structure_ok d \<and> physical_ok d \<and> provisioning_ok d \<and> commands_ok d"

lemmas db_constraint_defs = db_ok_def accounts_ok_def structure_ok_def physical_ok_def
  provisioning_ok_def commands_ok_def

subsection \<open>Sessions\<close>

text \<open>
  \<open>drawn\<close> counts the random identifiers taken from \<open>uuid4\<close> and \<open>token_urlsafe\<close>. Theories
  that need more process state extend this record.
\<close>

record world =
  committed :: db
  work :: db
  drawn :: nat

definition commit :: "('z world_scheme, unit) op" where
  "commit = (\<lambda>w. if db_ok (work w) then (Inr (), w\<lparr>committed := work w\<rparr>) else (Inl IntegrityError, w))"

definition flush :: "('z world_scheme, unit) op" where
  "flush = (\<lambda>w. if db_ok (work w) then (Inr (), w) else (Inl IntegrityError, w))"

definition rollback :: "('z world_scheme, unit) op" where
  "rollback = modify (\<lambda>w. w\<lparr>work := committed w\<rparr>)"

text \<open>A write to the session's view of one table, and a select on it.\<close>

definition store :: "(db \<Rightarrow> db) \<Rightarrow> ('z world_scheme, unit) op" where
  "store f = modify (\<lambda>w. w\<lparr>work := f (work w)\<rparr>)"

definition query :: "(db \<Rightarrow> 'a) \<Rightarrow> ('z world_scheme, 'a) op" where
  "query f = gets (\<lambda>w. f (work w))"

text \<open>
  The commit of the repositories: a constraint violation rolls back and becomes a
  \<open>ConflictError\<close>.
\<close>

definition save :: "('z world_scheme, unit) op" where
  "save = handle commit (\<lambda>e. andthen rollback (raise (if e = IntegrityError then ConflictError else e)))"

text \<open>
  \<open>atomic\<close>: run the body and commit once; any exception rolls back, a constraint violation
  is reported as a \<open>ConflictError\<close>.
\<close>

definition atomic :: "('z world_scheme, 'a) op \<Rightarrow> ('z world_scheme, 'a) op" where
  "atomic body =
     handle (bnd body (\<lambda>result. andthen commit (ret result)))
       (\<lambda>e. andthen rollback (raise (if e = IntegrityError then ConflictError else e)))"

text \<open>
  \<open>with factory() as session\<close>: a request works on the committed state and drops what it
  did not commit.
\<close>

definition in_session :: "('z world_scheme, 'a) op \<Rightarrow> ('z world_scheme, 'a) op" where
  "in_session body = (\<lambda>w. case body (w\<lparr>work := committed w\<rparr>) of (r, w') \<Rightarrow> (r, w'\<lparr>work := committed w'\<rparr>))"

text \<open>
  A session opened and closed while another one is in use: it sees the committed state, and
  the uncommitted rows of the outer session stay as they are.
\<close>

definition nested :: "('z world_scheme, 'a) op \<Rightarrow> ('z world_scheme, 'a) op" where
  "nested body = (\<lambda>w. case body (w\<lparr>work := committed w\<rparr>) of (r, w') \<Rightarrow> (r, w'\<lparr>work := work w\<rparr>))"

text \<open>The next random identifier of the supply \<open>fresh\<close>.\<close>

definition draw :: "(nat \<Rightarrow> 'i) \<Rightarrow> ('z world_scheme, 'i) op" where
  "draw fresh = (\<lambda>w. (Inr (fresh (drawn w)), w\<lparr>drawn := Suc (drawn w)\<rparr>))"

subsection \<open>Facts about sessions\<close>

lemma wp_commit [wp_simps]: "wp commit Q E =
    (\<lambda>w. if db_ok (work w) then Q () (w\<lparr>committed := work w\<rparr>) else E IntegrityError w)"
  and wp_flush [wp_simps]: "wp flush Q E =
    (\<lambda>w. if db_ok (work w) then Q () w else E IntegrityError w)"
  by (auto simp: fun_eq_iff wp_def commit_def flush_def)

lemma wp_rollback [wp_simps]: "wp rollback Q E = (\<lambda>w. Q () (w\<lparr>work := committed w\<rparr>))"
  and wp_store [wp_simps]: "wp (store f) Q E = (\<lambda>w. Q () (w\<lparr>work := f (work w)\<rparr>))"
  and wp_query [wp_simps]: "wp (query q) R E = (\<lambda>w. R (q (work w)) w)"
  and wp_draw [wp_simps]: "wp (draw g) T E = (\<lambda>w. T (g (drawn w)) (w\<lparr>drawn := Suc (drawn w)\<rparr>))"
  by (auto simp: fun_eq_iff rollback_def store_def query_def draw_def wp_def op_defs)

lemma wp_save [wp_simps]: "wp save Q E =
    (\<lambda>w. if db_ok (work w) then Q () (w\<lparr>committed := work w\<rparr>)
     else E ConflictError (w\<lparr>work := committed w\<rparr>))"
  by (auto simp: fun_eq_iff save_def wp_simps)

lemma wp_atomic [wp_simps]: "wp (atomic body) Q E =
    wp body (\<lambda>x v. if db_ok (work v) then Q x (v\<lparr>committed := work v\<rparr>)
        else E ConflictError (v\<lparr>work := committed v\<rparr>))
      (\<lambda>e v. E (if e = IntegrityError then ConflictError else e) (v\<lparr>work := committed v\<rparr>))"
  by (simp add: atomic_def wp_simps)

lemma in_session_result:
  "in_session body w = (r, w') \<Longrightarrow>
    \<exists>v. body (w\<lparr>work := committed w\<rparr>) = (r, v) \<and> w' = v\<lparr>work := committed v\<rparr>"
  by (auto simp: in_session_def split: prod.splits)

text \<open>
  Every committed state satisfies the schema: nothing but \<open>commit\<close> writes \<open>committed\<close>.
\<close>

definition sound :: "'z world_scheme \<Rightarrow> bool" where
  "sound w \<longleftrightarrow> db_ok (committed w)"

lemma sound_more [simp]: "sound (w\<lparr>work := d\<rparr>) = sound w" "sound (w\<lparr>drawn := n\<rparr>) = sound w"
  by (simp_all add: sound_def)

lemma pres_sound_commit [pres]: "preserves sound commit"
  and pres_sound_flush [pres]: "preserves sound flush"
  and pres_sound_rollback [pres]: "preserves sound rollback"
  and pres_sound_store [pres]: "preserves sound (store f)"
  and pres_sound_query [pres]: "preserves sound (query g)"
  and pres_sound_draw [pres]: "preserves sound (draw h)"
  by (auto simp: preserves_def commit_def flush_def rollback_def store_def query_def draw_def
      sound_def op_defs)

lemma pres_sound_save [pres]: "preserves sound save"
  unfolding save_def by (intro pres)

lemma pres_sound_atomic [pres]: "preserves sound m \<Longrightarrow> preserves sound (atomic m)"
  unfolding atomic_def by (intro pres)

lemma pres_sound_in_session [pres]: "preserves sound m \<Longrightarrow> preserves sound (in_session m)"
  by (auto simp: preserves_def in_session_def split: prod.splits)
    (metis snd_conv sound_more(1))

text \<open>
  An invariant of the committed database that every commit of an operation respects: it is
  enough that each write inside the operation keeps it on \<open>work\<close>.
\<close>

definition both :: "(db \<Rightarrow> bool) \<Rightarrow> 'z world_scheme \<Rightarrow> bool" where
  "both P w \<longleftrightarrow> P (committed w) \<and> P (work w)"

lemma pres_both_commit [pres]: "preserves (both P) commit"
  and pres_both_flush [pres]: "preserves (both P) flush"
  and pres_both_rollback [pres]: "preserves (both P) rollback"
  and pres_both_query [pres]: "preserves (both P) (query g)"
  and pres_both_draw [pres]: "preserves (both P) (draw h)"
  by (auto simp: preserves_def commit_def flush_def rollback_def query_def draw_def
      both_def op_defs)

lemma pres_both_store [pres]: "(\<And>d. P d \<Longrightarrow> P (f d)) \<Longrightarrow> preserves (both P) (store f)"
  by (auto simp: preserves_def store_def both_def op_defs)

lemma pres_both_save [pres]: "preserves (both P) save"
  unfolding save_def by (intro pres)

lemma pres_both_atomic [pres]: "preserves (both P) m \<Longrightarrow> preserves (both P) (atomic m)"
  unfolding atomic_def by (intro pres)

lemma both_more [simp]: "both P (w\<lparr>work := d\<rparr>) \<longleftrightarrow> P (committed w) \<and> P d"
  by (simp add: both_def)

lemma pres_both_in_session [pres]: "preserves (both P) m \<Longrightarrow> preserves (both P) (in_session m)"
proof (rule preservesI)
  fix w :: "'a world_scheme"
  assume m: "preserves (both P) m" and "both P w"
  then have "both P (w\<lparr>work := committed w\<rparr>)" by (simp add: both_def)
  from preservesD [OF m this] show "both P (snd (in_session m w))"
    by (cases "m (w\<lparr>work := committed w\<rparr>)") (simp add: in_session_def both_def)
qed

lemma pres_both_nested [pres]: "preserves (both P) m \<Longrightarrow> preserves (both P) (nested m)"
proof (rule preservesI)
  fix w :: "'a world_scheme"
  assume m: "preserves (both P) m" and P: "both P w"
  then have "both P (w\<lparr>work := committed w\<rparr>)" by (simp add: both_def)
  from preservesD [OF m this] P show "both P (snd (nested m w))"
    by (cases "m (w\<lparr>work := committed w\<rparr>)") (simp add: nested_def both_def)
qed

text \<open>
  \<open>published d\<close>: the committed state is \<open>d\<close>. Everything except a commit keeps it, so an
  \<open>atomic\<close> body that raises has changed nothing.
\<close>

definition published :: "db \<Rightarrow> 'z world_scheme \<Rightarrow> bool" where
  "published d w \<longleftrightarrow> committed w = d"

lemma pres_published_flush [pres]: "preserves (published d) flush"
  and pres_published_rollback [pres]: "preserves (published d) rollback"
  and pres_published_store [pres]: "preserves (published d) (store f)"
  and pres_published_draw [pres]: "preserves (published d) (draw h)"
  by (auto simp: preserves_def flush_def rollback_def store_def draw_def published_def op_defs)

lemma atomic_error:
  assumes quiet: "\<And>d. preserves (published d) body" and "atomic body w = (Inl e, w')"
  shows "committed w' = committed w \<and> work w' = committed w"
proof -
  have same: "committed (snd (body w)) = committed w"
    using preservesD [OF quiet [of "committed w"], of w] by (simp add: published_def)
  have "wp (atomic body) (\<lambda>_ _. True) (\<lambda>_ v. committed v = committed w \<and> work v = committed w) w"
    using same by (auto simp: wp_atomic wp_def split: prod.splits sum.splits)
  from wp_Inl [OF this assms(2)] show ?thesis .
qed

lemma atomic_Inr:
  "atomic body w = (Inr x, w') \<longleftrightarrow>
    (\<exists>v. body w = (Inr x, v) \<and> db_ok (work v) \<and> w' = v\<lparr>committed := work v\<rparr>)"
  by (auto simp: atomic_def op_defs commit_def rollback_def split: prod.splits sum.splits if_splits)

subsection \<open>Tables as instances of the table interface\<close>

interpretation t_houses: row_table houses houses_update h_id
  by unfold_locales simp

interpretation t_users: row_table users users_update u_id
  by unfold_locales simp

interpretation t_memberships: row_table memberships memberships_update m_id
  by unfold_locales simp

interpretation t_refresh: row_table refresh_sessions refresh_sessions_update rs_jti_hash
  by unfold_locales simp

interpretation t_devices: row_table devices devices_update d_id
  by unfold_locales simp

interpretation t_physical: row_table physical_devices physical_devices_update p_device_id
  by unfold_locales simp

interpretation t_provisioning: row_table provisioning_sessions provisioning_sessions_update ps_id
  by unfold_locales simp

interpretation t_commands: row_table device_commands device_commands_update c_command_id
  by unfold_locales simp

interpretation t_control: row_table command_control command_control_update k_command_id
  by unfold_locales simp

end
