(* ===== verification/Repositories.thy ===== *)
theory Repositories
  imports Database
begin

text \<open>
  \<open>app/repositories\<close>: the generic repository with its commit discipline, the queries that
  resolve an entity to its house, and the physical-device, command and authentication
  queries. Row locks (\<open>with_for_update\<close>) serialise concurrent requests and have no effect
  inside the atomic handlers modelled here.
\<close>

subsection \<open>The generic repository\<close>

record 'r repo =
  repo_rows :: "db \<Rightarrow> 'r list"
  repo_set :: "('r list \<Rightarrow> 'r list) \<Rightarrow> db \<Rightarrow> db"
  repo_key :: "'r \<Rightarrow> string"
  repo_cascade :: "string \<Rightarrow> db \<Rightarrow> db"

definition repo_list :: "'r repo \<Rightarrow> ('z world_scheme, 'r list) op" where
  "repo_list R = query (repo_rows R)"

definition repo_find :: "'r repo \<Rightarrow> string \<Rightarrow> ('z world_scheme, 'r option) op" where
  "repo_find R entity_id = query (\<lambda>d. tget (repo_key R) entity_id (repo_rows R d))"

definition found :: "'a option \<Rightarrow> ('s, 'a) op" where
  "found x = (case x of None \<Rightarrow> raise EntityNotFoundError | Some y \<Rightarrow> ret y)"

definition repo_get :: "'r repo \<Rightarrow> string \<Rightarrow> ('z world_scheme, 'r) op" where
  "repo_get R entity_id = bnd (repo_find R entity_id) found"

definition repo_create :: "'r repo \<Rightarrow> 'r \<Rightarrow> ('z world_scheme, 'r) op" where
  "repo_create R entity =
     andthen (store (repo_set R (\<lambda>rows. rows @ [entity])))
     (andthen save
     (ret entity))"

definition repo_update :: "'r repo \<Rightarrow> string \<Rightarrow> ('r \<Rightarrow> 'r) \<Rightarrow> ('z world_scheme, 'r) op" where
  "repo_update R entity_id values =
     bnd (repo_get R entity_id) (\<lambda>entity.
     andthen (store (repo_set R (tput (repo_key R) (values entity))))
     (andthen save
     (ret (values entity))))"

definition repo_delete :: "'r repo \<Rightarrow> string \<Rightarrow> ('z world_scheme, unit) op" where
  "repo_delete R entity_id =
     bnd (repo_get R entity_id) (\<lambda>_.
     andthen (store (repo_cascade R entity_id)) save)"

definition repo_exists :: "'r repo \<Rightarrow> string \<Rightarrow> ('z world_scheme, bool) op" where
  "repo_exists R entity_id = bnd (repo_find R entity_id) (\<lambda>x. ret (x \<noteq> None))"

subsection \<open>Cascading deletes\<close>

text \<open>
  The ORM relationships delete the children of a house, floor or room; the foreign key of
  the event log is set to null. References with \<open>RESTRICT\<close> (memberships, physical devices,
  commands, provisioning sessions) make the commit fail instead.
\<close>

definition delete_device_rows :: "(device_row \<Rightarrow> bool) \<Rightarrow> db \<Rightarrow> db" where
  "delete_device_rows p d = d\<lparr>devices := tdel p (devices d)\<rparr>"

definition delete_room_rows :: "(room_row \<Rightarrow> bool) \<Rightarrow> db \<Rightarrow> db" where
  "delete_room_rows p d =
     (let gone = map r_id (filter p (rooms d)) in
      (delete_device_rows (\<lambda>x. d_room_id x \<in> set gone) d)\<lparr>rooms := tdel p (rooms d)\<rparr>)"

definition delete_floor_rows :: "(floor_row \<Rightarrow> bool) \<Rightarrow> db \<Rightarrow> db" where
  "delete_floor_rows p d =
     (let gone = map f_id (filter p (floors d)) in
      (delete_room_rows (\<lambda>x. r_floor_id x \<in> set gone) d)\<lparr>floors := tdel p (floors d)\<rparr>)"

definition delete_house_row :: "string \<Rightarrow> db \<Rightarrow> db" where
  "delete_house_row h d =
     (let d' = delete_floor_rows (\<lambda>x. f_house_id x = h) d in
      d'\<lparr>scenes := tdel (\<lambda>x. s_house_id x = h) (scenes d'),
         automations := tdel (\<lambda>x. a_house_id x = h) (automations d'),
         event_logs := map (\<lambda>x. if ev_house_id x = Some h then x\<lparr>ev_house_id := None\<rparr> else x)
                         (event_logs d'),
         houses := tdel (\<lambda>x. h_id x = h) (houses d')\<rparr>)"

definition house_repo :: "house_row repo" where
  "house_repo = \<lparr>repo_rows = houses, repo_set = houses_update, repo_key = h_id,
     repo_cascade = delete_house_row\<rparr>"

definition floor_repo :: "floor_row repo" where
  "floor_repo = \<lparr>repo_rows = floors, repo_set = floors_update, repo_key = f_id,
     repo_cascade = (\<lambda>k. delete_floor_rows (\<lambda>x. f_id x = k))\<rparr>"

definition room_repo :: "room_row repo" where
  "room_repo = \<lparr>repo_rows = rooms, repo_set = rooms_update, repo_key = r_id,
     repo_cascade = (\<lambda>k. delete_room_rows (\<lambda>x. r_id x = k))\<rparr>"

definition device_repo :: "device_row repo" where
  "device_repo = \<lparr>repo_rows = devices, repo_set = devices_update, repo_key = d_id,
     repo_cascade = (\<lambda>k. delete_device_rows (\<lambda>x. d_id x = k))\<rparr>"

definition scene_repo :: "scene_row repo" where
  "scene_repo = \<lparr>repo_rows = scenes, repo_set = scenes_update, repo_key = s_id,
     repo_cascade = (\<lambda>k d. d\<lparr>scenes := tdel (\<lambda>x. s_id x = k) (scenes d)\<rparr>)\<rparr>"

definition automation_repo :: "automation_row repo" where
  "automation_repo = \<lparr>repo_rows = automations, repo_set = automations_update, repo_key = a_id,
     repo_cascade = (\<lambda>k d. d\<lparr>automations := tdel (\<lambda>x. a_id x = k) (automations d)\<rparr>)\<rparr>"

definition user_repo :: "user_row repo" where
  "user_repo = \<lparr>repo_rows = users, repo_set = users_update, repo_key = u_id,
     repo_cascade = (\<lambda>k d. d\<lparr>users := tdel (\<lambda>x. u_id x = k) (users d)\<rparr>)\<rparr>"

definition membership_repo :: "membership_row repo" where
  "membership_repo = \<lparr>repo_rows = memberships, repo_set = memberships_update, repo_key = m_id,
     repo_cascade = (\<lambda>k d. d\<lparr>memberships := tdel (\<lambda>x. m_id x = k) (memberships d)\<rparr>)\<rparr>"

definition refresh_repo :: "refresh_row repo" where
  "refresh_repo = \<lparr>repo_rows = refresh_sessions, repo_set = refresh_sessions_update,
     repo_key = rs_jti_hash,
     repo_cascade = (\<lambda>k d. d\<lparr>refresh_sessions := tdel (\<lambda>x. rs_jti_hash x = k) (refresh_sessions d)\<rparr>)\<rparr>"

definition event_log_repo :: "event_log_row repo" where
  "event_log_repo = \<lparr>repo_rows = event_logs, repo_set = event_logs_update, repo_key = ev_id,
     repo_cascade = (\<lambda>k d. d\<lparr>event_logs := tdel (\<lambda>x. ev_id x = k) (event_logs d)\<rparr>)\<rparr>"

lemmas repo_defs = house_repo_def floor_repo_def room_repo_def device_repo_def scene_repo_def
  automation_repo_def user_repo_def membership_repo_def refresh_repo_def event_log_repo_def

subsection \<open>From an entity to its house\<close>

definition floor_house :: "db \<Rightarrow> string \<Rightarrow> string option" where
  "floor_house d k = map_option f_house_id (tget f_id k (floors d))"

definition room_house :: "db \<Rightarrow> string \<Rightarrow> string option" where
  "room_house d k = Option.bind (tget r_id k (rooms d)) (\<lambda>r. floor_house d (r_floor_id r))"

definition location_house :: "db \<Rightarrow> string \<Rightarrow> string option" where
  "location_house d k = Option.bind (tget d_id k (devices d)) (\<lambda>x. room_house d (d_room_id x))"

text \<open>The house of the physical binding of a device, the authority where there is one.\<close>

definition bound_house :: "db \<Rightarrow> string \<Rightarrow> string option" where
  "bound_house d k =
     Option.bind (tfind (\<lambda>p. p_bound_device_id p = Some k) (physical_devices d)) p_house_id"

definition device_house :: "db \<Rightarrow> string \<Rightarrow> string option" where
  "device_house d k = (case bound_house d k of Some h \<Rightarrow> Some h | None \<Rightarrow> location_house d k)"

definition device_house_id :: "string \<Rightarrow> ('z world_scheme, string) op" where
  "device_house_id device_id = bnd (query (\<lambda>d. device_house d device_id)) found"

definition room_house_id :: "string \<Rightarrow> ('z world_scheme, string) op" where
  "room_house_id room_id = bnd (query (\<lambda>d. room_house d room_id)) found"

datatype structure_kind = K_house | K_floor | K_room | K_device

fun structure_house_of :: "db \<Rightarrow> structure_kind \<Rightarrow> string \<Rightarrow> string option" where
  "structure_house_of d K_house k = map_option h_id (tget h_id k (houses d))"
| "structure_house_of d K_floor k = floor_house d k"
| "structure_house_of d K_room k = room_house d k"
| "structure_house_of d K_device k = location_house d k"

definition structure_house :: "structure_kind \<Rightarrow> string \<Rightarrow> ('z world_scheme, string) op" where
  "structure_house kind entity_id = bnd (query (\<lambda>d. structure_house_of d kind entity_id)) found"

subsection \<open>Device queries\<close>

definition device_filter ::
  "string option \<Rightarrow> string option \<Rightarrow> bool option \<Rightarrow> device_row \<Rightarrow> bool" where
  "device_filter room_id device_type online x \<longleftrightarrow>
     opt_ok (\<lambda>r. d_room_id x = r) room_id \<and>
     opt_ok (\<lambda>t. d_type x = t) device_type \<and>
     opt_ok (\<lambda>b. d_online x = b) online"

definition device_filtered ::
  "string option \<Rightarrow> string option \<Rightarrow> string option \<Rightarrow> bool option \<Rightarrow>
   ('z world_scheme, device_row list) op" where
  "device_filtered house_id room_id device_type online =
     query (\<lambda>d. filter (\<lambda>x.
         opt_ok (\<lambda>h. location_house d (d_id x) \<noteq> None \<and> device_house d (d_id x) = Some h) house_id \<and>
         device_filter room_id device_type online x) (devices d))"

definition device_filtered_for_houses ::
  "string list \<Rightarrow> string option \<Rightarrow> string option \<Rightarrow> bool option \<Rightarrow>
   ('z world_scheme, device_row list) op" where
  "device_filtered_for_houses house_ids room_id device_type online =
     (if house_ids = [] then ret []
      else query (\<lambda>d. filter (\<lambda>x.
         location_house d (d_id x) \<noteq> None \<and>
         (case device_house d (d_id x) of None \<Rightarrow> False | Some h \<Rightarrow> h \<in> set house_ids) \<and>
         device_filter room_id device_type online x) (devices d)))"

definition automations_enabled_for_house :: "string \<Rightarrow> ('z world_scheme, automation_row list) op" where
  "automations_enabled_for_house house_id =
     query (\<lambda>d. filter (\<lambda>a. a_house_id a = house_id \<and> a_enabled a) (automations d))"

text \<open>The \<open>for_houses\<close> queries: no houses, no rows.\<close>

definition for_houses :: "(db \<Rightarrow> 'r \<Rightarrow> string option) \<Rightarrow> (db \<Rightarrow> 'r list) \<Rightarrow> string list \<Rightarrow>
    ('z world_scheme, 'r list) op" where
  "for_houses house_of rows house_ids =
     (if house_ids = [] then ret []
      else query (\<lambda>d. filter (\<lambda>x. case house_of d x of None \<Rightarrow> False | Some h \<Rightarrow> h \<in> set house_ids)
                        (rows d)))"

definition houses_for_ids :: "string list \<Rightarrow> ('z world_scheme, house_row list) op" where
  "houses_for_ids = for_houses (\<lambda>_ x. Some (h_id x)) houses"

definition floors_for_houses :: "string list \<Rightarrow> ('z world_scheme, floor_row list) op" where
  "floors_for_houses = for_houses (\<lambda>_ x. Some (f_house_id x)) floors"

definition rooms_for_houses :: "string list \<Rightarrow> ('z world_scheme, room_row list) op" where
  "rooms_for_houses = for_houses (\<lambda>d x. floor_house d (r_floor_id x)) rooms"

definition scenes_for_houses :: "string list \<Rightarrow> ('z world_scheme, scene_row list) op" where
  "scenes_for_houses = for_houses (\<lambda>_ x. Some (s_house_id x)) scenes"

definition automations_for_houses :: "string list \<Rightarrow> ('z world_scheme, automation_row list) op" where
  "automations_for_houses = for_houses (\<lambda>_ x. Some (a_house_id x)) automations"

subsection \<open>Houses and memberships\<close>

definition create_with_owner ::
  "(nat \<Rightarrow> string) \<Rightarrow> house_row \<Rightarrow> string \<Rightarrow> ('z world_scheme, house_row) op" where
  "create_with_owner fresh house user_id =
     bnd (draw fresh) (\<lambda>mid.
     handle
       (andthen (store (houses_update (\<lambda>t. t @ [house])))
       (andthen flush
       (andthen (store (memberships_update (\<lambda>t. t @
          [\<lparr>m_id = mid, m_user_id = user_id, m_house_id = h_id house, m_role = Owner\<rparr>])))
       (andthen commit
       (ret house)))))
       (\<lambda>e. if e = IntegrityError then andthen rollback (raise ConflictError) else raise e))"

definition delete_with_memberships :: "string \<Rightarrow> ('z world_scheme, unit) op" where
  "delete_with_memberships house_id =
     bnd (repo_get house_repo house_id) (\<lambda>_.
     handle
       (andthen (store (memberships_update (tdel (\<lambda>m. m_house_id m = house_id))))
       (andthen (store (delete_house_row house_id))
       commit))
       (\<lambda>e. if e = IntegrityError then andthen rollback (raise ConflictError) else raise e))"

definition user_by_email :: "string \<Rightarrow> ('z world_scheme, user_row option) op" where
  "user_by_email email = query (\<lambda>d. tfind (\<lambda>u. u_email u = lower (strip email)) (users d))"

definition membership_in :: "db \<Rightarrow> string \<Rightarrow> string \<Rightarrow> membership_row option" where
  "membership_in d user_id house_id =
     tfind (\<lambda>m. m_user_id m = user_id \<and> m_house_id m = house_id) (memberships d)"

definition membership_for_house :: "string \<Rightarrow> string \<Rightarrow> ('z world_scheme, membership_row option) op" where
  "membership_for_house user_id house_id = query (\<lambda>d. membership_in d user_id house_id)"

definition membership_house_ids :: "string \<Rightarrow> role list \<Rightarrow> ('z world_scheme, string list) op" where
  "membership_house_ids user_id permission_roles =
     query (\<lambda>d. map m_house_id
       (filter (\<lambda>m. m_user_id m = user_id \<and> m_role m \<in> set permission_roles) (memberships d)))"

definition membership_by_user_house ::
  "string \<Rightarrow> string \<Rightarrow> ('z world_scheme, membership_row) op" where
  "membership_by_user_house user_id house_id = bnd (membership_for_house user_id house_id) found"

definition for_house_members :: "string \<Rightarrow> ('z world_scheme, membership_row list) op" where
  "for_house_members house_id = query (\<lambda>d. filter (\<lambda>m. m_house_id m = house_id) (memberships d))"

definition owners_of :: "db \<Rightarrow> string \<Rightarrow> membership_row list" where
  "owners_of d house_id = filter (\<lambda>m. m_house_id m = house_id \<and> m_role m = Owner) (memberships d)"

definition lock_owners :: "string \<Rightarrow> ('z world_scheme, membership_row list) op" where
  "lock_owners house_id = query (\<lambda>d. owners_of d house_id)"

definition set_role :: "membership_row \<Rightarrow> role \<Rightarrow> ('z world_scheme, membership_row) op" where
  "set_role membership role =
     andthen (store (memberships_update (tput m_id (membership\<lparr>m_role := role\<rparr>))))
     (andthen save
     (ret (membership\<lparr>m_role := role\<rparr>)))"

text \<open>\<open>now\<close> is \<open>datetime.now(UTC)\<close> at the call.\<close>

definition refresh_active :: "int \<Rightarrow> string \<Rightarrow> ('z world_scheme, refresh_row option) op" where
  "refresh_active now jti_hash =
     query (\<lambda>d. case tget rs_jti_hash jti_hash (refresh_sessions d) of
         None \<Rightarrow> None
       | Some item \<Rightarrow>
           if rs_revoked_at item \<noteq> None \<or> rs_expires_at item \<le> now then None else Some item)"

definition refresh_revoke :: "int \<Rightarrow> refresh_row \<Rightarrow> ('z world_scheme, unit) op" where
  "refresh_revoke now item =
     andthen (store (refresh_sessions_update (tput rs_jti_hash (item\<lparr>rs_revoked_at := Some now\<rparr>))))
     save"

subsection \<open>Event log queries\<close>

definition security_types :: "string list" where
  "security_types = [''auth_login_succeeded'', ''auth_login_failed'', ''auth_refresh_succeeded'',
     ''auth_refresh_failed'', ''auth_logout'', ''authorization_denied'']"

text \<open>
  Rows are appended as they are created, so \<open>created_at.desc()\<close> is the reversed table.
\<close>

definition event_log_filtered_for_houses ::
  "string list \<Rightarrow> string option \<Rightarrow> nat \<Rightarrow> string list \<Rightarrow> ('z world_scheme, event_log_row list) op" where
  "event_log_filtered_for_houses house_ids event_type limit audit_house_ids =
     (if house_ids = [] then ret []
      else query (\<lambda>d. take limit (rev (filter (\<lambda>x.
         (case ev_house_id x of None \<Rightarrow> False | Some h \<Rightarrow> h \<in> set house_ids) \<and>
         (case event_type of
            None \<Rightarrow> ev_event_type x \<notin> set security_types \<or>
              (case ev_house_id x of None \<Rightarrow> False | Some h \<Rightarrow> h \<in> set audit_house_ids)
          | Some t \<Rightarrow> ev_event_type x = t)) (event_logs d)))))"

subsection \<open>Physical devices\<close>

definition by_hardware :: "string \<Rightarrow> ('z world_scheme, physical_row option) op" where
  "by_hardware hardware_id =
     query (\<lambda>d. tfind (\<lambda>p. p_hardware_id p = hardware_id) (physical_devices d))"

definition by_device :: "string \<Rightarrow> ('z world_scheme, physical_row option) op" where
  "by_device device_id = query (\<lambda>d. tget p_device_id device_id (physical_devices d))"

definition physical_for_house :: "string \<Rightarrow> string \<Rightarrow> ('z world_scheme, physical_row) op" where
  "physical_for_house house_id device_id =
     bnd (by_device device_id) (\<lambda>item.
     case item of
       None \<Rightarrow> raise EntityNotFoundError
     | Some p \<Rightarrow> if p_house_id p \<noteq> Some house_id then raise EntityNotFoundError else ret p)"

definition list_for_house :: "string \<Rightarrow> ('z world_scheme, physical_row list) op" where
  "list_for_house house_id =
     query (\<lambda>d. filter (\<lambda>p. p_house_id p = Some house_id) (physical_devices d))"

definition add_inventory :: "physical_row \<Rightarrow> ('z world_scheme, unit) op" where
  "add_inventory values =
     andthen (store (physical_devices_update (\<lambda>t. t @ [values]))) flush"

definition claimable :: "string \<Rightarrow> physical_row \<Rightarrow> bool" where
  "claimable device_id p \<longleftrightarrow>
     p_device_id p = device_id \<and> p_status p = Unprovisioned \<and> p_house_id p = None"

definition bind_to_house :: "string \<Rightarrow> physical_row \<Rightarrow> physical_row" where
  "bind_to_house house_id p =
     p\<lparr>p_house_id := Some house_id, p_bound_device_id := Some (p_device_id p),
       p_claim_code_hash := None, p_status := Provisioning\<rparr>"

text \<open>A conditional update: the row count is the number of rows that match.\<close>

definition update_where :: "('r \<Rightarrow> bool) \<Rightarrow> ('r \<Rightarrow> 'r) \<Rightarrow> 'r list \<Rightarrow> 'r list" where
  "update_where p f rows = map (\<lambda>r. if p r then f r else r) rows"

definition rowcount :: "('r \<Rightarrow> bool) \<Rightarrow> 'r list \<Rightarrow> nat" where
  "rowcount p rows = length (filter p rows)"

definition physical_claim :: "physical_row \<Rightarrow> string \<Rightarrow> ('z world_scheme, unit) op" where
  "physical_claim item house_id =
     bnd (query (\<lambda>d. rowcount (claimable (p_device_id item)) (physical_devices d))) (\<lambda>n.
     andthen (store (physical_devices_update
       (update_where (claimable (p_device_id item)) (bind_to_house house_id))))
     (reject (n \<noteq> 1) ConflictError))"

definition add_device :: "device_row \<Rightarrow> ('z world_scheme, unit) op" where
  "add_device values = andthen (store (devices_update (\<lambda>t. t @ [values]))) flush"

definition physical_set_status :: "physical_row \<Rightarrow> physical_status \<Rightarrow> ('z world_scheme, unit) op" where
  "physical_set_status item st =
     (let p = (\<lambda>q. p_device_id q = p_device_id item \<and> p_status q = p_status item) in
     bnd (query (\<lambda>d. rowcount p (physical_devices d))) (\<lambda>n.
     andthen (store (physical_devices_update (update_where p (\<lambda>q. q\<lparr>p_status := st\<rparr>))))
     (andthen (reject (n \<noteq> 1) ConflictError)
     (store (devices_update
        (update_where (\<lambda>x. d_id x = p_device_id item) (\<lambda>x. x\<lparr>d_online := False\<rparr>)))))))"

definition physical_audit :: "event_log_row \<Rightarrow> ('z world_scheme, unit) op" where
  "physical_audit values = andthen (store (event_logs_update (\<lambda>t. t @ [values]))) flush"

fun bound_in_structure_of :: "db \<Rightarrow> structure_kind \<Rightarrow> string \<Rightarrow> bool" where
  "bound_in_structure_of d K_house k = list_ex (\<lambda>p. p_house_id p = Some k) (physical_devices d)"
| "bound_in_structure_of d kind k =
     list_ex (\<lambda>p. p_house_id p \<noteq> None \<and>
       (case p_bound_device_id p of
          None \<Rightarrow> False
        | Some b \<Rightarrow>
            (case tget d_id b (devices d) of
               None \<Rightarrow> False
             | Some x \<Rightarrow>
                 if kind = K_device then d_id x = k
                 else if kind = K_room then d_room_id x = k
                 else (case tget r_id (d_room_id x) (rooms d) of
                         None \<Rightarrow> False | Some r \<Rightarrow> r_floor_id r = k)))) (physical_devices d)"

definition bound_in_structure :: "structure_kind \<Rightarrow> string \<Rightarrow> ('z world_scheme, bool) op" where
  "bound_in_structure kind entity_id = query (\<lambda>d. bound_in_structure_of d kind entity_id)"

subsection \<open>Commands\<close>

definition find_command :: "(command_row \<Rightarrow> bool) \<Rightarrow> ('z world_scheme, command_row option) op" where
  "find_command matching = query (\<lambda>d. tfind matching (device_commands d))"

definition lock_device :: "string \<Rightarrow> ('z world_scheme, device_row) op" where
  "lock_device device_id = bnd (query (\<lambda>d. tget d_id device_id (devices d))) found"

definition pending_command :: "string \<Rightarrow> ('z world_scheme, command_row option) op" where
  "pending_command device_id =
     query (\<lambda>d. tfind (\<lambda>r. c_device_id r = device_id \<and> pending r) (device_commands d))"

definition put_command :: "command_row \<Rightarrow> ('z world_scheme, unit) op" where
  "put_command r = store (device_commands_update (tput c_command_id r))"

definition control_of :: "string \<Rightarrow> ('z world_scheme, control_row option) op" where
  "control_of command_id = query (\<lambda>d. tget k_command_id command_id (command_control d))"

subsection \<open>Lemmas\<close>

lemma wp_found [wp_simps]: "wp (found x) Q E =
    (\<lambda>w. case x of None \<Rightarrow> E EntityNotFoundError w | Some y \<Rightarrow> Q y w)"
  by (auto simp: found_def wp_simps fun_eq_iff split: option.splits)

lemma pres_found [pres, intro!]: "preserves P (found x)"
  by (auto simp: found_def preserves_def split: option.splits)

lemma found_apply: "found x w = (case x of None \<Rightarrow> (Inl EntityNotFoundError, w) | Some y \<Rightarrow> (Inr y, w))"
  by (simp add: found_def split: option.splits)

text \<open>Queries change nothing, whatever the invariant.\<close>

lemma pres_query_any [pres, intro!]: "preserves P (query f)"
  by (simp add: preserves_def query_def op_defs)

lemmas query_ops = repo_list_def repo_find_def repo_get_def repo_exists_def device_house_id_def
  room_house_id_def structure_house_def device_filtered_def device_filtered_for_houses_def
  automations_enabled_for_house_def membership_for_house_def membership_house_ids_def
  membership_by_user_house_def for_house_members_def lock_owners_def refresh_active_def
  by_hardware_def by_device_def physical_for_house_def list_for_house_def
  bound_in_structure_def find_command_def lock_device_def pending_command_def control_of_def
  user_by_email_def

lemma pres_queries [pres, intro!]:
  "preserves P (repo_list R)" "preserves P (repo_find R k)" "preserves P (repo_get R k)"
  "preserves P (repo_exists R k)" "preserves P (device_house_id k)" "preserves P (room_house_id k)"
  "preserves P (structure_house kind k)" "preserves P (automations_enabled_for_house k)"
  "preserves P (membership_for_house u k)" "preserves P (membership_house_ids u rs)"
  "preserves P (membership_by_user_house u k)" "preserves P (for_house_members k)"
  "preserves P (lock_owners k)" "preserves P (refresh_active n k)"
  "preserves P (by_hardware k)" "preserves P (by_device k)" "preserves P (physical_for_house h k)"
  "preserves P (list_for_house k)" "preserves P (bound_in_structure kind k)"
  "preserves P (find_command p)" "preserves P (lock_device k)" "preserves P (pending_command k)"
  "preserves P (control_of k)" "preserves P (user_by_email k)"
  unfolding query_ops by (auto intro!: pres)

lemma tfind_SomeD: "tfind p rows = Some r \<Longrightarrow> r \<in> set rows \<and> p r"
  unfolding tfind_def by (rule find_SomeD)

lemma tfind_None_iff: "tfind p rows = None \<longleftrightarrow> (\<forall>r \<in> set rows. \<not> p r)"
  unfolding tfind_def by (rule find_None_iff)

lemma tfind_unique:
  assumes "unique key rows" and "r \<in> set rows" and "p r" and "\<And>x. p x \<Longrightarrow> key x = key r"
  shows "tfind p rows = Some r"
proof (cases "tfind p rows")
  case None
  with assms(2,3) show ?thesis by (auto simp: tfind_None_iff)
next
  case (Some x)
  then have "x \<in> set rows" "p x" by (auto dest: tfind_SomeD)
  then show ?thesis using unique_eqD [OF assms(1) _ assms(2)] assms(4) Some by blast
qed

lemma map_key_update_where:
  "(\<And>r. key (f r) = key r) \<Longrightarrow> map key (update_where p f rows) = map key rows"
  by (simp add: update_where_def)

lemma tget_update_where:
  "(\<And>r. key (f r) = key r) \<Longrightarrow>
   tget key k (update_where p f rows) = map_option (\<lambda>r. if p r then f r else r) (tget key k rows)"
  by (induction rows) (auto simp: update_where_def tget_Cons)

lemma query_apply [simp]: "query f w = (Inr (f (work w)), w)"
  by (simp add: query_def)

lemma store_apply: "store f w = (Inr (), w\<lparr>work := f (work w)\<rparr>)"
  by (simp add: store_def)

end
