(* ===== verification/Json_Text.thy ===== *)
theory Json_Text
  imports Json
begin

text \<open>
  The text forms the program writes with the Python library: string literals of
  \<open>json.dumps\<close> (with \<open>ensure_ascii\<close>), decimal integers, objects in the order of their keys,
  and \<open>datetime.isoformat\<close> of a UTC instant. Digests and wire frames are taken over these
  texts, so the lemmas show that the literals are read back uniquely.
\<close>

subsection \<open>Numbers\<close>

definition chr :: "nat \<Rightarrow> char" where
  "chr n = char_of n"

definition hex_digit :: "nat \<Rightarrow> char" where
  "hex_digit n = (if n < 10 then chr (48 + n) else chr (87 + n))"

definition digit :: "int \<Rightarrow> char" where
  "digit i = ''0123456789'' ! nat i"

function digits :: "int \<Rightarrow> string" where
  "digits i = (if i < 10 then [digit i] else digits (i div 10) @ [digit (i mod 10)])"
  by pat_completeness auto
termination
  by (relation "measure nat") auto

declare digits.simps [simp del]

definition int_text :: "int \<Rightarrow> string" where
  "int_text i = (if i < 0 then ''-'' @ digits (- i) else digits i)"

definition pad :: "nat \<Rightarrow> int \<Rightarrow> string" where
  "pad width i = (let t = digits i in replicate (width - length t) CHR ''0'' @ t)"

subsection \<open>String literals\<close>

text \<open>The escapes of the C encoder: everything outside the printable ASCII range.\<close>

definition esc :: "char \<Rightarrow> string" where
  "esc c = (let n = ord_of c in
     if n = 34 then [chr 92, chr 34]
     else if n = 92 then [chr 92, chr 92]
     else if n = 10 then [chr 92, chr 110]
     else if n = 13 then [chr 92, chr 114]
     else if n = 9 then [chr 92, chr 116]
     else if n = 12 then [chr 92, chr 102]
     else if n = 8 then [chr 92, chr 98]
     else if n < 32 \<or> 126 < n
     then [chr 92, chr 117, chr 48, chr 48, hex_digit (n div 16), hex_digit (n mod 16)]
     else [c])"

text \<open>Evaluation goes by the characters that need no escape.\<close>

definition plain_chars :: string where
  "plain_chars = ''abcdefghijklmnopqrstuvwxyzABCDEFGHIJKLMNOPQRSTUVWXYZ0123456789 -_.:,+*/()[]{}=@!?#$%&;''"

definition esc_other :: "char \<Rightarrow> string" where
  "esc_other c = esc c"

lemma esc_plain: "list_all (\<lambda>c. esc c = [c]) plain_chars"
  by (simp add: plain_chars_def esc_def ord_of_def Let_def)

lemma esc_code [code]: "esc c = (if c \<in> set plain_chars then [c] else esc_other c)"
  using esc_plain by (auto simp: list_all_iff esc_other_def)

lemma esc_other_code [code]: "esc_other c = (let n = ord_of c in
     if n = 34 then [chr 92, chr 34]
     else if n = 92 then [chr 92, chr 92]
     else if n = 10 then [chr 92, chr 110]
     else if n = 13 then [chr 92, chr 114]
     else if n = 9 then [chr 92, chr 116]
     else if n = 12 then [chr 92, chr 102]
     else if n = 8 then [chr 92, chr 98]
     else if n < 32 \<or> 126 < n
     then [chr 92, chr 117, chr 48, chr 48, hex_digit (n div 16), hex_digit (n mod 16)]
     else [c])"
  by (simp add: esc_other_def esc_def)

definition quote :: "string \<Rightarrow> string" where
  "quote s = [chr 34] @ concat (map esc s) @ [chr 34]"

fun bool_text :: "bool \<Rightarrow> string" where
  "bool_text True = ''true''"
| "bool_text False = ''false''"

subsection \<open>Arrays and objects of rendered members\<close>

fun commas :: "string \<Rightarrow> string list \<Rightarrow> string" where
  "commas sep [] = []"
| "commas sep [x] = x"
| "commas sep (x # y # xs) = x @ sep @ commas sep (y # xs)"

text \<open>\<open>separators=(",", ":")\<close> for objects, the default separators for the array of a binding.\<close>

definition obj_text :: "(string \<times> string) list \<Rightarrow> string" where
  "obj_text members = ''{'' @ commas '','' (map (\<lambda>(k, v). quote k @ '':'' @ v) members) @ ''}''"

definition arr_text :: "string list \<Rightarrow> string" where
  "arr_text items = ''['' @ commas '', '' (map quote items) @ '']''"

subsection \<open>Timestamps\<close>

text \<open>Days since the epoch to the proleptic Gregorian calendar.\<close>

definition civil :: "int \<Rightarrow> int \<times> int \<times> int" where
  "civil days =
     (let z = days + 719468;
          era = z div 146097;
          doe = z mod 146097;
          yoe = (doe - doe div 1460 + doe div 36524 - doe div 146096) div 365;
          doy = doe - (365 * yoe + yoe div 4 - yoe div 100);
          mp = (5 * doy + 2) div 153;
          d = doy - (153 * mp + 2) div 5 + 1;
          m = (if mp < 10 then mp + 3 else mp - 9);
          y = yoe + era * 400 + (if m \<le> 2 then 1 else 0)
      in (y, m, d))"

definition isoformat :: "int \<Rightarrow> string" where
  "isoformat t =
     (let (y, m, d) = civil (t div 86400000000);
          us = t mod 86400000000;
          s = us div 1000000;
          frac = us mod 1000000
      in pad 4 y @ ''-'' @ pad 2 m @ ''-'' @ pad 2 d @ ''T'' @
         pad 2 (s div 3600) @ '':'' @ pad 2 (s div 60 mod 60) @ '':'' @ pad 2 (s mod 60) @
         (if frac = 0 then [] else ''.'' @ pad 6 frac) @ ''+00:00'')"

subsection \<open>Reading a literal back\<close>

definition hex_value :: "char \<Rightarrow> nat" where
  "hex_value c = (let n = ord_of c in if n < 58 then n - 48 else n - 87)"

text \<open>One character of a literal: \<open>None\<close> at the closing quote.\<close>

fun unesc :: "string \<Rightarrow> (char \<times> string) option" where
  "unesc [] = None"
| "unesc (c # cs) =
     (if ord_of c = 34 then None
      else if ord_of c \<noteq> 92 then Some (c, cs)
      else case cs of
          [] \<Rightarrow> None
        | e # r \<Rightarrow>
            (if ord_of e = 117 then
               (case r of _ # _ # x # y # r' \<Rightarrow> Some (chr (16 * hex_value x + hex_value y), r') | _ \<Rightarrow> None)
             else if ord_of e = 110 then Some (chr 10, r)
             else if ord_of e = 114 then Some (chr 13, r)
             else if ord_of e = 116 then Some (chr 9, r)
             else if ord_of e = 102 then Some (chr 12, r)
             else if ord_of e = 98 then Some (chr 8, r)
             else Some (e, r)))"

lemma ord_of_chr [simp]: "n < 256 \<Longrightarrow> ord_of (chr n) = n"
  by (simp add: chr_def)

lemma hex_value_hex_digit [simp]: "k < 16 \<Longrightarrow> hex_value (hex_digit k) = k"
  by (simp add: hex_value_def hex_digit_def chr_def [symmetric])

lemma unesc_append: "unesc (esc c @ r) = Some (c, r)"
proof -
  define n where "n = (of_char c :: nat)"
  have n: "n < 256" unfolding n_def by (rule nat_of_char_less_256)
  have c: "c = chr n" by (simp add: n_def chr_def)
  have "unesc (esc (chr n) @ r) = Some (chr n, r)"
    using n by (auto simp: esc_def Let_def)
  then show ?thesis by (simp add: c)
qed

lemma esc_not_Nil [simp]: "esc c \<noteq> []"
  by (auto simp: esc_def Let_def)

lemma unesc_quote: "unesc (chr 34 # r) = None"
  by (simp add: chr_def)

text \<open>Two literals followed by anything agree only if both their contents and the rests agree.\<close>

lemma quote_body_inj:
  "concat (map esc s) @ [chr 34] @ r = concat (map esc t) @ [chr 34] @ q \<Longrightarrow>
   s = t \<and> r = q"
proof (induction s arbitrary: t)
  case Nil
  show ?case
  proof (cases t)
    case (Cons c t')
    from Nil.prems have "unesc (chr 34 # r) =
        unesc (esc c @ concat (map esc t') @ [chr 34] @ q)" by (simp add: Cons)
    then have False unfolding unesc_append unesc_quote by simp
    then show ?thesis ..
  qed (use Nil in simp)
next
  case (Cons c s')
  show ?case
  proof (cases t)
    case Nil
    from Cons.prems have "unesc (esc c @ concat (map esc s') @ [chr 34] @ r) =
        unesc (chr 34 # q)" by (simp add: Nil)
    then have False unfolding unesc_append unesc_quote by simp
    then show ?thesis ..
  next
    case (Cons d t')
    from Cons.prems have eq: "esc c @ concat (map esc s') @ [chr 34] @ r =
        esc d @ concat (map esc t') @ [chr 34] @ q" by (simp add: Cons)
    then have "Some (c, concat (map esc s') @ [chr 34] @ r) =
        Some (d, concat (map esc t') @ [chr 34] @ q)"
      by (metis unesc_append)
    with Cons.IH [of t'] Cons show ?thesis by simp
  qed
qed

lemma quote_inj: "quote s @ r = quote t @ q \<longleftrightarrow> s = t \<and> r = q"
  using quote_body_inj [of s r t q] by (auto simp: quote_def)

lemma quote_eq_iff [simp]: "quote s = quote t \<longleftrightarrow> s = t"
  using quote_inj [of s "[]" t "[]"] by simp

lemma arr_text_inj: "arr_text xs = arr_text ys \<longleftrightarrow> xs = ys"
proof -
  have sep: "commas '', '' (map quote xs) @ '']'' = commas '', '' (map quote ys) @ '']'' \<Longrightarrow> xs = ys"
  proof (induction xs arbitrary: ys rule: induct_list012)
    case 1
    then show ?case
      by (cases ys rule: remdups_adj.cases) (auto simp: quote_def)
  next
    case (2 x)
    then show ?case
      by (cases ys rule: remdups_adj.cases) (auto simp: quote_inj, simp add: quote_def)
  next
    case (3 x y zs)
    note IH = "3.IH"(2) and prems = "3.prems"
    show ?case
    proof (cases ys rule: remdups_adj.cases)
      case (3 a b cs)
      with prems IH [of "b # cs"] show ?thesis by (simp add: quote_inj)
    next
      case 1
      with prems show ?thesis by (simp add: quote_def)
    next
      case (2 a)
      with prems show ?thesis by (simp add: quote_inj)
    qed
  qed
  then show ?thesis by (auto simp: arr_text_def)
qed

end
