(* ===== verification/Examples.thy ===== *)
theory Examples
  imports Repositories Json_Text "HOL-Library.Code_Target_Nat"
begin

text \<open>
  A small concrete installation for the witnesses of the component theories: two houses, an
  owner, a floor with two rooms, a virtual lamp and one unclaimed relay in the inventory. The
  digest and the identifier supply are concrete functions with the format of the real ones.
\<close>

definition ex_code :: string where
  "ex_code = replicate 43 CHR ''k''"

definition ex_fresh :: "nat \<Rightarrow> string" where
  "ex_fresh n = CHR ''i'' # replicate n CHR ''x''"

definition ex_db :: db where
  "ex_db = empty_db\<lparr>
     houses := [\<lparr>h_id = ''h1'', h_name = ''Home''\<rparr>, \<lparr>h_id = ''h2'', h_name = ''Other''\<rparr>],
     users := [\<lparr>u_id = ''u1'', u_email = ''a@b.c'', u_password_hash = [], u_is_active = True,
       u_is_superuser = False\<rparr>],
     memberships := [\<lparr>m_id = ''m1'', m_user_id = ''u1'', m_house_id = ''h1'', m_role = Owner\<rparr>],
     floors := [\<lparr>f_id = ''f1'', f_house_id = ''h1'', f_name = ''F'', f_order = 0\<rparr>],
     rooms := [\<lparr>r_id = ''r1'', r_floor_id = ''f1'', r_name = ''R'', r_icon = None\<rparr>,
       \<lparr>r_id = ''r2'', r_floor_id = ''f1'', r_name = ''S'', r_icon = None\<rparr>],
     devices := [\<lparr>d_id = ''d0'', d_name = ''L'', d_room_id = ''r2'', d_type = ''light'', d_state = [],
       d_capabilities = [''on_off''], d_metadata = [], d_online = True\<rparr>],
     physical_devices := [\<lparr>p_device_id = ''d1'', p_hardware_id = ''w1'',
       p_hardware_model = ''esp32-relay-v1'', p_protocol_version = ''v1'', p_status = Unprovisioned,
       p_claim_code_hash = Some ex_code, p_house_id = None, p_bound_device_id = None\<rparr>]\<rparr>"

definition ex_world :: world where
  "ex_world = \<lparr>committed = ex_db, work = ex_db, drawn = 0\<rparr>"

definition ex_sha :: "string \<Rightarrow> string" where
  "ex_sha s = replicate 63 CHR ''0'' @ [hex_digit (length s mod 16)]"

lemma ex_db_ok: "db_ok ex_db"
  by code_simp

end
