(* ===== verification/Onboarding.thy ===== *)
theory Onboarding
  imports Examples
begin

text \<open>
  \<open>app/services/onboarding_service.py\<close>: registration of physical inventory, the one-time
  claim that binds a device to a house, the lifecycle of a bound device, and the guard that
  protects bindings against structure changes. \<open>sha256\<close> is the hexadecimal digest of
  \<open>hashlib\<close> and \<open>fresh\<close> the supply of \<open>uuid4\<close> identifiers.
\<close>

subsection \<open>Input schemas\<close>

definition is_hardware_char :: "char \<Rightarrow> bool" where
  "is_hardware_char c \<longleftrightarrow> is_id_char c \<or> c = CHR '':''"

definition hardware_identifier :: "string \<Rightarrow> bool" where
  "hardware_identifier s \<longleftrightarrow> id_pattern is_hardware_char 128 s"

definition hardware_models :: "string list" where
  "hardware_models = [''esp32-c6-relay-v1'', ''esp32-relay-v1'']"

record inventory_registration =
  ir_device_id :: string
  ir_hardware_id :: string
  ir_hardware_model :: string
  ir_claim_code :: string

definition inventory_registration_ok :: "inventory_registration \<Rightarrow> bool" where
  "inventory_registration_ok d \<longleftrightarrow>
     topic_id (ir_device_id d) \<and> hardware_identifier (ir_hardware_id d) \<and>
     ir_hardware_model d \<in> set hardware_models \<and> bounded 43 43 (ir_claim_code d)"

record device_claim =
  dcl_hardware_id :: string
  dcl_claim_code :: string
  dcl_room_id :: string
  dcl_name :: string

definition device_claim_ok :: "device_claim \<Rightarrow> bool" where
  "device_claim_ok d \<longleftrightarrow>
     hardware_identifier (dcl_hardware_id d) \<and> bounded 43 43 (dcl_claim_code d) \<and>
     topic_id (dcl_room_id d) \<and> bounded 1 255 (dcl_name d)"

record physical_device_read =
  pd_device_id :: string
  pd_house_id :: string
  pd_hardware_model :: string
  pd_protocol_version :: string
  pd_status :: physical_status

text \<open>\<open>PhysicalDeviceRead.model_validate\<close>: the house is required, the status a lifecycle state.\<close>

definition read_physical :: "physical_row \<Rightarrow> exn + physical_device_read" where
  "read_physical p =
     (case p_house_id p of
        None \<Rightarrow> Inl ValidationError
      | Some h \<Rightarrow>
          if p_status p = Unprovisioned \<or> p_protocol_version p \<noteq> ''v1'' then Inl ValidationError
          else Inr \<lparr>pd_device_id = p_device_id p, pd_house_id = h,
             pd_hardware_model = p_hardware_model p,
             pd_protocol_version = p_protocol_version p, pd_status = p_status p\<rparr>)"

subsection \<open>Claim codes and profiles\<close>

definition PROFILES :: "(string \<times> string \<times> string list) list" where
  "PROFILES = [(''esp32-c6-relay-v1'', ''relay'', [''on_off'']),
               (''esp32-relay-v1'', ''relay'', [''on_off''])]"

definition claim_digest :: "(string \<Rightarrow> string) \<Rightarrow> string \<Rightarrow> exn + string" where
  "claim_digest sha256 secret =
     (if matches_n is_token_char 43 secret then Inr (sha256 secret) else Inl InvalidReferenceError)"

fun status_value :: "physical_status \<Rightarrow> string" where
  "status_value Unprovisioned = ''unprovisioned''"
| "status_value Provisioning = ''provisioning''"
| "status_value Active = ''active''"
| "status_value Inactive = ''inactive''"
| "status_value Revoked = ''revoked''"

subsection \<open>The onboarding service\<close>

definition audit_status ::
  "(nat \<Rightarrow> string) \<Rightarrow> string \<Rightarrow> string \<Rightarrow> string \<Rightarrow> physical_status \<Rightarrow> ('z world_scheme, unit) op" where
  "audit_status fresh device_id house_id actor_id st =
     bnd (draw fresh) (\<lambda>eid.
     bnd (draw fresh) (\<lambda>cid.
     physical_audit
       \<lparr>ev_id = eid, ev_house_id = Some house_id, ev_event_type = ''device_onboarding_changed'',
        ev_entity_id = Some device_id,
        ev_payload = [(''device_id'', JStr device_id), (''actor_id'', JStr actor_id),
                      (''status'', JStr (status_value st))],
        ev_correlation_id = cid\<rparr>))"

definition register_inventory ::
  "(string \<Rightarrow> string) \<Rightarrow> inventory_registration \<Rightarrow> ('z world_scheme, unit) op" where
  "register_inventory sha256 data =
     bnd (lift (claim_digest sha256 (ir_claim_code data))) (\<lambda>digest.
     atomic
       (bnd (repo_exists device_repo (ir_device_id data)) (\<lambda>taken.
       andthen (reject taken ConflictError)
       (add_inventory
         \<lparr>p_device_id = ir_device_id data, p_hardware_id = ir_hardware_id data,
          p_hardware_model = ir_hardware_model data, p_protocol_version = ''v1'',
          p_status = Unprovisioned, p_claim_code_hash = Some digest,
          p_house_id = None, p_bound_device_id = None\<rparr>))))"

definition claimed_device :: "physical_row \<Rightarrow> device_claim \<Rightarrow> string \<times> string list \<Rightarrow> device_row" where
  "claimed_device item data profile =
     \<lparr>d_id = p_device_id item, d_name = dcl_name data, d_room_id = dcl_room_id data,
      d_type = fst profile, d_state = [], d_capabilities = snd profile, d_metadata = [],
      d_online = False\<rparr>"

definition profile_of :: "string \<Rightarrow> exn + string \<times> string list" where
  "profile_of model = (case alookup model PROFILES of None \<Rightarrow> Inl KeyError | Some p \<Rightarrow> Inr p)"

text \<open>The checks of a claim up to the first write, in the order of the code.\<close>

definition claim_checks ::
  "(string \<Rightarrow> string) \<Rightarrow> string \<Rightarrow> device_claim \<Rightarrow> ('z world_scheme, physical_row) op" where
  "claim_checks sha256 house_id data =
     bnd (by_hardware (dcl_hardware_id data)) (\<lambda>found_item.
     case found_item of
       None \<Rightarrow> raise EntityNotFoundError
     | Some item \<Rightarrow>
         andthen (reject (p_house_id item \<noteq> None \<and> p_house_id item \<noteq> Some house_id) EntityNotFoundError)
         (andthen (reject (p_status item \<noteq> Unprovisioned) ConflictError)
         (bnd (lift (claim_digest sha256 (dcl_claim_code data))) (\<lambda>digest.
         andthen (reject (dflt [] (p_claim_code_hash item) \<noteq> digest) EntityNotFoundError)
         (bnd (structure_house K_room (dcl_room_id data)) (\<lambda>room_house_id.
         andthen (reject (room_house_id \<noteq> house_id) EntityNotFoundError)
         (ret item)))))))"

text \<open>The rows the session has after the update are read back through the same identity.\<close>

definition read_back :: "string \<Rightarrow> ('z world_scheme, physical_device_read) op" where
  "read_back device_id =
     bnd (by_device device_id) (\<lambda>item.
     bnd (found item) (\<lambda>p. lift (read_physical p)))"

definition claim ::
  "(string \<Rightarrow> string) \<Rightarrow> (nat \<Rightarrow> string) \<Rightarrow> string \<Rightarrow> device_claim \<Rightarrow> string \<Rightarrow>
   ('z world_scheme, physical_device_read) op" where
  "claim sha256 fresh house_id data actor_id =
     andthen (reject (\<not> topic_id house_id) ValidationError)
     (atomic
       (bnd (claim_checks sha256 house_id data) (\<lambda>item.
       bnd (lift (profile_of (p_hardware_model item))) (\<lambda>profile.
       andthen (add_device (claimed_device item data profile))
       (andthen (physical_claim item house_id)
       (andthen (audit_status fresh (p_device_id item) house_id actor_id Provisioning)
       (andthen flush
       (read_back (p_device_id item)))))))))"

fun allowed :: "physical_status \<Rightarrow> physical_status list" where
  "allowed Provisioning = [Active, Inactive, Revoked]"
| "allowed Active = [Inactive, Revoked]"
| "allowed Inactive = [Active, Revoked]"
| "allowed Revoked = []"
| "allowed Unprovisioned = []"

definition lifecycle ::
  "(nat \<Rightarrow> string) \<Rightarrow> string \<Rightarrow> string \<Rightarrow> physical_status \<Rightarrow> string \<Rightarrow>
   ('z world_scheme, physical_device_read) op" where
  "lifecycle fresh house_id device_id target actor_id =
     atomic
       (bnd (physical_for_house house_id device_id) (\<lambda>item.
       andthen
         (if p_status item = target then ret ()
          else
            andthen (reject (p_status item = Unprovisioned) KeyError)
            (andthen (reject (target \<notin> set (allowed (p_status item))) ConflictError)
            (bnd (structure_house K_device device_id) (\<lambda>h.
            andthen (reject (h \<noteq> house_id) ConflictError)
            (andthen (physical_set_status item target)
            (audit_status fresh device_id house_id actor_id target))))))
         (read_back device_id)))"

subsection \<open>The binding guard\<close>

definition require_command_contract :: "string \<Rightarrow> ('z world_scheme, unit) op" where
  "require_command_contract device_id =
     bnd (by_device device_id) (\<lambda>item. reject (item \<noteq> None) ConflictError)"

text \<open>The second reading of the location repeats the first: nothing runs in between.\<close>

definition structure_mutation ::
  "structure_kind \<Rightarrow> string \<Rightarrow> string option \<Rightarrow> bool \<Rightarrow> ('z world_scheme, unit) op" where
  "structure_mutation kind entity_id target_house deleting =
     bnd (structure_house kind entity_id) (\<lambda>source.
     bnd (structure_house kind entity_id) (\<lambda>again.
     andthen (reject (again \<noteq> source) ConflictError)
     (bnd (bound_in_structure kind entity_id) (\<lambda>bound.
     reject ((deleting \<or> (target_house \<noteq> None \<and> target_house \<noteq> Some source)) \<and> bound)
       ConflictError))))"

definition require_active :: "string \<Rightarrow> ('z world_scheme, unit) op" where
  "require_active device_id =
     bnd (by_device device_id) (\<lambda>found_item.
     case found_item of
       None \<Rightarrow> ret ()
     | Some item \<Rightarrow>
         andthen (reject (p_status item \<noteq> Active) ConflictError)
         (bnd (structure_house K_device device_id) (\<lambda>h.
         reject (Some h \<noteq> p_house_id item) ConflictError)))"

subsection \<open>Rows only move forward\<close>

text \<open>
  What onboarding may do to an inventory row: identity and model are fixed, a binding once
  made is kept, a consumed claim code never comes back, a revoked row stays revoked.
\<close>

definition row_evolves :: "physical_row \<Rightarrow> physical_row \<Rightarrow> bool" where
  "row_evolves p q \<longleftrightarrow>
     p_device_id q = p_device_id p \<and> p_hardware_id q = p_hardware_id p \<and>
     p_hardware_model q = p_hardware_model p \<and>
     (p_house_id p \<noteq> None \<longrightarrow> p_house_id q = p_house_id p \<and> p_bound_device_id q = p_bound_device_id p) \<and>
     (p_claim_code_hash p = None \<longrightarrow> p_claim_code_hash q = None) \<and>
     (p_status p \<noteq> Unprovisioned \<longrightarrow> p_status q \<noteq> Unprovisioned) \<and>
     (p_status p = Revoked \<longrightarrow> p_status q = Revoked)"

definition evolved :: "physical_row list \<Rightarrow> db \<Rightarrow> bool" where
  "evolved rows d \<longleftrightarrow> (\<forall>p \<in> set rows. \<exists>q \<in> set (physical_devices d). row_evolves p q)"

lemma row_evolves_refl [simp]: "row_evolves p p"
  by (simp add: row_evolves_def)

lemma row_evolves_trans: "row_evolves p q \<Longrightarrow> row_evolves q r \<Longrightarrow> row_evolves p r"
  unfolding row_evolves_def by metis

lemma evolved_refl: "evolved (physical_devices d) d"
  unfolding evolved_def using row_evolves_refl by blast

lemma evolved_append: "evolved rows d \<Longrightarrow> evolved rows (physical_devices_update (\<lambda>t. t @ xs) d)"
  by (auto simp: evolved_def)

lemma evolved_update_where:
  assumes "evolved rows d" and "\<And>p. m p \<Longrightarrow> row_evolves p (f p)"
  shows "evolved rows (physical_devices_update (update_where m f) d)"
  unfolding evolved_def
proof
  fix p
  assume "p \<in> set rows"
  with assms(1) obtain q where q: "q \<in> set (physical_devices d)" "row_evolves p q"
    by (auto simp: evolved_def)
  have "row_evolves q (if m q then f q else q)" using assms(2) by simp
  with q(2) have "row_evolves p (if m q then f q else q)" by (rule row_evolves_trans)
  moreover have "(if m q then f q else q)
      \<in> set (physical_devices (physical_devices_update (update_where m f) d))"
    using q(1) by (simp add: update_where_def)
  ultimately show "\<exists>r \<in> set (physical_devices (physical_devices_update (update_where m f) d)).
      row_evolves p r" by blast
qed

lemma bind_evolves: "claimable k p \<Longrightarrow> row_evolves p (bind_to_house h p)"
  by (simp add: row_evolves_def bind_to_house_def claimable_def)

lemma pres_evolved_other [pres]:
  "preserves (both (evolved rows)) (store (devices_update f))"
  "preserves (both (evolved rows)) (store (event_logs_update g))"
  by (rule pres_both_store; simp add: evolved_def)+

lemma pres_evolved_physical [pres]:
  "preserves (both (evolved rows)) (store (physical_devices_update (\<lambda>t. t @ xs)))"
  "preserves (both (evolved rows)) (physical_claim item h)"
  "st \<in> set (allowed (p_status item)) \<Longrightarrow>
   preserves (both (evolved rows)) (physical_set_status item st)"
proof -
  show "preserves (both (evolved rows)) (store (physical_devices_update (\<lambda>t. t @ xs)))"
    by (intro pres evolved_append)
  show "preserves (both (evolved rows)) (physical_claim item h)"
    unfolding physical_claim_def by (intro pres evolved_update_where bind_evolves)
  show "preserves (both (evolved rows)) (physical_set_status item st)"
    if "st \<in> set (allowed (p_status item))"
    unfolding physical_set_status_def Let_def
    using that by (intro pres evolved_update_where)
      (cases "p_status item"; auto simp: row_evolves_def evolved_def)+
qed


lemma pres_evolved_claim_checks [pres]: "preserves (both (evolved rows)) (claim_checks sha256 h data)"
  unfolding claim_checks_def by (intro pres)

lemma pres_evolved_audit [pres]: "preserves (both (evolved rows)) (audit_status fresh k h a st)"
  unfolding audit_status_def physical_audit_def by (intro pres)

lemma pres_evolved_read_back [pres]: "preserves (both (evolved rows)) (read_back k)"
  unfolding read_back_def by (intro pres)

lemma pres_evolved_service:
  "preserves (both (evolved rows)) (register_inventory sha256 reg)"
  "preserves (both (evolved rows)) (claim sha256 fresh h data a)"
  "preserves (both (evolved rows)) (lifecycle fresh h k st a)"
proof -
  show "preserves (both (evolved rows)) (register_inventory sha256 reg)"
    unfolding register_inventory_def add_inventory_def by (intro pres)
  show "preserves (both (evolved rows)) (claim sha256 fresh h data a)"
    unfolding claim_def add_device_def by (intro pres)
  show "preserves (both (evolved rows)) (lifecycle fresh h k st a)"
    unfolding lifecycle_def
    by (intro pres_andthen_reject pres; simp)
qed


subsection \<open>What a successful claim does\<close>

lemma claim_checks_Inr:
  "claim_checks sha256 h data w = (Inr item, w') \<longleftrightarrow>
     w' = w \<and>
     tfind (\<lambda>p. p_hardware_id p = dcl_hardware_id data) (physical_devices (work w)) = Some item \<and>
     (p_house_id item = None \<or> p_house_id item = Some h) \<and> p_status item = Unprovisioned \<and>
     claim_digest sha256 (dcl_claim_code data) = Inr (dflt [] (p_claim_code_hash item)) \<and>
     room_house (work w) (dcl_room_id data) = Some h"
  by (auto simp: claim_checks_def by_hardware_def structure_house_def found_def bnd_def
      andthen_def reject_def split: option.splits sum.splits)

lemma claim_Inr:
  assumes "claim sha256 fresh h data a w = (Inr r, w')"
  obtains item profile where
    "topic_id h" "claim_checks sha256 h data w = (Inr item, w)"
    "profile_of (p_hardware_model item) = Inr profile"
    "db_ok (committed w')" "work w' = committed w'"
    "physical_devices (committed w') =
       update_where (claimable (p_device_id item)) (bind_to_house h) (physical_devices (work w))"
    "devices (committed w') = devices (work w) @ [claimed_device item data profile]"
    "\<exists>q. tget p_device_id (p_device_id item) (physical_devices (committed w')) = Some q \<and> read_physical q = Inr r"
proof -
  from assms have tid: "topic_id h"
    by (auto simp: claim_def andthen_reject_apply split: if_splits)
  with assms obtain v item profile where v: "db_ok (work v)" "w' = v\<lparr>committed := work v\<rparr>"
    and ck: "claim_checks sha256 h data w = (Inr item, w)"
    and pf: "profile_of (p_hardware_model item) = Inr profile"
    and body: "(andthen (add_device (claimed_device item data profile))
       (andthen (physical_claim item h)
       (andthen (audit_status fresh (p_device_id item) h a Provisioning)
       (andthen flush
       (read_back (p_device_id item)))))) w = (Inr r, v)"
    by (auto simp: claim_def atomic_Inr bnd_Inr_iff claim_checks_Inr)
  have "devices (work v) = devices (work w) @ [claimed_device item data profile] \<and>
    physical_devices (work v) =
      update_where (claimable (p_device_id item)) (bind_to_house h) (physical_devices (work w)) \<and>
    (\<exists>q. tget p_device_id (p_device_id item) (physical_devices (work v)) = Some q \<and> read_physical q = Inr r)"
    using body
    by (auto simp: add_device_def physical_claim_def audit_status_def physical_audit_def
        read_back_def by_device_def found_def andthen_Inr_iff bnd_Inr_iff store_apply flush_def draw_def
        split: if_splits option.splits)
  with v show thesis by (intro that [OF tid ck pf]) auto
qed

subsection \<open>Runs of onboarding requests\<close>

datatype onboarding_call =
    Register_call inventory_registration
  | Claim_call string device_claim string
  | Lifecycle_call string string physical_status string

fun onboarding_op ::
  "(string \<Rightarrow> string) \<Rightarrow> (nat \<Rightarrow> string) \<Rightarrow> onboarding_call \<Rightarrow> ('z world_scheme, unit) op" where
  "onboarding_op sha256 fresh (Register_call reg) = register_inventory sha256 reg"
| "onboarding_op sha256 fresh (Claim_call h data a) = andthen (claim sha256 fresh h data a) (ret ())"
| "onboarding_op sha256 fresh (Lifecycle_call h k st a) = andthen (lifecycle fresh h k st a) (ret ())"

definition onboarding_step ::
  "(string \<Rightarrow> string) \<Rightarrow> (nat \<Rightarrow> string) \<Rightarrow> onboarding_call \<Rightarrow> 'z world_scheme \<Rightarrow> 'z world_scheme" where
  "onboarding_step sha256 fresh call w = snd (in_session (onboarding_op sha256 fresh call) w)"

lemma pres_evolved_op: "preserves (both (evolved rows)) (onboarding_op sha256 fresh call)"
  by (cases call) (auto intro!: pres pres_evolved_service)

definition evolving :: "physical_row list \<Rightarrow> 'z world_scheme \<Rightarrow> bool" where
  "evolving rows w \<longleftrightarrow> evolved rows (committed w)"

lemma evolving_step: "evolving rows w \<Longrightarrow> evolving rows (onboarding_step sha256 fresh call w)"
  using preservesD [OF pres_evolved_op [of rows sha256 fresh call], of "w\<lparr>work := committed w\<rparr>"]
  by (auto simp: onboarding_step_def in_session_def both_def evolving_def split: prod.splits)

lemma pres_sound_onboarding: "preserves sound (onboarding_op sha256 fresh call)"
  by (cases call)
    (auto intro!: pres simp: register_inventory_def add_inventory_def claim_def claim_checks_def
      lifecycle_def add_device_def physical_claim_def audit_status_def physical_audit_def
      read_back_def physical_set_status_def Let_def)

lemma sound_step: "sound w \<Longrightarrow> sound (onboarding_step sha256 fresh call w)"
  unfolding onboarding_step_def
  by (intro preservesD [OF pres_sound_in_session [OF pres_sound_onboarding]])

interpretation inventory: invariant_machine "onboarding_step sha256 fresh" "evolving rows"
  for sha256 fresh rows
  by unfold_locales (rule evolving_step)

interpretation schema: invariant_machine "onboarding_step sha256 fresh" sound
  for sha256 fresh
  by unfold_locales (rule sound_step)


lemma hardware_row:
  assumes "physical_ok d" and "q \<in> set (physical_devices d)"
  shows "tfind (\<lambda>p. p_hardware_id p = p_hardware_id q) (physical_devices d) = Some q"
  using assms unique_tget [of p_hardware_id "physical_devices d" q]
  by (simp add: physical_ok_def tfind_def tget_def)

lemma claim_taken:
  assumes "q \<in> set (physical_devices (committed w))" "p_hardware_id q = dcl_hardware_id data"
    and "p_status q \<noteq> Unprovisioned" and "sound w"
  shows "\<exists>e. fst (in_session (claim sha256 fresh h data a) w) = Inl e"
proof (rule ccontr)
  assume "\<nexists>e. fst (in_session (claim sha256 fresh h data a) w) = Inl e"
  moreover obtain x v where x: "claim sha256 fresh h data a (w\<lparr>work := committed w\<rparr>) = (x, v)"
    by (rule prod.exhaust)
  ultimately obtain r where "x = Inr r"
    by (cases x) (auto simp: in_session_def)
  with x have "claim sha256 fresh h data a (w\<lparr>work := committed w\<rparr>) = (Inr r, v)" by simp
  then obtain item where
    "claim_checks sha256 h data (w\<lparr>work := committed w\<rparr>) = (Inr item, w\<lparr>work := committed w\<rparr>)"
    by (rule claim_Inr)
  then show False
    using assms hardware_row [of "committed w" q]
    by (auto simp: claim_checks_Inr sound_def db_ok_def)
qed

text \<open>The claimed row was claimable, and no other row was touched.\<close>

lemma claim_rows:
  assumes ck: "claim_checks sha256 h data w = (Inr item, w)" and ok: "db_ok d"
    and ph: "physical_devices d =
      update_where (claimable (p_device_id item)) (bind_to_house h) (physical_devices (work w))"
  shows "claimable (p_device_id item) item"
    and "physical_devices d =
      map (\<lambda>p. if p_device_id p = p_device_id item then bind_to_house h p else p)
        (physical_devices (work w))"
proof -
  from ck have row: "item \<in> set (physical_devices (work w))" "p_status item = Unprovisioned"
    by (auto simp: claim_checks_Inr dest: tfind_SomeD)
  define q where "q = (if claimable (p_device_id item) item then bind_to_house h item else item)"
  have "q \<in> set (physical_devices d)"
    using row(1) by (simp add: ph update_where_def q_def)
  with ok have "physical_row_ok q"
    by (simp add: db_ok_def physical_ok_def list_all_iff)
  with row show cl: "claimable (p_device_id item) item"
    by (auto simp: q_def claimable_def physical_row_ok_def split: if_splits)
  have "unique p_device_id (physical_devices d)"
    using ok by (simp add: db_ok_def physical_ok_def)
  then have "unique p_device_id (physical_devices (work w))"
    unfolding ph unique_def by (subst (asm) map_key_update_where) (simp_all add: bind_to_house_def)
  then have "p = item" if "p \<in> set (physical_devices (work w))" "p_device_id p = p_device_id item" for p
    using row(1) that by (metis unique_eqD)
  with cl have "claimable (p_device_id item) p \<longleftrightarrow> p_device_id p = p_device_id item"
    if "p \<in> set (physical_devices (work w))" for p
    using that by (metis claimable_def)
  then show "physical_devices d =
      map (\<lambda>p. if p_device_id p = p_device_id item then bind_to_house h p else p)
        (physical_devices (work w))"
    unfolding ph update_where_def by (intro map_cong refl) simp
qed

lemma claim_row:
  assumes "claim sha256 fresh h data a w = (Inr r, w')"
  shows "\<exists>q \<in> set (physical_devices (committed w')). p_hardware_id q = dcl_hardware_id data \<and>
    p_status q \<noteq> Unprovisioned"
proof -
  from assms obtain item where ck: "claim_checks sha256 h data w = (Inr item, w)"
    and ok: "db_ok (committed w')" and ph: "physical_devices (committed w') =
       update_where (claimable (p_device_id item)) (bind_to_house h) (physical_devices (work w))"
    by (rule claim_Inr)
  from ck have row: "item \<in> set (physical_devices (work w))" "p_hardware_id item = dcl_hardware_id data"
    by (auto simp: claim_checks_Inr dest: tfind_SomeD)
  have "bind_to_house h item \<in> set (physical_devices (committed w'))"
    using row(1) by (force simp: claim_rows(2) [OF ck ok ph])
  with row(2) show ?thesis
    by (intro bexI [of _ "bind_to_house h item"]) (simp_all add: bind_to_house_def)
qed

text \<open>A claim that raises has committed nothing.\<close>

lemma claim_Inl: "claim sha256 fresh h data a w = (Inl e, w') \<Longrightarrow> committed w' = committed w"
proof -
  have "preserves (published d) (claim_checks sha256 h data)" for d :: db and w :: "'a world_scheme"
    unfolding claim_checks_def by (intro pres)
  then show "claim sha256 fresh h data a w = (Inl e, w') \<Longrightarrow> committed w' = committed w"
    unfolding claim_def andthen_reject_apply
    by (auto split: if_splits dest!: atomic_error [rotated] intro!: pres
        simp: add_device_def physical_claim_def audit_status_def physical_audit_def read_back_def)
qed

subsection \<open>The lifecycle and the guard\<close>

lemma lifecycle_Inl:
  "lifecycle fresh h k st a w = (Inl e, w') \<Longrightarrow> committed w' = committed w"
  unfolding lifecycle_def
  by (auto dest!: atomic_error [rotated] intro!: pres
      simp: physical_set_status_def audit_status_def physical_audit_def read_back_def Let_def)

lemma lifecycle_Inr:
  assumes "lifecycle fresh h k st a w = (Inr r, w')"
  obtains item where
    "tget p_device_id k (physical_devices (work w)) = Some item" "p_house_id item = Some h"
    "p_status item = st \<and> physical_devices (committed w') = physical_devices (work w) \<and>
       devices (committed w') = devices (work w)
     \<or> st \<in> set (allowed (p_status item)) \<and> location_house (work w) k = Some h \<and>
       physical_devices (committed w') =
         update_where (\<lambda>q. p_device_id q = k \<and> p_status q = p_status item)
           (\<lambda>q. q\<lparr>p_status := st\<rparr>) (physical_devices (work w)) \<and>
       devices (committed w') = update_where (\<lambda>x. d_id x = k) (\<lambda>x. x\<lparr>d_online := False\<rparr>)
         (devices (work w))"
proof -
  from assms obtain item v where row: "tget p_device_id k (physical_devices (work w)) = Some item"
      "p_house_id item = Some h" and w': "w' = v\<lparr>committed := work v\<rparr>"
    and body: "(andthen
         (if p_status item = st then ret ()
          else
            andthen (reject (p_status item = Unprovisioned) KeyError)
            (andthen (reject (st \<notin> set (allowed (p_status item))) ConflictError)
            (bnd (structure_house K_device k) (\<lambda>h'.
            andthen (reject (h' \<noteq> h) ConflictError)
            (andthen (physical_set_status item st)
            (audit_status fresh k h a st))))))
         (read_back k)) w = (Inr r, v)"
    by (auto simp: lifecycle_def atomic_Inr bnd_Inr_iff physical_for_house_def by_device_def
        split: if_splits option.splits)
  have id: "p_device_id item = k" using row(1) by (auto dest: tget_SomeD)
  show thesis
  proof (cases "p_status item = st")
    case True
    with body have "work v = work w"
      by (auto simp: andthen_Inr_iff read_back_def by_device_def found_def bnd_Inr_iff split: option.splits)
    with that row True w' show thesis by simp
  next
    case False
    with body id that [OF row] w' show thesis
      by (auto simp: andthen_Inr_iff bnd_Inr_iff structure_house_def found_def
        physical_set_status_def Let_def audit_status_def physical_audit_def read_back_def by_device_def
        store_apply draw_def flush_def split: if_splits option.splits)
  qed
qed

lemma tget_tdel: "tget key k rows = Some r \<Longrightarrow> \<not> p r \<Longrightarrow> tget key k (tdel p rows) = Some r"
  by (induction rows) (auto simp: tdel_def tget_Cons split: if_splits)

lemma gone_rooms:
  assumes "unique r_id (rooms d)" and "tget r_id k (rooms d) = Some r"
  shows "k \<in> set (map r_id (filter p (rooms d))) \<longleftrightarrow> p r"
  using assms by (auto dest: tget_SomeD simp: image_iff) (metis tget_SomeD unique_eqD)

text \<open>The claim that the witnesses of this theory make.\<close>

definition ex_claim :: device_claim where
  "ex_claim = \<lparr>dcl_hardware_id = ''w1'', dcl_claim_code = ex_code, dcl_room_id = ''r1'', dcl_name = ''P''\<rparr>"

lemma ex_claim_succeeds: "is_ok (fst (in_session (claim id ex_fresh ''h1'' ex_claim ''u1'') ex_world))"
  by code_simp

subsection \<open>Properties\<close>

text \<open>
  C10. A physical device is claimed at most once: after a successful claim, whatever inventory,
  claim and lifecycle requests follow, every further claim of the same hardware fails, for
  every house, room, actor and claim code.
\<close>

theorem claim_once:
  assumes "in_session (claim sha256 fresh h data a) w = (Inr r, w1)"
    and "w2 = fold (onboarding_step sha256 fresh) calls w1"
    and "dcl_hardware_id data' = dcl_hardware_id data"
  shows "\<exists>e. fst (in_session (claim sha256 fresh h' data' a') w2) = Inl e"
proof -
  from in_session_result [OF assms(1)] obtain v where
    cl: "claim sha256 fresh h data a (w\<lparr>work := committed w\<rparr>) = (Inr r, v)"
    and w1: "w1 = v\<lparr>work := committed v\<rparr>" by blast
  from claim_row [OF cl] obtain q where q: "q \<in> set (physical_devices (committed w1))"
    "p_hardware_id q = dcl_hardware_id data" "p_status q \<noteq> Unprovisioned"
    by (auto simp: w1)
  from cl have "sound w1" by (rule claim_Inr) (simp add: w1 sound_def)
  then have snd2: "sound w2" unfolding assms(2) by (rule schema.inv_run)
  have "evolving (physical_devices (committed w1)) w1"
    by (simp add: evolving_def evolved_refl)
  then have "evolving (physical_devices (committed w1)) w2"
    unfolding assms(2) by (rule inventory.inv_run)
  with q obtain q2 where "q2 \<in> set (physical_devices (committed w2))"
    "p_hardware_id q2 = dcl_hardware_id data" "p_status q2 \<noteq> Unprovisioned"
    by (fastforce simp: evolving_def evolved_def row_evolves_def)
  with snd2 assms(3) show ?thesis by (intro claim_taken) auto
qed

text \<open>
  C12. A claim either raises and leaves the committed database exactly as it was, or succeeds.
  Then the inventory row the database has for the hardware identifier was unprovisioned, the
  caller knew its code (the stored hash is the digest of the code supplied, which has the form
  of a claim code) and named a room of the claiming house, and its model is one of the known
  profiles; that row, and no other, is bound to the house with its code erased, exactly one
  device was created, with the identity of the row, the relay type and capability of the
  profile, offline and in that room, and the answer describes the row that was bound.
\<close>

theorem claim_effect:
  "case claim sha256 fresh h data a w of
     (Inl e, w') \<Rightarrow> committed w' = committed w
   | (Inr r, w') \<Rightarrow>
       \<exists>item profile.
         tfind (\<lambda>p. p_hardware_id p = dcl_hardware_id data) (physical_devices (work w)) = Some item \<and>
         item \<in> set (physical_devices (work w)) \<and>
         p_hardware_id item = dcl_hardware_id data \<and> p_status item = Unprovisioned \<and>
         p_house_id item = None \<and>
         dflt [] (p_claim_code_hash item) = sha256 (dcl_claim_code data) \<and>
         matches_n is_token_char 43 (dcl_claim_code data) \<and>
         room_house (work w) (dcl_room_id data) = Some h \<and>
         alookup (p_hardware_model item) PROFILES = Some profile \<and> profile = (''relay'', [''on_off'']) \<and>
         physical_devices (committed w') =
           map (\<lambda>p. if p_device_id p = p_device_id item then bind_to_house h p else p)
             (physical_devices (work w)) \<and>
         devices (committed w') = devices (work w) @ [claimed_device item data profile] \<and>
         read_physical (bind_to_house h item) = Inr r"
proof (cases "claim sha256 fresh h data a w")
  case (Pair x w')
  show ?thesis
  proof (cases x)
    case (Inl e)
    with Pair show ?thesis by (simp add: claim_Inl)
  next
    case (Inr r)
    from Pair [unfolded Inr] obtain item profile q where
      ck: "claim_checks sha256 h data w = (Inr item, w)" and ok: "db_ok (committed w')"
      and pf: "profile_of (p_hardware_model item) = Inr profile"
      and ph: "physical_devices (committed w') =
        update_where (claimable (p_device_id item)) (bind_to_house h) (physical_devices (work w))"
      and dv: "devices (committed w') = devices (work w) @ [claimed_device item data profile]"
      and q: "tget p_device_id (p_device_id item) (physical_devices (committed w')) = Some q" "read_physical q = Inr r"
      by (rule claim_Inr) blast
    have find: "tfind (\<lambda>p. p_hardware_id p = dcl_hardware_id data) (physical_devices (work w)) = Some item"
      using ck by (simp add: claim_checks_Inr)
    then have item: "item \<in> set (physical_devices (work w))" "p_hardware_id item = dcl_hardware_id data"
      by (auto dest: tfind_SomeD)
    note rows = claim_rows [OF ck ok ph]
    have "bind_to_house h item \<in> set (physical_devices (committed w'))"
      using item(1) unfolding rows(2) by force
    moreover have "unique p_device_id (physical_devices (committed w'))"
      using ok by (simp add: db_ok_def physical_ok_def)
    ultimately have "q = bind_to_house h item"
      using unique_tget [of p_device_id "physical_devices (committed w')" "bind_to_house h item"] q(1)
      by (simp add: bind_to_house_def)
    with q(2) have read: "read_physical (bind_to_house h item) = Inr r" by simp
    have profile: "alookup (p_hardware_model item) PROFILES = Some profile" "profile = (''relay'', [''on_off''])"
      using pf by (auto simp: profile_of_def PROFILES_def split: option.splits if_splits)
    show ?thesis
      unfolding Pair Inr prod.case sum.case
      using ck find item rows dv read profile
      by (intro exI [of _ item] exI [of _ profile])
        (auto simp: claim_checks_Inr claim_digest_def claimable_def split: if_splits)
  qed
qed

theorem claim_once_witness:
  "\<exists>e. fst (in_session (claim id ex_fresh ''h2'' (ex_claim\<lparr>dcl_room_id := ''r2''\<rparr>) ''u1'')
     (fold (onboarding_step id ex_fresh) [Lifecycle_call ''h1'' ''d1'' Active ''u1'']
       (snd (in_session (claim id ex_fresh ''h1'' ex_claim ''u1'') ex_world)))) = Inl e"
proof -
  obtain r where "in_session (claim id ex_fresh ''h1'' ex_claim ''u1'') ex_world =
      (Inr r, snd (in_session (claim id ex_fresh ''h1'' ex_claim ''u1'') ex_world))"
    using ex_claim_succeeds unfolding is_ok_iff by (metis prod.collapse)
  then show ?thesis by (rule claim_once) (rule refl, simp add: ex_claim_def)
qed

text \<open>
  C11. Bindings are permanent: once an inventory row belongs to a house, no sequence of
  inventory, claim and lifecycle requests moves it to another house, clears the binding, brings
  its claim code back, or takes it out of the status \<open>revoked\<close>.
\<close>

theorem binding_permanent:
  assumes "p \<in> set (physical_devices (committed w))" and "p_house_id p = Some h"
    and "p_claim_code_hash p = None"
  shows "\<exists>q \<in> set (physical_devices (committed (fold (onboarding_step sha256 fresh) calls w))).
     p_device_id q = p_device_id p \<and> p_hardware_id q = p_hardware_id p \<and>
     p_house_id q = Some h \<and> p_claim_code_hash q = None \<and>
     (p_status p = Revoked \<longrightarrow> p_status q = Revoked)"
proof -
  have "evolving (physical_devices (committed w)) (fold (onboarding_step sha256 fresh) calls w)"
    by (rule inventory.inv_run) (simp add: evolving_def evolved_refl)
  with assms show ?thesis by (fastforce simp: evolving_def evolved_def row_evolves_def)
qed

definition ex_bound :: world where
  "ex_bound = snd (in_session (claim id ex_fresh ''h1'' ex_claim ''u1'') ex_world)"

definition ex_bound_row :: physical_row where
  "ex_bound_row = bind_to_house ''h1'' (hd (physical_devices ex_db))"

theorem binding_permanent_witness:
  "\<exists>q \<in> set (physical_devices (committed (fold (onboarding_step id ex_fresh)
       [Claim_call ''h2'' ex_claim ''u1'', Lifecycle_call ''h1'' ''d1'' Revoked ''u1''] ex_bound))).
     p_device_id q = p_device_id ex_bound_row \<and> p_hardware_id q = p_hardware_id ex_bound_row \<and>
     p_house_id q = Some ''h1'' \<and> p_claim_code_hash q = None \<and>
     (p_status ex_bound_row = Revoked \<longrightarrow> p_status q = Revoked)"
proof (rule binding_permanent)
  have "physical_devices (committed ex_bound) = [ex_bound_row]" by code_simp
  then show "ex_bound_row \<in> set (physical_devices (committed ex_bound))" by simp
  show "p_house_id ex_bound_row = Some ''h1''" "p_claim_code_hash ex_bound_row = None"
    by code_simp+
qed

text \<open>
  A lifecycle request either raises and commits nothing, or the device belonged to the
  house of the request and afterwards has the requested status: it had it already and nothing
  changed, or the status is one the table of allowed transitions lists for the old one, the
  device is located in that house, and its row has been taken offline.
\<close>

theorem lifecycle_effect:
  "case lifecycle fresh h k st a w of
     (Inl e, w') \<Rightarrow> committed w' = committed w
   | (Inr r, w') \<Rightarrow>
       \<exists>item. tget p_device_id k (physical_devices (work w)) = Some item \<and> p_house_id item = Some h \<and>
         tget p_device_id k (physical_devices (committed w')) = Some (item\<lparr>p_status := st\<rparr>) \<and>
         (if p_status item = st
          then physical_devices (committed w') = physical_devices (work w) \<and>
            devices (committed w') = devices (work w)
          else st \<in> set (allowed (p_status item)) \<and> location_house (work w) k = Some h \<and>
            devices (committed w') =
              map (\<lambda>x. if d_id x = k then x\<lparr>d_online := False\<rparr> else x) (devices (work w)))"
proof (cases "lifecycle fresh h k st a w")
  case (Pair x w')
  show ?thesis
  proof (cases x)
    case (Inl e)
    with Pair show ?thesis by (simp add: lifecycle_Inl)
  next
    case (Inr r)
    have irrefl: "s \<notin> set (allowed s)" for s by (cases s) simp_all
    from Pair have run: "lifecycle fresh h k st a w = (Inr r, w')" by (simp add: Inr)
    show ?thesis
      unfolding run prod.case sum.case update_where_def [symmetric]
      by (rule lifecycle_Inr [OF run])
        (auto simp: tget_update_where irrefl dest: tget_SomeD)
  qed
qed

text \<open>
  The guard protects physical devices: when it lets a floor, room or device be deleted, the
  cascading delete keeps the device row of every bound physical device.
\<close>

theorem guard_keeps_bound_devices:
  assumes "structure_mutation kind k None True w = (Inr (), w')" and "kind \<noteq> K_house"
    and "p \<in> set (physical_devices (work w))" and "p_house_id p \<noteq> None"
    and "p_bound_device_id p = Some b"
    and "tget d_id b (devices (work w)) = Some x" and "db_ok (work w)"
  shows "tget d_id b (devices
    (case kind of K_floor \<Rightarrow> repo_cascade floor_repo k (work w)
     | K_room \<Rightarrow> repo_cascade room_repo k (work w)
     | _ \<Rightarrow> repo_cascade device_repo k (work w))) = Some x"
proof -
  have free: "\<not> bound_in_structure_of (work w) kind k"
    using assms(1) by (auto simp: structure_mutation_def structure_house_def found_def
        bound_in_structure_def bnd_Inr_iff andthen_Inr_iff split: option.splits)
  have rm: "unique r_id (rooms (work w))" and "fk d_room_id r_id (rooms (work w)) (devices (work w))"
    using assms(7) by (simp_all add: db_ok_def structure_ok_def)
  with assms(6) obtain r where r: "tget r_id (d_room_id x) (rooms (work w)) = Some r"
    by (fastforce simp: fk_def list_all_iff dest!: tget_SomeD)
  have xid: "d_id x = b" using assms(6) by (auto dest: tget_SomeD)
  have away: "\<not> (if kind = K_device then d_id x = k else if kind = K_room then d_room_id x = k
      else r_floor_id r = k)"
    using free assms(2-6) r by (cases kind) (fastforce simp: list_ex_iff)+
  have gone: "d_room_id x \<notin> set (map r_id (filter q (rooms (work w))))" if "\<not> q r" for q
    using gone_rooms [OF rm, of "d_room_id x" r q] r that by (auto dest: tget_SomeD)
  show ?thesis
  proof (cases kind)
    case K_floor
    with away have "r_floor_id r \<notin> set (map f_id (filter (\<lambda>x. f_id x = k) (floors (work w))))"
      by auto
    from gone [of "\<lambda>r. r_floor_id r \<in> set (map f_id (filter (\<lambda>x. f_id x = k) (floors (work w))))", OF this]
    show ?thesis
      using K_floor assms(6)
      by (simp add: floor_repo_def delete_floor_rows_def delete_room_rows_def delete_device_rows_def
          Let_def tget_tdel)
  next
    case K_room
    then show ?thesis
      using away assms(6)
      by (auto simp: room_repo_def delete_room_rows_def delete_device_rows_def Let_def intro!: tget_tdel)
  next
    case K_device
    then show ?thesis
      using away assms(6) xid by (auto simp: device_repo_def delete_device_rows_def intro!: tget_tdel)
  qed (use assms(2) in simp)
qed

theorem guard_keeps_bound_devices_witness:
  "tget d_id ''d1'' (devices (repo_cascade room_repo ''r2'' (work ex_bound))) =
     Some (claimed_device ex_bound_row ex_claim (''relay'', [''on_off'']))"
proof -
  have run: "structure_mutation K_room ''r2'' None True ex_bound = (Inr (), ex_bound)"
    by code_simp
  have "tget d_id ''d1'' (devices (case K_room of K_floor \<Rightarrow> repo_cascade floor_repo ''r2'' (work ex_bound)
     | K_room \<Rightarrow> repo_cascade room_repo ''r2'' (work ex_bound)
     | _ \<Rightarrow> repo_cascade device_repo ''r2'' (work ex_bound))) =
     Some (claimed_device ex_bound_row ex_claim (''relay'', [''on_off'']))"
  proof (rule guard_keeps_bound_devices [OF run, of ex_bound_row])
    have "physical_devices (work ex_bound) = [ex_bound_row]" by code_simp
    then show "ex_bound_row \<in> set (physical_devices (work ex_bound))" by simp
    show "p_house_id ex_bound_row \<noteq> None" "p_bound_device_id ex_bound_row = Some ''d1''"
      "db_ok (work ex_bound)" by code_simp+
    show "tget d_id ''d1'' (devices (work ex_bound)) =
      Some (claimed_device ex_bound_row ex_claim (''relay'', [''on_off'']))" by code_simp
  qed simp
  then show ?thesis by simp
qed

end
