(* ===== verification/Clocks.thy ===== *)
theory Clocks
  imports Interfaces Json
begin

text \<open>
  \<open>app/services/control_clock.py\<close> and \<open>app/services/command_clock.py\<close>: the two clocks the
  command paths trust. What the timers show at a call is an argument; the clock object is
  a record. Microseconds are integers, the float seconds of \<open>time.monotonic\<close> are exact
  rationals or non-finite values: the rounding of float subtraction (below a microsecond for
  any realistic uptime) and the \<open>OverflowError\<close> of a \<open>timedelta\<close> or \<open>datetime\<close> out of range (beyond
  the year 9999) are not modelled.
\<close>

subsection \<open>Wall time and raw ticks\<close>

text \<open>A \<open>datetime\<close>: its instant in microseconds and its UTC offset, \<open>None\<close> when naive.\<close>

record wall_time =
  instant :: int
  utcoffset :: "int option"

definition is_utc :: "wall_time \<Rightarrow> bool" where
  "is_utc w \<longleftrightarrow> utcoffset w = Some 0"

text \<open>\<open>type(value) is int\<close> can fail for a broken tick source.\<close>

datatype raw_tick = TickInt int | TickOther

subsection \<open>ControlClock\<close>

definition LIFETIME_US :: int where
  "LIFETIME_US = 30000000"

definition PERMIT_US :: int where
  "PERMIT_US = 2000000"

record control_clock =
  ck_epoch :: string
  ck_qualified :: bool
  ck_start :: int
  ck_last :: int
  ck_fence_start :: int
  ck_anchor :: wall_time
  ck_timer_fault :: bool
  ck_wall_fault :: bool
  ck_fence_us :: int

definition fence_bound :: "int \<Rightarrow> int \<Rightarrow> int" where
  "fence_bound rate_error_ppm recovery_error_us =
     (let numerator = (LIFETIME_US + recovery_error_us) * (1000000 + rate_error_ppm);
          denominator = 1000000 - rate_error_ppm
      in (numerator + denominator - 1) div denominator)"

definition control_clock_init ::
  "string \<Rightarrow> bool \<Rightarrow> int \<Rightarrow> int \<Rightarrow> raw_tick \<Rightarrow> wall_time \<Rightarrow> exn + control_clock" where
  "control_clock_init epoch qualified rate_error_ppm recovery_error_us initial wall =
     (if \<not> (0 \<le> rate_error_ppm \<and> rate_error_ppm < 1000000) \<or> recovery_error_us < 0
      then Inl ValueError
      else
        let s = (case initial of TickInt n \<Rightarrow> n | TickOther \<Rightarrow> 0) in
        Inr \<lparr>ck_epoch = epoch, ck_qualified = qualified, ck_start = s, ck_last = s,
             ck_fence_start = s, ck_anchor = wall, ck_timer_fault = (initial = TickOther),
             ck_wall_fault = False,
             ck_fence_us = fence_bound rate_error_ppm recovery_error_us\<rparr>)"

text \<open>\<open>tick\<close>: refuse when unqualified or faulted, latch a fault on a backward or ill-typed reading.\<close>

definition control_tick :: "raw_tick \<Rightarrow> (control_clock, int) op" where
  "control_tick reading =
     bnd (gets (\<lambda>c. \<not> ck_qualified c \<or> ck_timer_fault c)) (\<lambda>closed.
     andthen (reject closed UnavailableError)
     (andthen (modify (\<lambda>c. case reading of
          TickInt value \<Rightarrow> if value < ck_last c then c\<lparr>ck_timer_fault := True\<rparr> else c
        | TickOther \<Rightarrow> c\<lparr>ck_timer_fault := True\<rparr>))
     (bnd (gets (\<lambda>c. \<not> ck_qualified c \<or> ck_timer_fault c)) (\<lambda>closed.
     andthen (reject closed UnavailableError)
     (case reading of
        TickInt value \<Rightarrow> andthen (modify (\<lambda>c. c\<lparr>ck_last := value\<rparr>)) (ret value)
      | TickOther \<Rightarrow> raise UnavailableError)))))"

definition recovered :: "raw_tick \<Rightarrow> (control_clock, bool) op" where
  "recovered reading =
     bnd (control_tick reading) (\<lambda>tick. gets (\<lambda>c. ck_fence_us c \<le> tick - ck_fence_start c))"

definition logical_now :: "raw_tick \<Rightarrow> (control_clock, int) op" where
  "logical_now reading =
     bnd (control_tick reading) (\<lambda>tick.
     bnd (gets ck_anchor) (\<lambda>anchor.
     andthen (reject (\<not> is_utc anchor) UnavailableError)
     (gets (\<lambda>c. instant anchor + (tick - ck_start c)))))"

text \<open>
  What \<open>sample\<close> sees: the first tick, the wall clock, the UTC health probe, and the tick
  that \<open>recovered\<close> takes.
\<close>

record sample_reading =
  sr_tick :: raw_tick
  sr_wall :: wall_time
  sr_utc_health :: bool
  sr_recovery_tick :: raw_tick

definition sample :: "sample_reading \<Rightarrow> (control_clock, int \<times> int) op" where
  "sample r =
     bnd (control_tick (sr_tick r)) (\<lambda>tick.
     bnd (gets ck_anchor) (\<lambda>anchor.
     if \<not> is_utc anchor then
       andthen (modify (\<lambda>c. c\<lparr>ck_wall_fault := True\<rparr>)) (raise UnavailableError)
     else
     bnd (gets (\<lambda>c. instant anchor + (tick - ck_start c))) (\<lambda>value.
     andthen (modify (\<lambda>c.
        if \<not> is_utc (sr_wall r) then c\<lparr>ck_wall_fault := True\<rparr>
        else if \<bar>instant (sr_wall r) - value\<bar> > 1000000 then c\<lparr>ck_wall_fault := True\<rparr>
        else c))
     (bnd (gets ck_wall_fault) (\<lambda>wall_fault.
     andthen (reject (wall_fault \<or> \<not> sr_utc_health r) UnavailableError)
     (bnd (recovered (sr_recovery_tick r)) (\<lambda>ok.
     andthen (reject (\<not> ok) UnavailableError)
     (ret (value, tick)))))))))"

subsection \<open>CommandClock\<close>

definition COMMAND_LIFETIME :: int where
  "COMMAND_LIFETIME = 30000000"

text \<open>\<open>timedelta(seconds=x)\<close> rounds to the nearest microsecond, ties to even.\<close>

definition round_half_even :: "rat \<Rightarrow> int" where
  "round_half_even x =
     (let f = \<lfloor>x\<rfloor>; d = x - of_int f in
      if d < 1 / 2 then f else if 1 / 2 < d then f + 1 else if even f then f else f + 1)"

definition seconds :: "rat \<Rightarrow> int" where
  "seconds x = round_half_even (x * 1000000)"

record command_clock =
  mc_anchor :: "(wall_time \<times> rat) option"
  mc_fault :: bool
  mc_last_tick :: "rat option"

definition command_clock_init :: command_clock where
  "command_clock_init = \<lparr>mc_anchor = None, mc_fault = False, mc_last_tick = None\<rparr>"

record clock_reading =
  cr_wall :: wall_time
  cr_tick :: pyfloat

fun finite_tick :: "pyfloat \<Rightarrow> rat option" where
  "finite_tick (Fin x) = Some x"
| "finite_tick _ = None"

definition went_back :: "command_clock \<Rightarrow> rat \<Rightarrow> bool" where
  "went_back c tick \<longleftrightarrow> (case mc_last_tick c of None \<Rightarrow> False | Some l \<Rightarrow> tick < l)"

definition command_now :: "clock_reading \<Rightarrow> (command_clock, int) op" where
  "command_now r =
     (case finite_tick (cr_tick r) of
        None \<Rightarrow> andthen (modify (\<lambda>c. c\<lparr>mc_fault := True\<rparr>)) (raise UnavailableError)
      | Some tick \<Rightarrow>
     andthen (modify (\<lambda>c. if \<not> is_utc (cr_wall r) \<or> went_back c tick
                           then c\<lparr>mc_fault := True\<rparr> else c))
     (bnd (gets mc_fault) (\<lambda>fault.
     andthen (reject fault UnavailableError)
     (andthen (modify (\<lambda>c. c\<lparr>mc_last_tick := Some tick\<rparr>))
     (andthen (modify (\<lambda>c. if mc_anchor c = None then c\<lparr>mc_anchor := Some (cr_wall r, tick)\<rparr> else c))
     (bnd (gets (\<lambda>c. case mc_anchor c of None \<Rightarrow> (cr_wall r, tick) | Some a \<Rightarrow> a)) (\<lambda>(base, start).
     let elapsed = tick - start; value = instant base + seconds elapsed in
     andthen (modify (\<lambda>c. if elapsed < 0 \<or> \<bar>instant (cr_wall r) - value\<bar> > 1000000
                           then c\<lparr>mc_fault := True\<rparr> else c))
     (bnd (gets mc_fault) (\<lambda>fault.
     andthen (reject fault UnavailableError)
     (ret value))))))))))"

subsection \<open>ControlClock: lemmas\<close>

lemma control_tick_cases:
  "control_tick reading c =
    (if \<not> ck_qualified c \<or> ck_timer_fault c then (Inl UnavailableError, c)
     else case reading of
       TickOther \<Rightarrow> (Inl UnavailableError, c\<lparr>ck_timer_fault := True\<rparr>)
     | TickInt value \<Rightarrow>
         (if value < ck_last c then (Inl UnavailableError, c\<lparr>ck_timer_fault := True\<rparr>)
          else (Inr value, c\<lparr>ck_last := value\<rparr>)))"
  by (auto simp: control_tick_def andthen_reject_apply split: raw_tick.splits)

lemma control_tick_Inr:
  "control_tick reading c = (Inr v, c') \<longleftrightarrow>
     reading = TickInt v \<and> ck_qualified c \<and> \<not> ck_timer_fault c \<and> ck_last c \<le> v \<and>
     c' = c\<lparr>ck_last := v\<rparr>"
  by (auto simp: control_tick_cases split: raw_tick.splits)

text \<open>A tick touches nothing but \<open>last\<close> and the timer fault.\<close>

lemma control_tick_frame:
  assumes "control_tick reading c = (r, c')"
  shows "ck_anchor c' = ck_anchor c" "ck_start c' = ck_start c"
    "ck_fence_start c' = ck_fence_start c" "ck_fence_us c' = ck_fence_us c"
    "ck_epoch c' = ck_epoch c" "ck_qualified c' = ck_qualified c"
    "ck_wall_fault c' = ck_wall_fault c" "ck_last c \<le> ck_last c'"
    "ck_timer_fault c \<Longrightarrow> ck_timer_fault c'"
  using assms by (auto simp: control_tick_cases split: raw_tick.splits if_splits)

interpretation tick_clock: latching_clock control_tick ck_timer_fault "\<lambda>c. Some (ck_last c)"
  by unfold_locales (auto simp: control_tick_cases split: raw_tick.splits if_splits)

definition control_upto :: "control_clock \<Rightarrow> int option" where
  "control_upto c = Some (instant (ck_anchor c) + (ck_last c - ck_start c))"

lemma logical_now_cases:
  "logical_now reading c =
    (case control_tick reading c of
       (Inl e, c') \<Rightarrow> (Inl e, c')
     | (Inr tick, c') \<Rightarrow>
         (if is_utc (ck_anchor c) then (Inr (instant (ck_anchor c) + (tick - ck_start c)), c')
          else (Inl UnavailableError, c')))"
  by (auto simp: logical_now_def bnd_def control_tick_cases andthen_reject_apply
      split: raw_tick.splits prod.splits sum.splits)

lemma recovered_cases:
  "recovered reading c =
    (case control_tick reading c of (Inl e, c') \<Rightarrow> (Inl e, c')
     | (Inr t, c') \<Rightarrow> (Inr (ck_fence_us c \<le> t - ck_fence_start c), c'))"
  by (auto simp: recovered_def bnd_def control_tick_cases split: raw_tick.splits)

lemma sample_cases:
  "sample r c =
    (case control_tick (sr_tick r) c of (Inl e, c1) \<Rightarrow> (Inl e, c1)
     | (Inr tick, c1) \<Rightarrow>
        (if \<not> is_utc (ck_anchor c) then (Inl UnavailableError, c1\<lparr>ck_wall_fault := True\<rparr>)
         else
          let value = instant (ck_anchor c) + (tick - ck_start c) in
          if \<not> is_utc (sr_wall r) \<or> \<bar>instant (sr_wall r) - value\<bar> > 1000000
          then (Inl UnavailableError, c1\<lparr>ck_wall_fault := True\<rparr>)
          else if ck_wall_fault c \<or> \<not> sr_utc_health r then (Inl UnavailableError, c1)
          else
            (case control_tick (sr_recovery_tick r) c1 of (Inl e, c2) \<Rightarrow> (Inl e, c2)
             | (Inr t, c2) \<Rightarrow>
                if ck_fence_us c \<le> t - ck_fence_start c then (Inr (value, tick), c2)
                else (Inl UnavailableError, c2))))"
proof (cases "control_tick (sr_tick r) c")
  case (Pair res c1)
  note frame = control_tick_frame [OF Pair]
  show ?thesis
  proof (cases res)
    case (Inr tick)
    with Pair frame show ?thesis
      by (auto simp: sample_def bnd_def andthen_def recovered_cases Let_def
          split: sum.splits prod.splits)
  qed (use Pair in \<open>simp add: sample_def bnd_def\<close>)
qed

lemma sample_Inr:
  "sample r c = (Inr (value, tick), c') \<longleftrightarrow>
     (\<exists>tick2. sr_tick r = TickInt tick \<and> sr_recovery_tick r = TickInt tick2 \<and>
        ck_qualified c \<and> \<not> ck_timer_fault c \<and> \<not> ck_wall_fault c \<and>
        is_utc (ck_anchor c) \<and> is_utc (sr_wall r) \<and> sr_utc_health r \<and>
        ck_last c \<le> tick \<and> tick \<le> tick2 \<and> ck_fence_us c \<le> tick2 - ck_fence_start c \<and>
        value = instant (ck_anchor c) + (tick - ck_start c) \<and>
        \<bar>instant (sr_wall r) - value\<bar> \<le> 1000000 \<and>
        c' = c\<lparr>ck_last := tick2\<rparr>)"
  by (auto simp: sample_cases control_tick_cases Let_def split: raw_tick.splits if_splits)

lemma sample_frame:
  assumes "sample r c = (res, c')"
  shows "ck_epoch c' = ck_epoch c" "ck_last c \<le> ck_last c'" "ck_start c' = ck_start c"
    "ck_anchor c' = ck_anchor c" "ck_fence_us c' = ck_fence_us c"
    "ck_fence_start c' = ck_fence_start c" "ck_qualified c' = ck_qualified c"
  using assms
  by (auto simp: sample_cases control_tick_cases Let_def split: raw_tick.splits if_splits)

subsection \<open>Reading the control clock\<close>

text \<open>
  The two public ways to read the time of a control clock, in any order; \<open>sample\<close> serves its
  time together with the tick it was read at.
\<close>

datatype control_reading = Logical_read raw_tick | Sample_read sample_reading

definition sample_time :: "sample_reading \<Rightarrow> (control_clock, int) op" where
  "sample_time q = bnd (sample q) (\<lambda>(value, tick). ret value)"

fun read_control :: "control_reading \<Rightarrow> (control_clock, int) op" where
  "read_control (Logical_read t) = logical_now t"
| "read_control (Sample_read q) = sample_time q"

lemma sample_time_apply:
  "snd (sample_time q c) = snd (sample q c)"
  "fst (sample_time q c) = Inr v \<longleftrightarrow> (\<exists>tick. fst (sample q c) = Inr (v, tick))"
  by (auto simp: sample_time_def bnd_def split: prod.splits sum.splits)

lemma sample_upto:
  "fst (sample q c) = Inr (v, tick) \<Longrightarrow> control_upto c \<le> Some v \<and> Some v \<le> control_upto (snd (sample q c))"
  using sample_Inr [of q c v tick "snd (sample q c)"] by (auto simp: control_upto_def prod_eq_iff)

lemma read_control_upto: "control_upto c \<le> control_upto (snd (read_control r c))"
proof (cases r)
  case (Sample_read q)
  then show ?thesis
    using sample_frame [of q c, OF prod.collapse [symmetric]]
    by (simp add: sample_time_apply control_upto_def)
qed (auto simp: logical_now_cases control_tick_cases control_upto_def split: raw_tick.splits)

lemma timer_fault_refuses: "ck_timer_fault c \<Longrightarrow> sample q c = (Inl UnavailableError, c)"
  "ck_timer_fault c \<Longrightarrow> logical_now t c = (Inl UnavailableError, c)"
  by (simp_all add: sample_cases logical_now_cases control_tick_cases)

interpretation control_reads: latching_clock read_control ck_timer_fault control_upto
proof unfold_locales
  fix c r v
  show "ck_timer_fault c \<Longrightarrow> \<exists>e. fst (read_control r c) = Inl e"
    by (cases r) (auto simp: timer_fault_refuses sample_time_def bnd_def)
  show "ck_timer_fault c \<Longrightarrow> ck_timer_fault (snd (read_control r c))"
    by (cases r) (auto simp: timer_fault_refuses sample_time_apply)
  show "control_upto c \<le> control_upto (snd (read_control r c))" by (rule read_control_upto)
  assume served: "fst (read_control r c) = Inr v"
  have "control_upto c \<le> Some v \<and> Some v \<le> control_upto (snd (read_control r c))"
  proof (cases r)
    case (Logical_read t)
    with served show ?thesis
      by (auto simp: logical_now_cases control_tick_cases control_upto_def split: raw_tick.splits if_splits)
  next
    case (Sample_read q)
    with served show ?thesis by (auto simp: sample_time_apply dest: sample_upto)
  qed
  then show "control_upto c \<le> Some v" and "Some v \<le> control_upto (snd (read_control r c))" by simp_all
qed

definition control_stopped :: "control_clock \<Rightarrow> bool" where
  "control_stopped c \<longleftrightarrow> ck_timer_fault c \<or> ck_wall_fault c"

lemma sample_stopped: "control_stopped c \<Longrightarrow> fst (sample q c) = Inl UnavailableError"
  by (auto simp: control_stopped_def sample_cases control_tick_cases Let_def split: raw_tick.splits)

lemma read_stopped: "control_stopped c \<Longrightarrow> control_stopped (snd (read_control r c))"
proof (cases r)
  case (Logical_read t)
  moreover assume "control_stopped c"
  ultimately show ?thesis
    by (auto simp: control_stopped_def logical_now_cases control_tick_cases split: raw_tick.splits)
next
  case (Sample_read q)
  moreover assume "control_stopped c"
  ultimately show ?thesis
    by (auto simp: control_stopped_def sample_time_apply sample_cases control_tick_cases Let_def
        split: raw_tick.splits)
qed

interpretation stopped_reads: invariant_machine "\<lambda>r c. snd (read_control r c)" control_stopped
  by unfold_locales (rule read_stopped)

interpretation sample_reads: latching_clock sample_time control_stopped control_upto
proof unfold_locales
  fix c q v
  show "control_stopped c \<Longrightarrow> \<exists>e. fst (sample_time q c) = Inl e"
    using sample_stopped [of c q]
    by (auto simp: sample_time_def bnd_def split: prod.splits)
  show "control_stopped c \<Longrightarrow> control_stopped (snd (sample_time q c))"
    using read_stopped [of c "Sample_read q"] by simp
  show "control_upto c \<le> control_upto (snd (sample_time q c))"
    using read_control_upto [of c "Sample_read q"] by simp
  show "fst (sample_time q c) = Inr v \<Longrightarrow> control_upto c \<le> Some v"
    and "fst (sample_time q c) = Inr v \<Longrightarrow> Some v \<le> control_upto (snd (sample_time q c))"
    by (auto simp: sample_time_apply dest: sample_upto)
qed

text \<open>
  The recovery fence: \<open>fence_bound\<close> is the least integer that covers the lifetime of an old
  command under the worst rate errors of the two clocks.
\<close>

lemma div_le_iff:
  fixes a n d :: int
  assumes "0 < d"
  shows "a div d \<le> n \<longleftrightarrow> a < (n + 1) * d"
proof
  assume "a div d \<le> n"
  have "a < (a div d + 1) * d"
    using assms pos_mod_bound [of d a] div_mult_mod_eq [of a d] distrib_right [of "a div d" 1 d]
    by linarith
  also have "\<dots> \<le> (n + 1) * d" using \<open>a div d \<le> n\<close> assms by (simp add: mult_right_mono)
  finally show "a < (n + 1) * d" .
next
  assume "a < (n + 1) * d"
  moreover have "a div d * d \<le> a"
    using assms pos_mod_sign [of d a] div_mult_mod_eq [of a d] by linarith
  ultimately have "a div d * d < (n + 1) * d" by linarith
  then have "a div d < n + 1" using assms by (simp add: mult_less_cancel_right)
  then show "a div d \<le> n" by simp
qed

lemma fence_bound_least:
  assumes "0 \<le> ppm" and "ppm < 1000000"
  shows "fence_bound ppm err \<le> n \<longleftrightarrow>
    (LIFETIME_US + err) * (1000000 + ppm) \<le> n * (1000000 - ppm)"
proof -
  let ?d = "1000000 - ppm" and ?a = "(LIFETIME_US + err) * (1000000 + ppm)"
  have d: "0 < ?d" using assms by simp
  have "(?a + ?d - 1) div ?d \<le> n \<longleftrightarrow> ?a + ?d - 1 < (n + 1) * ?d"
    by (rule div_le_iff [OF d])
  also have "(n + 1) * ?d = n * ?d + ?d" by (simp add: distrib_right)
  also have "?a + ?d - 1 < n * ?d + ?d \<longleftrightarrow> ?a \<le> n * ?d" by linarith
  finally show ?thesis by (simp add: fence_bound_def)
qed

subsection \<open>CommandClock: lemmas\<close>

lemma round_half_even_mono:
  assumes "x \<le> y"
  shows "round_half_even x \<le> round_half_even y"
proof (cases "\<lfloor>x\<rfloor> = \<lfloor>y\<rfloor>")
  case True
  with assms show ?thesis by (auto simp: round_half_even_def Let_def)
next
  case False
  with assms have "\<lfloor>x\<rfloor> + 1 \<le> \<lfloor>y\<rfloor>" using floor_mono [OF assms] by linarith
  moreover have "round_half_even x \<le> \<lfloor>x\<rfloor> + 1" and "\<lfloor>y\<rfloor> \<le> round_half_even y"
    by (simp_all add: round_half_even_def Let_def)
  ultimately show ?thesis by linarith
qed

lemma seconds_mono: "x \<le> y \<Longrightarrow> seconds x \<le> seconds y"
  by (simp add: seconds_def round_half_even_mono)

lemma seconds_0 [simp]: "seconds 0 = 0"
  by (simp add: seconds_def round_half_even_def)

definition command_upto :: "command_clock \<Rightarrow> int option" where
  "command_upto c = (case (mc_anchor c, mc_last_tick c) of
     (Some (base, start), Some t) \<Rightarrow> Some (instant base + seconds (t - start)) | _ \<Rightarrow> None)"

lemma command_now_cases:
  "command_now r c =
    (case finite_tick (cr_tick r) of
       None \<Rightarrow> (Inl UnavailableError, c\<lparr>mc_fault := True\<rparr>)
     | Some tick \<Rightarrow>
        (if \<not> is_utc (cr_wall r) \<or> went_back c tick then (Inl UnavailableError, c\<lparr>mc_fault := True\<rparr>)
         else if mc_fault c then (Inl UnavailableError, c)
         else
           let (base, start) = (case mc_anchor c of None \<Rightarrow> (cr_wall r, tick) | Some a \<Rightarrow> a);
               c' = c\<lparr>mc_last_tick := Some tick, mc_anchor := Some (base, start)\<rparr>;
               value = instant base + seconds (tick - start)
           in if tick < start \<or> \<bar>instant (cr_wall r) - value\<bar> > 1000000
              then (Inl UnavailableError, c'\<lparr>mc_fault := True\<rparr>) else (Inr value, c')))"
  by (cases c) (auto simp: command_now_def andthen_reject_apply Let_def split: option.splits prod.splits)

lemma command_upto_mono: "command_upto c \<le> command_upto (snd (command_now r c))"
  by (auto simp: command_now_cases command_upto_def went_back_def Let_def not_less
      intro!: seconds_mono split: option.splits prod.splits)

interpretation wall_clock: latching_clock command_now mc_fault command_upto
proof unfold_locales
  fix c r v
  show "mc_fault c \<Longrightarrow> \<exists>e. fst (command_now r c) = Inl e"
    and "mc_fault c \<Longrightarrow> mc_fault (snd (command_now r c))"
    by (auto simp: command_now_cases split: option.splits)
  have upto: "fst (command_now r c) = Inr v \<Longrightarrow> command_upto (snd (command_now r c)) = Some v"
    by (auto simp: command_now_cases command_upto_def Let_def split: option.splits if_splits prod.splits)
  show mono: "command_upto c \<le> command_upto (snd (command_now r c))" by (rule command_upto_mono)
  show "fst (command_now r c) = Inr v \<Longrightarrow> command_upto c \<le> Some v"
    and "fst (command_now r c) = Inr v \<Longrightarrow> Some v \<le> command_upto (snd (command_now r c))"
    using upto mono by simp_all
qed

lemma command_now_drift:
  "command_now r c = (Inr v, c') \<Longrightarrow>
    is_utc (cr_wall r) \<and> \<not> mc_fault c \<and> \<bar>instant (cr_wall r) - v\<bar> \<le> 1000000"
  by (auto simp: command_now_cases Let_def split: option.splits if_splits prod.splits)

subsection \<open>Properties\<close>

text \<open>
  C34. The recovery fence is exact: \<open>n\<close> ticks of the new control clock reach the fence if and
  only if, for every real duration (in microseconds) in which a clock of the declared rate
  error can show \<open>n\<close> ticks, the slowest such clock of the previous process has shown the
  whole command lifetime plus the recovery error. So no command of the old process can still
  be inside its lifetime, and a smaller fence would not guarantee that.
\<close>

theorem fence_exact:
  fixes ppm err n :: int
  assumes "0 \<le> ppm" and "ppm < 1000000"
  shows "fence_bound ppm err \<le> n \<longleftrightarrow>
    (\<forall>T::rat. of_int n \<le> T * (1 + of_int ppm / 1000000) \<longrightarrow>
       of_int (LIFETIME_US + err) \<le> T * (1 - of_int ppm / 1000000))"
proof -
  define a where "a = (of_int (LIFETIME_US + err) :: rat)"
  define m where "m = (of_int n :: rat)"
  define p where "p = (of_int ppm / 1000000 :: rat)"
  have p: "0 \<le> p" "p < 1" using assms by (simp_all add: p_def)
  have "fence_bound ppm err \<le> n \<longleftrightarrow>
      (of_int ((LIFETIME_US + err) * (1000000 + ppm)) :: rat) \<le> of_int (n * (1000000 - ppm))"
    unfolding of_int_le_iff by (rule fence_bound_least [OF assms])
  also have "\<dots> \<longleftrightarrow> a * (1 + p) \<le> m * (1 - p)"
  proof -
    have "a * (1 + p) = of_int ((LIFETIME_US + err) * (1000000 + ppm)) / 1000000"
      and "m * (1 - p) = of_int (n * (1000000 - ppm)) / 1000000"
      by (simp_all add: a_def m_def p_def field_simps)
    moreover have "x \<le> y \<longleftrightarrow> x / 1000000 \<le> y / 1000000" for x y :: rat by simp
    ultimately show ?thesis by (simp only:)
  qed
  also have "\<dots> \<longleftrightarrow> (\<forall>T. m \<le> T * (1 + p) \<longrightarrow> a \<le> T * (1 - p))"
  proof
    assume le: "a * (1 + p) \<le> m * (1 - p)"
    show "\<forall>T. m \<le> T * (1 + p) \<longrightarrow> a \<le> T * (1 - p)"
    proof (intro allI impI)
      fix T assume "m \<le> T * (1 + p)"
      then have "m * (1 - p) \<le> T * (1 + p) * (1 - p)" using p by (intro mult_right_mono) simp_all
      with le have "a * (1 + p) \<le> (T * (1 - p)) * (1 + p)" by (simp add: algebra_simps)
      with p show "a \<le> T * (1 - p)" by simp
    qed
  next
    assume "\<forall>T. m \<le> T * (1 + p) \<longrightarrow> a \<le> T * (1 - p)"
    moreover have "m \<le> m / (1 + p) * (1 + p)" using p by simp
    ultimately have "a \<le> m / (1 + p) * (1 - p)" by blast
    with p show "a * (1 + p) \<le> m * (1 - p)" by (simp add: field_simps)
  qed
  finally show ?thesis by (simp add: a_def m_def p_def)
qed

theorem fence_exact_witness:
  "fence_bound 200 1000 \<le> 30013007 \<longleftrightarrow>
    (\<forall>T::rat. of_int 30013007 \<le> T * (1 + of_int 200 / 1000000) \<longrightarrow>
       of_int (LIFETIME_US + 1000) \<le> T * (1 - of_int 200 / 1000000))"
  by (rule fence_exact) simp_all



text \<open>
  The control clock opens a sample exactly when it is qualified, no timer or wall fault is
  latched, the anchor and the wall clock are UTC, the host reports synchronised UTC, the ticks
  do not go back, the recovery fence has passed, and the wall clock is within one second of
  the value served, which is the anchor advanced by the elapsed ticks.
\<close>

theorem sample_exact:
  "sample r c = (Inr (value, tick), c') \<longleftrightarrow>
     (\<exists>tick2. sr_tick r = TickInt tick \<and> sr_recovery_tick r = TickInt tick2 \<and>
        ck_qualified c \<and> \<not> ck_timer_fault c \<and> \<not> ck_wall_fault c \<and>
        is_utc (ck_anchor c) \<and> is_utc (sr_wall r) \<and> sr_utc_health r \<and>
        ck_last c \<le> tick \<and> tick \<le> tick2 \<and> ck_fence_us c \<le> tick2 - ck_fence_start c \<and>
        value = instant (ck_anchor c) + (tick - ck_start c) \<and>
        \<bar>instant (sr_wall r) - value\<bar> \<le> 1000000 \<and>
        c' = c\<lparr>ck_last := tick2\<rparr>)"
  by (rule sample_Inr)

end
