(* ===== verification/Provisioning_State.thy ===== *)
theory Provisioning_State
  imports Clocks
begin

text \<open>
  \<open>app/services/provisioning_state.py\<close> with the statuses, events and public view of
  \<open>app/schemas/provisioning.py\<close>: the pure state machine of one provisioning attempt. The
  second half gives the abstract machine the code implements, an \<open>inductive\<close> step relation,
  and the refinement between the two.
\<close>

datatype provisioning_status =
    DISCOVERED | AWAITING_CONFIRMATION | REGISTERED | CONNECTED | ERROR | EXPIRED | CANCELLED

datatype provisioning_error_code =
    PROOF_REJECTED | TRANSPORT_UNAVAILABLE | REGISTRATION_FAILED

datatype provisioning_event =
    Proof_verified | Confirm | Connected | Fail | Cancel | Expire

definition TERMINAL :: "provisioning_status list" where
  "TERMINAL = [CONNECTED, ERROR, EXPIRED, CANCELLED]"

definition is_aware :: "wall_time \<Rightarrow> bool" where
  "is_aware t \<longleftrightarrow> utcoffset t \<noteq> None"

text \<open>\<open>sha256\<close> is the hexadecimal digest of the library.\<close>

definition challenge_digest :: "(string \<Rightarrow> string) \<Rightarrow> string \<Rightarrow> exn + string" where
  "challenge_digest sha256 challenge =
     (if \<not> matches_n is_token_char 43 challenge then Inl ValueError else Inr (sha256 challenge))"

record provisioning_state =
  pv_session_id :: string
  pv_house_id :: string
  pv_device_id :: string
  pv_room_id :: string
  pv_created_at :: wall_time
  pv_expires_at :: wall_time
  pv_challenge_hash :: string
  pv_status :: provisioning_status
  pv_revision :: int
  pv_proof_consumed :: bool
  pv_error_code :: "provisioning_error_code option"

record provisioning_public_status =
  pub_session_id :: string
  pub_house_id :: string
  pub_device_id :: string
  pub_room_id :: string
  pub_status :: provisioning_status
  pub_revision :: int
  pub_expires_at :: wall_time
  pub_error_code :: "provisioning_error_code option"

definition public_status :: "provisioning_state \<Rightarrow> exn + provisioning_public_status" where
  "public_status st =
     (if topic_id (pv_house_id st) \<and> topic_id (pv_device_id st) \<and> topic_id (pv_room_id st) \<and>
         0 \<le> pv_revision st \<and> is_aware (pv_expires_at st)
      then Inr \<lparr>pub_session_id = pv_session_id st, pub_house_id = pv_house_id st,
        pub_device_id = pv_device_id st, pub_room_id = pv_room_id st, pub_status = pv_status st,
        pub_revision = pv_revision st, pub_expires_at = pv_expires_at st,
        pub_error_code = pv_error_code st\<rparr>
      else Inl ValidationError)"

text \<open>\<open>__post_init__\<close>: what every constructed snapshot has to satisfy.\<close>

definition post_init :: "provisioning_state \<Rightarrow> exn + unit" where
  "post_init st =
     seq (check (is_aware (pv_created_at st)) ValueError)
     (seq (check (is_aware (pv_expires_at st)) ValueError)
     (if instant (pv_expires_at st) \<le> instant (pv_created_at st) then Inl ValueError
      else if \<not> matches_n is_hex_char 64 (pv_challenge_hash st) then Inl ValueError
      else if pv_status st = DISCOVERED \<and> pv_proof_consumed st then Inl ValueError
      else if pv_status st \<in> {AWAITING_CONFIRMATION, REGISTERED, CONNECTED} \<and> \<not> pv_proof_consumed st
      then Inl ValueError
      else if (pv_status st = ERROR) \<noteq> (pv_error_code st \<noteq> None) then Inl ValueError
      else ebind (public_status st) (\<lambda>_. Inr ())))"

definition transition ::
  "(string \<Rightarrow> string) \<Rightarrow> provisioning_state \<Rightarrow> provisioning_event \<Rightarrow> int \<Rightarrow> wall_time \<Rightarrow>
   string option \<Rightarrow> provisioning_error_code option \<Rightarrow> exn + provisioning_state" where
  "transition sha256 state event expected_revision now challenge code =
     (if \<not> is_aware now then Inl ValueError
      else if expected_revision \<noteq> pv_revision state then Inl ProvisioningConflict
      else if instant now < instant (pv_created_at state) then Inl ProvisioningConflict
      else if pv_status state \<in> set TERMINAL then Inl ProvisioningConflict
      else if instant (pv_expires_at state) \<le> instant now \<and> event \<noteq> Expire then Inl ProvisioningExpired
      else if challenge \<noteq> None \<and> event \<noteq> Proof_verified then Inl ProvisioningConflict
      else if code \<noteq> None \<and> event \<noteq> Fail then Inl ProvisioningConflict
      else
        ebind
          (if event = Proof_verified then
             (if pv_status state \<noteq> DISCOVERED \<or> pv_proof_consumed state then Inl ProvisioningConflict
              else case challenge of
                  None \<Rightarrow> Inl ProvisioningConflict
                | Some c \<Rightarrow> ebind (challenge_digest sha256 c) (\<lambda>d.
                    if pv_challenge_hash state \<noteq> d then Inl ProvisioningConflict
                    else Inr (Some AWAITING_CONFIRMATION, True)))
           else if event = Confirm \<and> pv_status state = AWAITING_CONFIRMATION
           then Inr (Some REGISTERED, pv_proof_consumed state)
           else if event = Connected \<and> pv_status state = REGISTERED
           then Inr (Some CONNECTED, pv_proof_consumed state)
           else if event = Cancel then Inr (Some CANCELLED, pv_proof_consumed state)
           else if event = Fail \<and> code \<noteq> None then Inr (Some ERROR, pv_proof_consumed state)
           else if event = Expire \<and> instant (pv_expires_at state) \<le> instant now
           then Inr (Some EXPIRED, pv_proof_consumed state)
           else Inr (None, pv_proof_consumed state))
          (\<lambda>(target, consumed).
             case target of
               None \<Rightarrow> Inl ProvisioningConflict
             | Some target \<Rightarrow>
                 let new = state\<lparr>pv_status := target, pv_revision := pv_revision state + 1,
                                 pv_proof_consumed := consumed, pv_error_code := code\<rparr>
                 in ebind (post_init new) (\<lambda>_. Inr new)))"

subsection \<open>Well-formed snapshots\<close>

definition wf_state :: "provisioning_state \<Rightarrow> bool" where
  "wf_state st \<longleftrightarrow> post_init st = Inr ()"

lemma public_status_ok_iff: "(\<exists>p. public_status st = Inr p) \<longleftrightarrow>
    topic_id (pv_house_id st) \<and> topic_id (pv_device_id st) \<and> topic_id (pv_room_id st) \<and>
    0 \<le> pv_revision st \<and> is_aware (pv_expires_at st)"
  by (simp add: public_status_def)

lemma wf_state_iff:
  "wf_state st \<longleftrightarrow>
     is_aware (pv_created_at st) \<and> is_aware (pv_expires_at st) \<and>
     instant (pv_created_at st) < instant (pv_expires_at st) \<and>
     matches_n is_hex_char 64 (pv_challenge_hash st) \<and>
     (pv_status st = DISCOVERED \<longrightarrow> \<not> pv_proof_consumed st) \<and>
     (pv_status st \<in> {AWAITING_CONFIRMATION, REGISTERED, CONNECTED} \<longrightarrow> pv_proof_consumed st) \<and>
     (pv_status st = ERROR \<longleftrightarrow> pv_error_code st \<noteq> None) \<and>
     topic_id (pv_house_id st) \<and> topic_id (pv_device_id st) \<and> topic_id (pv_room_id st) \<and>
     0 \<le> pv_revision st"
  by (auto simp: wf_state_def post_init_def ebind_Inr_iff public_status_def)

subsection \<open>The abstract machine\<close>

text \<open>
  \<open>pv_step s e t\<close>: an attempt in status \<open>s\<close> may take event \<open>e\<close> to status \<open>t\<close>. Proof,
  confirmation and connection happen in this order and only before expiry.
\<close>

inductive pv_step :: "provisioning_status \<Rightarrow> provisioning_event \<Rightarrow> provisioning_status \<Rightarrow> bool" where
  verified: "pv_step DISCOVERED Proof_verified AWAITING_CONFIRMATION"
| confirm: "pv_step AWAITING_CONFIRMATION Confirm REGISTERED"
| connect: "pv_step REGISTERED Connected CONNECTED"
| cancel: "s \<notin> set TERMINAL \<Longrightarrow> pv_step s Cancel CANCELLED"
| fail: "s \<notin> set TERMINAL \<Longrightarrow> pv_step s Fail ERROR"
| expire: "s \<notin> set TERMINAL \<Longrightarrow> pv_step s Expire EXPIRED"

code_pred (modes: i \<Rightarrow> i \<Rightarrow> o \<Rightarrow> bool, i \<Rightarrow> i \<Rightarrow> i \<Rightarrow> bool) pv_step .

inductive_simps pv_step_simps:
  "pv_step s Proof_verified t" "pv_step s Confirm t" "pv_step s Connected t"
  "pv_step s Cancel t" "pv_step s Fail t" "pv_step s Expire t"

inductive_cases pv_step_to_connected: "pv_step s e CONNECTED"

lemma TERMINAL_iff [simp]:
  "s \<in> set TERMINAL \<longleftrightarrow> s = CONNECTED \<or> s = ERROR \<or> s = EXPIRED \<or> s = CANCELLED"
  by (simp add: TERMINAL_def)

lemma pv_step_not_terminal: "pv_step s e t \<Longrightarrow> s \<notin> set TERMINAL"
  by (auto elim: pv_step.cases)

lemma pv_step_deterministic: "pv_step s e t \<Longrightarrow> pv_step s e t' \<Longrightarrow> t = t'"
  by (auto elim!: pv_step.cases)

text \<open>The guard of an event: what the code checks besides the status.\<close>

definition event_guard ::
  "(string \<Rightarrow> string) \<Rightarrow> provisioning_state \<Rightarrow> provisioning_event \<Rightarrow> int \<Rightarrow> wall_time \<Rightarrow>
   string option \<Rightarrow> provisioning_error_code option \<Rightarrow> bool" where
  "event_guard sha256 st e r now challenge code \<longleftrightarrow>
     is_aware now \<and> r = pv_revision st \<and> instant (pv_created_at st) \<le> instant now \<and>
     (e = Expire \<longleftrightarrow> instant (pv_expires_at st) \<le> instant now) \<and>
     (if e = Proof_verified
      then \<exists>c. challenge = Some c \<and> challenge_digest sha256 c = Inr (pv_challenge_hash st)
      else challenge = None) \<and>
     (code \<noteq> None \<longleftrightarrow> e = Fail)"

text \<open>
  The code takes exactly the abstract steps whose guard holds, counts one pv_revision and
  marks the proof consumed exactly when it was verified.
\<close>

lemma transition_iff:
  assumes "wf_state st"
  shows "transition sha256 st e r now challenge code = Inr st' \<longleftrightarrow>
    event_guard sha256 st e r now challenge code \<and>
    (\<exists>t. pv_step (pv_status st) e t \<and>
      st' = st\<lparr>pv_status := t, pv_revision := pv_revision st + 1,
               pv_proof_consumed := (e = Proof_verified \<or> pv_proof_consumed st), pv_error_code := code\<rparr>)"
proof -
  note wf = assms [unfolded wf_state_iff]
  show ?thesis
    using wf
    by (cases e; cases "pv_status st")
      (auto simp: transition_def event_guard_def pv_step_simps ebind_Inr_iff post_init_def
        public_status_def Let_def not_less not_le split: if_splits option.splits)
qed

lemma transition_wf:
  assumes "transition sha256 st e r now challenge code = Inr st'"
  shows "wf_state st'"
  using assms
  by (auto simp: transition_def wf_state_def ebind_Inr_iff Let_def
      split: if_splits option.splits)

subsection \<open>Runs of an attempt\<close>

text \<open>
  One input of a run: an event with the arguments of the call. A refused call leaves the
  snapshot as it was; \<open>accepted\<close> lists the events a run took.
\<close>

record pv_input =
  in_event :: provisioning_event
  in_revision :: int
  in_now :: wall_time
  in_challenge :: "string option"
  in_code :: "provisioning_error_code option"

definition pv_call :: "(string \<Rightarrow> string) \<Rightarrow> pv_input \<Rightarrow> provisioning_state \<Rightarrow> exn + provisioning_state" where
  "pv_call sha256 i st =
     transition sha256 st (in_event i) (in_revision i) (in_now i) (in_challenge i) (in_code i)"

definition pv_apply :: "(string \<Rightarrow> string) \<Rightarrow> pv_input \<Rightarrow> provisioning_state \<Rightarrow> provisioning_state" where
  "pv_apply sha256 i st = (case pv_call sha256 i st of Inl _ \<Rightarrow> st | Inr st' \<Rightarrow> st')"

primrec pv_accepted ::
  "(string \<Rightarrow> string) \<Rightarrow> pv_input list \<Rightarrow> provisioning_state \<Rightarrow> provisioning_event list" where
  "pv_accepted sha256 [] st = []"
| "pv_accepted sha256 (i # is) st =
     (case pv_call sha256 i st of
        Inl _ \<Rightarrow> pv_accepted sha256 is st
      | Inr st' \<Rightarrow> in_event i # pv_accepted sha256 is st')"

definition pv_final :: "provisioning_state \<Rightarrow> bool" where
  "pv_final st \<longleftrightarrow> pv_status st \<in> set TERMINAL"

fun pv_rank :: "provisioning_status \<Rightarrow> nat" where
  "pv_rank DISCOVERED = 3"
| "pv_rank AWAITING_CONFIRMATION = 2"
| "pv_rank REGISTERED = 1"
| "pv_rank _ = 0"

lemma pv_call_final: "pv_final st \<Longrightarrow> \<exists>e. pv_call sha256 i st = Inl e"
  by (auto simp: pv_call_def transition_def pv_final_def)

lemma pv_apply_Inr: "pv_call sha256 i st = Inr st' \<Longrightarrow> pv_apply sha256 i st = st'"
  by (simp add: pv_apply_def)

lemma pv_step_rank: "pv_step s e t \<Longrightarrow> pv_rank t < pv_rank s"
  by (cases s; auto elim: pv_step.cases)

lemma pv_call_step:
  assumes "wf_state st" and "pv_call sha256 i st = Inr st'"
  shows "pv_step (pv_status st) (in_event i) (pv_status st')"
  using assms by (auto simp: pv_call_def transition_iff)

text \<open>Well-formed snapshots are kept by every call, so they are kept by every run.\<close>

interpretation pv_machine: invariant_machine "pv_apply sha256" wf_state for sha256
  by unfold_locales
    (auto simp: pv_apply_def pv_call_def dest: transition_wf split: sum.splits)

lemma pv_call_rank: "pv_call sha256 i st = Inr st' \<Longrightarrow> pv_rank (pv_status st') < pv_rank (pv_status st)"
  by (cases "pv_status st")
    (auto simp: pv_call_def transition_def ebind_Inr_iff Let_def split: if_splits option.splits
      provisioning_event.splits)

text \<open>Terminal snapshots absorb every call, and no call raises the rank.\<close>

interpretation pv_absorb: progress_machine "pv_apply sha256" pv_final "\<lambda>st. pv_rank (pv_status st)"
  for sha256
proof unfold_locales
  fix st i
  assume "pv_final st"
  from pv_call_final [OF this, of sha256 i] show "pv_apply sha256 i st = st"
    by (auto simp: pv_apply_def)
next
  fix st i
  show "pv_rank (pv_status (pv_apply sha256 i st)) \<le> pv_rank (pv_status st)"
    by (auto simp: pv_apply_def dest!: pv_call_rank split: sum.splits)
qed

lemma pv_rank_apply:
  "wf_state st \<Longrightarrow> pv_rank (pv_status (pv_apply sha256 i st)) \<le> pv_rank (pv_status st)"
  by (auto simp: pv_apply_def dest!: pv_call_step pv_step_rank split: sum.splits)

text \<open>A run accepts at most as many events as the rank of its start.\<close>

lemma pv_accepted_length:
  "wf_state st \<Longrightarrow>
   length (pv_accepted sha256 is st) + pv_rank (pv_status (fold (pv_apply sha256) is st))
     \<le> pv_rank (pv_status st)"
proof (induction "is" arbitrary: st)
  case (Cons i "is")
  show ?case
  proof (cases "pv_call sha256 i st")
    case (Inr st')
    then have "wf_state st'" by (auto simp: pv_call_def dest: transition_wf)
    moreover have "pv_rank (pv_status st') < pv_rank (pv_status st)"
      using pv_call_step [OF Cons.prems Inr] by (rule pv_step_rank)
    ultimately show ?thesis
      using Cons.IH [of st'] Inr by (simp add: pv_apply_def)
  qed (use Cons in \<open>simp add: pv_apply_def\<close>)
qed simp

text \<open>The events that lead to \<open>CONNECTED\<close>, by the status the run starts in.\<close>

fun connect_path :: "provisioning_status \<Rightarrow> provisioning_event list" where
  "connect_path DISCOVERED = [Proof_verified, Confirm, Connected]"
| "connect_path AWAITING_CONFIRMATION = [Confirm, Connected]"
| "connect_path REGISTERED = [Connected]"
| "connect_path _ = []"

lemma connect_path_step:
  assumes "pv_step s e t" and "t \<notin> set TERMINAL \<or> t = CONNECTED"
  shows "connect_path s = e # connect_path t"
  using assms by (auto elim: pv_step.cases)

lemma run_to_connected:
  "wf_state st \<Longrightarrow> pv_status (fold (pv_apply sha256) is st) = CONNECTED \<Longrightarrow>
   pv_accepted sha256 is st = connect_path (pv_status st)"
proof (induction "is" arbitrary: st)
  case (Cons i "is")
  show ?case
  proof (cases "pv_call sha256 i st")
    case (Inr st')
    then have wf': "wf_state st'" by (auto simp: pv_call_def dest: transition_wf)
    have end_eq: "pv_status (fold (pv_apply sha256) is st') = CONNECTED"
      using Cons.prems(2) by (simp add: pv_apply_Inr [OF Inr])
    have "pv_status st' \<notin> set TERMINAL \<or> pv_status st' = CONNECTED"
    proof (rule disjCI)
      assume "pv_status st' \<noteq> CONNECTED"
      then show "pv_status st' \<notin> set TERMINAL"
        using end_eq pv_absorb.run_final [of st'] by (auto simp: pv_final_def)
    qed
    with pv_call_step [OF Cons.prems(1) Inr] Cons.IH [OF wf' end_eq] Inr show ?thesis
      by (simp add: connect_path_step)
  qed (use Cons in \<open>simp add: pv_apply_def\<close>)
qed simp

lemma transition_expired:
  "instant (pv_expires_at st) \<le> instant now \<Longrightarrow> transition sha256 st e r now ch co = Inr st' \<Longrightarrow>
   e = Expire"
  by (auto simp: transition_def split: if_splits)

subsection \<open>Properties\<close>

text \<open>
  C36. The transition function implements the abstract machine: on a well-formed snapshot it
  returns exactly the snapshots that one abstract step reaches under the guard of the event
  (current revision, an aware time not before the creation, expiry exactly from the deadline on, proof
  challenge exactly for the proof event, error code exactly for a failure), with the revision
  advanced by one.
\<close>

theorem transition_refines:
  assumes "wf_state st"
  shows "transition sha256 st e r now challenge code = Inr st' \<longleftrightarrow>
    event_guard sha256 st e r now challenge code \<and>
    (\<exists>t. pv_step (pv_status st) e t \<and>
      st' = st\<lparr>pv_status := t, pv_revision := pv_revision st + 1,
               pv_proof_consumed := (e = Proof_verified \<or> pv_proof_consumed st), pv_error_code := code\<rparr>)"
  by (rule transition_iff [OF assms])

definition ex_attempt :: provisioning_state where
  "ex_attempt = \<lparr>pv_session_id = ''s'', pv_house_id = ''h'', pv_device_id = ''d'', pv_room_id = ''r'',
     pv_created_at = \<lparr>instant = 0, utcoffset = Some 0\<rparr>,
     pv_expires_at = \<lparr>instant = 100, utcoffset = Some 0\<rparr>,
     pv_challenge_hash = replicate 64 CHR ''a'', pv_status = DISCOVERED, pv_revision = 0,
     pv_proof_consumed = False, pv_error_code = None\<rparr>"

lemma ex_attempt_wf: "wf_state ex_attempt"
  by code_simp

theorem transition_refines_witness:
  "transition id ex_attempt Cancel 0 \<lparr>instant = 5, utcoffset = Some 0\<rparr> None None =
     Inr (ex_attempt\<lparr>pv_status := CANCELLED, pv_revision := 1\<rparr>)"
  unfolding transition_refines [OF ex_attempt_wf]
  by (auto simp: event_guard_def ex_attempt_def is_aware_def pv_step_simps)

text \<open>
  Every run of a well-formed attempt stays well-formed, accepts at most three events
  whatever is thrown at it, and is connected at the end only if the accepted events are
  exactly the proof, the confirmation and the connection still missing at its start, in that
  order.
\<close>

theorem attempt_runs:
  assumes "wf_state st"
  shows "wf_state (fold (pv_apply sha256) inputs st) \<and>
    length (pv_accepted sha256 inputs st) \<le> 3 \<and>
    (pv_status (fold (pv_apply sha256) inputs st) = CONNECTED \<longrightarrow>
      pv_accepted sha256 inputs st = connect_path (pv_status st))"
proof (intro conjI impI)
  show "wf_state (fold (pv_apply sha256) inputs st)" using assms by (rule pv_machine.inv_run)
  have "pv_rank (pv_status st) \<le> 3" by (cases "pv_status st") simp_all
  with pv_accepted_length [OF assms, of sha256 inputs]
  show "length (pv_accepted sha256 inputs st) \<le> 3" by linarith
  show "pv_accepted sha256 inputs st = connect_path (pv_status st)"
    if "pv_status (fold (pv_apply sha256) inputs st) = CONNECTED"
    using that by (rule run_to_connected [OF assms])
qed

definition ex_input :: "provisioning_event \<Rightarrow> int \<Rightarrow> string option \<Rightarrow> pv_input" where
  "ex_input e n ch = \<lparr>in_event = e, in_revision = n, in_now = \<lparr>instant = 5, utcoffset = Some 0\<rparr>,
     in_challenge = ch, in_code = None\<rparr>"

theorem attempt_runs_witness:
  "pv_accepted (\<lambda>_. replicate 64 CHR ''a'')
     [ex_input Proof_verified 0 (Some (replicate 43 CHR ''k'')), ex_input Cancel 0 None,
      ex_input Confirm 1 None, ex_input Connected 2 None, ex_input Cancel 3 None] ex_attempt =
   [Proof_verified, Confirm, Connected]"
proof -
  have "pv_status (fold (pv_apply (\<lambda>_. replicate 64 CHR ''a''))
     [ex_input Proof_verified 0 (Some (replicate 43 CHR ''k'')), ex_input Cancel 0 None,
      ex_input Confirm 1 None, ex_input Connected 2 None, ex_input Cancel 3 None] ex_attempt) = CONNECTED"
    by code_simp
  moreover have "connect_path (pv_status ex_attempt) = [Proof_verified, Confirm, Connected]"
    by (simp add: ex_attempt_def)
  ultimately show ?thesis using attempt_runs [OF ex_attempt_wf] by metis
qed

end
