(* ===== verification/Provisioning.thy ===== *)
theory Provisioning
  imports Onboarding Provisioning_State Json_Text
begin

text \<open>
  \<open>app/services/provisioning_service.py\<close>: creating, reading and cancelling provisioning
  sessions. Every transaction authorises first and commits once; status changes go through
  the pure transition function and a compare-and-set on revision and status. \<open>now\<close> is what
  the database clock shows at the one place of a call that reads it.
\<close>

definition TTL :: int where
  "TTL = 300000000"

definition utc :: "int \<Rightarrow> wall_time" where
  "utc t = \<lparr>instant = t, utcoffset = Some 0\<rparr>"

definition authorize :: "string \<Rightarrow> string \<Rightarrow> ('z world_scheme, unit) op" where
  "authorize house_id actor_id =
     bnd (query (\<lambda>d. tget h_id house_id (houses d))) (\<lambda>house.
     andthen (reject (house = None) EntityNotFoundError)
     (bnd (query (\<lambda>d. membership_in d actor_id house_id)) (\<lambda>membership.
     bnd (query (\<lambda>d. tget u_id actor_id (users d))) (\<lambda>user.
     case (user, membership) of
       (Some u, Some m) \<Rightarrow>
         andthen (reject (\<not> u_is_active u) EntityNotFoundError)
         (reject (DEVICE_ONBOARD \<notin> set (ROLE_PERMISSIONS (m_role m))) (HTTPException 403))
     | _ \<Rightarrow> raise EntityNotFoundError))))"

fun status_of_row :: "session_status \<Rightarrow> provisioning_status" where
  "status_of_row S_discovered = DISCOVERED"
| "status_of_row S_cancelled = CANCELLED"
| "status_of_row S_expired = EXPIRED"

text \<open>The column accepts three statuses; any other value violates its check constraint.\<close>

fun row_of_status :: "provisioning_status \<Rightarrow> session_status option" where
  "row_of_status DISCOVERED = Some S_discovered"
| "row_of_status CANCELLED = Some S_cancelled"
| "row_of_status EXPIRED = Some S_expired"
| "row_of_status _ = None"

definition row_state :: "provisioning_row \<Rightarrow> provisioning_state" where
  "row_state r =
     \<lparr>pv_session_id = ps_id r, pv_house_id = ps_house_id r, pv_device_id = ps_device_id r,
      pv_room_id = ps_room_id r, pv_created_at = utc (ps_created_at r),
      pv_expires_at = utc (ps_expires_at r), pv_challenge_hash = ps_challenge_hash r,
      pv_status = status_of_row (ps_status r), pv_revision = ps_revision r,
      pv_proof_consumed = False, pv_error_code = None\<rparr>"

definition state_of :: "provisioning_row \<Rightarrow> exn + provisioning_state" where
  "state_of r = ebind (post_init (row_state r)) (\<lambda>_. Inr (row_state r))"

definition same_version :: "provisioning_row \<Rightarrow> provisioning_row \<Rightarrow> bool" where
  "same_version row q \<longleftrightarrow>
     ps_id q = ps_id row \<and> ps_revision q = ps_revision row \<and> ps_status q = ps_status row"

definition apply_event ::
  "(string \<Rightarrow> string) \<Rightarrow> provisioning_row \<Rightarrow> provisioning_event \<Rightarrow> int \<Rightarrow>
   (provisioning_row \<Rightarrow> provisioning_row) \<Rightarrow> ('z world_scheme, provisioning_row) op" where
  "apply_event sha256 row event now values =
     bnd (lift (state_of row)) (\<lambda>st.
     bnd (lift (transition sha256 st event (ps_revision row) (utc now) None None)) (\<lambda>new.
     case row_of_status (pv_status new) of
       None \<Rightarrow> raise IntegrityError
     | Some status \<Rightarrow>
         bnd (query (\<lambda>d. rowcount (same_version row) (provisioning_sessions d))) (\<lambda>n.
         andthen (store (provisioning_sessions_update
           (update_where (same_version row)
             (\<lambda>q. values (q\<lparr>ps_status := status, ps_revision := pv_revision new\<rparr>)))))
         (andthen (reject (n \<noteq> 1) ConflictError)
         (bnd (query (\<lambda>d. tget ps_id (ps_id row) (provisioning_sessions d))) found)))))"

definition expire_row ::
  "(string \<Rightarrow> string) \<Rightarrow> provisioning_row \<Rightarrow> int \<Rightarrow> ('z world_scheme, provisioning_row) op" where
  "expire_row sha256 row now =
     (if ps_status row = S_discovered \<and> ps_expires_at row \<le> now
      then apply_event sha256 row Expire now (\<lambda>q. q) else ret row)"

definition public_of :: "provisioning_row \<Rightarrow> exn + provisioning_public_status" where
  "public_of row = ebind (state_of row) public_status"

text \<open>\<open>json.dumps\<close> with sorted keys and compact separators.\<close>

definition request_body :: "device_claim \<Rightarrow> string \<Rightarrow> string" where
  "request_body data supplied =
     obj_text [(''claim_digest'', quote supplied), (''hardware_id'', quote (dcl_hardware_id data)),
       (''name'', quote (dcl_name data)), (''room_id'', quote (dcl_room_id data))]"

definition zero_digest :: string where
  "zero_digest = replicate 64 CHR ''0''"

text \<open>The inventory lookup of a new attempt, and the row it inserts.\<close>

definition unclaimed_item ::
  "string \<Rightarrow> device_claim \<Rightarrow> string \<Rightarrow> ('z world_scheme, physical_row) op" where
  "unclaimed_item house_id data supplied =
     bnd (structure_house K_room (dcl_room_id data)) (\<lambda>room_house_id.
     andthen (reject (room_house_id \<noteq> house_id) EntityNotFoundError)
     (bnd (by_hardware (dcl_hardware_id data)) (\<lambda>item.
     let expected = (case item of None \<Rightarrow> zero_digest | Some p \<Rightarrow> dflt zero_digest (p_claim_code_hash p)) in
     case item of
       None \<Rightarrow> raise EntityNotFoundError
     | Some p \<Rightarrow>
         andthen (reject (p_status p \<noteq> Unprovisioned \<or> expected \<noteq> supplied) EntityNotFoundError)
         (ret p))))"

definition close_active ::
  "(string \<Rightarrow> string) \<Rightarrow> string \<Rightarrow> int \<Rightarrow> ('z world_scheme, unit) op" where
  "close_active sha256 device_id now =
     bnd (query (\<lambda>d. tfind (\<lambda>r. ps_device_id r = device_id \<and> ps_status r = S_discovered)
                       (provisioning_sessions d))) (\<lambda>active.
     case active of
       None \<Rightarrow> ret ()
     | Some r \<Rightarrow>
         bnd (expire_row sha256 r now) (\<lambda>r'.
         reject (ps_status r' = S_discovered) ConflictError))"

definition new_session ::
  "(string \<Rightarrow> string) \<Rightarrow> (nat \<Rightarrow> string) \<Rightarrow> string \<Rightarrow> string \<Rightarrow> device_claim \<Rightarrow> string \<Rightarrow> string \<Rightarrow> string \<Rightarrow>
   int \<Rightarrow> ('z world_scheme, provisioning_row) op" where
  "new_session sha256 fresh house_id actor_id data device_id key body_hash now =
     bnd (draw fresh) (\<lambda>sid.
     bnd (draw fresh) (\<lambda>challenge.
     bnd (draw fresh) (\<lambda>token.
     let row =
       \<lparr>ps_id = sid, ps_house_id = house_id, ps_room_id = dcl_room_id data, ps_device_id = device_id,
        ps_actor_id = actor_id, ps_name = dcl_name data, ps_status = S_discovered, ps_revision = 0,
        ps_created_at = now, ps_expires_at = now + TTL, ps_challenge_hash = sha256 challenge,
        ps_token_hash = sha256 token, ps_create_key_hash = sha256 key,
        ps_request_hash = body_hash, ps_cancel_key_hash = None, ps_cancel_actor_id = None,
        ps_cancel_revision = None\<rparr> in
     andthen (store (provisioning_sessions_update (\<lambda>t. t @ [row])))
     (andthen flush
     (ret row)))))"

definition previous_attempt :: "db \<Rightarrow> string \<Rightarrow> string \<Rightarrow> string \<Rightarrow> provisioning_row option" where
  "previous_attempt d house_id actor_id key_hash =
     tfind (\<lambda>r. ps_house_id r = house_id \<and> ps_actor_id r = actor_id \<and> ps_create_key_hash r = key_hash)
       (provisioning_sessions d)"

definition create_session ::
  "(string \<Rightarrow> string) \<Rightarrow> (nat \<Rightarrow> string) \<Rightarrow> string \<Rightarrow> string \<Rightarrow> device_claim \<Rightarrow> string \<Rightarrow> int \<Rightarrow>
   ('z world_scheme, provisioning_public_status) op" where
  "create_session sha256 fresh house_id actor_id data key now =
     bnd (lift (claim_digest sha256 (dcl_claim_code data))) (\<lambda>supplied.
     let body_hash = sha256 (request_body data supplied) in
     atomic
       (andthen (authorize house_id actor_id)
       (bnd (query (\<lambda>d. previous_attempt d house_id actor_id (sha256 key))) (\<lambda>previous.
       bnd
         (case previous of
            Some r \<Rightarrow>
              andthen (reject (ps_request_hash r \<noteq> body_hash) ConflictError)
              (expire_row sha256 r now)
          | None \<Rightarrow>
              bnd (unclaimed_item house_id data supplied) (\<lambda>item.
              andthen (close_active sha256 (p_device_id item) now)
              (new_session sha256 fresh house_id actor_id data (p_device_id item) key body_hash now)))
         (\<lambda>row. lift (public_of row))))))"

definition load_session ::
  "string \<Rightarrow> string \<Rightarrow> string \<Rightarrow> ('z world_scheme, provisioning_row) op" where
  "load_session house_id actor_id session_id =
     andthen (authorize house_id actor_id)
     (bnd (query (\<lambda>d. tfind (\<lambda>r. ps_id r = session_id \<and> ps_house_id r = house_id)
                       (provisioning_sessions d))) found)"

definition get_session ::
  "(string \<Rightarrow> string) \<Rightarrow> string \<Rightarrow> string \<Rightarrow> string \<Rightarrow> int \<Rightarrow>
   ('z world_scheme, provisioning_public_status) op" where
  "get_session sha256 house_id actor_id session_id now =
     atomic
       (bnd (load_session house_id actor_id session_id) (\<lambda>row.
       bnd (expire_row sha256 row now) (\<lambda>row.
       lift (public_of row))))"

text \<open>The body of a cancellation: whether it conflicts, and the row to report.\<close>

definition cancel_body ::
  "(string \<Rightarrow> string) \<Rightarrow> string \<Rightarrow> string \<Rightarrow> string \<Rightarrow> int \<Rightarrow> string \<Rightarrow> int \<Rightarrow>
   ('z world_scheme, bool \<times> provisioning_public_status) op" where
  "cancel_body sha256 house_id actor_id session_id revision key now =
     bnd (load_session house_id actor_id session_id) (\<lambda>row.
     bnd (expire_row sha256 row now) (\<lambda>row.
     bnd
       (if ps_cancel_key_hash row = Some (sha256 key) \<and> ps_cancel_actor_id row = Some actor_id then
          andthen (reject (ps_cancel_revision row \<noteq> Some revision) ConflictError) (ret (False, row))
        else if ps_revision row \<noteq> revision \<or> ps_status row \<noteq> S_discovered then ret (True, row)
        else
          bnd (apply_event sha256 row Cancel now
                (\<lambda>q. q\<lparr>ps_cancel_key_hash := Some (sha256 key), ps_cancel_actor_id := Some actor_id,
                      ps_cancel_revision := Some revision\<rparr>)) (\<lambda>row'. ret (False, row')))
       (\<lambda>(conflict, row). bnd (lift (public_of row)) (\<lambda>result. ret (conflict, result)))))"

definition cancel_session ::
  "(string \<Rightarrow> string) \<Rightarrow> string \<Rightarrow> string \<Rightarrow> string \<Rightarrow> int \<Rightarrow> string \<Rightarrow> int \<Rightarrow>
   ('z world_scheme, provisioning_public_status) op" where
  "cancel_session sha256 house_id actor_id session_id revision key now =
     bnd (atomic (cancel_body sha256 house_id actor_id session_id revision key now))
       (\<lambda>(conflict, result). if conflict then raise ConflictError else ret result)"

subsection \<open>Stored attempts only move forward\<close>

definition attempt_evolves :: "provisioning_row \<Rightarrow> provisioning_row \<Rightarrow> bool" where
  "attempt_evolves p q \<longleftrightarrow>
     ps_id q = ps_id p \<and> ps_house_id q = ps_house_id p \<and> ps_room_id q = ps_room_id p \<and>
     ps_device_id q = ps_device_id p \<and> ps_actor_id q = ps_actor_id p \<and>
     ps_expires_at q = ps_expires_at p \<and> ps_create_key_hash q = ps_create_key_hash p \<and>
     ps_request_hash q = ps_request_hash p \<and>
     (ps_status p \<noteq> S_discovered \<longrightarrow> q = p)"

definition attempts_evolved :: "provisioning_row list \<Rightarrow> db \<Rightarrow> bool" where
  "attempts_evolved rows d \<longleftrightarrow>
     (\<forall>p \<in> set rows. \<exists>q \<in> set (provisioning_sessions d). attempt_evolves p q)"

lemma attempt_evolves_refl [simp]: "attempt_evolves p p"
  by (simp add: attempt_evolves_def)

lemma attempt_evolves_trans: "attempt_evolves p q \<Longrightarrow> attempt_evolves q r \<Longrightarrow> attempt_evolves p r"
  unfolding attempt_evolves_def by metis

lemma attempts_evolved_refl: "attempts_evolved (provisioning_sessions d) d"
  unfolding attempts_evolved_def using attempt_evolves_refl by blast

lemma attempts_evolved_update:
  assumes "attempts_evolved rows d" and "\<And>p. m p \<Longrightarrow> attempt_evolves p (f p)"
  shows "attempts_evolved rows (provisioning_sessions_update (update_where m f) d)"
  unfolding attempts_evolved_def
proof
  fix p
  assume "p \<in> set rows"
  with assms(1) obtain q where q: "q \<in> set (provisioning_sessions d)" "attempt_evolves p q"
    by (auto simp: attempts_evolved_def)
  have "attempt_evolves q (if m q then f q else q)" using assms(2) by simp
  with q(2) have "attempt_evolves p (if m q then f q else q)" by (rule attempt_evolves_trans)
  moreover have "(if m q then f q else q)
      \<in> set (provisioning_sessions (provisioning_sessions_update (update_where m f) d))"
    using q(1) by (simp add: update_where_def)
  ultimately show "\<exists>r \<in> set (provisioning_sessions
      (provisioning_sessions_update (update_where m f) d)). attempt_evolves p r" by blast
qed

lemma transition_not_terminal:
  "transition sha256 (row_state row) e r now ch co = Inr st \<Longrightarrow> ps_status row = S_discovered"
  by (cases "ps_status row") (auto simp: transition_def row_state_def split: if_splits)

lemma pres_attempts_apply [pres]:
  assumes vals: "\<And>q. ps_id (values q) = ps_id q \<and> ps_house_id (values q) = ps_house_id q \<and>
      ps_room_id (values q) = ps_room_id q \<and> ps_device_id (values q) = ps_device_id q \<and>
      ps_actor_id (values q) = ps_actor_id q \<and> ps_expires_at (values q) = ps_expires_at q \<and>
      ps_create_key_hash (values q) = ps_create_key_hash q \<and>
      ps_request_hash (values q) = ps_request_hash q"
  shows "preserves (both (attempts_evolved rows)) (apply_event sha256 row e now values)"
proof -
  have "attempt_evolves q (values (q\<lparr>ps_status := st, ps_revision := n\<rparr>))"
    if "ps_status row = S_discovered" "same_version row q" for q st n
    using that vals by (simp add: attempt_evolves_def same_version_def)
  then show ?thesis
    unfolding apply_event_def
    by (intro pres_bnd_lift pres attempts_evolved_update)
      (auto simp: state_of_def ebind_Inr_iff dest: transition_not_terminal)
qed

lemma pres_authorize [pres]: "preserves P (authorize h a)"
  unfolding authorize_def by (intro pres) (auto intro!: pres split: option.splits)


lemma pres_attempts_expire [pres]: "preserves (both (attempts_evolved rows)) (expire_row sha256 r now)"
  unfolding expire_row_def by (intro pres) simp

lemma pres_attempts_append [pres]:
  "preserves (both (attempts_evolved rows)) (store (provisioning_sessions_update (\<lambda>t. t @ xs)))"
  by (intro pres) (auto simp: attempts_evolved_def)

lemma pres_load [pres]: "preserves P (load_session h a sid)"
  unfolding load_session_def by (intro pres)

lemma pres_unclaimed [pres]: "preserves P (unclaimed_item h data supplied)"
  unfolding unclaimed_item_def by (intro pres) (auto intro!: pres split: option.splits)

lemma pres_attempts_create: "preserves (both (attempts_evolved rows)) (create_session sha256 fresh h a data key now)"
  unfolding create_session_def close_active_def new_session_def Let_def
  by (intro pres) (auto intro!: pres simp: attempts_evolved_def split: option.splits)

lemma pres_attempts_get: "preserves (both (attempts_evolved rows)) (get_session sha256 h a sid now)"
  unfolding get_session_def by (intro pres)

lemma pres_attempts_cancel:
  "preserves (both (attempts_evolved rows)) (cancel_session sha256 h a sid rv key now)"
  unfolding cancel_session_def cancel_body_def case_prod_unfold by (intro pres; simp)

subsection \<open>Runs of provisioning requests\<close>

datatype provisioning_request =
    Create_call string string device_claim string int
  | Get_call string string string int
  | Cancel_call string string string int string int

fun provisioning_op ::
  "(string \<Rightarrow> string) \<Rightarrow> (nat \<Rightarrow> string) \<Rightarrow> provisioning_request \<Rightarrow>
   ('z world_scheme, provisioning_public_status) op" where
  "provisioning_op sha256 fresh (Create_call h a data key now) = create_session sha256 fresh h a data key now"
| "provisioning_op sha256 fresh (Get_call h a sid now) = get_session sha256 h a sid now"
| "provisioning_op sha256 fresh (Cancel_call h a sid rv key now) = cancel_session sha256 h a sid rv key now"

definition provisioning_step ::
  "(string \<Rightarrow> string) \<Rightarrow> (nat \<Rightarrow> string) \<Rightarrow> provisioning_request \<Rightarrow> 'z world_scheme \<Rightarrow> 'z world_scheme" where
  "provisioning_step sha256 fresh request w = snd (in_session (provisioning_op sha256 fresh request) w)"

lemma pres_attempts_op: "preserves (both (attempts_evolved rows)) (provisioning_op sha256 fresh request)"
  by (cases request) (simp_all add: pres_attempts_create pres_attempts_get pres_attempts_cancel)

interpretation attempts: invariant_machine "provisioning_step sha256 fresh"
    "\<lambda>w. attempts_evolved rows (committed w)"
  for sha256 fresh rows
proof unfold_locales
  fix w request
  assume "attempts_evolved rows (committed w)"
  then show "attempts_evolved rows (committed (provisioning_step sha256 fresh request w))"
    using preservesD [OF pres_attempts_op [of rows sha256 fresh request], of "w\<lparr>work := committed w\<rparr>"]
    by (auto simp: provisioning_step_def in_session_def both_def split: prod.splits)
qed

subsection \<open>Requests in detail\<close>

definition authorized :: "db \<Rightarrow> string \<Rightarrow> string \<Rightarrow> bool" where
  "authorized d h a \<longleftrightarrow>
     tget h_id h (houses d) \<noteq> None \<and>
     (\<exists>u m. tget u_id a (users d) = Some u \<and> membership_in d a h = Some m \<and> u_is_active u \<and>
        DEVICE_ONBOARD \<in> set (ROLE_PERMISSIONS (m_role m)))"

lemma authorize_Inr: "authorize h a w = (Inr u, w') \<longleftrightarrow> w' = w \<and> authorized (work w) h a"
  by (auto simp: authorize_def authorized_def bnd_def andthen_def reject_def split: option.splits)

lemma load_session_Inr:
  "load_session h a sid w = (Inr row, w') \<longleftrightarrow> w' = w \<and> authorized (work w) h a \<and>
     tfind (\<lambda>r. ps_id r = sid \<and> ps_house_id r = h) (provisioning_sessions (work w)) = Some row"
  by (auto simp: load_session_def andthen_Inr_iff bnd_Inr_iff authorize_Inr found_def split: option.splits)

lemma state_of_Inr: "state_of r = Inr st \<longleftrightarrow> wf_state (row_state r) \<and> st = row_state r"
  by (auto simp: state_of_def ebind_Inr_iff wf_state_def)

text \<open>An attempt past its deadline, and what the expiry writes.\<close>

definition overdue :: "int \<Rightarrow> provisioning_row \<Rightarrow> bool" where
  "overdue now r \<longleftrightarrow> ps_status r = S_discovered \<and> ps_expires_at r \<le> now"

definition expired_row :: "provisioning_row \<Rightarrow> provisioning_row" where
  "expired_row r = r\<lparr>ps_status := S_expired, ps_revision := ps_revision r + 1\<rparr>"

lemma transition_expire:
  "wf_state (row_state r) \<Longrightarrow> overdue now r \<Longrightarrow> ps_created_at r < ps_expires_at r \<Longrightarrow>
   transition sha256 (row_state r) Expire (ps_revision r) (utc now) None None =
     Inr ((row_state r)\<lparr>pv_status := EXPIRED, pv_revision := ps_revision r + 1\<rparr>)"
  by (simp add: transition_iff event_guard_def pv_step_simps)
    (simp add: row_state_def overdue_def utc_def is_aware_def)

lemma rowcount_version:
  assumes "unique ps_id rows" and "r \<in> set rows"
  shows "rowcount (same_version r) rows = 1"
proof -
  have "filter (same_version r) rows = [r]"
    using assms
  proof (induction rows)
    case (Cons x rows)
    show ?case
    proof (cases "x = r")
      case True
      with Cons.prems have "\<forall>y \<in> set rows. \<not> same_version r y"
        by (auto simp: unique_def same_version_def) (metis imageI)
      with True show ?thesis by (simp add: same_version_def)
    next
      case False
      with Cons.prems have "ps_id x \<noteq> ps_id r" by (auto simp: unique_def)
      with False Cons show ?thesis by (simp add: unique_def same_version_def)
    qed
  qed simp
  then show ?thesis by (simp add: rowcount_def)
qed

lemma expire_row_overdue:
  assumes "wf_state (row_state r)" "overdue now r" "ps_created_at r < ps_expires_at r"
    and "unique ps_id (provisioning_sessions (work w))" "r \<in> set (provisioning_sessions (work w))"
  shows "expire_row sha256 r now w =
    (Inr (expired_row r), w\<lparr>work := provisioning_sessions_update
       (update_where (same_version r) expired_row) (work w)\<rparr>)"
proof -
  have "tget ps_id (ps_id r) (provisioning_sessions (work w)) = Some r"
    using assms(4,5) by (rule unique_tget)
  moreover have "update_where (same_version r)
      (\<lambda>q. q\<lparr>ps_status := S_expired, ps_revision := ps_revision r + 1\<rparr>) rows =
      update_where (same_version r) expired_row rows" for rows
    by (simp add: update_where_def expired_row_def same_version_def)
  ultimately show ?thesis
    using assms(2) transition_expire [OF assms(1-3), of sha256] assms(1) rowcount_version [OF assms(4,5)]
    by (simp add: expire_row_def overdue_def apply_event_def bnd_lift_apply state_of_Inr [THEN iffD2]
        bnd_def andthen_def reject_def store_apply found_def)
      (simp add: tget_update_where same_version_def expired_row_def)
qed


text \<open>The expiry respects every constraint of the schema.\<close>

lemma map_filter_update_where:
  assumes "\<And>r. m r \<Longrightarrow> \<not> p (f r)"
  shows "filter p (update_where m f rows) = filter (\<lambda>r. p r \<and> \<not> m r) rows"
  using assms by (induction rows) (auto simp: update_where_def)

lemma list_all_update_where:
  "list_all P rows \<Longrightarrow> (\<And>r. P r \<Longrightarrow> m r \<Longrightarrow> P (f r)) \<Longrightarrow> list_all P (update_where m f rows)"
  by (induction rows) (auto simp: update_where_def)

lemma expired_row_simps [simp]:
  "ps_id (expired_row r) = ps_id r" "ps_house_id (expired_row r) = ps_house_id r"
  "ps_room_id (expired_row r) = ps_room_id r" "ps_device_id (expired_row r) = ps_device_id r"
  "ps_actor_id (expired_row r) = ps_actor_id r" "ps_create_key_hash (expired_row r) = ps_create_key_hash r"
  "ps_cancel_actor_id (expired_row r) = ps_cancel_actor_id r"
  "ps_status (expired_row r) = S_expired" "ps_revision (expired_row r) = ps_revision r + 1"
  by (simp_all add: expired_row_def)

lemma db_ok_expire:
  assumes "db_ok d"
  shows "db_ok (provisioning_sessions_update (update_where m expired_row) d)"
proof -
  have old: "provisioning_ok d" using assms by (simp add: db_ok_def)
  have "distinct (map ps_device_id (filter (\<lambda>r. ps_status r = S_discovered \<and> \<not> m r)
      (provisioning_sessions d)))"
    using old distinct_map_filter [of ps_device_id "filter (\<lambda>r. ps_status r = S_discovered)
      (provisioning_sessions d)" "\<lambda>r. \<not> m r"]
    by (simp add: provisioning_ok_def unique_where_def conj_commute)
  with old have "provisioning_ok (provisioning_sessions_update (update_where m expired_row) d)"
    unfolding provisioning_ok_def unique_where_def unique_def fk_def fk_null_def
    by (auto simp: map_key_update_where map_filter_update_where provisioning_row_ok_def expired_row_def
        intro!: list_all_update_where cong: option.case_cong)
  with assms show ?thesis
    by (simp add: db_ok_def accounts_ok_def structure_ok_def physical_ok_def commands_ok_def)
qed

subsection \<open>Properties\<close>

text \<open>The database of the witnesses: one open attempt of the owner of the house.\<close>

definition ex_attempt_row :: provisioning_row where
  "ex_attempt_row = \<lparr>ps_id = ''s1'', ps_house_id = ''h1'', ps_room_id = ''r1'', ps_device_id = ''d1'',
     ps_actor_id = ''u1'', ps_name = ''P'', ps_status = S_discovered, ps_revision = 0,
     ps_created_at = 0, ps_expires_at = 100, ps_challenge_hash = ex_sha ''c'', ps_token_hash = ex_sha ''t'',
     ps_create_key_hash = ex_sha ''k'', ps_request_hash = ex_sha ''q'', ps_cancel_key_hash = None,
     ps_cancel_actor_id = None, ps_cancel_revision = None\<rparr>"

definition ex_attempts :: world where
  "ex_attempts = (let d = ex_db\<lparr>provisioning_sessions := [ex_attempt_row]\<rparr> in
     \<lparr>committed = d, work = d, drawn = 0\<rparr>)"

text \<open>
  C37. Provisioning attempts are permanent evidence: across any sequence of create, read and
  cancel requests every stored attempt keeps its identity, owner, device, deadline and request
  hash, and an attempt that is cancelled or expired never changes again.
\<close>

theorem attempts_permanent:
  assumes "p \<in> set (provisioning_sessions (committed w))"
  shows "\<exists>q \<in> set (provisioning_sessions (committed
      (fold (provisioning_step sha256 fresh) requests w))).
    ps_id q = ps_id p \<and> ps_house_id q = ps_house_id p \<and> ps_device_id q = ps_device_id p \<and>
    ps_actor_id q = ps_actor_id p \<and> ps_expires_at q = ps_expires_at p \<and>
    ps_request_hash q = ps_request_hash p \<and> (ps_status p \<noteq> S_discovered \<longrightarrow> q = p)"
proof -
  have "attempts_evolved (provisioning_sessions (committed w))
      (committed (fold (provisioning_step sha256 fresh) requests w))"
    by (rule attempts.inv_run) (rule attempts_evolved_refl)
  with assms show ?thesis by (fastforce simp: attempts_evolved_def attempt_evolves_def)
qed

theorem attempts_permanent_witness:
  "\<exists>q \<in> set (provisioning_sessions (committed (fold (provisioning_step ex_sha ex_fresh)
      [Get_call ''h1'' ''u1'' ''s1'' 5, Cancel_call ''h1'' ''u1'' ''s1'' 0 ''k2'' 6,
       Get_call ''h1'' ''u1'' ''s1'' 500] ex_attempts))).
    ps_id q = ps_id ex_attempt_row \<and> ps_house_id q = ps_house_id ex_attempt_row \<and>
    ps_device_id q = ps_device_id ex_attempt_row \<and> ps_actor_id q = ps_actor_id ex_attempt_row \<and>
    ps_expires_at q = ps_expires_at ex_attempt_row \<and>
    ps_request_hash q = ps_request_hash ex_attempt_row \<and>
    (ps_status ex_attempt_row \<noteq> S_discovered \<longrightarrow> q = ex_attempt_row)"
  by (rule attempts_permanent) (simp add: ex_attempts_def Let_def)

text \<open>
  Reading an attempt requires an active member of the house with the onboarding permission,
  and reports an attempt from its deadline on as expired, never as open; the expiry is
  committed together with the reading.
\<close>

theorem get_serves_current:
  assumes "get_session sha256 h a sid now w = (Inr pub, w')" and "db_ok (work w)"
  shows "authorized (work w) h a \<and>
    (\<exists>row. tget ps_id sid (provisioning_sessions (work w)) = Some row \<and> ps_house_id row = h \<and>
      pub_status pub = (if overdue now row then EXPIRED else status_of_row (ps_status row)) \<and>
      tget ps_id sid (provisioning_sessions (committed w')) =
        Some (if overdue now row then expired_row row else row))"
proof -
  from assms(1) obtain row row' v where auth: "authorized (work w) h a"
    and row: "tfind (\<lambda>r. ps_id r = sid \<and> ps_house_id r = h) (provisioning_sessions (work w)) = Some row"
    and ex: "expire_row sha256 row now w = (Inr row', v)" and pub: "public_of row' = Inr pub"
    and w': "w' = v\<lparr>committed := work v\<rparr>"
    by (auto simp: get_session_def atomic_Inr bnd_Inr_iff load_session_Inr)
  from row have mem: "row \<in> set (provisioning_sessions (work w))" "ps_id row = sid" "ps_house_id row = h"
    by (auto dest: tfind_SomeD)
  from assms(2) have uq: "unique ps_id (provisioning_sessions (work w))"
    and ok: "ps_created_at row < ps_expires_at row"
    using mem(1) by (auto simp: db_ok_def provisioning_ok_def list_all_iff provisioning_row_ok_def)
  have got: "tget ps_id sid (provisioning_sessions (work w)) = Some row"
    using unique_tget [OF uq mem(1)] mem(2) by simp
  have ps: "pub_status pub = status_of_row (ps_status row')"
    using pub by (auto simp: public_of_def ebind_Inr_iff state_of_Inr public_status_def row_state_def
      split: if_splits)
  show ?thesis
  proof (cases "overdue now row")
    case True
    then have "ps_status row = S_discovered \<and> ps_expires_at row \<le> now" by (simp add: overdue_def)
    with ex have "wf_state (row_state row)"
      by (auto simp: expire_row_def apply_event_def bnd_Inr_iff state_of_Inr)
    from expire_row_overdue [OF this True ok uq mem(1), of sha256] ex
    have "row' = expired_row row" "provisioning_sessions (work v) =
        update_where (same_version row) expired_row (provisioning_sessions (work w))"
      by auto
    with auth got mem ps True show ?thesis
      by (auto simp: w' tget_update_where same_version_def)
  next
    case False
    then have "\<not> (ps_status row = S_discovered \<and> ps_expires_at row \<le> now)" by (simp add: overdue_def)
    with ex have "row' = row" "v = w" by (auto simp: expire_row_def)
    with auth got mem ps False show ?thesis by (auto simp: w')
  qed
qed

theorem get_serves_current_witness:
  "\<exists>row. tget ps_id ''s1'' (provisioning_sessions (work ex_attempts)) = Some row \<and>
     ps_status row = S_discovered \<and> overdue 500 row \<and>
     tget ps_id ''s1'' (provisioning_sessions (committed
       (snd (get_session ex_sha ''h1'' ''u1'' ''s1'' 500 ex_attempts)))) = Some (expired_row row)"
proof -
  have "is_ok (fst (get_session ex_sha ''h1'' ''u1'' ''s1'' 500 ex_attempts))" by code_simp
  then obtain pub where "get_session ex_sha ''h1'' ''u1'' ''s1'' 500 ex_attempts =
      (Inr pub, snd (get_session ex_sha ''h1'' ''u1'' ''s1'' 500 ex_attempts))"
    unfolding is_ok_iff by (metis prod.collapse)
  moreover have "db_ok (work ex_attempts)" by code_simp
  moreover have "tget ps_id ''s1'' (provisioning_sessions (work ex_attempts)) = Some ex_attempt_row"
    "ps_status ex_attempt_row = S_discovered" "overdue 500 ex_attempt_row" by code_simp+
  ultimately show ?thesis by (fastforce dest: get_serves_current)
qed

text \<open>
  A cancellation that comes too late is refused, and the refusal is durable: for an
  authorised member and an open attempt past its deadline, a cancellation with a new key
  raises \<open>ConflictError\<close>, and the committed attempt is expired at the next revision.
\<close>

theorem late_cancel_expires:
  assumes "db_ok (work w)" and "authorized (work w) h a"
    and "tget ps_id sid (provisioning_sessions (work w)) = Some row" and "ps_house_id row = h"
    and "overdue now row" and "wf_state (row_state row)"
    and "ps_cancel_key_hash row \<noteq> Some (sha256 key)"
  shows "\<exists>w'. cancel_session sha256 h a sid rv key now w = (Inl ConflictError, w') \<and>
    tget ps_id sid (provisioning_sessions (committed w')) = Some (expired_row row)"
proof -
  have mem: "row \<in> set (provisioning_sessions (work w))" "ps_id row = sid"
    using assms(3) by (auto dest: tget_SomeD)
  have uq: "unique ps_id (provisioning_sessions (work w))"
    and ok: "ps_created_at row < ps_expires_at row"
    using assms(1) mem(1) by (auto simp: db_ok_def provisioning_ok_def list_all_iff provisioning_row_ok_def)
  have "tfind (\<lambda>r. ps_id r = sid \<and> ps_house_id r = h) (provisioning_sessions (work w)) = Some row"
  proof (cases "tfind (\<lambda>r. ps_id r = sid \<and> ps_house_id r = h) (provisioning_sessions (work w))")
    case None
    with mem assms(4) show ?thesis by (auto simp: tfind_None_iff)
  next
    case (Some q)
    then have "q \<in> set (provisioning_sessions (work w))" "ps_id q = ps_id row"
      using mem(2) by (auto dest: tfind_SomeD)
    with Some mem(1) uq show ?thesis by (metis unique_eqD)
  qed
  with assms(2) have load: "load_session h a sid w = (Inr row, w)" by (simp add: load_session_Inr)
  note ex = expire_row_overdue [OF assms(6,5) ok uq mem(1), of sha256]
  let ?d = "provisioning_sessions_update (update_where (same_version row) expired_row) (work w)"
  have "row_state (expired_row row) = (row_state row)\<lparr>pv_status := EXPIRED, pv_revision := ps_revision row + 1\<rparr>"
    by (simp add: row_state_def expired_row_def)
  then have "wf_state (row_state (expired_row row))"
    using transition_wf [OF transition_expire [OF assms(6,5) ok, of sha256]] by simp
  then have "state_of (expired_row row) = Inr (row_state (expired_row row))"
    and "\<exists>p. public_status (row_state (expired_row row)) = Inr p"
    by (auto simp: state_of_Inr wf_state_iff public_status_ok_iff)
  then obtain p where pub: "public_of (expired_row row) = Inr p" by (auto simp: public_of_def)
  have "cancel_body sha256 h a sid rv key now w = (Inr (True, p), w\<lparr>work := ?d\<rparr>)"
    using assms(7) by (simp add: cancel_body_def bnd_def load ex pub) (simp add: expired_row_def)
  then have "atomic (cancel_body sha256 h a sid rv key now) w =
      (Inr (True, p), w\<lparr>work := ?d, committed := ?d\<rparr>)"
    using db_ok_expire [OF assms(1)] by (simp add: atomic_Inr)
  then show ?thesis
    using assms(3) mem(2)
    by (simp add: cancel_session_def bnd_def tget_update_where same_version_def)
qed

theorem late_cancel_expires_witness:
  "\<exists>w'. cancel_session ex_sha ''h1'' ''u1'' ''s1'' 0 ''k2'' 100 ex_attempts = (Inl ConflictError, w') \<and>
    tget ps_id ''s1'' (provisioning_sessions (committed w')) = Some (expired_row ex_attempt_row)"
proof (rule late_cancel_expires)
  show "authorized (work ex_attempts) ''h1'' ''u1''"
    by (simp add: authorized_def ex_attempts_def ex_db_def Let_def tget_Cons membership_in_def tfind_def
        ALL_PERMISSIONS_def)
  show "db_ok (work ex_attempts)" "overdue 100 ex_attempt_row" "wf_state (row_state ex_attempt_row)"
    "tget ps_id ''s1'' (provisioning_sessions (work ex_attempts)) = Some ex_attempt_row"
    "ps_house_id ex_attempt_row = ''h1''" "ps_cancel_key_hash ex_attempt_row \<noteq> Some (ex_sha ''k2'')"
    by code_simp+
qed

end
