(* ===== verification/Control_Models.thy ===== *)
theory Control_Models
  imports Text Json Schemas
begin

text \<open>
  \<open>app/transports/control_models.py\<close>: the permit request of a device. The frame reaches the
  model as its size and its parsed document (\<open>None\<close> when the text is not JSON); an object
  is the list of its members in the order of the text, so duplicate members are visible as
  they are to \<open>object_pairs_hook\<close>.
\<close>

definition MAX_CONTROL_FRAME :: nat where
  "MAX_CONTROL_FRAME = 4096"

record permit_request =
  pq_core_epoch :: string
  pq_command_id :: string
  pq_boot_id :: string
  pq_session_id :: string
  pq_nonce :: string
  pq_intent_sha256 :: string

definition is_hex_text :: "nat \<Rightarrow> string \<Rightarrow> bool" where
  "is_hex_text n s \<longleftrightarrow> matches_n is_hex_char n s"

text \<open>\<open>str(UUID(value)) == value\<close>: five groups of lower-case hexadecimal digits.\<close>

definition canonical_uuid :: "string \<Rightarrow> bool" where
  "canonical_uuid s \<longleftrightarrow> map length (split_on (CHR ''-'') s) = [8, 4, 4, 4, 12] \<and>
     list_all (list_all is_hex_char) (split_on (CHR ''-'') s)"

text \<open>The hook rejects a repeated member of any object of the document.\<close>

fun unique_members :: "json \<Rightarrow> bool" where
  "unique_members (JObj kvs) = (distinct (map fst kvs) \<and> list_all (\<lambda>(_, v). unique_members v) kvs)"
| "unique_members (JArr xs) = list_all unique_members xs"
| "unique_members _ = True"

definition request_fields :: "string list" where
  "request_fields = [''control_version'', ''type'', ''execution_profile'', ''core_epoch'',
     ''command_id'', ''boot_id'', ''session_id'', ''nonce'', ''intent_sha256'']"

definition text_field :: "(string \<Rightarrow> bool) \<Rightarrow> string \<Rightarrow> obj \<Rightarrow> exn + string" where
  "text_field p k d = (case alookup k d of
     Some (JStr s) \<Rightarrow> if p s then Inr s else Inl ValidationError
   | _ \<Rightarrow> Inl ValidationError)"

definition validate_request :: "obj \<Rightarrow> exn + permit_request" where
  "validate_request d =
     (if \<not> list_all (\<lambda>(k, _). k \<in> set request_fields) d then Inl ValidationError
      else if alookup ''control_version'' d \<noteq> Some (JInt 1) then Inl ValidationError
      else
        ebind (text_field (\<lambda>s. s = ''permit_request'') ''type'' d) (\<lambda>_.
        ebind (text_field (\<lambda>s. s = ''deadline-permit-v1'') ''execution_profile'' d) (\<lambda>_.
        ebind (text_field (\<lambda>s. py_length s \<le> 36 \<and> canonical_uuid s) ''core_epoch'' d) (\<lambda>epoch.
        ebind (text_field (\<lambda>s. py_length s \<le> 36 \<and> canonical_uuid s) ''command_id'' d) (\<lambda>cid.
        ebind (text_field (is_hex_text 32) ''boot_id'' d) (\<lambda>boot.
        ebind (text_field (is_hex_text 32) ''session_id'' d) (\<lambda>session.
        ebind (text_field (is_hex_text 32) ''nonce'' d) (\<lambda>nonce.
        ebind (text_field (is_hex_text 64) ''intent_sha256'' d) (\<lambda>intent.
        Inr \<lparr>pq_core_epoch = epoch, pq_command_id = cid, pq_boot_id = boot,
             pq_session_id = session, pq_nonce = nonce, pq_intent_sha256 = intent\<rparr>)))))))))"

definition decode_request :: "nat \<Rightarrow> json option \<Rightarrow> exn + permit_request" where
  "decode_request frame_size document =
     (if MAX_CONTROL_FRAME < frame_size then Inl ValueError
      else case document of
          None \<Rightarrow> Inl ValueError
        | Some raw \<Rightarrow>
            if \<not> unique_members raw then Inl ValueError
            else (case raw of
                JObj d \<Rightarrow>
                  (case alookup ''control_version'' d of
                     Some (JInt _) \<Rightarrow> validate_request d
                   | _ \<Rightarrow> Inl ValueError)
              | _ \<Rightarrow> Inl ValueError))"

text \<open>The document that the device sends for a request.\<close>

definition request_document :: "permit_request \<Rightarrow> json" where
  "request_document r = JObj
     [(''control_version'', JInt 1), (''type'', JStr ''permit_request''),
      (''execution_profile'', JStr ''deadline-permit-v1''), (''core_epoch'', JStr (pq_core_epoch r)),
      (''command_id'', JStr (pq_command_id r)), (''boot_id'', JStr (pq_boot_id r)),
      (''session_id'', JStr (pq_session_id r)), (''nonce'', JStr (pq_nonce r)),
      (''intent_sha256'', JStr (pq_intent_sha256 r))]"

definition permit_request_ok :: "permit_request \<Rightarrow> bool" where
  "permit_request_ok r \<longleftrightarrow>
     py_length (pq_core_epoch r) \<le> 36 \<and> canonical_uuid (pq_core_epoch r) \<and>
     py_length (pq_command_id r) \<le> 36 \<and> canonical_uuid (pq_command_id r) \<and>
     is_hex_text 32 (pq_boot_id r) \<and> is_hex_text 32 (pq_session_id r) \<and>
     is_hex_text 32 (pq_nonce r) \<and> is_hex_text 64 (pq_intent_sha256 r)"

lemma text_field_Inr: "text_field p k d = Inr s \<longleftrightarrow> alookup k d = Some (JStr s) \<and> p s"
  by (auto simp: text_field_def split: option.splits json.splits)

lemma decode_request_ok:
  "decode_request frame_size doc = Inr r \<Longrightarrow> permit_request_ok r \<and> frame_size \<le> MAX_CONTROL_FRAME"
  by (auto simp: decode_request_def validate_request_def ebind_Inr_iff text_field_Inr
      permit_request_ok_def split: if_splits option.splits json.splits)

lemma decode_request_document:
  "permit_request_ok r \<Longrightarrow> frame_size \<le> MAX_CONTROL_FRAME \<Longrightarrow>
   decode_request frame_size (Some (request_document r)) = Inr r"
  by (simp add: decode_request_def validate_request_def text_field_def request_document_def
      permit_request_ok_def request_fields_def)

end
