(* ===== verification/Control_Authority.thy ===== *)
theory Control_Authority
  imports Examples Clocks Control_Models
begin

text \<open>
  \<open>app/services/control_authority.py\<close>: the authority that prepares physical control
  candidates, stages their publication and grants at most one permit for each, inside the
  windows of the control clock. \<open>gate\<close> is the injected admission check of the session, house
  and device; the shipped wiring closes it. Time is read through \<open>env\<close>: every reading is an
  arbitrary one, numbered by \<open>reads\<close>.
\<close>

subsection \<open>State\<close>

record control_delivery =
  dl_payload :: string
  dl_command_id :: string
  dl_epoch :: string
  dl_deadline_tick :: int
  dl_valid_until :: int
  dl_grant :: bool

type_synonym intent_identity = "string \<times> string \<times> string \<times> string \<times> int \<times> int \<times> bool"

record window =
  wd_deadline :: int
  wd_identity :: intent_identity
  wd_wire_sha256 :: string

record authority =
  au_clock :: control_clock
  au_windows :: "(string \<times> window) list"
  au_replies :: "(string \<times> string \<times> control_delivery) list"
  au_rates :: "((string \<times> string) \<times> int) list"
  au_global_second :: int
  au_global_count :: nat
  au_recovery_initialized :: bool
  au_recovery_ids :: "string list"

definition authority_init :: "control_clock \<Rightarrow> authority" where
  "authority_init clock =
     \<lparr>au_clock = clock, au_windows = [], au_replies = [], au_rates = [], au_global_second = - 1,
      au_global_count = 0, au_recovery_initialized = False, au_recovery_ids = []\<rparr>"

record core = world +
  authority :: authority
  ledger_clock :: command_clock
  reads :: nat

record environment =
  env_tick :: "nat \<Rightarrow> raw_tick"
  env_sample :: "nat \<Rightarrow> sample_reading"
  env_wall :: "nat \<Rightarrow> clock_reading"

type_synonym gate = "db \<Rightarrow> string \<Rightarrow> string \<Rightarrow> exn + unit"

definition MAX_WINDOWS :: nat where
  "MAX_WINDOWS = 4096"

definition MAX_REPLIES :: nat where
  "MAX_REPLIES = 1024"

definition closed_gate :: gate where
  "closed_gate d house device = Inl ConflictError"

subsection \<open>Access to the authority and its clock\<close>

definition au_gets :: "(authority \<Rightarrow> 'a) \<Rightarrow> ('z core_scheme, 'a) op" where
  "au_gets f = gets (\<lambda>w. f (authority w))"

definition au_modify :: "(authority \<Rightarrow> authority) \<Rightarrow> ('z core_scheme, unit) op" where
  "au_modify f = modify (\<lambda>w. w\<lparr>authority := f (authority w)\<rparr>)"

definition on_clock :: "(control_clock, 'a) op \<Rightarrow> ('z core_scheme, 'a) op" where
  "on_clock f = (\<lambda>w. case f (au_clock (authority w)) of
     (r, c) \<Rightarrow> (r, w\<lparr>authority := (authority w)\<lparr>au_clock := c\<rparr>\<rparr>))"

definition next_read :: "('z core_scheme, nat) op" where
  "next_read = (\<lambda>w. (Inr (reads w), w\<lparr>reads := Suc (reads w)\<rparr>))"

definition clock_tick :: "environment \<Rightarrow> ('z core_scheme, int) op" where
  "clock_tick env = bnd next_read (\<lambda>n. on_clock (control_tick (env_tick env n)))"

definition clock_recovered :: "environment \<Rightarrow> ('z core_scheme, bool) op" where
  "clock_recovered env = bnd next_read (\<lambda>n. on_clock (recovered (env_tick env n)))"

definition clock_logical_now :: "environment \<Rightarrow> ('z core_scheme, int) op" where
  "clock_logical_now env = bnd next_read (\<lambda>n. on_clock (logical_now (env_tick env n)))"

definition clock_sample :: "environment \<Rightarrow> ('z core_scheme, int \<times> int) op" where
  "clock_sample env = bnd next_read (\<lambda>n. on_clock (sample (env_sample env n)))"

subsection \<open>Recovery\<close>

definition old_pending :: "db \<Rightarrow> string \<Rightarrow> string list" where
  "old_pending d epoch =
     map k_command_id (filter (\<lambda>k.
       (case tget c_command_id (k_command_id k) (device_commands d) of
          None \<Rightarrow> False | Some r \<Rightarrow> pending r) \<and> k_authority_epoch k \<noteq> epoch) (command_control d))"

definition initialize :: "environment \<Rightarrow> ('z core_scheme, unit) op" where
  "initialize env =
     bnd (au_gets au_recovery_initialized) (\<lambda>done.
     if done then ret ()
     else
       bnd (au_gets (\<lambda>a. ck_epoch (au_clock a))) (\<lambda>epoch.
       bnd (query (\<lambda>d. take (MAX_WINDOWS + 1) (old_pending d epoch))) (\<lambda>identifiers.
       andthen (reject (MAX_WINDOWS < length identifiers) UnavailableError)
       (bnd next_read (\<lambda>n.
       bnd (au_gets au_clock) (\<lambda>c.
       case env_tick env n of
         TickOther \<Rightarrow>
           andthen (au_modify (\<lambda>a. a\<lparr>au_clock := (au_clock a)\<lparr>ck_timer_fault := True\<rparr>\<rparr>)) (raise UnavailableError)
       | TickInt tick \<Rightarrow>
           if ck_timer_fault c \<or> tick < ck_last c
           then andthen (au_modify (\<lambda>a. a\<lparr>au_clock := (au_clock a)\<lparr>ck_timer_fault := True\<rparr>\<rparr>)) (raise UnavailableError)
           else au_modify (\<lambda>a. a\<lparr>au_clock := (au_clock a)\<lparr>ck_last := tick, ck_fence_start := tick\<rparr>,
                  au_recovery_ids := identifiers, au_recovery_initialized := True\<rparr>)))))))"

subsection \<open>Candidates\<close>

definition identity :: "command_row \<Rightarrow> intent_identity" where
  "identity row = (c_command_id row, c_house_id row, c_device_id row, c_correlation_id row,
     c_created_at row, c_expires_at row, c_requested_on row)"

definition physical :: "gate \<Rightarrow> string \<Rightarrow> string \<Rightarrow> ('z core_scheme, unit) op" where
  "physical gate house device =
     bnd (physical_for_house house device) (\<lambda>item.
     andthen (reject (p_status item \<noteq> Active) ConflictError)
     (bnd (device_house_id device) (\<lambda>h.
     andthen (reject (h \<noteq> house) ConflictError)
     (bnd (query (\<lambda>d. gate d house device)) lift))))"

definition wire_payload :: "string \<Rightarrow> command_row \<Rightarrow> string" where
  "wire_payload epoch row =
     obj_text [(''protocol_version'', quote ''v1''), (''execution_profile'', quote PROFILE),
       (''core_epoch'', quote epoch), (''command_id'', quote (c_command_id row)),
       (''correlation_id'', quote (c_correlation_id row)),
       (''timestamp'', quote (isoformat (c_created_at row))),
       (''expires_at'', quote (isoformat (c_expires_at row))),
       (''state'', obj_text [(''on'', bool_text (c_requested_on row))])]"

text \<open>Windows of commands that are no longer pending are released when the table is full.\<close>

definition release_terminal :: "('z core_scheme, unit) op" where
  "release_terminal =
     bnd (au_gets au_windows) (\<lambda>windows.
     if length windows < MAX_WINDOWS then ret ()
     else
       bnd (query (\<lambda>d. map c_command_id (filter (\<lambda>r. c_command_id r \<in> fst ` set windows \<and> \<not> pending r)
              (device_commands d)))) (\<lambda>terminal.
       au_modify (\<lambda>a. a\<lparr>au_windows := fold apop terminal (au_windows a)\<rparr>)))"

definition control_record :: "(string \<Rightarrow> string) \<Rightarrow> string \<Rightarrow> command_row \<Rightarrow> control_row" where
  "control_record sha256 epoch row =
     \<lparr>k_command_id = c_command_id row, k_execution_profile = PROFILE, k_authority_epoch = epoch,
      k_wire_payload = wire_payload epoch row, k_wire_sha256 = sha256 (wire_payload epoch row),
      k_permit_binding_sha256 = None\<rparr>"

text \<open>
  \<open>transient\<close>: the row object is new to the session. Durations are whole microseconds.
\<close>

definition prepare ::
  "(string \<Rightarrow> string) \<Rightarrow> gate \<Rightarrow> environment \<Rightarrow> bool \<Rightarrow> command_row \<Rightarrow> ('z core_scheme, unit) op" where
  "prepare sha256 gate env transient row =
     andthen (physical gate (c_house_id row) (c_device_id row))
     (bnd (au_gets au_recovery_initialized) (\<lambda>ready.
     andthen (reject (\<not> ready) UnavailableError)
     (bnd (clock_sample env) (\<lambda>(now, tick).
     bnd (find_command (\<lambda>r. c_command_id r = c_command_id row)) (\<lambda>known.
     andthen (reject (\<not> transient \<or> \<not> pending row \<or> known \<noteq> None \<or> c_dispatch_started_at row \<noteq> None)
                ConflictError)
     (let remaining = c_expires_at row - now; lifetime = c_expires_at row - c_created_at row in
      andthen (reject (\<not> (c_created_at row \<le> now \<and> now < c_expires_at row) \<or>
                       \<not> (0 < lifetime \<and> lifetime \<le> LIFETIME_US)) ConflictError)
      (andthen release_terminal
      (bnd (au_gets (\<lambda>a. length (au_windows a))) (\<lambda>count.
      andthen (reject (MAX_WINDOWS \<le> count) UnavailableError)
      (bnd (au_gets (\<lambda>a. ck_epoch (au_clock a))) (\<lambda>epoch.
      let record = control_record sha256 epoch row in
      andthen (store (device_commands_update (\<lambda>t. t @ [row])))
      (andthen (handle flush (\<lambda>e. if e = IntegrityError
                  then andthen rollback (raise ConflictError) else raise e))
      (andthen (store (command_control_update (\<lambda>t. t @ [record])))
      (andthen save
      (au_modify (\<lambda>a. a\<lparr>au_windows := aput (c_command_id row)
         \<lparr>wd_deadline = tick + remaining, wd_identity = identity row,
          wd_wire_sha256 = k_wire_sha256 record\<rparr> (au_windows a)\<rparr>))))))))))))))))"

definition set_dispatch :: "int \<Rightarrow> command_row \<Rightarrow> command_row" where
  "set_dispatch now row = row\<lparr>c_dispatch_started_at := Some now\<rparr>"

definition stage ::
  "(string \<Rightarrow> string) \<Rightarrow> gate \<Rightarrow> environment \<Rightarrow> string \<Rightarrow> string \<Rightarrow> string \<Rightarrow>
   ('z core_scheme, control_delivery) op" where
  "stage sha256 gate env house device command_id =
     andthen (physical gate house device)
     (bnd (clock_sample env) (\<lambda>(now, tick).
     bnd (find_command (\<lambda>r. c_command_id r = command_id \<and> c_house_id r = house \<and> c_device_id r = device))
       (\<lambda>found_row.
     bnd (control_of command_id) (\<lambda>found_record.
     bnd (au_gets (\<lambda>a. alookup command_id (au_windows a))) (\<lambda>found_window.
     bnd (au_gets (\<lambda>a. ck_epoch (au_clock a))) (\<lambda>epoch.
     case (found_row, found_record, found_window) of
       (Some row, Some record, Some win) \<Rightarrow>
         andthen (reject (k_authority_epoch record \<noteq> epoch \<or> \<not> pending row \<or>
           c_dispatch_started_at row \<noteq> None \<or> wd_identity win \<noteq> identity row \<or>
           k_wire_sha256 record \<noteq> wd_wire_sha256 win \<or>
           sha256 (k_wire_payload record) \<noteq> wd_wire_sha256 win \<or>
           wd_deadline win \<le> tick) ConflictError)
         (andthen (put_command (set_dispatch now row))
         (andthen save
         (ret \<lparr>dl_payload = k_wire_payload record, dl_command_id = command_id, dl_epoch = epoch,
               dl_deadline_tick = wd_deadline win, dl_valid_until = wd_deadline win,
               dl_grant = False\<rparr>)))
     | _ \<Rightarrow> raise ConflictError))))))"

subsection \<open>Permits\<close>

text \<open>\<open>_limit\<close>: one request per device and second, one hundred in every second.\<close>

definition prune_rates :: "int \<Rightarrow> authority \<Rightarrow> authority" where
  "prune_rates tick a =
     (let a1 = a\<lparr>au_rates := filter (\<lambda>(_, v). tick - v < 1000000) (au_rates a)\<rparr>;
          second = tick div 1000000
      in if second \<noteq> au_global_second a1 then a1\<lparr>au_global_second := second, au_global_count := 0\<rparr>
         else a1)"

definition rate_exceeded :: "string \<Rightarrow> string \<Rightarrow> authority \<Rightarrow> bool" where
  "rate_exceeded house device a \<longleftrightarrow>
     alookup (house, device) (au_rates a) \<noteq> None \<or> 4096 \<le> length (au_rates a) \<or> 100 \<le> au_global_count a"

definition count_request :: "string \<Rightarrow> string \<Rightarrow> int \<Rightarrow> authority \<Rightarrow> authority" where
  "count_request house device tick a =
     a\<lparr>au_rates := aput (house, device) tick (au_rates a), au_global_count := Suc (au_global_count a)\<rparr>"

definition limit :: "string \<Rightarrow> string \<Rightarrow> int \<Rightarrow> ('z core_scheme, unit) op" where
  "limit house device tick =
     andthen (au_modify (prune_rates tick))
     (bnd (au_gets (rate_exceeded house device)) (\<lambda>exceeded.
     andthen (reject exceeded UnavailableError)
     (au_modify (count_request house device tick))))"

definition permit_binding ::
  "(string \<Rightarrow> string) \<Rightarrow> string \<Rightarrow> string \<Rightarrow> permit_request \<Rightarrow> string" where
  "permit_binding sha256 house device r =
     sha256 (arr_text [house, device, pq_core_epoch r, pq_boot_id r, pq_session_id r, pq_nonce r])"

text \<open>\<open>model_dump\<close> with the type replaced in place and three members appended.\<close>

definition grant_payload :: "permit_request \<Rightarrow> int \<Rightarrow> int \<Rightarrow> int \<Rightarrow> string" where
  "grant_payload r now expires remaining =
     obj_text [(''control_version'', int_text 1), (''type'', quote ''permit_grant''),
       (''execution_profile'', quote PROFILE), (''core_epoch'', quote (pq_core_epoch r)),
       (''command_id'', quote (pq_command_id r)), (''boot_id'', quote (pq_boot_id r)),
       (''session_id'', quote (pq_session_id r)), (''nonce'', quote (pq_nonce r)),
       (''intent_sha256'', quote (pq_intent_sha256 r)), (''core_time'', quote (isoformat now)),
       (''expires_at'', quote (isoformat expires)), (''remaining_us'', int_text remaining)]"

text \<open>The candidate a request names, with every check against the ledger and the window.\<close>

definition current_candidate ::
  "(string \<Rightarrow> string) \<Rightarrow> string \<Rightarrow> string \<Rightarrow> permit_request \<Rightarrow>
   ('z core_scheme, command_row \<times> control_row \<times> window) op" where
  "current_candidate sha256 house device r =
     bnd (find_command (\<lambda>x. c_command_id x = pq_command_id r \<and> c_house_id x = house \<and>
           c_device_id x = device)) (\<lambda>found_row.
     bnd (control_of (pq_command_id r)) (\<lambda>found_record.
     bnd (au_gets (\<lambda>a. alookup (pq_command_id r) (au_windows a))) (\<lambda>found_window.
     bnd (au_gets (\<lambda>a. ck_epoch (au_clock a))) (\<lambda>epoch.
     case (found_row, found_record, found_window) of
       (Some row, Some record, Some win) \<Rightarrow>
         andthen (reject (k_execution_profile record \<noteq> PROFILE \<or> pq_core_epoch r \<noteq> epoch \<or>
           k_authority_epoch record \<noteq> epoch \<or> pq_intent_sha256 r \<noteq> k_wire_sha256 record \<or>
           k_wire_sha256 record \<noteq> wd_wire_sha256 win \<or>
           sha256 (k_wire_payload record) \<noteq> k_wire_sha256 record \<or> \<not> pending row \<or>
           c_dispatch_started_at row = None \<or> wd_identity win \<noteq> identity row) ConflictError)
         (ret (row, record, win))
     | _ \<Rightarrow> raise ConflictError))))"

text \<open>A consumed permit is answered only by the very reply that consumed it, while it lasts.\<close>

definition replay_reply ::
  "control_row \<Rightarrow> string \<Rightarrow> int \<Rightarrow> ('z core_scheme, control_delivery) op" where
  "replay_reply record binding tick =
     bnd (au_gets (\<lambda>a. alookup (k_command_id record) (au_replies a))) (\<lambda>previous.
     case previous of
       None \<Rightarrow> raise ConflictError
     | Some (b, reply) \<Rightarrow>
         andthen (reject (k_permit_binding_sha256 record \<noteq> Some binding \<or> b \<noteq> binding \<or>
                    dl_valid_until reply \<le> tick) ConflictError)
         (ret reply))"

definition consume_permit :: "string \<Rightarrow> string \<Rightarrow> ('z core_scheme, unit) op" where
  "consume_permit command_id binding =
     (let m = (\<lambda>k. k_command_id k = command_id \<and> k_permit_binding_sha256 k = None) in
     bnd (query (\<lambda>d. rowcount m (command_control d))) (\<lambda>changed.
     andthen (store (command_control_update
       (update_where m (\<lambda>k. k\<lparr>k_permit_binding_sha256 := Some binding\<rparr>))))
     (andthen (handle flush (\<lambda>e. if e = IntegrityError
                  then andthen rollback (raise ConflictError) else raise e))
     (andthen (if changed \<noteq> 1 then andthen rollback (raise ConflictError) else ret ())
     save))))"

definition grant ::
  "string \<Rightarrow> string \<Rightarrow> permit_request \<Rightarrow> command_row \<Rightarrow> window \<Rightarrow> string \<Rightarrow> int \<Rightarrow> int \<Rightarrow>
   ('z core_scheme, control_delivery) op" where
  "grant house device r row win binding now tick =
     andthen (limit house device tick)
     (andthen (au_modify (\<lambda>a. a\<lparr>au_replies := filter (\<lambda>(_, _, reply). tick < dl_valid_until reply)
                                               (au_replies a)\<rparr>))
     (bnd (au_gets (\<lambda>a. length (au_replies a))) (\<lambda>count.
     andthen (reject (MAX_REPLIES \<le> count) UnavailableError)
     (let remaining = min PERMIT_US (wd_deadline win - tick) - 1 in
      andthen (reject (remaining \<le> 0) ConflictError)
      (andthen (consume_permit (c_command_id row) binding)
      (bnd (au_gets (\<lambda>a. ck_epoch (au_clock a))) (\<lambda>epoch.
      let reply = \<lparr>dl_payload = grant_payload r now (c_expires_at row) remaining,
            dl_command_id = c_command_id row, dl_epoch = epoch,
            dl_deadline_tick = wd_deadline win, dl_valid_until = tick + remaining, dl_grant = True\<rparr> in
      andthen (au_modify (\<lambda>a. a\<lparr>au_replies := aput (c_command_id row) (binding, reply) (au_replies a)\<rparr>))
      (ret reply))))))))"

definition request ::
  "(string \<Rightarrow> string) \<Rightarrow> gate \<Rightarrow> environment \<Rightarrow> string \<Rightarrow> string \<Rightarrow> permit_request \<Rightarrow>
   ('z core_scheme, control_delivery) op" where
  "request sha256 gate env house device r =
     andthen (physical gate house device)
     (bnd (clock_sample env) (\<lambda>(now, tick).
     bnd (current_candidate sha256 house device r) (\<lambda>(row, record, win).
     andthen (reject (wd_deadline win \<le> tick) ConflictError)
     (let binding = permit_binding sha256 house device r in
      if k_permit_binding_sha256 record \<noteq> None then replay_reply record binding tick
      else grant house device r row win binding now tick))))"

definition validate_delivery :: "environment \<Rightarrow> control_delivery \<Rightarrow> ('z core_scheme, unit) op" where
  "validate_delivery env delivery =
     bnd (clock_sample env) (\<lambda>(_, tick).
     bnd (au_gets (\<lambda>a. ck_epoch (au_clock a))) (\<lambda>epoch.
     reject (dl_epoch delivery \<noteq> epoch \<or> min (dl_valid_until delivery) (dl_deadline_tick delivery) \<le> tick)
       ConflictError))"

definition expired :: "environment \<Rightarrow> control_row \<Rightarrow> ('z core_scheme, bool) op" where
  "expired env record =
     bnd (au_gets (\<lambda>a. ck_epoch (au_clock a))) (\<lambda>epoch.
     if k_authority_epoch record \<noteq> epoch then
       bnd (au_gets (\<lambda>a. au_recovery_initialized a \<and> k_command_id record \<in> set (au_recovery_ids a)))
         (\<lambda>evidence.
       andthen (reject (\<not> evidence) UnavailableError)
       (bnd (clock_recovered env) (\<lambda>ok.
       andthen (reject (\<not> ok) UnavailableError)
       (ret True))))
     else
       bnd (au_gets (\<lambda>a. alookup (k_command_id record) (au_windows a))) (\<lambda>found_window.
       case found_window of
         None \<Rightarrow> raise UnavailableError
       | Some win \<Rightarrow> bnd (clock_tick env) (\<lambda>tick. ret (wd_deadline win \<le> tick))))"

subsection \<open>Where the operations act\<close>

definition on_authority :: "(authority \<Rightarrow> bool) \<Rightarrow> 'z core_scheme \<Rightarrow> bool" where
  "on_authority P w \<longleftrightarrow> P (authority w)"

lemma pres_on_authority_db [pres]:
  "preserves (on_authority P) commit" "preserves (on_authority P) flush"
  "preserves (on_authority P) rollback" "preserves (on_authority P) (store f)"
  "preserves (on_authority P) next_read"
  by (auto simp: preserves_def on_authority_def commit_def flush_def rollback_def store_def
      next_read_def op_defs)

lemma pres_on_authority_save [pres]: "preserves (on_authority P) save"
  unfolding save_def by (intro pres)

lemma pres_on_authority_modify:
  "(\<And>a. P a \<Longrightarrow> P (f a)) \<Longrightarrow> preserves (on_authority P) (au_modify f)"
  by (simp add: preserves_def au_modify_def on_authority_def)

lemma pres_au_gets [pres]: "preserves P (au_gets f)"
  unfolding au_gets_def by (rule pres)

lemma pres_both_authority [pres]:
  "preserves (both P) (au_modify f)" "preserves (both P) next_read"
  "preserves (both P) (on_clock g)"
  by (auto simp: preserves_def both_def au_modify_def next_read_def on_clock_def op_defs
      split: prod.splits)

lemma pres_both_clock [pres]:
  "preserves (both P) (clock_tick env)" "preserves (both P) (clock_recovered env)"
  "preserves (both P) (clock_logical_now env)" "preserves (both P) (clock_sample env)"
  unfolding clock_tick_def clock_recovered_def clock_logical_now_def clock_sample_def
  by (intro pres)+

lemma pres_physical [pres]: "preserves P (physical gate h k)"
  unfolding physical_def by (intro pres)

lemma pres_candidate [pres]: "preserves P (current_candidate sha256 h k r)"
  unfolding current_candidate_def by (intro pres) (auto intro!: pres split: option.splits)

lemma au_gets_apply [simp]: "au_gets f w = (Inr (f (authority w)), w)"
  by (simp add: au_gets_def)

lemma clock_sample_result:
  "clock_sample env w = (r, w') \<Longrightarrow> \<exists>c. sample (env_sample env (reads w)) (au_clock (authority w)) = (r, c) \<and>
     w' = w\<lparr>reads := Suc (reads w), authority := (authority w)\<lparr>au_clock := c\<rparr>\<rparr>"
  by (auto simp: clock_sample_def next_read_def on_clock_def bnd_def split: prod.splits)

lemma current_candidate_Inr:
  "current_candidate sha256 h k r w = (Inr (row, record, win), w') \<Longrightarrow>
     w' = w \<and> tget k_command_id (pq_command_id r) (command_control (work w)) = Some record \<and>
     alookup (pq_command_id r) (au_windows (authority w)) = Some win \<and>
     c_command_id row = pq_command_id r \<and> c_house_id row = h \<and> c_device_id row = k \<and>
     pending row \<and> wd_identity win = identity row \<and>
     k_authority_epoch record = ck_epoch (au_clock (authority w)) \<and>
     pq_core_epoch r = k_authority_epoch record \<and>
     pq_intent_sha256 r = sha256 (k_wire_payload record) \<and> c_dispatch_started_at row \<noteq> None"
  by (auto simp: current_candidate_def bnd_Inr_iff andthen_Inr_iff find_command_def control_of_def
      dest!: tfind_SomeD split: option.splits)

subsection \<open>The authority stays within its bounds\<close>

definition windows_ok :: "authority \<Rightarrow> bool" where
  "windows_ok a \<longleftrightarrow> distinct (map fst (au_windows a)) \<and> length (au_windows a) \<le> MAX_WINDOWS \<and>
     (\<forall>(c, win) \<in> set (au_windows a). wd_deadline win \<le> ck_last (au_clock a) + LIFETIME_US)"

definition reply_ok :: "int \<Rightarrow> string \<times> string \<times> control_delivery \<Rightarrow> bool" where
  "reply_ok t0 = (\<lambda>(c, b, reply).
     dl_command_id reply = c \<and> dl_grant reply \<and>
     dl_valid_until reply < dl_deadline_tick reply \<and>
     dl_valid_until reply \<le> t0 + PERMIT_US - 1 \<and>
     dl_deadline_tick reply \<le> t0 + LIFETIME_US)"

definition replies_ok :: "authority \<Rightarrow> bool" where
  "replies_ok a \<longleftrightarrow> distinct (map fst (au_replies a)) \<and> length (au_replies a) \<le> MAX_REPLIES \<and>
     (\<forall>x \<in> set (au_replies a). reply_ok (ck_last (au_clock a)) x)"

definition authority_ok :: "authority \<Rightarrow> bool" where
  "authority_ok a \<longleftrightarrow> windows_ok a \<and> replies_ok a \<and> length (au_rates a) \<le> 4096"

lemmas authority_ok_defs = authority_ok_def windows_ok_def replies_ok_def

lemma authority_ok_init: "authority_ok (authority_init c)"
  by (simp add: authority_ok_defs authority_init_def)

text \<open>Bounds relative to the last tick survive any later tick.\<close>

lemma reply_ok_later: "reply_ok t x \<Longrightarrow> t \<le> t' \<Longrightarrow> reply_ok t' x"
  by (auto simp: reply_ok_def)

lemma authority_ok_clock:
  "authority_ok a \<Longrightarrow> ck_last (au_clock a) \<le> ck_last c \<Longrightarrow> authority_ok (a\<lparr>au_clock := c\<rparr>)"
  by (force simp: authority_ok_defs intro: reply_ok_later)

lemma control_tick_last: "ck_last c \<le> ck_last (snd (control_tick r c))"
  by (cases "control_tick r c") (auto dest: control_tick_frame)

lemma pres_ok_on_clock:
  assumes "\<And>c. ck_last c \<le> ck_last (snd (f c))"
  shows "preserves (on_authority authority_ok) (on_clock f)"
proof (rule preservesI)
  fix w :: "'b core_scheme"
  assume "on_authority authority_ok w"
  with assms [of "au_clock (authority w)"] show "on_authority authority_ok (snd (on_clock f w))"
    by (auto simp: on_authority_def on_clock_def authority_ok_clock split: prod.splits)
qed

lemma clocks_forward:
  "ck_last c \<le> ck_last (snd (recovered r c))" "ck_last c \<le> ck_last (snd (logical_now r c))"
  "ck_last c \<le> ck_last (snd (sample q c))"
proof -
  show "ck_last c \<le> ck_last (snd (recovered r c))" "ck_last c \<le> ck_last (snd (logical_now r c))"
    using control_tick_last [of c r]
    by (auto simp: recovered_cases logical_now_cases split: prod.splits sum.splits)
  show "ck_last c \<le> ck_last (snd (sample q c))"
    by (cases "sample q c") (auto dest: sample_frame)
qed

lemma pres_ok_clock [pres]:
  "preserves (on_authority authority_ok) (clock_tick env)"
  "preserves (on_authority authority_ok) (clock_recovered env)"
  "preserves (on_authority authority_ok) (clock_logical_now env)"
  "preserves (on_authority authority_ok) (clock_sample env)"
  unfolding clock_tick_def clock_recovered_def clock_logical_now_def clock_sample_def
  by (intro pres pres_ok_on_clock control_tick_last clocks_forward)+

lemma authority_ok_fault [simp]:
  "authority_ok a \<Longrightarrow> authority_ok (a\<lparr>au_clock := (au_clock a)\<lparr>ck_timer_fault := True\<rparr>\<rparr>)"
  by (rule authority_ok_clock) simp_all

lemma authority_ok_recovery [simp]:
  "authority_ok (a\<lparr>au_recovery_ids := ids\<rparr>) = authority_ok a"
  "authority_ok (a\<lparr>au_recovery_initialized := b\<rparr>) = authority_ok a"
  by (simp_all add: authority_ok_defs)

lemma pres_ok_initialize: "preserves (on_authority authority_ok) (initialize env)"
proof -
  have last: "preserves (on_authority authority_ok)
     (bnd (au_gets au_clock) (\<lambda>c.
       case env_tick env n of
         TickOther \<Rightarrow>
           andthen (au_modify (\<lambda>a. a\<lparr>au_clock := (au_clock a)\<lparr>ck_timer_fault := True\<rparr>\<rparr>)) (raise UnavailableError)
       | TickInt tick \<Rightarrow>
           if ck_timer_fault c \<or> tick < ck_last c
           then andthen (au_modify (\<lambda>a. a\<lparr>au_clock := (au_clock a)\<lparr>ck_timer_fault := True\<rparr>\<rparr>)) (raise UnavailableError)
           else au_modify (\<lambda>a. a\<lparr>au_clock := (au_clock a)\<lparr>ck_last := tick, ck_fence_start := tick\<rparr>,
                  au_recovery_ids := ids, au_recovery_initialized := True\<rparr>)))" for n ids
    by (rule preservesI)
      (auto simp: on_authority_def au_modify_def andthen_def bnd_def authority_ok_clock
        split: raw_tick.splits)
  show ?thesis
    unfolding initialize_def by (intro pres last)
qed

text \<open>After a sample the tick is known to be one the clock has reached.\<close>

definition ok_at :: "int \<Rightarrow> authority \<Rightarrow> bool" where
  "ok_at tick a \<longleftrightarrow> authority_ok a \<and> tick \<le> ck_last (au_clock a)"

lemma sample_strengthen:
  assumes "\<And>now tick. preserves (on_authority (ok_at tick)) (f (now, tick))"
  shows "preserves (on_authority authority_ok) (bnd (clock_sample env) f)"
proof (rule pres_bnd_strengthen [where Q = "\<lambda>x. on_authority (ok_at (snd x))"])
  show "preserves (on_authority authority_ok) (clock_sample env)" by (rule pres)
  fix s x t
  assume P: "on_authority authority_ok s" and run: "clock_sample env s = (Inr x, t)"
  have "on_authority authority_ok t"
    using preserves_result [OF pres_ok_clock(4) P run] .
  moreover have "snd x \<le> ck_last (au_clock (authority t))"
    using clock_sample_result [OF run] by (cases x) (auto simp: sample_Inr)
  ultimately show "on_authority (ok_at (snd x)) t" by (simp add: on_authority_def ok_at_def)
next
  show "preserves (on_authority (ok_at (snd x))) (f x)" for x using assms by (cases x) simp
qed (simp add: on_authority_def ok_at_def)

lemma wp_au [wp_simps]:
  "wp (au_gets f) Q E = (\<lambda>w. Q (f (authority w)) w)"
  "wp (au_modify g) R E = (\<lambda>w. R () (w\<lparr>authority := g (authority w)\<rparr>))"
  by (auto simp: au_gets_def au_modify_def wp_simps)

lemma on_authority_more [simp]:
  "on_authority P (w\<lparr>work := d\<rparr>) = on_authority P w" "on_authority P (w\<lparr>committed := d\<rparr>) = on_authority P w"
  "on_authority P (w\<lparr>authority := a\<rparr>) = P a"
  by (simp_all add: on_authority_def)

lemma pres_release [pres]: "preserves (on_authority (ok_at tick)) release_terminal"
proof -
  have "ok_at tick (a\<lparr>au_windows := fold apop ks (au_windows a)\<rparr>)" if "ok_at tick a" for a ks
    using that fold_apop(1,2) [of ks "au_windows a"] fold_apop(3) [of "au_windows a" ks]
    by (auto simp: ok_at_def authority_ok_defs)
  then show ?thesis
    unfolding release_terminal_def by (intro pres pres_on_authority_modify)
qed

lemma ok_at_window:
  assumes "ok_at tick a" and "length (au_windows a) < MAX_WINDOWS" and "n \<le> LIFETIME_US"
  shows "ok_at tick (a\<lparr>au_windows := aput c \<lparr>wd_deadline = tick + n, wd_identity = i, wd_wire_sha256 = h\<rparr>
    (au_windows a)\<rparr>)"
  using assms set_aput_subset [of c _ "au_windows a"]
  by (fastforce simp: ok_at_def authority_ok_defs distinct_aput length_aput)

lemma ok_at_ok: "preserves (on_authority (ok_at tick)) m \<Longrightarrow> on_authority (ok_at tick) w \<Longrightarrow>
    on_authority authority_ok (snd (m w))"
  by (drule (1) preservesD) (simp add: on_authority_def ok_at_def)

lemma pres_ok_prepare: "preserves (on_authority authority_ok) (prepare sha256 gate env transient row)"
proof -
  have tail: "preserves (on_authority (ok_at tick)) (andthen release_terminal
      (bnd (au_gets (\<lambda>a. length (au_windows a))) (\<lambda>count.
      andthen (reject (MAX_WINDOWS \<le> count) UnavailableError)
      (bnd (au_gets (\<lambda>a. ck_epoch (au_clock a))) (\<lambda>epoch.
      andthen (store f)
      (andthen (handle flush (\<lambda>e. if e = IntegrityError
                  then andthen rollback (raise ConflictError) else raise e))
      (andthen (store (g epoch))
      (andthen save
      (au_modify (\<lambda>a. a\<lparr>au_windows := aput c
         \<lparr>wd_deadline = tick + n, wd_identity = i, wd_wire_sha256 = h epoch\<rparr> (au_windows a)\<rparr>))))))))))"
    if "n \<le> LIFETIME_US" for tick n f g c i h
    using that
    by (intro pres_andthen pres_release preserves_wp)
      (auto simp: wp_simps on_authority_def intro: ok_at_window)
  show ?thesis
    unfolding prepare_def Let_def find_command_def
    by (intro pres_andthen pres_physical pres_bnd [OF pres_au_gets] pres_reject sample_strengthen)
      (auto intro!: pres_bnd pres_andthen_reject pres tail)
qed

lemma pres_ok_stage: "preserves (on_authority authority_ok) (stage sha256 gate env house device c)"
  unfolding stage_def put_command_def find_command_def control_of_def
  by (intro pres_andthen pres_physical sample_strengthen)
    (auto intro!: pres split: option.splits)

text \<open>The window of the request is one of the open windows.\<close>

definition grant_at :: "int \<Rightarrow> window \<Rightarrow> authority \<Rightarrow> bool" where
  "grant_at tick win a \<longleftrightarrow> ok_at tick a \<and> wd_deadline win \<le> ck_last (au_clock a) + LIFETIME_US"

lemma grant_at_prune: "grant_at tick win a \<Longrightarrow> grant_at tick win (prune_rates t a)"
  by (auto simp: prune_rates_def Let_def grant_at_def ok_at_def authority_ok_defs
      intro: order_trans [OF length_filter_le])

lemma grant_at_count:
  "grant_at tick win a \<Longrightarrow> \<not> rate_exceeded house device a \<Longrightarrow>
   grant_at tick win (count_request house device t a)"
  by (auto simp: rate_exceeded_def count_request_def grant_at_def ok_at_def authority_ok_defs length_aput)

lemma grant_at_filter:
  "grant_at tick win a \<Longrightarrow> grant_at tick win (a\<lparr>au_replies := filter p (au_replies a)\<rparr>)"
  by (auto simp: grant_at_def ok_at_def authority_ok_defs distinct_map_filter
      intro: order_trans [OF length_filter_le])

lemma grant_at_reply:
  assumes "grant_at tick win a" and "length (au_replies a) < MAX_REPLIES"
    and "n = min PERMIT_US (wd_deadline win - tick) - 1"
  shows "grant_at tick win (a\<lparr>au_replies := aput c (b, \<lparr>dl_payload = p, dl_command_id = c, dl_epoch = e,
     dl_deadline_tick = wd_deadline win, dl_valid_until = tick + n, dl_grant = True\<rparr>) (au_replies a)\<rparr>)"
proof -
  let ?dl = "\<lparr>dl_payload = p, dl_command_id = c, dl_epoch = e, dl_deadline_tick = wd_deadline win,
    dl_valid_until = tick + n, dl_grant = True\<rparr>"
  have "reply_ok (ck_last (au_clock a)) (c, b, ?dl)"
    using assms by (auto simp: reply_ok_def grant_at_def ok_at_def)
  then show ?thesis
    using assms(1,2) set_aput_subset [of c "(b, ?dl)" "au_replies a"]
    by (fastforce simp: grant_at_def ok_at_def authority_ok_defs distinct_aput length_aput)
qed

lemma grant_at_filter_reply:
  assumes "grant_at tick win a" and "length (filter p (au_replies a)) < MAX_REPLIES"
    and "n = min PERMIT_US (wd_deadline win - tick) - 1"
  shows "grant_at tick win (a\<lparr>au_replies := aput c (b, \<lparr>dl_payload = q, dl_command_id = c, dl_epoch = e,
     dl_deadline_tick = wd_deadline win, dl_valid_until = tick + n, dl_grant = True\<rparr>)
     (filter p (au_replies a))\<rparr>)"
  using grant_at_reply [OF grant_at_filter [OF assms(1), of p] _ assms(3)] assms(2) by simp

lemma pres_grant_at [pres]:
  "preserves (on_authority (grant_at tick win)) (grant house device r row win binding now tick)"
  unfolding grant_def limit_def consume_permit_def Let_def
  by (rule preserves_wp)
    (auto simp: wp_simps on_authority_def intro!: grant_at_prune grant_at_count grant_at_filter grant_at_filter_reply)

lemma pres_replay [pres]: "preserves P (replay_reply record binding tick)"
  unfolding replay_reply_def by (intro pres) (auto intro!: pres)

lemma pres_ok_request: "preserves (on_authority authority_ok) (request sha256 gate env house device r)"
  unfolding request_def Let_def
proof (intro pres_andthen pres_physical sample_strengthen)
  fix now tick
  show "preserves (on_authority (ok_at tick))
     (case (now, tick) of (now, tick) \<Rightarrow> bnd (current_candidate sha256 house device r) (\<lambda>(row, record, win).
     andthen (reject (wd_deadline win \<le> tick) ConflictError)
     (if k_permit_binding_sha256 record \<noteq> None
      then replay_reply record (permit_binding sha256 house device r) tick
      else grant house device r row win (permit_binding sha256 house device r) now tick)))"
    unfolding prod.case
  proof (rule pres_bnd_strengthen [where Q = "\<lambda>(row, record, win). on_authority (grant_at tick win)"])
    fix s x t
    assume P: "on_authority (ok_at tick) s"
      and run: "current_candidate sha256 house device r s = (Inr x, t)"
    obtain row krow win where x: "x = (row, krow, win)" by (metis prod_cases3)
    from current_candidate_Inr [OF run [unfolded x]] have "t = s"
      and "(pq_command_id r, win) \<in> set (au_windows (authority s))"
      by (auto dest: alookup_SomeD)
    with P show "(case x of (row, record, win) \<Rightarrow> on_authority (grant_at tick win)) t"
      by (auto simp: x on_authority_def grant_at_def ok_at_def authority_ok_defs)
  next
    fix x :: "command_row \<times> control_row \<times> window"
    show "preserves (case x of (row, record, win) \<Rightarrow> on_authority (grant_at tick win))
      (case x of (row, record, win) \<Rightarrow> andthen (reject (wd_deadline win \<le> tick) ConflictError)
       (if k_permit_binding_sha256 record \<noteq> None
        then replay_reply record (permit_binding sha256 house device r) tick
        else grant house device r row win (permit_binding sha256 house device r) now tick))"
      by (cases x) (auto intro!: pres)
  qed (auto intro: pres simp: on_authority_def grant_at_def split: prod.splits)
qed

lemma pres_ok_expired: "preserves (on_authority authority_ok) (expired env record)"
  unfolding expired_def by (intro pres)

lemma pres_ok_validate: "preserves (on_authority authority_ok) (validate_delivery env dl)"
  unfolding validate_delivery_def by (intro pres) (auto intro!: pres)

subsection \<open>Runs\<close>

text \<open>
  Calls of the authority, each in its own session, interleaved with transactions of other
  parts of the program (\<open>Elsewhere\<close>), which never touch the private control ledger.
\<close>

datatype authority_call =
    Initialize_call
  | Prepare_call bool command_row
  | Stage_call string string string
  | Request_call string string permit_request
  | Validate_call control_delivery
  | Expired_call control_row
  | Elsewhere db

fun authority_op ::
  "(string \<Rightarrow> string) \<Rightarrow> gate \<Rightarrow> environment \<Rightarrow> authority_call \<Rightarrow> ('z core_scheme, unit) op" where
  "authority_op sha256 gate env Initialize_call = initialize env"
| "authority_op sha256 gate env (Prepare_call t row) = prepare sha256 gate env t row"
| "authority_op sha256 gate env (Stage_call h k c) = andthen (stage sha256 gate env h k c) (ret ())"
| "authority_op sha256 gate env (Request_call h k r) = andthen (request sha256 gate env h k r) (ret ())"
| "authority_op sha256 gate env (Validate_call dl) = validate_delivery env dl"
| "authority_op sha256 gate env (Expired_call record) = andthen (expired env record) (ret ())"
| "authority_op sha256 gate env (Elsewhere d) =
     (\<lambda>w. if command_control d = command_control (committed w)
          then (Inr (), w\<lparr>committed := d, work := d\<rparr>) else (Inl ConflictError, w))"

definition authority_step ::
  "(string \<Rightarrow> string) \<Rightarrow> gate \<Rightarrow> environment \<Rightarrow> authority_call \<Rightarrow> 'z core_scheme \<Rightarrow> 'z core_scheme" where
  "authority_step sha256 gate env call w = snd (in_session (authority_op sha256 gate env call) w)"

lemma pres_on_authority_session:
  "preserves (on_authority P) m \<Longrightarrow> preserves (on_authority P) (in_session m)"
proof (rule preservesI)
  fix w :: "'a core_scheme"
  assume m: "preserves (on_authority P) m" and "on_authority P w"
  then have "on_authority P (w\<lparr>work := committed w\<rparr>)" by simp
  from preservesD [OF m this] show "on_authority P (snd (in_session m w))"
    by (cases "m (w\<lparr>work := committed w\<rparr>)") (simp add: in_session_def)
qed

lemma pres_elsewhere: "preserves (on_authority P)
    (\<lambda>w. if command_control d = command_control (committed w)
          then (Inr (), w\<lparr>committed := d, work := d\<rparr>) else (Inl ConflictError, w))"
  by (simp add: preserves_def on_authority_def)

lemma pres_ok_op: "preserves (on_authority authority_ok) (authority_op sha256 gate env call)"
  by (cases call)
    (auto intro!: pres_andthen pres_ret pres_ok_initialize pres_ok_prepare pres_ok_stage
      pres_ok_request pres_ok_validate pres_ok_expired pres_elsewhere)

interpretation authority_runs: invariant_machine "authority_step sha256 gate env"
    "on_authority authority_ok"
  for sha256 gate env
  unfolding authority_step_def
  by unfold_locales (intro preservesD [OF pres_on_authority_session [OF pres_ok_op]])

subsection \<open>A consumed permit stays consumed\<close>

text \<open>
  \<open>bound c\<close>: the ledger row of \<open>c\<close> carries a permit binding. \<open>fixed c b reply\<close>: so it is in the
  committed and in the working state, and the only reply the authority may still hold for \<open>c\<close>
  is \<open>reply\<close>.
\<close>

definition bound :: "string \<Rightarrow> db \<Rightarrow> bool" where
  "bound c d \<longleftrightarrow> (\<exists>k. tget k_command_id c (command_control d) = Some k \<and> k_permit_binding_sha256 k \<noteq> None)"

definition only_reply :: "string \<Rightarrow> string \<Rightarrow> control_delivery \<Rightarrow> authority \<Rightarrow> bool" where
  "only_reply c b reply a \<longleftrightarrow> (\<forall>x. (c, x) \<in> set (au_replies a) \<longrightarrow> x = (b, reply))"

definition fixed :: "string \<Rightarrow> string \<Rightarrow> control_delivery \<Rightarrow> 'z core_scheme \<Rightarrow> bool" where
  "fixed c b reply w \<longleftrightarrow> both (bound c) w \<and> on_authority (only_reply c b reply) w"

lemma pres_fixed: "preserves (both (bound c)) m \<Longrightarrow> preserves (on_authority (only_reply c b reply)) m \<Longrightarrow>
    preserves (fixed c b reply) m"
  by (auto simp: preserves_def fixed_def)

lemma pres_only_reply_clock [pres]:
  "preserves (on_authority (only_reply c b reply)) (on_clock f)"
  by (auto simp: preserves_def on_clock_def on_authority_def only_reply_def split: prod.splits)

lemma pres_only_reply_clocks [pres]:
  "preserves (on_authority (only_reply c b reply)) (clock_tick env)"
  "preserves (on_authority (only_reply c b reply)) (clock_recovered env)"
  "preserves (on_authority (only_reply c b reply)) (clock_sample env)"
  unfolding clock_tick_def clock_recovered_def clock_sample_def by (intro pres)+

lemma pres_only_reply_modify [pres]:
  "(\<And>a. set (au_replies (f a)) \<subseteq> set (au_replies a)) \<Longrightarrow>
   preserves (on_authority (only_reply c b reply)) (au_modify f)"
  by (rule pres_on_authority_modify) (fastforce simp: only_reply_def)

lemma bound_append: "bound c d \<Longrightarrow> bound c (command_control_update (\<lambda>t. t @ xs) d)"
  by (auto simp: bound_def tget_append)

lemma bound_commands: "bound c (device_commands_update f d) = bound c d"
  by (simp add: bound_def)

lemma bound_consume:
  assumes "bound c d"
  shows "bound c (command_control_update
     (update_where (\<lambda>k. k_command_id k = c' \<and> k_permit_binding_sha256 k = None)
       (\<lambda>k. k\<lparr>k_permit_binding_sha256 := Some b\<rparr>)) d)"
proof -
  from assms obtain k where "tget k_command_id c (command_control d) = Some k"
    and "k_permit_binding_sha256 k \<noteq> None"
    by (auto simp: bound_def)
  then have "tget k_command_id c (update_where (\<lambda>k. k_command_id k = c' \<and> k_permit_binding_sha256 k = None)
      (\<lambda>k. k\<lparr>k_permit_binding_sha256 := Some b\<rparr>) (command_control d)) = Some k"
    by (simp add: tget_update_where)
  with \<open>k_permit_binding_sha256 k \<noteq> None\<close> show ?thesis by (simp add: bound_def)
qed

lemma pres_fixed_prepare: "preserves (fixed c b reply) (prepare sha256 gate env transient row)"
  unfolding prepare_def release_terminal_def find_command_def Let_def case_prod_unfold
  by (rule pres_fixed; intro pres bound_append) (simp_all add: bound_commands)

lemma pres_fixed_stage: "preserves (fixed c b reply) (stage sha256 gate env house device cid)"
  unfolding stage_def put_command_def find_command_def control_of_def case_prod_unfold
  by (rule pres_fixed; intro pres) (auto intro!: pres simp: bound_commands split: option.splits)

lemma pres_fixed_initialize: "preserves (fixed c b reply) (initialize env)"
  unfolding initialize_def
  by (rule pres_fixed; intro pres) (auto intro!: pres split: raw_tick.splits)

lemma pres_fixed_expired: "preserves (fixed c b reply) (expired env record)"
  unfolding expired_def by (rule pres_fixed; intro pres)

lemma pres_fixed_validate: "preserves (fixed c b reply) (validate_delivery env dl)"
  unfolding validate_delivery_def case_prod_unfold by (rule pres_fixed; intro pres)

lemma pres_fixed_grant:
  assumes "c_command_id row \<noteq> c"
  shows "preserves (fixed c b reply) (grant house device r row win binding now tick)"
proof (rule pres_fixed)
  show "preserves (both (bound c)) (grant house device r row win binding now tick)"
    unfolding grant_def limit_def consume_permit_def Let_def
    by (intro pres bound_consume)
  have aput: "only_reply c b reply (a\<lparr>au_replies := aput (c_command_id row) x (filter p (au_replies a))\<rparr>)"
    if "only_reply c b reply a" for a x p
  proof -
    have "c \<noteq> c_command_id row" using assms by simp
    with that show ?thesis by (fastforce simp: only_reply_def dest: aput_other)
  qed
  have less: "only_reply c b reply (prune_rates t a) = only_reply c b reply a"
    "only_reply c b reply (count_request house device t a) = only_reply c b reply a"
    "only_reply c b reply a \<Longrightarrow> only_reply c b reply (a\<lparr>au_replies := filter p (au_replies a)\<rparr>)" for t a p
    by (auto simp: prune_rates_def count_request_def Let_def only_reply_def)
  show "preserves (on_authority (only_reply c b reply)) (grant house device r row win binding now tick)"
    unfolding grant_def limit_def consume_permit_def Let_def
    by (rule preserves_wp) (auto simp: wp_simps on_authority_def less intro: aput)
qed

lemma pres_fixed_request: "preserves (fixed c b reply) (request sha256 gate env house device r)"
  unfolding request_def Let_def case_prod_unfold
proof (rule pres_andthen [OF pres_physical], rule pres_bnd)
  show "preserves (fixed c b reply) (clock_sample env)" by (rule pres_fixed; intro pres)
  fix nt :: "int \<times> int"
  show "preserves (fixed c b reply) (bnd (current_candidate sha256 house device r) (\<lambda>x.
     andthen (reject (wd_deadline (snd (snd x)) \<le> snd nt) ConflictError)
       (if k_permit_binding_sha256 (fst (snd x)) \<noteq> None
        then replay_reply (fst (snd x)) (permit_binding sha256 house device r) (snd nt)
        else grant house device r (fst x) (snd (snd x)) (permit_binding sha256 house device r)
          (fst nt) (snd nt))))"
  proof (rule pres_bnd_fact [where F = "\<lambda>x. c_command_id (fst x) = c \<longrightarrow>
      k_permit_binding_sha256 (fst (snd x)) \<noteq> None"])
    show "preserves (fixed c b reply) (current_candidate sha256 house device r)" by (rule pres)
    fix s x t
    assume "fixed c b reply s" and "current_candidate sha256 house device r s = (Inr x, t)"
    then show "c_command_id (fst x) = c \<longrightarrow> k_permit_binding_sha256 (fst (snd x)) \<noteq> None"
      by (cases x) (auto simp: fixed_def both_def bound_def dest!: current_candidate_Inr)
  next
    fix x :: "command_row \<times> control_row \<times> window"
    assume "c_command_id (fst x) = c \<longrightarrow> k_permit_binding_sha256 (fst (snd x)) \<noteq> None"
    then show "preserves (fixed c b reply) (andthen (reject (wd_deadline (snd (snd x)) \<le> snd nt) ConflictError)
       (if k_permit_binding_sha256 (fst (snd x)) \<noteq> None
        then replay_reply (fst (snd x)) (permit_binding sha256 house device r) (snd nt)
        else grant house device r (fst x) (snd (snd x)) (permit_binding sha256 house device r)
          (fst nt) (snd nt)))"
      by (intro pres_andthen pres_reject pres_if pres_replay pres_fixed_grant) auto
  qed
qed

lemma pres_fixed_session:
  "preserves (fixed c b reply) m \<Longrightarrow> preserves (fixed c b reply) (in_session m)"
proof (rule preservesI)
  fix w :: "'a core_scheme"
  assume m: "preserves (fixed c b reply) m" and "fixed c b reply w"
  then have "fixed c b reply (w\<lparr>work := committed w\<rparr>)" by (simp add: fixed_def both_def)
  from preservesD [OF m this] show "fixed c b reply (snd (in_session m w))"
    by (cases "m (w\<lparr>work := committed w\<rparr>)") (simp add: in_session_def fixed_def both_def)
qed

lemma pres_fixed_op: "preserves (fixed c b reply) (authority_op sha256 gate env call)"
proof (cases call)
  case (Elsewhere d)
  then show ?thesis by (auto simp: preserves_def fixed_def both_def bound_def)
qed (auto intro!: pres_andthen pres_ret pres_fixed_initialize pres_fixed_prepare pres_fixed_stage
      pres_fixed_request pres_fixed_validate pres_fixed_expired)

interpretation permit_runs: invariant_machine "authority_step sha256 gate env" "fixed c b reply"
  for sha256 gate env c b reply
  unfolding authority_step_def
  by unfold_locales (intro preservesD [OF pres_fixed_session [OF pres_fixed_op]])

subsection \<open>The result of a request\<close>

lemma consumed_bound:
  assumes "db_ok d" and "d = command_control_update
     (update_where (\<lambda>k. k_command_id k = c \<and> k_permit_binding_sha256 k = None)
       (\<lambda>k. k\<lparr>k_permit_binding_sha256 := Some b\<rparr>)) e"
    and "rowcount (\<lambda>k. k_command_id k = c \<and> k_permit_binding_sha256 k = None) (command_control e) = 1"
  shows "bound c d"
proof -
  from assms(3) have "filter (\<lambda>k. k_command_id k = c \<and> k_permit_binding_sha256 k = None)
      (command_control e) \<noteq> []"
    unfolding rowcount_def by (metis list.size(3) zero_neq_one)
  then obtain k where k: "k \<in> set (command_control e)" "k_command_id k = c" "k_permit_binding_sha256 k = None"
    by (auto simp: filter_empty_conv)
  let ?k = "k\<lparr>k_permit_binding_sha256 := Some b\<rparr>"
  have "?k \<in> set (command_control d)"
    using k by (force simp: assms(2) update_where_def)
  moreover have "unique k_command_id (command_control d)"
    using assms(1) by (simp add: db_ok_def commands_ok_def)
  ultimately have "tget k_command_id c (command_control d) = Some ?k"
    using unique_tget [of k_command_id "command_control d" ?k] k(2) by simp
  then show ?thesis by (simp add: bound_def)
qed

definition granted :: "window \<Rightarrow> int \<Rightarrow> string \<Rightarrow> control_delivery \<Rightarrow> bool" where
  "granted win tick c dl \<longleftrightarrow>
     dl_command_id dl = c \<and> dl_grant dl \<and> dl_deadline_tick dl = wd_deadline win \<and>
     dl_valid_until dl = tick + (min PERMIT_US (wd_deadline win - tick) - 1) \<and> tick < dl_valid_until dl"

lemma grant_wp:
  "distinct (map fst (au_replies (authority w))) \<Longrightarrow>
   wp (grant house device r row win b now tick)
     (\<lambda>dl w'. granted win tick (c_command_id row) dl \<and> both (bound (c_command_id row)) w' \<and>
        (c_command_id row, b, dl) \<in> set (au_replies (authority w')) \<and>
        distinct (map fst (au_replies (authority w')))) (\<lambda>_ _. True) w"
proof -
  have aput_in: "(k, v) \<in> set (aput k v kvs)" for k :: string and v :: "string \<times> control_delivery" and kvs
    by (induction k v kvs rule: aput.induct) auto
  have same: "au_replies (prune_rates t a) = au_replies a" "au_replies (count_request house device t a) = au_replies a" for t a
    by (simp_all add: prune_rates_def count_request_def Let_def)
  assume "distinct (map fst (au_replies (authority w)))"
  then show ?thesis
    unfolding grant_def limit_def consume_permit_def Let_def
    by (auto simp: wp_simps granted_def both_def aput_in same distinct_aput distinct_map_filter
        intro: consumed_bound)
qed

lemma distinct_fst_eq: "distinct (map fst kvs) \<Longrightarrow> (k, x) \<in> set kvs \<Longrightarrow> (k, y) \<in> set kvs \<Longrightarrow> x = y"
  by (rule eq_key_imp_eq_value)

text \<open>
  Either the reply was already there for this very binding and the ledger is as it was, or a
  new permit was granted; in both cases the permit of the command is now fixed to the reply.
\<close>

lemma request_Inr:
  assumes "request sha256 gate env house device r w = (Inr dl, w')"
    and "on_authority authority_ok w" and "work w = committed w"
  obtains tick tick2 win b where
    "sr_tick (env_sample env (reads w)) = TickInt tick"
    "ck_last (au_clock (authority w)) \<le> tick"
    "alookup (pq_command_id r) (au_windows (authority w)) = Some win" "tick < wd_deadline win"
    "fixed (pq_command_id r) b dl w'"
    "granted win tick (pq_command_id r) dl \<or>
     (alookup (pq_command_id r) (au_replies (authority w)) = Some (permit_binding sha256 house device r, dl) \<and>
      tick < dl_valid_until dl)"
proof -
  from assms(1) obtain now tick w1 x row krow win where
    smp: "clock_sample env w = (Inr (now, tick), w1)" and
    cand: "current_candidate sha256 house device r w1 = (Inr (row, krow, win), w1)" and
    dead: "tick < wd_deadline win" and
    fin: "(if k_permit_binding_sha256 krow \<noteq> None
        then replay_reply krow (permit_binding sha256 house device r) tick
        else grant house device r row win (permit_binding sha256 house device r) now tick) w1 = (Inr dl, w')"
    by (auto simp: request_def andthen_Inr_iff bnd_Inr_iff physical_def physical_for_house_def by_device_def
        device_house_id_def found_def Let_def not_le split: option.splits if_splits
        dest: current_candidate_Inr)
  note c = current_candidate_Inr [OF cand]
  from clock_sample_result [OF smp] obtain ck where
    ck: "sample (env_sample env (reads w)) (au_clock (authority w)) = (Inr (now, tick), ck)"
    and w1: "w1 = w\<lparr>reads := Suc (reads w), authority := (authority w)\<lparr>au_clock := ck\<rparr>\<rparr>" by blast
  from assms(2) have dist: "distinct (map fst (au_replies (authority w)))"
    by (simp add: on_authority_def authority_ok_defs)
  have facts: "sr_tick (env_sample env (reads w)) = TickInt tick" "ck_last (au_clock (authority w)) \<le> tick"
    "alookup (pq_command_id r) (au_windows (authority w)) = Some win"
    using ck c w1 by (auto simp: sample_Inr)
  show thesis
  proof (cases "k_permit_binding_sha256 krow")
    case None
    with fin have run: "grant house device r row win (permit_binding sha256 house device r) now tick w1 = (Inr dl, w')"
      by simp
    have "distinct (map fst (au_replies (authority w1)))" using dist w1 by simp
    from wp_Inr [OF grant_wp [OF this] run] c have g: "granted win tick (pq_command_id r) dl"
      and "fixed (pq_command_id r) (permit_binding sha256 house device r) dl w'"
      by (auto simp: fixed_def on_authority_def only_reply_def dest: distinct_fst_eq)
    with that facts dead show thesis by blast
  next
    case (Some b0)
    with fin have "w' = w1" and look: "alookup (k_command_id krow) (au_replies (authority w1)) =
        Some (permit_binding sha256 house device r, dl)" and valid: "tick < dl_valid_until dl"
      by (auto simp: replay_reply_def bnd_Inr_iff andthen_Inr_iff not_le split: option.splits)
    have kid: "k_command_id krow = pq_command_id r" using c by (auto dest: tget_SomeD)
    have "fixed (pq_command_id r) (permit_binding sha256 house device r) dl w'"
      using c Some look kid dist assms(3) \<open>w' = w1\<close> w1
      by (auto simp: fixed_def both_def bound_def on_authority_def only_reply_def
          dest!: alookup_SomeD dest: distinct_fst_eq)
    with that facts dead look valid kid w1 show thesis by auto
  qed
qed

lemma request_fixed:
  assumes "request sha256 gate env house device r w = (Inr dl, w')"
    and "fixed (pq_command_id r) b reply w"
  shows "dl = reply"
proof -
  from assms(1) obtain now tick w1 row krow win where
    smp: "clock_sample env w = (Inr (now, tick), w1)" and
    cand: "current_candidate sha256 house device r w1 = (Inr (row, krow, win), w1)" and
    fin: "(if k_permit_binding_sha256 krow \<noteq> None
        then replay_reply krow (permit_binding sha256 house device r) tick
        else grant house device r row win (permit_binding sha256 house device r) now tick) w1 = (Inr dl, w')"
    by (auto simp: request_def andthen_Inr_iff bnd_Inr_iff physical_def physical_for_house_def by_device_def
        device_house_id_def found_def Let_def not_le split: option.splits if_splits
        dest: current_candidate_Inr)
  note c = current_candidate_Inr [OF cand]
  from clock_sample_result [OF smp] obtain ck where
    w1: "w1 = w\<lparr>reads := Suc (reads w), authority := (authority w)\<lparr>au_clock := ck\<rparr>\<rparr>" by blast
  have kid: "k_command_id krow = pq_command_id r" using c by (auto dest: tget_SomeD)
  have "k_permit_binding_sha256 krow \<noteq> None"
    using assms(2) c w1 by (auto simp: fixed_def both_def bound_def)
  with fin have "alookup (pq_command_id r) (au_replies (authority w1)) =
        Some (permit_binding sha256 house device r, dl)"
    by (auto simp: replay_reply_def bnd_Inr_iff andthen_Inr_iff kid split: option.splits)
  then show ?thesis
    using assms(2) w1 by (auto simp: fixed_def on_authority_def only_reply_def dest!: alookup_SomeD)
qed

subsection \<open>Windows and replies follow the expiry of their command\<close>

text \<open>
  \<open>clock_time\<close>: what the clock serves at a tick, its anchor plus the ticks since its start.
  \<open>timed\<close>: the deadline of every window is the tick at which the clock reaches the
  \<open>expires_at\<close> of the candidate it was prepared for; a reply and a window of one command end
  together, because a command that has a reply has its control row, so that its id cannot be
  prepared again.
\<close>

definition clock_time :: "control_clock \<Rightarrow> int \<Rightarrow> int" where
  "clock_time clk tick = instant (ck_anchor clk) + (tick - ck_start clk)"

definition identity_expiry :: "intent_identity \<Rightarrow> int" where
  "identity_expiry = (\<lambda>(c, h, k, corr, created, expires, on). expires)"

lemma expiry_of_identity [simp]: "identity_expiry (identity row) = c_expires_at row"
  by (simp add: identity_expiry_def identity_def)

definition anchored :: "control_clock \<Rightarrow> authority \<Rightarrow> bool" where
  "anchored clk a \<longleftrightarrow> ck_start (au_clock a) = ck_start clk \<and> ck_anchor (au_clock a) = ck_anchor clk \<and>
     distinct (map fst (au_windows a)) \<and>
     (\<forall>x \<in> set (au_windows a). clock_time clk (wd_deadline (snd x)) = identity_expiry (wd_identity (snd x)))"

definition linked :: "authority \<Rightarrow> bool" where
  "linked a \<longleftrightarrow> (\<forall>x \<in> set (au_replies a). \<forall>y \<in> set (au_windows a). fst x = fst y \<longrightarrow>
     dl_deadline_tick (snd (snd x)) = wd_deadline (snd y))"

definition recorded :: "string \<Rightarrow> db \<Rightarrow> bool" where
  "recorded c d \<longleftrightarrow> c \<in> k_command_id ` set (command_control d)"

definition timed :: "control_clock \<Rightarrow> 'z core_scheme \<Rightarrow> bool" where
  "timed clk w \<longleftrightarrow> anchored clk (authority w) \<and> linked (authority w) \<and>
     (\<forall>x \<in> set (au_replies (authority w)). both (recorded (fst x)) w)"

lemmas timed_defs = timed_def anchored_def linked_def both_def

lemma timed_init: "timed clk (w\<lparr>authority := authority_init clk\<rparr>)"
  by (simp add: timed_defs authority_init_def)

lemma pres_timed_db [pres]:
  "preserves (timed clk) commit" "preserves (timed clk) flush"
  "preserves (timed clk) rollback" "preserves (timed clk) next_read"
  by (auto simp: preserves_def timed_defs commit_def flush_def rollback_def next_read_def op_defs)

lemma pres_timed_save [pres]: "preserves (timed clk) save"
  unfolding save_def by (intro pres)

lemma pres_timed_store [pres]:
  "(\<And>c d. recorded c d \<Longrightarrow> recorded c (f d)) \<Longrightarrow> preserves (timed clk) (store f)"
  by (auto simp: preserves_def timed_defs store_def op_defs)

lemma pres_timed_modify [pres]:
  "(\<And>a. ck_start (au_clock (f a)) = ck_start (au_clock a) \<and> ck_anchor (au_clock (f a)) = ck_anchor (au_clock a) \<and>
      (distinct (map fst (au_windows a)) \<longrightarrow> distinct (map fst (au_windows (f a)))) \<and>
      set (au_windows (f a)) \<subseteq> set (au_windows a) \<and> set (au_replies (f a)) \<subseteq> set (au_replies a)) \<Longrightarrow>
   preserves (timed clk) (au_modify f)"
  by (rule preservesI) (fastforce simp: timed_defs au_modify_def)

lemma pres_timed_clock:
  "(\<And>c. ck_start (snd (f c)) = ck_start c \<and> ck_anchor (snd (f c)) = ck_anchor c) \<Longrightarrow>
   preserves (timed clk) (on_clock f)"
  by (rule preservesI) (auto simp: timed_defs on_clock_def split: prod.splits, (metis snd_conv)+)

lemma clocks_keep_anchor:
  "ck_start (snd (control_tick r c)) = ck_start c \<and> ck_anchor (snd (control_tick r c)) = ck_anchor c"
  "ck_start (snd (recovered r c)) = ck_start c \<and> ck_anchor (snd (recovered r c)) = ck_anchor c"
  "ck_start (snd (sample q c)) = ck_start c \<and> ck_anchor (snd (sample q c)) = ck_anchor c"
proof -
  show tick: "ck_start (snd (control_tick r c)) = ck_start c \<and> ck_anchor (snd (control_tick r c)) = ck_anchor c"
    by (cases "control_tick r c") (auto dest: control_tick_frame)
  then show "ck_start (snd (recovered r c)) = ck_start c \<and> ck_anchor (snd (recovered r c)) = ck_anchor c"
    by (auto simp: recovered_cases split: prod.splits sum.splits)
  show "ck_start (snd (sample q c)) = ck_start c \<and> ck_anchor (snd (sample q c)) = ck_anchor c"
    by (cases "sample q c") (auto dest: sample_frame)
qed

lemma pres_timed_clocks [pres]:
  "preserves (timed clk) (clock_tick env)" "preserves (timed clk) (clock_recovered env)"
  "preserves (timed clk) (clock_sample env)"
  unfolding clock_tick_def clock_recovered_def clock_sample_def
  by (intro pres pres_timed_clock clocks_keep_anchor)+

lemma recorded_append: "recorded c d \<Longrightarrow> recorded c (command_control_update (\<lambda>t. t @ xs) d)"
  by (auto simp: recorded_def)

lemma recorded_tget: "tget k_command_id c (command_control d) = Some k \<Longrightarrow> recorded c d"
  by (drule tget_SomeD) (auto simp: recorded_def)

lemma recorded_commands: "recorded c (device_commands_update f d) = recorded c d"
  by (simp add: recorded_def)

lemma recorded_consume: "recorded c (command_control_update
     (update_where p (\<lambda>k. k\<lparr>k_permit_binding_sha256 := b\<rparr>)) d) = recorded c d"
proof -
  have "map k_command_id (update_where p (\<lambda>k. k\<lparr>k_permit_binding_sha256 := b\<rparr>) t) = map k_command_id t" for t
    by (auto simp: update_where_def)
  from arg_cong [OF this, of set] show ?thesis by (simp add: recorded_def)
qed

lemma pres_timed_initialize: "preserves (timed clk) (initialize env)"
  unfolding initialize_def by (intro pres) (auto intro!: pres split: raw_tick.splits)

lemma pres_timed_stage: "preserves (timed clk) (stage sha256 gate env house device c)"
  unfolding stage_def put_command_def find_command_def control_of_def case_prod_unfold
  by (intro pres) (auto intro!: pres simp: recorded_commands split: option.splits)

lemma pres_timed_expired: "preserves (timed clk) (expired env record)"
  unfolding expired_def by (intro pres)

lemma pres_timed_validate: "preserves (timed clk) (validate_delivery env dl)"
  unfolding validate_delivery_def case_prod_unfold by (intro pres)

lemma pres_timed_release [pres]: "preserves (timed clk) release_terminal"
proof -
  have "set (fold apop ks kvs) \<subseteq> set kvs"
    and "distinct (map fst kvs) \<longrightarrow> distinct (map fst (fold apop ks kvs))" for ks and kvs :: "(string \<times> window) list"
    using fold_apop by blast+
  then show ?thesis unfolding release_terminal_def by (intro pres) simp_all
qed

text \<open>The window of a fresh candidate: a candidate with a reply would not pass the unique key.\<close>

lemma timed_window:
  assumes "timed clk w" and "db_ok d" and "committed v = d" and "work v = d"
    and "d = command_control_update (\<lambda>t. t @ [entry]) e"
    and "k_command_id entry = c" and "command_control e = command_control (work w)"
    and "authority v = (authority w)\<lparr>au_windows := aput c win (au_windows (authority w))\<rparr>"
    and "clock_time clk (wd_deadline win) = identity_expiry (wd_identity win)"
  shows "timed clk v"
proof -
  have "unique k_command_id (command_control d)" using assms(2) by (simp add: db_ok_def commands_ok_def)
  then have "\<not> recorded c (work w)" using assms(5-7) by (auto simp: unique_def recorded_def)
  with assms(1) have fresh: "fst x \<noteq> c" if "x \<in> set (au_replies (authority w))" for x
    using that by (auto simp: timed_defs)
  have "recorded k d" if "recorded k (work w)" for k
    using that assms(5,7) by (auto simp: recorded_def)
  with assms(1,3,4,8,9) fresh show ?thesis
    using set_aput_subset [of c win "au_windows (authority w)"]
    by (fastforce simp: timed_defs distinct_aput)
qed

lemma timed_work: "timed clk w \<Longrightarrow> timed clk (w\<lparr>work := committed w\<rparr>)"
  by (simp add: timed_defs)

lemma pres_timed_prepare: "preserves (timed clk) (prepare sha256 gate env transient row)"
proof -
  have tail: "preserves (timed clk)
      (bnd (au_gets (\<lambda>a. ck_epoch (au_clock a))) (\<lambda>epoch.
      andthen (store (device_commands_update (\<lambda>t. t @ [row])))
      (andthen (handle flush (\<lambda>e. if e = IntegrityError
                  then andthen rollback (raise ConflictError) else raise e))
      (andthen (store (command_control_update (\<lambda>t. t @ [control_record sha256 epoch row])))
      (andthen save
      (au_modify (\<lambda>a. a\<lparr>au_windows := aput (c_command_id row)
         \<lparr>wd_deadline = tick + (c_expires_at row - now), wd_identity = identity row,
          wd_wire_sha256 = k_wire_sha256 (control_record sha256 epoch row)\<rparr> (au_windows a)\<rparr>)))))))"
    if now: "now = clock_time clk tick" for now tick
  proof (rule preserves_wp)
    fix w :: "'b core_scheme"
    assume "timed clk w"
    then show "wp (bnd (au_gets (\<lambda>a. ck_epoch (au_clock a))) (\<lambda>epoch.
      andthen (store (device_commands_update (\<lambda>t. t @ [row])))
      (andthen (handle flush (\<lambda>e. if e = IntegrityError
                  then andthen rollback (raise ConflictError) else raise e))
      (andthen (store (command_control_update (\<lambda>t. t @ [control_record sha256 epoch row])))
      (andthen save
      (au_modify (\<lambda>a. a\<lparr>au_windows := aput (c_command_id row)
         \<lparr>wd_deadline = tick + (c_expires_at row - now), wd_identity = identity row,
          wd_wire_sha256 = k_wire_sha256 (control_record sha256 epoch row)\<rparr> (au_windows a)\<rparr>)))))))
        (\<lambda>_. timed clk) (\<lambda>_. timed clk) w"
      using now
      apply (auto simp: wp_simps timed_work)
      apply (rule timed_window [where entry = "control_record sha256 (ck_epoch (au_clock (authority w))) row"])
      apply assumption
      apply assumption
      apply simp
      apply simp
      apply (simp add: control_record_def)
      apply (simp add: control_record_def)
      apply simp
      apply simp
      apply (simp add: clock_time_def)
      done
  qed
  show ?thesis
    unfolding prepare_def Let_def find_command_def
  proof (intro pres_andthen pres_physical pres_bnd [OF pres_au_gets] pres_reject
      pres_bnd_fact [where m = "clock_sample env"
        and F = "\<lambda>(now, tick). now = clock_time clk tick"])
    show "preserves (timed clk) (clock_sample env)" by (rule pres)
    show "case x of (now, tick) \<Rightarrow> now = clock_time clk tick"
      if "timed clk s" and "clock_sample env s = (Inr x, t)" for s :: "'b core_scheme" and x t
      using that by (cases x) (auto dest!: clock_sample_result simp: sample_Inr timed_defs clock_time_def)
  qed (auto intro!: pres_bnd [OF pres_query_any] pres_andthen pres_timed_release pres tail split: prod.splits)
qed

text \<open>A request starts on the committed state, and no row of the private ledger is ever removed.\<close>

definition steady :: "control_clock \<Rightarrow> 'z core_scheme \<Rightarrow> bool" where
  "steady clk w \<longleftrightarrow> timed clk w \<and> (\<forall>c. recorded c (work w) \<longrightarrow> recorded c (committed w))"

text \<open>A grant adds the reply of the window it was given.\<close>

definition timed_at :: "control_clock \<Rightarrow> string \<Rightarrow> window \<Rightarrow> 'z core_scheme \<Rightarrow> bool" where
  "timed_at clk c win w \<longleftrightarrow> steady clk w \<and> both (recorded c) w \<and> (c, win) \<in> set (au_windows (authority w))"

lemma timed_reply:
  assumes at: "timed_at clk c win w" and "committed v = committed w" "work v = work w"
    and "au_clock (authority v) = au_clock (authority w)"
    and wins: "au_windows (authority v) = au_windows (authority w)"
    and new: "\<And>x. x \<in> set (au_replies (authority v)) \<Longrightarrow>
      x \<in> set (au_replies (authority w)) \<or> fst x = c \<and> dl_deadline_tick (snd (snd x)) = wd_deadline win"
  shows "timed_at clk c win v"
proof -
  have "linked (authority v)"
    unfolding linked_def
  proof (intro ballI impI)
    fix x y
    assume x: "x \<in> set (au_replies (authority v))" and y: "y \<in> set (au_windows (authority v))" and eq: "fst x = fst y"
    show "dl_deadline_tick (snd (snd x)) = wd_deadline (snd y)"
    proof (cases "x \<in> set (au_replies (authority w))")
      case True
      with at y eq show ?thesis by (simp add: timed_at_def steady_def timed_def linked_def wins)
    next
      case False
      with new [OF x] eq have "fst y = c" and dl: "dl_deadline_tick (snd (snd x)) = wd_deadline win" by auto
      with at y have "snd y = win"
        by (cases y) (auto simp: timed_at_def steady_def timed_def anchored_def wins intro: eq_key_imp_eq_value)
      with dl show ?thesis by simp
    qed
  qed
  moreover have "both (recorded (fst x)) v" if "x \<in> set (au_replies (authority v))" for x
    using new [OF that] at assms(2,3) by (auto simp: timed_at_def steady_def timed_def both_def)
  ultimately show ?thesis
    using assms(1-5) by (simp add: timed_at_def steady_def timed_def anchored_def both_def)
qed

lemma grant_fields:
  "au_clock (prune_rates t a) = au_clock a" "au_windows (prune_rates t a) = au_windows a"
  "au_replies (prune_rates t a) = au_replies a"
  "au_clock (count_request h k t a) = au_clock a" "au_windows (count_request h k t a) = au_windows a"
  "au_replies (count_request h k t a) = au_replies a"
  by (simp_all add: prune_rates_def count_request_def Let_def)

lemma pres_timed_at [pres]:
  "preserves (timed_at clk c win) commit" "preserves (timed_at clk c win) flush"
  "preserves (timed_at clk c win) rollback"
  by (auto simp: preserves_def timed_at_def steady_def timed_defs commit_def flush_def rollback_def op_defs)

lemma pres_timed_at_save [pres]: "preserves (timed_at clk c win) save"
  unfolding save_def by (intro pres)

lemma pres_timed_at_store [pres]:
  "(\<And>c d. recorded c (f d) = recorded c d) \<Longrightarrow> preserves (timed_at clk c win) (store f)"
  by (rule preservesI) (auto simp: timed_at_def steady_def timed_defs store_def op_defs)

lemma pres_timed_at_modify [pres]:
  "(\<And>a. au_clock (f a) = au_clock a \<and> au_windows (f a) = au_windows a \<and>
      (\<forall>x \<in> set (au_replies (f a)). x \<in> set (au_replies a) \<or>
         fst x = c \<and> dl_deadline_tick (snd (snd x)) = wd_deadline win)) \<Longrightarrow>
   preserves (timed_at clk c win) (au_modify f)"
  by (rule preservesI, erule timed_reply) (simp_all add: au_modify_def)

lemma pres_timed_grant:
  "preserves (timed_at clk (c_command_id row) win) (grant house device r row win binding now tick)"
  unfolding grant_def limit_def consume_permit_def Let_def
  by (intro pres) (auto simp: grant_fields recorded_consume dest!: set_mp [OF set_aput_subset])

lemma pres_steady_sample: "preserves (steady clk) (clock_sample env)"
proof (rule preservesI)
  fix w :: "'a core_scheme"
  assume "steady clk w"
  moreover obtain r v where run: "clock_sample env w = (r, v)" by (rule prod.exhaust)
  ultimately show "steady clk (snd (clock_sample env w))"
    using preservesD [OF pres_timed_clocks(3), of clk w env] clock_sample_result [OF run]
    by (auto simp: steady_def)
qed

lemma pres_steady_request: "preserves (steady clk) (request sha256 gate env house device r)"
  unfolding request_def Let_def case_prod_unfold
proof (rule pres_andthen [OF pres_physical], rule pres_bnd [OF pres_steady_sample])
  fix nt :: "int \<times> int"
  show "preserves (steady clk) (bnd (current_candidate sha256 house device r) (\<lambda>x.
     andthen (reject (wd_deadline (snd (snd x)) \<le> snd nt) ConflictError)
       (if k_permit_binding_sha256 (fst (snd x)) \<noteq> None
        then replay_reply (fst (snd x)) (permit_binding sha256 house device r) (snd nt)
        else grant house device r (fst x) (snd (snd x)) (permit_binding sha256 house device r)
          (fst nt) (snd nt))))"
  proof (rule pres_bnd_strengthen [where Q = "\<lambda>x. timed_at clk (c_command_id (fst x)) (snd (snd x))"])
    show "preserves (steady clk) (current_candidate sha256 house device r)" by (rule pres)
    fix s x t
    assume "steady clk s" and "current_candidate sha256 house device r s = (Inr x, t)"
    then show "timed_at clk (c_command_id (fst x)) (snd (snd x)) t"
      by (cases x) (auto simp: timed_at_def steady_def both_def dest!: current_candidate_Inr
          dest: alookup_SomeD recorded_tget)
  next
    show "preserves (timed_at clk (c_command_id (fst x)) (snd (snd x)))
      (andthen (reject (wd_deadline (snd (snd x)) \<le> snd nt) ConflictError)
       (if k_permit_binding_sha256 (fst (snd x)) \<noteq> None
        then replay_reply (fst (snd x)) (permit_binding sha256 house device r) (snd nt)
        else grant house device r (fst x) (snd (snd x)) (permit_binding sha256 house device r)
          (fst nt) (snd nt)))" for x :: "command_row \<times> control_row \<times> window"
      by (intro pres_andthen pres_reject pres_if pres_replay pres_timed_grant)
  qed (simp add: timed_at_def)
qed

text \<open>Calls run in a session of their own, so each of them starts on the committed state.\<close>

lemma pres_timed_session:
  assumes "\<And>w. timed clk w \<Longrightarrow> work w = committed w \<Longrightarrow> timed clk (snd (m w))"
  shows "preserves (timed clk) (in_session m)"
proof (rule preservesI)
  fix w :: "'a core_scheme"
  assume "timed clk w"
  then have "timed clk (w\<lparr>work := committed w\<rparr>)" by (simp add: timed_work)
  from assms [OF this] show "timed clk (snd (in_session m w))"
    by (cases "m (w\<lparr>work := committed w\<rparr>)") (simp add: in_session_def timed_defs)
qed

lemma timed_op:
  assumes "timed clk w" and "work w = committed w"
  shows "timed clk (snd (authority_op sha256 gate env call w))"
proof (cases call)
  case (Request_call house device r)
  from assms have "steady clk w" by (simp add: steady_def)
  from preservesD [OF pres_andthen [OF pres_steady_request pres_ret] this] show ?thesis
    unfolding Request_call authority_op.simps steady_def by (rule conjunct1)
next
  case (Elsewhere d)
  with assms(1) show ?thesis by (auto simp: timed_defs recorded_def)
qed (use assms(1) in \<open>auto intro!: preservesD [where P = "timed clk"] pres_andthen pres_ret pres_timed_initialize
    pres_timed_prepare pres_timed_stage pres_timed_validate pres_timed_expired\<close>)

interpretation timed_runs: invariant_machine "authority_step sha256 gate env" "timed clk"
  for sha256 gate env clk
  unfolding authority_step_def
  by unfold_locales (rule preservesD [OF pres_timed_session [OF timed_op]])

text \<open>The command a successful request was answered for.\<close>

lemma request_command:
  assumes "request sha256 gate env house device r w = (Inr dl, w')"
  obtains row where "row \<in> set (device_commands (work w))" "c_command_id row = pq_command_id r"
    "c_house_id row = house" "c_device_id row = device" "pending row"
    "\<exists>win. alookup (pq_command_id r) (au_windows (authority w)) = Some win \<and> wd_identity win = identity row"
proof -
  from assms obtain now tick w1 row krow win where
    smp: "clock_sample env w = (Inr (now, tick), w1)" and
    cand: "current_candidate sha256 house device r w1 = (Inr (row, krow, win), w1)"
    by (auto simp: request_def andthen_Inr_iff bnd_Inr_iff physical_def physical_for_house_def by_device_def
        device_house_id_def found_def Let_def not_le split: option.splits if_splits
        dest: current_candidate_Inr)
  from clock_sample_result [OF smp] have w1: "work w1 = work w"
    "au_windows (authority w1) = au_windows (authority w)" by auto
  have "row \<in> set (device_commands (work w1))"
    using cand by (auto simp: current_candidate_def bnd_Inr_iff andthen_Inr_iff find_command_def
        dest!: tfind_SomeD split: option.splits)
  with that [of row] current_candidate_Inr [OF cand] w1 show thesis by simp
qed


subsection \<open>The request limiter over a run\<close>

text \<open>The requests of a sequence \<open>(house, device, tick)\<close> that the limiter lets through.\<close>

primrec admitted :: "(string \<times> string \<times> int) list \<Rightarrow> 'z core_scheme \<Rightarrow> (string \<times> string \<times> int) list" where
  "admitted [] w = []"
| "admitted (x # xs) w = (case limit (fst x) (fst (snd x)) (snd (snd x)) w of
     (Inl e, w') \<Rightarrow> admitted xs w' | (Inr u, w') \<Rightarrow> x # admitted xs w')"

definition tick_of :: "string \<times> string \<times> int \<Rightarrow> int" where
  "tick_of x = snd (snd x)"

lemma limit_apply: "limit h d t w =
    (let a = prune_rates t (authority w) in
     if rate_exceeded h d a then (Inl UnavailableError, w\<lparr>authority := a\<rparr>)
     else (Inr (), w\<lparr>authority := count_request h d t a\<rparr>))"
  by (simp add: limit_def au_modify_def andthen_def bnd_def reject_def Let_def)

lemma alookup_filter:
  "alookup k kvs = Some v \<Longrightarrow> p (k, v) \<Longrightarrow> alookup k (filter p kvs) = Some v"
  by (induction kvs) (auto split: if_splits)

lemma admitted_subset: "set (admitted xs w) \<subseteq> set xs"
proof (induction xs arbitrary: w)
  case (Cons x xs)
  obtain r w' where run: "limit (fst x) (fst (snd x)) (snd (snd x)) w = (r, w')"
    by (rule prod.exhaust)
  show ?case using Cons.IH [of w'] by (cases r) (auto simp: run)
qed simp

lemma prune_fields:
  "au_rates (prune_rates t a) = filter (\<lambda>(_, v). t - v < 1000000) (au_rates a)"
  "au_global_second (prune_rates t a) = t div 1000000"
  "au_global_count (prune_rates t a) = (if t div 1000000 = au_global_second a then au_global_count a else 0)"
  by (simp_all add: prune_rates_def Let_def)

lemma admitted_spaced:
  assumes "sorted (map tick_of xs)" and "alookup (h, d) (au_rates (authority w)) = Some s"
    and "(h, d, t) \<in> set (admitted xs w)"
  shows "1000000 \<le> t - s"
  using assms
proof (induction xs arbitrary: w)
  case (Cons x xs)
  obtain h0 d0 t0 where x: "x = (h0, d0, t0)" by (cases x)
  let ?a = "prune_rates t0 (authority w)"
  have later: "t0 \<le> t"
    using Cons.prems(1,3) set_mp [OF admitted_subset [of "x # xs" w] Cons.prems(3)]
    by (fastforce simp: x tick_of_def)
  show ?case
  proof (cases "t0 - s < 1000000")
    case True
    then have here: "alookup (h, d) (au_rates ?a) = Some s"
      using Cons.prems(2) by (simp add: prune_fields alookup_filter)
    show ?thesis
    proof (cases "rate_exceeded h0 d0 ?a")
      case True
      with Cons.prems have "(h, d, t) \<in> set (admitted xs (w\<lparr>authority := ?a\<rparr>))"
        by (simp add: x limit_apply Let_def)
      then show ?thesis using Cons.IH [of "w\<lparr>authority := ?a\<rparr>"] Cons.prems(1) here by simp
    next
      case False
      with here have ne: "(h, d) \<noteq> (h0, d0)" by (auto simp: rate_exceeded_def)
      let ?w = "w\<lparr>authority := count_request h0 d0 t0 ?a\<rparr>"
      from False ne Cons.prems have "(h, d, t) \<in> set (admitted xs ?w)"
        by (auto simp: x limit_apply Let_def)
      moreover have "alookup (h, d) (au_rates (authority ?w)) = Some s"
        using here ne by (auto simp: count_request_def alookup_aput)
      ultimately show ?thesis using Cons.IH [of ?w] Cons.prems(1) by simp
    qed
  qed (use later in linarith)
qed simp

lemma admitted_apart:
"sorted (map tick_of xs) \<Longrightarrow>
   \<forall>as h d t bs t'. admitted xs v = as @ (h, d, t) # bs \<longrightarrow> (h, d, t') \<in> set bs \<longrightarrow> 1000000 \<le> t' - t"
proof (induction xs arbitrary: v)
  case (Cons x xs)
  obtain h0 d0 t0 where x: "x = (h0, d0, t0)" by (cases x)
  have srt: "sorted (map tick_of xs)" using Cons.prems by simp
  let ?a = "prune_rates t0 (authority v)"
  show ?case
  proof (cases "rate_exceeded h0 d0 ?a")
    case True
    with Cons.IH [OF srt] show ?thesis by (simp add: x limit_apply Let_def)
  next
    case False
    let ?v = "v\<lparr>authority := count_request h0 d0 t0 ?a\<rparr>"
    have eq: "admitted (x # xs) v = x # admitted xs ?v"
      using False by (simp add: x limit_apply Let_def)
    have "alookup (h0, d0) (au_rates (authority ?v)) = Some t0"
      by (simp add: count_request_def alookup_aput)
    note first = admitted_spaced [OF srt this]
    show ?thesis
    proof (intro allI impI)
      fix as h d t bs t'
      assume split: "admitted (x # xs) v = as @ (h, d, t) # bs" and later: "(h, d, t') \<in> set bs"
      show "1000000 \<le> t' - t"
      proof (cases as)
        case Nil
        with split [unfolded eq] have "h = h0" "d = d0" "t = t0" "bs = admitted xs ?v"
          by (auto simp: x)
        with first [of t'] later show ?thesis by simp
      next
        case (Cons y as')
        with split [unfolded eq] have "admitted xs ?v = as' @ (h, d, t) # bs" by simp
        with Cons.IH [OF srt, of ?v] later show ?thesis by blast
      qed
    qed
  qed
qed simp

definition in_second :: "int \<Rightarrow> string \<times> string \<times> int \<Rightarrow> bool" where
  "in_second n x \<longleftrightarrow> tick_of x div 1000000 = n"

lemma admitted_counted:
  assumes "sorted (map tick_of xs)" and "\<forall>x \<in> set xs. au_global_second (authority w) \<le> tick_of x div 1000000"
  shows "length (filter (in_second n) (admitted xs w)) \<le>
    100 - (if n = au_global_second (authority w) then au_global_count (authority w) else 0)"
  using assms
proof (induction xs arbitrary: w)
  case (Cons x xs)
  obtain h0 d0 t0 where x: "x = (h0, d0, t0)" by (cases x)
  let ?a = "prune_rates t0 (authority w)" and ?s = "t0 div 1000000"
  define w' where "w' = snd (limit h0 d0 t0 w)"
  have sec: "au_global_second (authority w') = ?s"
    by (simp add: w'_def limit_apply Let_def count_request_def prune_fields)
  have le: "?s \<le> tick_of y div 1000000" if "y \<in> set xs" for y
    using Cons.prems(1) that by (auto simp: x tick_of_def intro: zdiv_mono1)
  then have IH: "length (filter (in_second n) (admitted xs w')) \<le>
      100 - (if n = ?s then au_global_count (authority w') else 0)"
    using Cons.IH [of w'] Cons.prems(1) sec by simp
  have old: "length (filter (in_second n) (admitted (x # xs) w)) = 0" if "n < ?s"
  proof -
    have "\<not> in_second n y" if "y \<in> set (x # xs)" for y
      using that le \<open>n < ?s\<close> by (fastforce simp: in_second_def x tick_of_def)
    then show ?thesis
      using admitted_subset [of "x # xs" w] by (metis filter_False in_mono list.size(3))
  qed
  have ge: "au_global_second (authority w) \<le> ?s"
    using Cons.prems(2) by (simp add: x tick_of_def)
  show ?case
  proof (cases "n < ?s")
    case False
    show ?thesis
    proof (cases "rate_exceeded h0 d0 ?a")
      case True
      then have w': "w' = w\<lparr>authority := ?a\<rparr>" and "admitted (x # xs) w = admitted xs w'"
        by (simp_all add: x w'_def limit_apply Let_def)
      with IH ge False show ?thesis by (auto simp: prune_fields split: if_splits)
    next
      case no: False
      then have w': "w' = w\<lparr>authority := count_request h0 d0 t0 ?a\<rparr>"
        and "admitted (x # xs) w = x # admitted xs w'"
        by (simp_all add: x w'_def limit_apply Let_def)
      moreover from no have "au_global_count ?a < 100" by (simp add: rate_exceeded_def)
      moreover have "in_second n x \<longleftrightarrow> n = ?s" by (auto simp: in_second_def x tick_of_def)
      ultimately show ?thesis using IH ge False
        by (auto simp: prune_fields count_request_def split: if_splits)
    qed
  qed (use old in simp)
qed simp

lemma andthen_Inl: "m w = (Inl e, v) \<Longrightarrow> andthen m k w = (Inl e, v)"
  by (simp add: andthen_def bnd_def)

text \<open>
  The installation of the witnesses: the relay is bound to the house and active, the clock is
  past its fence, and one command is about to be prepared.
\<close>

definition ex_epoch :: string where
  "ex_epoch = ''00000000-0000-4000-8000-000000000000''"

definition ex_clock :: control_clock where
  "ex_clock = \<lparr>ck_epoch = ex_epoch, ck_qualified = True, ck_start = 0, ck_last = 0, ck_fence_start = 0,
     ck_anchor = \<lparr>instant = 0, utcoffset = Some 0\<rparr>, ck_timer_fault = False, ck_wall_fault = False,
     ck_fence_us = fence_bound 1000 1000\<rparr>"

definition ex_env :: environment where
  "ex_env = \<lparr>env_tick = (\<lambda>_. TickInt 0),
     env_sample = (\<lambda>_. \<lparr>sr_tick = TickInt 40000000, sr_wall = \<lparr>instant = 40000000, utcoffset = Some 0\<rparr>,
       sr_utc_health = True, sr_recovery_tick = TickInt 40000000\<rparr>),
     env_wall = (\<lambda>n. \<lparr>cr_wall = \<lparr>instant = int n, utcoffset = Some 0\<rparr>, cr_tick = Fin 0\<rparr>)\<rparr>"

definition ex_active_db :: db where
  "ex_active_db = ex_db\<lparr>
     devices := devices ex_db @ [\<lparr>d_id = ''d1'', d_name = ''P'', d_room_id = ''r1'', d_type = ''relay'',
       d_state = [], d_capabilities = [''on_off''], d_metadata = [], d_online = True\<rparr>],
     physical_devices := [\<lparr>p_device_id = ''d1'', p_hardware_id = ''w1'',
       p_hardware_model = ''esp32-relay-v1'', p_protocol_version = ''v1'', p_status = Active,
       p_claim_code_hash = None, p_house_id = Some ''h1'', p_bound_device_id = Some ''d1''\<rparr>]\<rparr>"

definition ex_command :: command_row where
  "ex_command = \<lparr>c_command_id = ''c1'', c_correlation_id = ''k1'', c_house_id = ''h1'', c_device_id = ''d1'',
     c_requested_by = ''u1'', c_idempotency_hash = ''i1'', c_requested_on = True, c_status = Queued,
     c_ack_status = None, c_reported_on = None, c_failure_code = None, c_created_at = 40000000,
     c_updated_at = 40000000, c_expires_at = 70000000, c_dispatch_started_at = None,
     c_dispatched_at = None, c_ack_received_at = None, c_state_received_at = None,
     c_completed_at = None\<rparr>"

definition ex_core :: core where
  "ex_core = \<lparr>committed = ex_active_db, work = ex_active_db, drawn = 0,
     authority = authority_init ex_clock, ledger_clock = command_clock_init, reads = 0\<rparr>"

definition open_gate :: gate where
  "open_gate d h k = Inr ()"

definition ex_calls :: "authority_call list" where
  "ex_calls = [Initialize_call, Prepare_call True ex_command, Stage_call ''h1'' ''d1'' ''c1'']"

definition ex_request :: permit_request where
  "ex_request = \<lparr>pq_core_epoch = ex_epoch, pq_command_id = ''c1'', pq_boot_id = ''b'', pq_session_id = ''s'',
     pq_nonce = ''n'', pq_intent_sha256 = ex_sha (wire_payload ex_epoch ex_command)\<rparr>"

definition ex_ready :: core where
  "ex_ready = fold (authority_step ex_sha open_gate ex_env) ex_calls
     (ex_core\<lparr>authority := authority_init ex_clock\<rparr>)"

definition ex_granted :: "(exn + control_delivery) \<times> core" where
  "ex_granted = in_session (request ex_sha open_gate ex_env ''h1'' ''d1'' ex_request) ex_ready"

definition ex_again :: "(exn + control_delivery) \<times> core" where
  "ex_again = in_session (request ex_sha open_gate ex_env ''h1'' ''d1'' ex_request)
     (fold (authority_step ex_sha open_gate ex_env) [Stage_call ''h1'' ''d1'' ''c1''] (snd ex_granted))"

lemma ex_granted_ok: "is_ok (fst ex_granted)"
  by code_simp

lemma ex_again_ok: "is_ok (fst ex_again)"
  by code_simp

subsection \<open>Properties\<close>

text \<open>
  C2. A command gets at most one permit in the life of the process: from any state the
  authority can reach, once a request for a command has been answered, every later request for
  the same command, after any further calls and any other transactions, either fails or is
  answered with the identical delivery.
\<close>

theorem single_permit:
  assumes "w0 = fold (authority_step sha256 gate env) before (w\<lparr>authority := authority_init c\<rparr>)"
    and "in_session (request sha256 gate env house device r) w0 = (Inr reply, w1)"
    and "w2 = fold (authority_step sha256 gate env) after w1"
    and "in_session (request sha256 gate env house' device' r') w2 = (Inr reply', w3)"
    and "pq_command_id r' = pq_command_id r"
  shows "reply' = reply"
proof -
  have "on_authority authority_ok w0"
    unfolding assms(1) by (rule authority_runs.inv_run) (simp add: authority_ok_init)
  then have ok: "on_authority authority_ok (w0\<lparr>work := committed w0\<rparr>)" by simp
  from in_session_result [OF assms(2)] obtain v where
    run: "request sha256 gate env house device r (w0\<lparr>work := committed w0\<rparr>) = (Inr reply, v)"
    and w1: "w1 = v\<lparr>work := committed v\<rparr>" by blast
  from run ok obtain b where "fixed (pq_command_id r) b reply v"
    by (rule request_Inr) simp_all
  then have "fixed (pq_command_id r) b reply w1" by (simp add: w1 fixed_def both_def)
  then have "fixed (pq_command_id r) b reply w2"
    unfolding assms(3) by (rule permit_runs.inv_run)
  then have fx: "fixed (pq_command_id r') b reply (w2\<lparr>work := committed w2\<rparr>)"
    by (simp add: assms(5) fixed_def both_def)
  from in_session_result [OF assms(4)] obtain v' where
    "request sha256 gate env house' device' r' (w2\<lparr>work := committed w2\<rparr>) = (Inr reply', v')" by blast
  from request_fixed [OF this fx] show ?thesis .
qed

theorem single_permit_witness:
  "\<exists>reply. fst ex_granted = Inr reply \<and> fst ex_again = Inr reply"
proof -
  from ex_granted_ok ex_again_ok obtain reply reply' where
    "fst ex_granted = Inr reply" "fst ex_again = Inr reply'" by (auto simp: is_ok_iff)
  then have 1: "in_session (request ex_sha open_gate ex_env ''h1'' ''d1'' ex_request) ex_ready =
      (Inr reply, snd ex_granted)"
    and 2: "in_session (request ex_sha open_gate ex_env ''h1'' ''d1'' ex_request)
      (fold (authority_step ex_sha open_gate ex_env) [Stage_call ''h1'' ''d1'' ''c1''] (snd ex_granted)) =
      (Inr reply', snd ex_again)"
    unfolding ex_granted_def [symmetric] ex_again_def [symmetric] by (metis prod.collapse)+
  have "reply' = reply" by (rule single_permit [OF ex_ready_def 1 refl 2 refl])
  with \<open>fst ex_granted = Inr reply\<close> \<open>fst ex_again = Inr reply'\<close> show ?thesis by simp
qed

text \<open>
  C3. Every permit is short and inside its command: in any reachable state, a request is
  answered only for a pending command of the house and device in the ledger whose window is
  open. The deadline of the answer is the deadline of that window, and the clock of the
  authority reaches it exactly at the \<open>expires_at\<close> of the command. The delivery is for the
  requested command, still valid at the tick of the request, and ends before that deadline
  (so before the command expires) and less than the two seconds of a permit after that tick,
  while the deadline itself is at most the command lifetime away. This holds of a new permit
  and of a repeated one.
\<close>

theorem permit_window:
  assumes "w0 = fold (authority_step sha256 gate env) before (w\<lparr>authority := authority_init c\<rparr>)"
    and "in_session (request sha256 gate env house device r) w0 = (Inr reply, w1)"
  shows "\<exists>tick win row. sr_tick (env_sample env (reads w0)) = TickInt tick \<and>
    dl_command_id reply = pq_command_id r \<and>
    tick < dl_valid_until reply \<and> dl_valid_until reply < dl_deadline_tick reply \<and>
    dl_valid_until reply < tick + PERMIT_US \<and> dl_deadline_tick reply \<le> tick + LIFETIME_US \<and>
    row \<in> set (device_commands (committed w0)) \<and> c_command_id row = pq_command_id r \<and>
    c_house_id row = house \<and> c_device_id row = device \<and> pending row \<and>
    alookup (pq_command_id r) (au_windows (authority w0)) = Some win \<and>
    dl_deadline_tick reply = wd_deadline win \<and>
    clock_time c (dl_deadline_tick reply) = c_expires_at row \<and>
    clock_time c (dl_valid_until reply) < c_expires_at row"
proof -
  have ok0: "on_authority authority_ok w0"
    unfolding assms(1) by (rule authority_runs.inv_run) (simp add: authority_ok_init)
  then have ok: "on_authority authority_ok (w0\<lparr>work := committed w0\<rparr>)" by simp
  have timed0: "timed c w0"
    unfolding assms(1) by (rule timed_runs.inv_run) (rule timed_init)
  from in_session_result [OF assms(2)] obtain v where
    run: "request sha256 gate env house device r (w0\<lparr>work := committed w0\<rparr>) = (Inr reply, v)" by blast
  from run ok obtain tick win where
    t: "sr_tick (env_sample env (reads w0)) = TickInt tick" "ck_last (au_clock (authority w0)) \<le> tick"
    and win: "alookup (pq_command_id r) (au_windows (authority w0)) = Some win"
    and how: "granted win tick (pq_command_id r) reply \<or>
     (alookup (pq_command_id r) (au_replies (authority w0)) = Some (permit_binding sha256 house device r, reply) \<and>
      tick < dl_valid_until reply)"
    by (rule request_Inr) simp_all
  from request_command [OF run] win obtain row where row: "row \<in> set (device_commands (committed w0))"
    "c_command_id row = pq_command_id r" "c_house_id row = house" "c_device_id row = device" "pending row"
    and same: "wd_identity win = identity row" by auto
  have deadline: "wd_deadline win \<le> ck_last (au_clock (authority w0)) + LIFETIME_US"
    using ok0 win by (auto simp: on_authority_def authority_ok_defs dest!: alookup_SomeD)
  have kept: "reply_ok (ck_last (au_clock (authority w0))) (pq_command_id r, b, reply)"
    if "alookup (pq_command_id r) (au_replies (authority w0)) = Some (b, reply)" for b
    using ok0 that by (auto simp: on_authority_def authority_ok_defs dest!: alookup_SomeD)
  have "dl_deadline_tick reply = wd_deadline win"
    using how timed0 win by (fastforce simp: granted_def timed_def linked_def dest!: alookup_SomeD)
  moreover have "clock_time c (wd_deadline win) = c_expires_at row"
    using timed0 win same by (fastforce simp: timed_def anchored_def dest!: alookup_SomeD)
  ultimately show ?thesis
    using t row win how deadline kept
    by (intro exI [of _ tick] exI [of _ win] exI [of _ row])
      (auto simp: granted_def reply_ok_def PERMIT_US_def clock_time_def)
qed

theorem permit_window_witness:
  "\<exists>reply tick. fst ex_granted = Inr reply \<and>
    sr_tick (env_sample ex_env (reads ex_ready)) = TickInt tick \<and>
    tick < dl_valid_until reply \<and> dl_valid_until reply < dl_deadline_tick reply \<and>
    dl_valid_until reply < tick + PERMIT_US \<and>
    (\<exists>row \<in> set (device_commands (committed ex_ready)). c_command_id row = ''c1'' \<and>
       clock_time ex_clock (dl_deadline_tick reply) = c_expires_at row)"
proof -
  from ex_granted_ok obtain reply where r: "fst ex_granted = Inr reply" by (auto simp: is_ok_iff)
  then have "in_session (request ex_sha open_gate ex_env ''h1'' ''d1'' ex_request) ex_ready =
      (Inr reply, snd ex_granted)"
    by (simp add: prod_eq_iff ex_granted_def)
  moreover have "pq_command_id ex_request = ''c1''" by (simp add: ex_request_def)
  ultimately show ?thesis using permit_window [OF ex_ready_def] r by metis
qed

text \<open>
  C4. The shipped gate is closed: with it, preparing, staging and granting all raise, for every
  house, device and command, and change nothing at all, neither the database, nor the clock,
  nor the tables of the authority.
\<close>

theorem closed_gate_denies:
  "(\<exists>e. prepare sha256 closed_gate env transient row w = (Inl e, w)) \<and>
   (\<exists>e. stage sha256 closed_gate env house device c w = (Inl e, w)) \<and>
   (\<exists>e. request sha256 closed_gate env house device r w = (Inl e, w))"
proof -
  have "\<exists>e. physical closed_gate h k w = (Inl e, w)" for h k
    by (auto simp: physical_def physical_for_house_def by_device_def device_house_id_def found_def
        closed_gate_def bnd_def andthen_def reject_def split: option.splits)
  from this [of "c_house_id row" "c_device_id row"] this [of house device]
  show ?thesis unfolding prepare_def stage_def request_def
    by (elim exE) (intro conjI exI andthen_Inl)
qed

text \<open>
  C5. The limiter bounds permit requests: over any sequence of requests in the order of the
  clock, two admitted requests of the same device are at least one second apart, and at most
  one hundred requests are admitted in any second.
\<close>

theorem rate_limited:
  assumes "sorted (0 # map tick_of requests)"
    and "ys = admitted requests (w\<lparr>authority := authority_init c\<rparr>)"
  shows "(\<forall>as h d t bs t'. ys = as @ (h, d, t) # bs \<longrightarrow> (h, d, t') \<in> set bs \<longrightarrow> 1000000 \<le> t' - t) \<and>
    (\<forall>n. length (filter (in_second n) ys) \<le> 100)"
proof
  show "\<forall>as h d t bs t'. ys = as @ (h, d, t) # bs \<longrightarrow> (h, d, t') \<in> set bs \<longrightarrow> 1000000 \<le> t' - t"
    unfolding assms(2) by (rule admitted_apart) (use assms(1) in simp)
  show "\<forall>n. length (filter (in_second n) ys) \<le> 100"
  proof
    fix n
    have "\<forall>x \<in> set requests. - 1 \<le> tick_of x div 1000000"
      using assms(1) by (auto intro: order_trans [OF _ pos_imp_zdiv_nonneg_iff [THEN iffD2]])
    then have "length (filter (in_second n) (admitted requests (w\<lparr>authority := authority_init c\<rparr>))) \<le>
        100 - (if n = - 1 then 0 else 0)"
      using admitted_counted [of requests "w\<lparr>authority := authority_init c\<rparr>" n] assms(1)
      by (simp add: authority_init_def)
    then show "length (filter (in_second n) ys) \<le> 100" by (simp add: assms(2))
  qed
qed

theorem rate_limited_witness:
  "length (filter (in_second 0) (admitted [(''h'', ''d'', 5), (''h'', ''d'', 7), (''h'', ''e'', 9)]
     (ex_core\<lparr>authority := authority_init ex_clock\<rparr>))) \<le> 100"
proof -
  have "sorted (0 # map tick_of [(''h'', ''d'', 5), (''h'', ''d'', 7), (''h'', ''e'', 9)])"
    by (simp add: tick_of_def)
  from rate_limited [OF this refl] show ?thesis by blast
qed

end
