(* ===== verification/Mqtt_Models.thy ===== *)
theory Mqtt_Models
  imports Json_Text Clocks Mqtt_Topics Database
begin

text \<open>
  \<open>app/transports/mqtt_models.py\<close>: the envelopes of the device protocol. Unknown members are
  ignored. What pydantic makes of a JSON value for a \<open>datetime\<close> or an \<open>int\<close> field in its lax
  mode is a parameter (\<open>lenient\<close>); strings, literals and dictionaries are strict there too.
  Every validation failure is one \<open>ValidationError\<close>, whichever field fails first.
\<close>

subsection \<open>Fields\<close>

record lenient =
  lax_datetime :: "json \<Rightarrow> wall_time option"
  lax_int :: "json \<Rightarrow> int option"

definition required :: "string \<Rightarrow> obj \<Rightarrow> (json \<Rightarrow> 'a option) \<Rightarrow> exn + 'a" where
  "required k d parse = (case Option.bind (alookup k d) parse of
     None \<Rightarrow> Inl ValidationError | Some x \<Rightarrow> Inr x)"

definition defaulted :: "string \<Rightarrow> obj \<Rightarrow> 'a \<Rightarrow> (json \<Rightarrow> 'a option) \<Rightarrow> exn + 'a" where
  "defaulted k d x parse = (case alookup k d of None \<Rightarrow> Inr x | Some _ \<Rightarrow> required k d parse)"

text \<open>\<open>T | None = None\<close>\<close>

definition optional :: "string \<Rightarrow> obj \<Rightarrow> (json \<Rightarrow> 'a option) \<Rightarrow> exn + 'a option" where
  "optional k d parse = defaulted k d None (\<lambda>v. if v = JNull then Some None else map_option Some (parse v))"

definition text_between :: "nat \<Rightarrow> nat \<Rightarrow> json \<Rightarrow> string option" where
  "text_between lo hi v = (case v of JStr s \<Rightarrow> if bounded lo hi s then Some s else None | _ \<Rightarrow> None)"

definition one_of :: "(string \<times> 'a) list \<Rightarrow> json \<Rightarrow> 'a option" where
  "one_of table v = (case v of JStr s \<Rightarrow> alookup s table | _ \<Rightarrow> None)"

definition dict_between :: "nat \<Rightarrow> nat \<Rightarrow> json \<Rightarrow> obj option" where
  "dict_between lo hi v = (case v of
     JObj kvs \<Rightarrow> if lo \<le> length kvs \<and> length kvs \<le> hi then Some kvs else None | _ \<Rightarrow> None)"

definition int_between :: "lenient \<Rightarrow> int \<Rightarrow> int \<Rightarrow> json \<Rightarrow> int option" where
  "int_between P lo hi v =
     Option.bind (lax_int P v) (\<lambda>n. if lo \<le> n \<and> n \<le> hi then Some n else None)"

definition protocol_envelope :: "obj \<Rightarrow> exn + string" where
  "protocol_envelope d =
     defaulted ''protocol_version'' d PROTOCOL_VERSION (one_of [(PROTOCOL_VERSION, PROTOCOL_VERSION)])"

subsection \<open>Envelopes\<close>

record state_envelope =
  se_timestamp :: wall_time
  se_correlation_id :: string
  se_state :: obj

definition state_envelope_of :: "lenient \<Rightarrow> obj \<Rightarrow> exn + state_envelope" where
  "state_envelope_of P d =
     ebind (protocol_envelope d) (\<lambda>_.
     ebind (required ''timestamp'' d (lax_datetime P)) (\<lambda>t.
     ebind (defaulted ''correlation_id'' d [] (text_between 0 128)) (\<lambda>c.
     ebind (required ''state'' d (dict_between 0 MAX_STATE_FIELDS)) (\<lambda>s.
     Inr \<lparr>se_timestamp = t, se_correlation_id = c, se_state = s\<rparr>))))"

record command_envelope =
  ce_command_id :: string
  ce_correlation_id :: string
  ce_timestamp :: wall_time
  ce_expires_at :: "wall_time option"
  ce_state :: obj

definition command_envelope_of :: "lenient \<Rightarrow> obj \<Rightarrow> exn + command_envelope" where
  "command_envelope_of P d =
     ebind (protocol_envelope d) (\<lambda>_.
     ebind (required ''command_id'' d (text_between 1 128)) (\<lambda>i.
     ebind (required ''correlation_id'' d (text_between 1 128)) (\<lambda>c.
     ebind (required ''timestamp'' d (lax_datetime P)) (\<lambda>t.
     ebind (optional ''expires_at'' d (lax_datetime P)) (\<lambda>e.
     ebind (required ''state'' d (dict_between 1 MAX_STATE_FIELDS)) (\<lambda>s.
     Inr \<lparr>ce_command_id = i, ce_correlation_id = c, ce_timestamp = t, ce_expires_at = e, ce_state = s\<rparr>))))))"

definition ack_values :: "(string \<times> ack_status) list" where
  "ack_values = [(''accepted'', Ack_accepted), (''applied'', Ack_applied),
     (''rejected'', Ack_rejected), (''failed'', Ack_failed)]"

record ack_envelope =
  ae_command_id :: string
  ae_correlation_id :: string
  ae_timestamp :: "wall_time option"
  ae_status :: ack_status
  ae_error_code :: "string option"
  ae_message :: "string option"

definition ack_envelope_of :: "lenient \<Rightarrow> obj \<Rightarrow> exn + ack_envelope" where
  "ack_envelope_of P d =
     ebind (protocol_envelope d) (\<lambda>_.
     ebind (required ''command_id'' d (text_between 1 128)) (\<lambda>i.
     ebind (required ''correlation_id'' d (text_between 1 128)) (\<lambda>c.
     ebind (optional ''timestamp'' d (lax_datetime P)) (\<lambda>t.
     ebind (required ''status'' d (one_of ack_values)) (\<lambda>s.
     ebind (optional ''error_code'' d (text_between 0 128)) (\<lambda>e.
     ebind (optional ''message'' d (text_between 0 512)) (\<lambda>m.
     Inr \<lparr>ae_command_id = i, ae_correlation_id = c, ae_timestamp = t, ae_status = s,
          ae_error_code = e, ae_message = m\<rparr>)))))))"

record status_envelope =
  te_timestamp :: "wall_time option"
  te_online :: bool
  te_last_seen :: wall_time
  te_heartbeat :: "int option"

definition status_envelope_of :: "lenient \<Rightarrow> obj \<Rightarrow> exn + status_envelope" where
  "status_envelope_of P d =
     ebind (protocol_envelope d) (\<lambda>_.
     ebind (optional ''timestamp'' d (lax_datetime P)) (\<lambda>t.
     ebind (required ''status'' d (one_of [(''online'', True), (''offline'', False)])) (\<lambda>s.
     ebind (required ''last_seen'' d (lax_datetime P)) (\<lambda>l.
     ebind (optional ''heartbeat_interval_seconds'' d (int_between P 30 300)) (\<lambda>h.
     Inr \<lparr>te_timestamp = t, te_online = s, te_last_seen = l, te_heartbeat = h\<rparr>)))))"

record telemetry_envelope =
  me_timestamp :: wall_time
  me_correlation_id :: string
  me_metrics :: obj

definition telemetry_envelope_of :: "lenient \<Rightarrow> obj \<Rightarrow> exn + telemetry_envelope" where
  "telemetry_envelope_of P d =
     ebind (protocol_envelope d) (\<lambda>_.
     ebind (required ''timestamp'' d (lax_datetime P)) (\<lambda>t.
     ebind (defaulted ''correlation_id'' d [] (text_between 0 128)) (\<lambda>c.
     ebind (required ''metrics'' d (dict_between 0 MAX_TELEMETRY_FIELDS)) (\<lambda>m.
     Inr \<lparr>me_timestamp = t, me_correlation_id = c, me_metrics = m\<rparr>))))"

subsection \<open>Documents\<close>

text \<open>
  \<open>model_dump_json\<close> as a document: the members in the order of the fields. Times leave as
  text; the writer of that text is a parameter.
\<close>

definition opt_json :: "('a \<Rightarrow> json) \<Rightarrow> 'a option \<Rightarrow> json" where
  "opt_json f x = (case x of None \<Rightarrow> JNull | Some y \<Rightarrow> f y)"

definition ack_value :: "ack_status \<Rightarrow> string" where
  "ack_value s = (case s of Ack_accepted \<Rightarrow> ''accepted'' | Ack_applied \<Rightarrow> ''applied''
     | Ack_rejected \<Rightarrow> ''rejected'' | Ack_failed \<Rightarrow> ''failed'')"

definition command_document :: "(wall_time \<Rightarrow> string) \<Rightarrow> command_envelope \<Rightarrow> obj" where
  "command_document fmt e =
     [(''protocol_version'', JStr PROTOCOL_VERSION), (''command_id'', JStr (ce_command_id e)),
      (''correlation_id'', JStr (ce_correlation_id e)), (''timestamp'', JStr (fmt (ce_timestamp e))),
      (''expires_at'', opt_json (\<lambda>t. JStr (fmt t)) (ce_expires_at e)), (''state'', JObj (ce_state e))]"

definition ack_document :: "(wall_time \<Rightarrow> string) \<Rightarrow> ack_envelope \<Rightarrow> obj" where
  "ack_document fmt e =
     [(''protocol_version'', JStr PROTOCOL_VERSION), (''command_id'', JStr (ae_command_id e)),
      (''correlation_id'', JStr (ae_correlation_id e)),
      (''timestamp'', opt_json (\<lambda>t. JStr (fmt t)) (ae_timestamp e)),
      (''status'', JStr (ack_value (ae_status e))),
      (''error_code'', opt_json JStr (ae_error_code e)), (''message'', opt_json JStr (ae_message e))]"

definition state_document :: "(wall_time \<Rightarrow> string) \<Rightarrow> state_envelope \<Rightarrow> obj" where
  "state_document fmt e =
     [(''protocol_version'', JStr PROTOCOL_VERSION), (''timestamp'', JStr (fmt (se_timestamp e))),
      (''correlation_id'', JStr (se_correlation_id e)), (''state'', JObj (se_state e))]"

definition status_document :: "(wall_time \<Rightarrow> string) \<Rightarrow> status_envelope \<Rightarrow> obj" where
  "status_document fmt e =
     [(''protocol_version'', JStr PROTOCOL_VERSION),
      (''timestamp'', opt_json (\<lambda>t. JStr (fmt t)) (te_timestamp e)),
      (''status'', JStr (if te_online e then ''online'' else ''offline'')),
      (''last_seen'', JStr (fmt (te_last_seen e))),
      (''heartbeat_interval_seconds'', opt_json JInt (te_heartbeat e))]"

subsection \<open>Lemmas\<close>

lemma required_Inr: "required k d f = Inr x \<longleftrightarrow> Option.bind (alookup k d) f = Some x"
  by (auto simp: required_def split: option.splits)

lemma defaulted_Inr: "defaulted k d x f = Inr y \<longleftrightarrow>
    (alookup k d = None \<and> y = x) \<or> Option.bind (alookup k d) f = Some y"
  by (auto simp: defaulted_def required_Inr split: option.splits)

lemma required_Inl: "required k d f = Inl e \<Longrightarrow> e = ValidationError"
  by (auto simp: required_def split: option.splits)

lemma defaulted_Inl: "defaulted k d x f = Inl e \<Longrightarrow> e = ValidationError"
  by (auto simp: defaulted_def split: option.splits dest: required_Inl)

lemma optional_Inl: "optional k d f = Inl e \<Longrightarrow> e = ValidationError"
  unfolding optional_def by (rule defaulted_Inl)

lemma text_between_Some: "text_between lo hi v = Some s \<longleftrightarrow> v = JStr s \<and> bounded lo hi s"
  by (auto simp: text_between_def split: json.splits)

lemma dict_between_Some:
  "dict_between lo hi v = Some kvs \<longleftrightarrow> v = JObj kvs \<and> lo \<le> length kvs \<and> length kvs \<le> hi"
  by (auto simp: dict_between_def split: json.splits)

lemmas field_Inr = ebind_Inr_iff required_Inr defaulted_Inr bind_eq_Some_conv
  text_between_Some dict_between_Some

definition command_envelope_ok :: "command_envelope \<Rightarrow> bool" where
  "command_envelope_ok e \<longleftrightarrow> bounded 1 128 (ce_command_id e) \<and> bounded 1 128 (ce_correlation_id e) \<and>
     1 \<le> length (ce_state e) \<and> length (ce_state e) \<le> MAX_STATE_FIELDS"

lemma command_envelope_of_ok: "command_envelope_of P d = Inr e \<Longrightarrow> command_envelope_ok e"
  by (auto simp: command_envelope_of_def field_Inr command_envelope_ok_def)

lemma command_envelope_document:
  assumes "\<And>t. lax_datetime P (JStr (fmt t)) = Some t" and "command_envelope_ok e"
  shows "command_envelope_of P (command_document fmt e) = Inr e"
  using assms
  by (cases "ce_expires_at e")
    (simp_all add: command_envelope_of_def command_document_def protocol_envelope_def optional_def
      required_def defaulted_def one_of_def text_between_def dict_between_def command_envelope_ok_def opt_json_def)

end
