(* ===== verification/Commands.thy ===== *)
theory Commands
  imports Control_Authority Mqtt_Models State_Validator Onboarding
begin

text \<open>
  \<open>app/services/command_service.py\<close>: the durable command ledger. A command is written with its
  deadline before anything is sent, acknowledgements and state reports move it forward, and
  the row that is returned to the client is the evidence collected so far. A row object is
  changed in memory and reaches the session when the handler saves: the model writes it there.
\<close>

subsection \<open>Values\<close>

record command_read =
  cr_command_id :: string
  cr_correlation_id :: string
  cr_house_id :: string
  cr_device_id :: string
  cr_requested_on :: bool
  cr_status :: command_status
  cr_ack_status :: "ack_status option"
  cr_reported_on :: "bool option"
  cr_failure_code :: "failure_code option"
  cr_created_at :: int
  cr_updated_at :: int
  cr_expires_at :: int
  cr_dispatch_started_at :: "int option"
  cr_dispatched_at :: "int option"
  cr_ack_received_at :: "int option"
  cr_state_received_at :: "int option"
  cr_completed_at :: "int option"

definition read_command :: "command_row \<Rightarrow> command_read" where
  "read_command r =
     \<lparr>cr_command_id = c_command_id r, cr_correlation_id = c_correlation_id r,
      cr_house_id = c_house_id r, cr_device_id = c_device_id r, cr_requested_on = c_requested_on r,
      cr_status = c_status r, cr_ack_status = c_ack_status r, cr_reported_on = c_reported_on r,
      cr_failure_code = c_failure_code r, cr_created_at = c_created_at r,
      cr_updated_at = c_updated_at r, cr_expires_at = c_expires_at r,
      cr_dispatch_started_at = c_dispatch_started_at r, cr_dispatched_at = c_dispatched_at r,
      cr_ack_received_at = c_ack_received_at r, cr_state_received_at = c_state_received_at r,
      cr_completed_at = c_completed_at r\<rparr>"

text \<open>
  \<open>app/transports/base.py\<close>: what the service calls on a transport. \<open>tr_send\<close> takes the house,
  the device, the state, the correlation and command identifiers, the timestamp and the
  expiry; it stands for the whole awaited call, so it also ends with a \<open>TimeoutError\<close> or a
  \<open>CancelledError\<close> where \<open>wait_for\<close> or the event loop cut it short.
\<close>

record 'w transport =
  tr_connected :: "'w \<Rightarrow> bool"
  tr_authorize :: "string \<Rightarrow> string \<Rightarrow> ('w, unit) op"
  tr_send :: "string \<Rightarrow> string \<Rightarrow> obj \<Rightarrow> string \<Rightarrow> string \<Rightarrow> wall_time option \<Rightarrow>
    wall_time option \<Rightarrow> ('w, string) op"

definition utc_time :: "int \<Rightarrow> wall_time" where
  "utc_time t = \<lparr>instant = t, utcoffset = Some 0\<rparr>"

subsection \<open>Time and completion\<close>

definition ledger_now :: "environment \<Rightarrow> ('z core_scheme, int) op" where
  "ledger_now env = bnd next_read (\<lambda>n w.
     case command_now (env_wall env n) (ledger_clock w) of (r, c) \<Rightarrow> (r, w\<lparr>ledger_clock := c\<rparr>))"

definition event_time :: "environment \<Rightarrow> command_row \<Rightarrow> ('z core_scheme, int) op" where
  "event_time env row =
     bnd (control_of (c_command_id row)) (\<lambda>control.
     if control \<noteq> None then clock_logical_now env else ledger_now env)"

definition closed_at :: "int \<Rightarrow> command_status \<Rightarrow> failure_code option \<Rightarrow> command_row \<Rightarrow> command_row" where
  "closed_at t st code row =
     row\<lparr>c_status := st, c_failure_code := code, c_updated_at := t, c_completed_at := Some t\<rparr>"

definition finish ::
  "environment \<Rightarrow> command_status \<Rightarrow> failure_code option \<Rightarrow> command_row \<Rightarrow>
   ('z core_scheme, command_row) op" where
  "finish env st code row = bnd (event_time env row) (\<lambda>t. ret (closed_at t st code row))"

definition expire :: "environment \<Rightarrow> command_row \<Rightarrow> ('z core_scheme, command_row) op" where
  "expire env row =
     (if \<not> pending row then ret row
      else
        bnd (control_of (c_command_id row)) (\<lambda>control.
        bnd (case control of
               Some k \<Rightarrow> expired env k
             | None \<Rightarrow> bnd (ledger_now env) (\<lambda>now. ret (c_expires_at row \<le> now))) (\<lambda>is_expired.
        if \<not> is_expired then ret row
        else if control = None then finish env Timed_out (Some Deadline_exceeded) row
        else bnd (clock_logical_now env) (\<lambda>t.
          ret (closed_at t Timed_out (Some Deadline_exceeded) row)))))"

definition command_get :: "environment \<Rightarrow> string \<Rightarrow> string \<Rightarrow> ('z core_scheme, command_read) op" where
  "command_get env house command_id =
     bnd (find_command (\<lambda>r. c_house_id r = house \<and> c_command_id r = command_id)) (\<lambda>found_row.
     case found_row of
       None \<Rightarrow> raise EntityNotFoundError
     | Some row \<Rightarrow>
         bnd (expire env row) (\<lambda>current.
         andthen (put_command current)
         (andthen save
         (ret (read_command current)))))"

subsection \<open>Submission\<close>

text \<open>A key that was used before: the same intent reads the command it made.\<close>

definition replay_command ::
  "environment \<Rightarrow> string \<Rightarrow> bool \<Rightarrow> command_row \<Rightarrow> ('z core_scheme, command_read) op" where
  "replay_command env device on row =
     andthen (reject (c_device_id row \<noteq> device \<or> c_requested_on row \<noteq> on) ConflictError)
     (bnd (expire env row) (\<lambda>current.
     andthen (put_command current)
     (andthen save
     (ret (read_command current)))))"

text \<open>The pending command of the device, if any, must have expired.\<close>

definition release_pending :: "environment \<Rightarrow> string \<Rightarrow> ('z core_scheme, unit) op" where
  "release_pending env device =
     bnd (pending_command device) (\<lambda>found_row.
     case found_row of
       None \<Rightarrow> ret ()
     | Some row \<Rightarrow>
         bnd (expire env row) (\<lambda>current.
         andthen (reject (pending current) ConflictError)
         (andthen (put_command current)
         flush)))"

definition admit_command ::
  "environment \<Rightarrow> 'z core_scheme transport option \<Rightarrow> string \<Rightarrow> string \<Rightarrow> device_row \<Rightarrow> bool \<Rightarrow>
   ('z core_scheme, unit) op" where
  "admit_command env transport house device dev on =
     andthen (require_command_contract device)
     (andthen (reject (d_type dev \<noteq> ''relay'' \<or> ''on_off'' \<notin> set (d_capabilities dev)) InvalidReferenceError)
     (andthen (lift (validate_command (d_capabilities dev) [(''on'', JBool on)]))
     (andthen (release_pending env device)
     (andthen (reject (\<not> d_online dev) ConflictError)
     (case transport of
        None \<Rightarrow> raise UnavailableError
      | Some t \<Rightarrow>
          bnd (gets (tr_connected t)) (\<lambda>connected.
          andthen (reject (\<not> connected) UnavailableError)
          (nested (tr_authorize t house device))))))))"

definition new_command ::
  "string \<Rightarrow> string \<Rightarrow> string \<Rightarrow> string \<Rightarrow> string \<Rightarrow> string \<Rightarrow> bool \<Rightarrow> int \<Rightarrow> command_row" where
  "new_command command_id correlation_id house device user digest on now =
     \<lparr>c_command_id = command_id, c_correlation_id = correlation_id, c_house_id = house,
      c_device_id = device, c_requested_by = user, c_idempotency_hash = digest,
      c_requested_on = on, c_status = Queued, c_ack_status = None, c_reported_on = None,
      c_failure_code = None, c_created_at = now, c_updated_at = now,
      c_expires_at = now + COMMAND_LIFETIME, c_dispatch_started_at = Some now,
      c_dispatched_at = None, c_ack_received_at = None, c_state_received_at = None,
      c_completed_at = None\<rparr>"

definition insert_command ::
  "(nat \<Rightarrow> string) \<Rightarrow> environment \<Rightarrow> string \<Rightarrow> string \<Rightarrow> string \<Rightarrow> string \<Rightarrow> bool \<Rightarrow>
   ('z core_scheme, command_row) op" where
  "insert_command fresh env house device user digest on =
     bnd (ledger_now env) (\<lambda>now.
     bnd (draw fresh) (\<lambda>command_id.
     bnd (draw fresh) (\<lambda>correlation_id.
     let row = new_command command_id correlation_id house device user digest on now in
     andthen (store (device_commands_update (\<lambda>t. t @ [row])))
     (andthen save
     (ret row)))))"

definition mark_dispatched :: "environment \<Rightarrow> command_row \<Rightarrow> ('z core_scheme, command_row) op" where
  "mark_dispatched env row =
     bnd (case c_dispatched_at row of Some t \<Rightarrow> ret t | None \<Rightarrow> ledger_now env) (\<lambda>t.
     bnd (ledger_now env) (\<lambda>u.
     ret (row\<lparr>c_status := Dispatched, c_dispatched_at := Some t, c_updated_at := u\<rparr>)))"

text \<open>After the send: \<open>sent\<close> tells whether it returned. A vanished row would be \<open>None\<close>.\<close>

definition settle :: "environment \<Rightarrow> string \<Rightarrow> bool \<Rightarrow> ('z core_scheme, unit) op" where
  "settle env command_id sent =
     bnd (find_command (\<lambda>r. c_command_id r = command_id)) (\<lambda>found_row.
     case found_row of
       None \<Rightarrow> raise AttributeError
     | Some row \<Rightarrow>
         bnd (expire env row) (\<lambda>current.
         bnd (if \<not> pending current then ret current
              else if sent then mark_dispatched env current
              else finish env Failed (Some Publish_unconfirmed) current) (\<lambda>settled.
         andthen (put_command settled)
         save)))"

definition dispatch ::
  "environment \<Rightarrow> 'z core_scheme transport \<Rightarrow> string \<Rightarrow> string \<Rightarrow> command_row \<Rightarrow> ('z core_scheme, unit) op" where
  "dispatch env t house device row =
     bnd (handle
       (andthen (in_session (tr_send t house device [(''on'', JBool (c_requested_on row))]
            (c_correlation_id row) (c_command_id row) (Some (utc_time (c_created_at row)))
            (Some (utc_time (c_expires_at row)))))
         (ret True))
       (\<lambda>e. if is_exception e then ret False else raise e))
     (settle env (c_command_id row))"

definition command_submit ::
  "(string \<Rightarrow> string) \<Rightarrow> (nat \<Rightarrow> string) \<Rightarrow> environment \<Rightarrow> 'z core_scheme transport option \<Rightarrow>
   string \<Rightarrow> string \<Rightarrow> string \<Rightarrow> string \<Rightarrow> bool \<Rightarrow> ('z core_scheme, command_read) op" where
  "command_submit sha256 fresh env transport house device user key on =
     andthen (require_active device)
     (bnd (lock_device device) (\<lambda>dev.
     bnd (device_house_id device) (\<lambda>h.
     andthen (reject (h \<noteq> house) ConflictError)
     (andthen (reject (\<not> list_all (\<lambda>c. ord_of c < 128) key) ValueError)
     (bnd (find_command (\<lambda>r. c_house_id r = house \<and> c_requested_by r = user \<and>
            c_idempotency_hash r = sha256 key)) (\<lambda>previous.
     case previous of
       Some row \<Rightarrow> replay_command env device on row
     | None \<Rightarrow>
         andthen (admit_command env transport house device dev on)
         (bnd (insert_command fresh env house device user (sha256 key) on) (\<lambda>row.
         andthen (case transport of None \<Rightarrow> ret () | Some t \<Rightarrow> dispatch env t house device row)
         (command_get env house (c_command_id row))))))))))"

subsection \<open>Evidence\<close>

definition eligible ::
  "environment \<Rightarrow> command_row option \<Rightarrow> bool \<Rightarrow> ('z core_scheme, (command_row \<times> bool) option) op" where
  "eligible env found_row retained =
     (case found_row of
        None \<Rightarrow> ret None
      | Some row \<Rightarrow>
          bnd (expire env row) (\<lambda>current.
          ret (Some (current, \<not> retained \<and> pending current \<and> c_dispatch_started_at current \<noteq> None))))"

definition permit_evidence :: "command_row \<Rightarrow> ('z core_scheme, bool) op" where
  "permit_evidence row =
     bnd (control_of (c_command_id row)) (\<lambda>control.
     ret (case control of None \<Rightarrow> True | Some k \<Rightarrow> k_permit_binding_sha256 k \<noteq> None))"

definition confirm :: "environment \<Rightarrow> command_row \<Rightarrow> ('z core_scheme, command_row) op" where
  "confirm env row =
     (if c_ack_status row \<noteq> Some Ack_applied then ret row
      else
        bnd (permit_evidence row) (\<lambda>evidence.
        if evidence \<and> c_state_received_at row \<noteq> None \<and> c_reported_on row = Some (c_requested_on row)
        then finish env Applied None row else ret row))"

definition negative :: "ack_status \<Rightarrow> failure_code option" where
  "negative st = (case st of Ack_rejected \<Rightarrow> Some Device_rejected | Ack_failed \<Rightarrow> Some Device_failed | _ \<Rightarrow> None)"

definition conclude_ack :: "environment \<Rightarrow> ack_status \<Rightarrow> command_row \<Rightarrow> ('z core_scheme, command_row) op" where
  "conclude_ack env st row =
     (if negative st \<noteq> None then finish env Failed (negative st) row
      else
        bnd (case c_dispatched_at row of Some v \<Rightarrow> ret v | None \<Rightarrow> event_time env row) (\<lambda>v.
        confirm env (row\<lparr>c_status := Dispatched, c_dispatched_at := Some v\<rparr>)))"

definition record_ack :: "environment \<Rightarrow> ack_status \<Rightarrow> command_row \<Rightarrow> ('z core_scheme, command_row) op" where
  "record_ack env st row =
     bnd (event_time env row) (\<lambda>t.
     bnd (event_time env row) (\<lambda>u.
     conclude_ack env st (row\<lparr>c_ack_status := Some st, c_ack_received_at := Some t, c_updated_at := u\<rparr>)))"

definition apply_ack :: "environment \<Rightarrow> ack_status \<Rightarrow> command_row \<Rightarrow> ('z core_scheme, command_row) op" where
  "apply_ack env st row =
     bnd (permit_evidence row) (\<lambda>evidence.
     if (st \<noteq> Ack_applied \<or> evidence) \<and>
        (negative st \<noteq> None \<or> (c_ack_status row \<noteq> Some Ack_applied \<and> c_ack_status row \<noteq> Some st))
     then record_ack env st row else ret row)"

text \<open>Both handlers save whatever the row has become; a command nobody knows changes nothing.\<close>

definition put_evidence ::
  "(command_row \<times> bool) option \<Rightarrow> (command_row \<Rightarrow> ('z core_scheme, command_row) op) \<Rightarrow>
   ('z core_scheme, unit) op" where
  "put_evidence found_row f =
     (case found_row of
        None \<Rightarrow> save
      | Some (row, ok) \<Rightarrow>
          bnd (if ok then f row else ret row) (\<lambda>current.
          andthen (put_command current) save))"

definition command_ack ::
  "environment \<Rightarrow> string \<Rightarrow> string \<Rightarrow> ack_envelope \<Rightarrow> bool \<Rightarrow> ('z core_scheme, unit) op" where
  "command_ack env house device e retained =
     bnd (find_command (\<lambda>r. c_command_id r = ae_command_id e \<and> c_correlation_id r = ae_correlation_id e \<and>
           c_house_id r = house \<and> c_device_id r = device)) (\<lambda>found_row.
     bnd (eligible env found_row retained) (\<lambda>candidate.
     put_evidence candidate (apply_ack env (ae_status e))))"

definition apply_report :: "environment \<Rightarrow> obj \<Rightarrow> command_row \<Rightarrow> ('z core_scheme, command_row) op" where
  "apply_report env reported row =
     bnd (permit_evidence row) (\<lambda>evidence.
     if \<not> evidence then ret row
     else case oget ''on'' reported of
         JBool b \<Rightarrow>
           bnd (event_time env row) (\<lambda>t.
           bnd (event_time env row) (\<lambda>u.
           confirm env (row\<lparr>c_reported_on := Some b, c_state_received_at := Some t, c_updated_at := u\<rparr>)))
       | _ \<Rightarrow> ret row)"

definition command_state ::
  "environment \<Rightarrow> string \<Rightarrow> string \<Rightarrow> state_envelope \<Rightarrow> bool \<Rightarrow> ('z core_scheme, unit) op" where
  "command_state env house device e retained =
     bnd (find_command (\<lambda>r. c_correlation_id r = se_correlation_id e \<and> c_house_id r = house \<and>
           c_device_id r = device)) (\<lambda>found_row.
     bnd (eligible env found_row retained) (\<lambda>candidate.
     put_evidence candidate (apply_report env (se_state e))))"

end
