(* ===== verification/Command_Ledger.thy ===== *)
theory Command_Ledger
  imports Commands
begin

text \<open>
  What the command service keeps of its ledger. The interface \<open>ledger_invariant\<close> names the four
  ways a row or a control record changes; a predicate that survives them survives every
  operation of the command service and of the control authority, in every interleaving.
\<close>

subsection \<open>The database is untouched by clocks\<close>

definition pinned :: "db \<Rightarrow> db \<Rightarrow> 'z world_scheme \<Rightarrow> bool" where
  "pinned d c w \<longleftrightarrow> work w = d \<and> committed w = c"

lemma pres_pinned_clock [pres]:
  "preserves (pinned d c) next_read" "preserves (pinned d c) (on_clock f)"
  "preserves (pinned d c) (clock_tick env)" "preserves (pinned d c) (clock_recovered env)"
  "preserves (pinned d c) (clock_logical_now env)" "preserves (pinned d c) (clock_sample env)"
  by (auto simp: preserves_def pinned_def next_read_def on_clock_def clock_tick_def clock_recovered_def
      clock_logical_now_def clock_sample_def bnd_def split: prod.splits sum.splits)

lemma pres_pinned_now [pres]: "preserves (pinned d c) (ledger_now env)"
  by (auto simp: preserves_def pinned_def ledger_now_def next_read_def bnd_def split: prod.splits sum.splits)

lemma pres_pinned_expired [pres]: "preserves (pinned d c) (expired env k)"
  unfolding expired_def by (intro pres)

lemma pres_pinned_event_time [pres]: "preserves (pinned d c) (event_time env row)"
  unfolding event_time_def by (intro pres)

lemma pres_pinned_finish [pres]: "preserves (pinned d c) (finish env st code row)"
  unfolding finish_def by (intro pres)

lemma pres_pinned_expire [pres]: "preserves (pinned d c) (expire env row)"
  unfolding expire_def by (intro pres)

lemma pres_pinned_evidence [pres]: "preserves (pinned d c) (permit_evidence row)"
  unfolding permit_evidence_def by (intro pres)

lemma pres_pinned_confirm [pres]: "preserves (pinned d c) (confirm env row)"
  unfolding confirm_def by (intro pres)

lemma pres_pinned_ack [pres]: "preserves (pinned d c) (apply_ack env st row)"
  unfolding apply_ack_def record_ack_def conclude_ack_def by (intro pres)

lemma pres_pinned_report [pres]: "preserves (pinned d c) (apply_report env reported row)"
  unfolding apply_report_def by (intro pres) (auto intro!: pres split: json.splits)

lemma pres_pinned_dispatched [pres]: "preserves (pinned d c) (mark_dispatched env row)"
  unfolding mark_dispatched_def by (intro pres)

text \<open>So the row operations keep every invariant of the database.\<close>

lemma pinned_db:
  assumes "\<And>d c. preserves (pinned d c) m" and "m w = (r, w')"
  shows "work w' = work w" "committed w' = committed w"
  using preserves_result [OF assms(1) _ assms(2), of "work w" "committed w"] by (simp_all add: pinned_def)

lemma pinned_both: "(\<And>d c. preserves (pinned d c) m) \<Longrightarrow> preserves (both P) m"
  unfolding preserves_def pinned_def both_def by metis

lemma pinned_sound: "(\<And>d c. preserves (pinned d c) m) \<Longrightarrow> preserves sound m"
  unfolding preserves_def pinned_def sound_def by metis

subsection \<open>How a row advances\<close>

definition same_intent :: "command_row \<Rightarrow> command_row \<Rightarrow> bool" where
  "same_intent r r' \<longleftrightarrow>
     c_command_id r' = c_command_id r \<and> c_correlation_id r' = c_correlation_id r \<and>
     c_house_id r' = c_house_id r \<and> c_device_id r' = c_device_id r \<and>
     c_requested_by r' = c_requested_by r \<and> c_idempotency_hash r' = c_idempotency_hash r \<and>
     c_requested_on r' = c_requested_on r \<and> c_created_at r' = c_created_at r \<and>
     c_expires_at r' = c_expires_at r"

definition confirmed :: "command_row \<Rightarrow> bool" where
  "confirmed r \<longleftrightarrow> c_ack_status r = Some Ack_applied \<and> c_state_received_at r \<noteq> None \<and>
     c_reported_on r = Some (c_requested_on r)"

definition permitted :: "db \<Rightarrow> command_row \<Rightarrow> bool" where
  "permitted d r \<longleftrightarrow> (case tget k_command_id (c_command_id r) (command_control d) of
     None \<Rightarrow> True | Some k \<Rightarrow> k_permit_binding_sha256 k \<noteq> None)"

definition advance :: "db \<Rightarrow> command_row \<Rightarrow> command_row \<Rightarrow> bool" where
  "advance d r r' \<longleftrightarrow> r' = r \<or>
     (pending r \<and> same_intent r r' \<and> (c_status r' = Queued \<longrightarrow> c_status r = Queued) \<and>
      (\<not> pending r' \<longrightarrow> c_completed_at r' \<noteq> None) \<and>
      (c_status r' = Applied \<longrightarrow> confirmed r' \<and> permitted d r'))"

lemma same_intent_refl [simp]: "same_intent r r"
  by (simp add: same_intent_def)

lemma same_intent_trans: "same_intent r s \<Longrightarrow> same_intent s t \<Longrightarrow> same_intent r t"
  by (simp add: same_intent_def)

lemma advance_refl [simp]: "advance d r r"
  by (simp add: advance_def)

lemma advance_trans: "advance d r s \<Longrightarrow> advance d s t \<Longrightarrow> advance d r t"
  by (auto simp: advance_def intro: same_intent_trans)

lemma advance_id: "advance d r r' \<Longrightarrow> c_command_id r' = c_command_id r"
  by (auto simp: advance_def same_intent_def)

lemma closed_at_simps [simp]:
  "same_intent r (closed_at t st code r)" "c_status (closed_at t st code r) = st"
  "c_command_id (closed_at t st code r) = c_command_id r"
  "c_completed_at (closed_at t st code r) = Some t"
  "c_failure_code (closed_at t st code r) = code"
  by (simp_all add: closed_at_def same_intent_def)

lemma confirmed_closed [simp]: "confirmed (closed_at t st code r) = confirmed r"
  by (simp add: confirmed_def closed_at_def)

lemma permitted_closed [simp]: "permitted d (closed_at t st code r) = permitted d r"
  by (simp add: permitted_def closed_at_def)

lemma advance_closed:
  "pending r \<Longrightarrow> (st = Applied \<Longrightarrow> confirmed r \<and> permitted d r) \<Longrightarrow> st \<noteq> Queued \<Longrightarrow>
   advance d r (closed_at t st code r)"
  by (auto simp: advance_def)

lemma pending_iff: "pending r \<longleftrightarrow> c_status r = Queued \<or> c_status r = Dispatched"
  by (simp add: pending_def PENDING_def)

subsection \<open>What each row operation returns\<close>

lemma finish_Inr: "finish env st code row w = (Inr r', w') \<Longrightarrow> \<exists>t. r' = closed_at t st code row"
  by (auto simp: finish_def bnd_Inr_iff)

lemma expire_Inr:
  assumes "expire env row w = (Inr r', w')"
  shows "r' = row \<or> pending row \<and> (\<exists>t. r' = closed_at t Timed_out (Some Deadline_exceeded) row)"
  using assms by (auto simp: expire_def bnd_Inr_iff dest: finish_Inr split: if_splits)

lemma expire_advance: "expire env row w = (Inr r', w') \<Longrightarrow> advance d row r'"
  by (drule expire_Inr) (auto intro: advance_closed)

lemma permit_evidence_Inr:
  "permit_evidence row w = (Inr b, w') \<longleftrightarrow> b = permitted (work w) row \<and> w' = w"
  by (auto simp: permit_evidence_def permitted_def bnd_Inr_iff control_of_def)

lemma confirm_Inr:
  assumes "confirm env row w = (Inr r', w')"
  shows "r' = row \<or> confirmed row \<and> permitted (work w) row \<and> (\<exists>t. r' = closed_at t Applied None row)"
  using assms by (auto simp: confirm_def bnd_Inr_iff permit_evidence_Inr confirmed_def
      dest: finish_Inr split: if_splits)

lemma confirm_advance:
  "confirm env row w = (Inr r', w') \<Longrightarrow> pending row \<Longrightarrow> advance (work w) row r'"
  by (drule confirm_Inr) (auto intro: advance_closed)

lemma event_time_db: "event_time env row w = (r, w') \<Longrightarrow> work w' = work w"
  by (rule pinned_db(1) [OF pres_pinned_event_time])

lemma apply_report_Inr:
  assumes "apply_report env reported row w = (Inr r', w')" and "pending row"
  shows "advance (work w) row r'"
proof -
  have step: "advance (work w) row r'"
    if "confirm env (row\<lparr>c_reported_on := Some b, c_state_received_at := Some t, c_updated_at := u\<rparr>) v = (Inr r', w')"
      and "work v = work w" for b t u v
  proof -
    let ?row = "row\<lparr>c_reported_on := Some b, c_state_received_at := Some t, c_updated_at := u\<rparr>"
    have "pending ?row" using assms(2) by (simp add: pending_iff)
    from confirm_advance [OF that(1) this] that(2) have "advance (work w) ?row r'" by simp
    moreover have "advance (work w) row ?row"
      using assms(2) by (auto simp: advance_def same_intent_def pending_iff)
    ultimately show ?thesis by (rule advance_trans [rotated])
  qed
  show ?thesis
  proof (cases "permitted (work w) row \<and> (\<exists>b. oget ''on'' reported = JBool b)")
    case True
    then obtain b where "oget ''on'' reported = JBool b" by blast
    with assms(1) True obtain t v u v' where
      "event_time env row w = (Inr t, v)" "event_time env row v = (Inr u, v')"
      "confirm env (row\<lparr>c_reported_on := Some b, c_state_received_at := Some t, c_updated_at := u\<rparr>) v' = (Inr r', w')"
      by (auto simp: apply_report_def bnd_Inr_iff permit_evidence_Inr)
    then show ?thesis by (metis step event_time_db)
  next
    case False
    then have "r' = row" using assms(1)
      by (cases "oget ''on'' reported") (auto simp: apply_report_def bnd_Inr_iff permit_evidence_Inr split: if_splits)
    then show ?thesis by simp
  qed
qed

lemma negative_None_iff: "negative st = None \<longleftrightarrow> st = Ack_accepted \<or> st = Ack_applied"
  by (cases st) (simp_all add: negative_def)

lemma conclude_ack_Inr:
  assumes "conclude_ack env st row w = (Inr r', w')" and "pending row"
  shows "advance (work w) row r'"
proof (cases "negative st")
  case None
  with assms(1) obtain x v where
    x: "(case c_dispatched_at row of Some x \<Rightarrow> ret x | None \<Rightarrow> event_time env row) w = (Inr x, v)"
    and run: "confirm env (row\<lparr>c_status := Dispatched, c_dispatched_at := Some x\<rparr>) v = (Inr r', w')"
    by (auto simp: conclude_ack_def bnd_Inr_iff)
  let ?row = "row\<lparr>c_status := Dispatched, c_dispatched_at := Some x\<rparr>"
  from x have v: "work v = work w" by (auto dest: event_time_db split: option.splits)
  have "pending ?row" by (simp add: pending_iff)
  from confirm_advance [OF run this] v have "advance (work w) ?row r'" by simp
  moreover have "advance (work w) row ?row"
    using assms(2) by (auto simp: advance_def same_intent_def pending_iff)
  ultimately show ?thesis by (rule advance_trans [rotated])
next
  case (Some code)
  with assms(1) have "finish env Failed (Some code) row w = (Inr r', w')" by (simp add: conclude_ack_def)
  from finish_Inr [OF this] assms(2) show ?thesis by (auto intro: advance_closed)
qed

lemma record_ack_Inr:
  assumes "record_ack env st row w = (Inr r', w')" and "pending row"
  shows "advance (work w) row r'"
proof -
  from assms(1) obtain t v u v' where
    t: "event_time env row w = (Inr t, v)" "event_time env row v = (Inr u, v')"
    and run: "conclude_ack env st
      (row\<lparr>c_ack_status := Some st, c_ack_received_at := Some t, c_updated_at := u\<rparr>) v' = (Inr r', w')"
    by (auto simp: record_ack_def bnd_Inr_iff)
  let ?row = "row\<lparr>c_ack_status := Some st, c_ack_received_at := Some t, c_updated_at := u\<rparr>"
  have "pending ?row" using assms(2) by (simp add: pending_iff)
  from conclude_ack_Inr [OF run this] t have "advance (work w) ?row r'" by (metis event_time_db)
  moreover have "advance (work w) row ?row"
    using assms(2) by (auto simp: advance_def same_intent_def pending_iff)
  ultimately show ?thesis by (rule advance_trans [rotated])
qed

lemma apply_ack_Inr:
  "apply_ack env st row w = (Inr r', w') \<Longrightarrow> pending row \<Longrightarrow> advance (work w) row r'"
  unfolding apply_ack_def bnd_Inr_iff permit_evidence_Inr
  by (elim exE conjE, split if_splits) (simp_all add: record_ack_Inr)

lemma mark_dispatched_advance:
  assumes "mark_dispatched env row w = (Inr r', w')" and "pending row"
  shows "advance d row r'"
proof -
  from assms(1) obtain t u where
    r': "r' = row\<lparr>c_status := Dispatched, c_dispatched_at := Some t, c_updated_at := u\<rparr>"
    unfolding mark_dispatched_def bnd_Inr_iff ret_apply by blast
  from assms(2) show ?thesis
    unfolding advance_def r' by (intro disjI2) (simp add: same_intent_def pending_iff)
qed

subsection \<open>Invariants of the ledger\<close>

text \<open>
  What a predicate on the database has to survive: a new pending row, a row that advances, a
  control record for pending rows only, and a permit consumed. Identifiers are unique in every
  committed state, so a predicate may rely on that.
\<close>

locale ledger_invariant =
  fixes P :: "db \<Rightarrow> bool"
  assumes row_added: "P d \<Longrightarrow> pending r \<Longrightarrow> P (device_commands_update (\<lambda>t. t @ [r]) d)"
    and row_advanced: "P d \<Longrightarrow> unique c_command_id (device_commands d) \<Longrightarrow> r \<in> set (device_commands d) \<Longrightarrow>
      advance d r r' \<Longrightarrow> P (device_commands_update (tput c_command_id r') d)"
    and control_added: "P d \<Longrightarrow>
      (\<forall>r \<in> set (device_commands d). c_command_id r = k_command_id k \<longrightarrow> pending r) \<Longrightarrow>
      P (command_control_update (\<lambda>t. t @ [k]) d)"
    and permit_consumed: "P d \<Longrightarrow> P (command_control_update
      (update_where m (\<lambda>k. k\<lparr>k_permit_binding_sha256 := Some b\<rparr>)) d)"
begin

definition ledger :: "db \<Rightarrow> bool" where
  "ledger d \<longleftrightarrow> (unique c_command_id (device_commands d) \<longrightarrow> P d)"

definition inhand :: "command_row \<Rightarrow> command_row \<Rightarrow> 'z world_scheme \<Rightarrow> bool" where
  "inhand row r w \<longleftrightarrow> both ledger w \<and> row \<in> set (device_commands (work w)) \<and> advance (work w) row r"

lemma ledger_added: "ledger d \<Longrightarrow> pending r \<Longrightarrow> ledger (device_commands_update (\<lambda>t. t @ [r]) d)"
  by (auto simp: ledger_def unique_append_one intro: row_added)

lemma bind_row:
  assumes "inhand row r w" and "\<And>d c. preserves (pinned d c) f"
    and "\<And>v r' v'. f v = (Inr r', v') \<Longrightarrow> advance (work v) r r'"
    and "\<And>r' v. inhand row r' v \<Longrightarrow> both ledger (snd (k r' v))"
  shows "both ledger (snd (bnd f k w))"
proof (cases "f w")
  case (Pair x w')
  note db = pinned_db [OF assms(2) Pair]
  show ?thesis
  proof (cases x)
    case (Inl e)
    with Pair db assms(1) show ?thesis by (simp add: bnd_def inhand_def both_def)
  next
    case (Inr r')
    from assms(3) [OF Pair [unfolded Inr]] assms(1) db have "inhand row r' w'"
      by (auto simp: inhand_def both_def intro: advance_trans)
    from assms(4) [OF this] Pair Inr show ?thesis by (simp add: bnd_def)
  qed
qed

lemma put_row:
  assumes "inhand row r w" and "preserves (both ledger) m"
  shows "both ledger (snd (andthen (put_command r) m w))"
proof -
  from assms(1) have "ledger (device_commands_update (tput c_command_id r) (work w))"
    by (auto simp: inhand_def both_def ledger_def intro: row_advanced)
  with assms(1) have "both ledger (w\<lparr>work := device_commands_update (tput c_command_id r) (work w)\<rparr>)"
    by (simp add: inhand_def both_def)
  from preservesD [OF assms(2) this] show ?thesis
    by (simp add: put_command_def andthen_def bnd_def store_apply)
qed

lemma find_row:
  assumes "preserves (both ledger) (g None)"
    and "\<And>row w. inhand row row w \<Longrightarrow> both ledger (snd (g (Some row) w))"
  shows "preserves (both ledger) (bnd (query (\<lambda>d. tfind p (device_commands d))) g)"
proof (rule preservesI)
  fix w :: "'a world_scheme"
  assume w: "both ledger w"
  show "both ledger (snd (bnd (query (\<lambda>d. tfind p (device_commands d))) g w))"
  proof (cases "tfind p (device_commands (work w))")
    case None
    with preservesD [OF assms(1) w] show ?thesis by (simp add: bnd_def)
  next
    case (Some row)
    with w have "inhand row row w" by (auto simp: inhand_def dest: tfind_SomeD)
    from assms(2) [OF this] Some show ?thesis by (simp add: bnd_def)
  qed
qed

lemma pres_get: "preserves (both ledger) (command_get env house c)"
  unfolding command_get_def find_command_def
  by (rule find_row) (auto intro!: pres bind_row put_row expire_advance)

lemma replay_row: "inhand row row w \<Longrightarrow> both ledger (snd (replay_command env device on row w))"
  unfolding replay_command_def andthen_reject_apply
  by (auto simp: inhand_def intro!: bind_row [where row = row] put_row pres expire_advance)

lemma pres_release_pending: "preserves (both ledger) (release_pending env device)"
  unfolding release_pending_def pending_command_def
proof (rule find_row)
  show "both ledger (snd ((case Some row of None \<Rightarrow> ret () | Some row \<Rightarrow>
      bnd (expire env row) (\<lambda>current. andthen (reject (pending current) ConflictError)
        (andthen (put_command current) flush))) w))" if "inhand row row w" for row and w :: "'a core_scheme"
    unfolding option.case
  proof (rule bind_row [OF that])
    show "both ledger (snd (andthen (reject (pending r) ConflictError) (andthen (put_command r) flush) v))"
      if "inhand row r v" for r and v :: "'a core_scheme"
      using put_row [OF that pres_both_flush] that by (auto simp: andthen_reject_apply inhand_def)
  qed (auto intro: pres expire_advance)
qed (auto intro: pres)

lemma pres_require [intro!]: "preserves Q (require_active device)" "preserves Q (require_command_contract device)"
  unfolding require_active_def require_command_contract_def by (intro pres; auto intro!: pres)+

lemma pres_admit:
  assumes "\<And>t. transport = Some t \<Longrightarrow> preserves (both ledger) (tr_authorize t house device)"
  shows "preserves (both ledger) (admit_command env transport house device dev on)"
  unfolding admit_command_def by (intro pres pres_release_pending pres_require assms)

lemma pres_insert: "preserves (both ledger) (insert_command fresh env house device user digest on)"
  unfolding insert_command_def Let_def
  by (intro pres ledger_added pinned_both) (simp_all add: new_command_def pending_iff)

lemma settled_advance:
  "(if \<not> pending r then ret r else if sent then mark_dispatched env r
    else finish env Failed (Some Publish_unconfirmed) r) v = (Inr r', v') \<Longrightarrow> advance d r r'"
  by (auto split: if_splits dest: mark_dispatched_advance finish_Inr intro: advance_closed)

lemma pres_settle: "preserves (both ledger) (settle env c sent)"
  unfolding settle_def find_command_def
proof (rule find_row)
  fix row and w :: "'a core_scheme"
  assume row: "inhand row row w"
  show "both ledger (snd ((case Some row of None \<Rightarrow> raise AttributeError | Some row \<Rightarrow>
         bnd (expire env row) (\<lambda>current.
         bnd (if \<not> pending current then ret current
              else if sent then mark_dispatched env current
              else finish env Failed (Some Publish_unconfirmed) current) (\<lambda>settled.
         andthen (put_command settled) save))) w))"
    unfolding option.case
    by (rule bind_row [OF row]; (rule pres expire_advance)?; (rule bind_row)?)
      (auto intro: pres settled_advance put_row expire_advance)
qed (auto intro: pres)

lemma pres_dispatch:
  assumes "\<And>st k c a b. preserves (both ledger) (tr_send t house device st k c a b)"
  shows "preserves (both ledger) (dispatch env t house device row)"
  unfolding dispatch_def by (intro pres pres_settle assms)

lemma pres_submit:
  assumes "\<And>t. transport = Some t \<Longrightarrow> preserves (both ledger) (tr_authorize t house device)"
    and "\<And>t st k c a b. transport = Some t \<Longrightarrow> preserves (both ledger) (tr_send t house device st k c a b)"
  shows "preserves (both ledger) (command_submit sha256 fresh env transport house device user key on)"
  unfolding command_submit_def find_command_def
  by (intro pres pres_require find_row)
    (auto intro!: pres pres_admit pres_insert pres_dispatch pres_get assms replay_row)

lemma pres_evidence:
  assumes "\<And>row. \<And>d c. preserves (pinned d c) (f row)"
    and "\<And>row v r' v'. f row v = (Inr r', v') \<Longrightarrow> pending row \<Longrightarrow> advance (work v) row r'"
  shows "preserves (both ledger) (bnd (query (\<lambda>d. tfind p (device_commands d))) (\<lambda>found_row.
     bnd (eligible env found_row retained) (\<lambda>candidate. put_evidence candidate f)))"
proof (rule find_row)
  show "preserves (both ledger) (bnd (eligible env None retained) (\<lambda>candidate. put_evidence candidate f))"
    by (simp add: eligible_def put_evidence_def pres_both_save)
  fix row and w :: "'a core_scheme"
  assume row: "inhand row row w"
  have eq: "bnd (eligible env (Some row) retained) (\<lambda>candidate. put_evidence candidate f) =
    bnd (expire env row) (\<lambda>current. bnd (if \<not> retained \<and> pending current \<and> c_dispatch_started_at current \<noteq> None
      then f current else ret current) (\<lambda>r. andthen (put_command r) save))"
    by (simp add: eligible_def put_evidence_def bnd_assoc)
  show "both ledger (snd (bnd (eligible env (Some row) retained) (\<lambda>candidate. put_evidence candidate f) w))"
    unfolding eq
    by (rule bind_row [OF row]; (rule pres expire_advance)?; (rule bind_row)?)
      (auto intro: pres assms put_row expire_advance split: if_splits)
qed

lemma pres_ack: "preserves (both ledger) (command_ack env house device e retained)"
  unfolding command_ack_def find_command_def
  by (rule pres_evidence) (auto intro: pres apply_ack_Inr)

lemma pres_state: "preserves (both ledger) (command_state env house device e retained)"
  unfolding command_state_def find_command_def
  by (rule pres_evidence) (auto intro: pres apply_report_Inr)

text \<open>The control authority writes the same tables.\<close>

lemma pres_release_terminal: "preserves (both ledger) release_terminal"
  unfolding release_terminal_def by (intro pres)

lemma prepared:
  assumes "both ledger w" and "pending row"
    and "\<forall>r \<in> set (device_commands (work w)). c_command_id r \<noteq> c_command_id row"
    and "k_command_id k = c_command_id row"
  shows "both ledger (snd (andthen (store (device_commands_update (\<lambda>t. t @ [row])))
      (andthen (handle flush (\<lambda>e. if e = IntegrityError
                  then andthen rollback (raise ConflictError) else raise e))
      (andthen (store (command_control_update (\<lambda>t. t @ [k])))
      (andthen save (au_modify f)))) w))"
proof -
  have "ledger (command_control_update (\<lambda>t. t @ [k]) (device_commands_update (\<lambda>t. t @ [row]) (work w)))"
    using assms by (auto simp: ledger_def both_def unique_append_one intro!: control_added row_added)
  then have "wp (andthen (store (device_commands_update (\<lambda>t. t @ [row])))
      (andthen (handle flush (\<lambda>e. if e = IntegrityError
                  then andthen rollback (raise ConflictError) else raise e))
      (andthen (store (command_control_update (\<lambda>t. t @ [k])))
      (andthen save (au_modify f))))) (\<lambda>_. both ledger) (\<lambda>_. both ledger) w"
    using assms(1) by (simp add: wp_simps both_def)
  then show ?thesis by (auto simp: wp_def split: prod.splits sum.splits)
qed

lemma pres_prepare: "preserves (both ledger) (prepare sha256 gate env transient row)"
  unfolding prepare_def find_command_def Let_def case_prod_unfold
proof (intro pres_andthen pres_physical pres_bnd [OF pres_au_gets] pres_reject pres_bnd [OF pres_both_clock(4)])
  fix ready x
  let ?rest = "\<lambda>known. andthen (reject (\<not> transient \<or> \<not> pending row \<or> known \<noteq> None \<or> c_dispatch_started_at row \<noteq> None)
                ConflictError)
     (andthen (reject (\<not> (c_created_at row \<le> fst x \<and> fst x < c_expires_at row) \<or>
                       \<not> (0 < c_expires_at row - c_created_at row \<and> c_expires_at row - c_created_at row \<le> LIFETIME_US)) ConflictError)
      (andthen release_terminal
      (bnd (au_gets (\<lambda>a. length (au_windows a))) (\<lambda>count.
      andthen (reject (MAX_WINDOWS \<le> count) UnavailableError)
      (bnd (au_gets (\<lambda>a. ck_epoch (au_clock a))) (\<lambda>epoch.
      andthen (store (device_commands_update (\<lambda>t. t @ [row])))
      (andthen (handle flush (\<lambda>e. if e = IntegrityError
                  then andthen rollback (raise ConflictError) else raise e))
      (andthen (store (command_control_update (\<lambda>t. t @ [control_record sha256 epoch row])))
      (andthen save
      (au_modify (\<lambda>a. a\<lparr>au_windows := aput (c_command_id row)
         \<lparr>wd_deadline = snd x + (c_expires_at row - fst x), wd_identity = identity row,
          wd_wire_sha256 = k_wire_sha256 (control_record sha256 epoch row)\<rparr> (au_windows a)\<rparr>)))))))))))"
  show "preserves (both ledger) (bnd (query (\<lambda>d. tfind (\<lambda>r. c_command_id r = c_command_id row) (device_commands d))) ?rest)"
  proof (rule preservesI)
    fix w :: "'b core_scheme"
    assume w: "both ledger w"
    let ?known = "tfind (\<lambda>r. c_command_id r = c_command_id row) (device_commands (work w))"
    show "both ledger (snd (bnd (query (\<lambda>d. tfind (\<lambda>r. c_command_id r = c_command_id row) (device_commands d))) ?rest w))"
    proof (cases "?known = None \<and> pending row")
      case True
      then have "\<forall>r \<in> set (device_commands (work w)). c_command_id r \<noteq> c_command_id row"
        by (simp add: tfind_None_iff)
      moreover have "work (snd (release_terminal w)) = work w" "both ledger (snd (release_terminal w))"
        using w preservesD [OF pres_release_terminal w]
        by (simp_all add: release_terminal_def au_modify_def bnd_def)
      ultimately show ?thesis using True w
        by (auto simp: bnd_def andthen_def [of release_terminal] andthen_reject_apply control_record_def
            split: prod.splits sum.splits intro!: prepared)
    next
      case False
      then show ?thesis using w by (auto simp: bnd_def andthen_reject_apply)
    qed
  qed
qed

lemma inhand_both: "inhand row r w \<Longrightarrow> both ledger w"
  by (simp add: inhand_def)

lemma stage_row: "inhand row row w \<Longrightarrow> (\<not> b \<Longrightarrow> pending row) \<Longrightarrow>
   both ledger (snd (andthen (reject b ConflictError)
     (andthen (put_command (set_dispatch now row)) (andthen save (ret x))) w))"
  by (auto simp: andthen_reject_apply inhand_def set_dispatch_def advance_def same_intent_def pending_iff
      intro!: put_row [of row] pres)

lemma pres_stage: "preserves (both ledger) (stage sha256 gate env house device c)"
  unfolding stage_def find_command_def case_prod_unfold
proof (intro pres_andthen pres_physical pres_bnd [OF pres_both_clock(4)] find_row, goal_cases)
  case 1
  show ?case by (auto intro!: pres simp: control_of_def)
next
  case (2 x row w)
  from inhand_both [OF this] show ?case
    by (auto simp: control_of_def bnd_def split: option.splits intro!: stage_row [OF 2])
qed

lemma ledger_permit: "ledger d \<Longrightarrow> ledger (command_control_update
    (update_where m (\<lambda>k. k\<lparr>k_permit_binding_sha256 := Some b\<rparr>)) d)"
  by (simp add: ledger_def permit_consumed)

lemma pres_request: "preserves (both ledger) (request sha256 gate env house device r)"
  unfolding request_def grant_def limit_def consume_permit_def Let_def case_prod_unfold
  by (intro pres ledger_permit)

lemma pres_initialize: "preserves (both ledger) (initialize env)"
  unfolding initialize_def by (intro pres) (auto intro!: pres split: raw_tick.splits)

lemma pres_validate: "preserves (both ledger) (validate_delivery env dl)"
  unfolding validate_delivery_def case_prod_unfold by (intro pres)

end

subsection \<open>Runs\<close>

text \<open>
  Everything that writes the ledger, each call in its own session. While a submission waits
  for its transport, other calls run: the transport of a call carries them (\<open>during\<close>) with the
  outcome of the send. \<open>Other_write\<close> is any transaction of the program that writes neither table.
\<close>

record platform =
  pf_sha256 :: "string \<Rightarrow> string"
  pf_fresh :: "nat \<Rightarrow> string"
  pf_gate :: gate
  pf_env :: environment

datatype command_call =
    Submit_command string string string string bool bool "exn + unit" "command_call list" "exn + string"
  | Get_command string string
  | Ack_command string string ack_envelope bool
  | State_command string string state_envelope bool
  | Prepare_control bool command_row
  | Stage_control string string string
  | Request_control string string permit_request
  | Validate_control control_delivery
  | Initialize_control
  | Other_write db

definition call_transport :: "bool \<Rightarrow> exn + unit \<Rightarrow> (core \<Rightarrow> core) \<Rightarrow> exn + string \<Rightarrow> core transport" where
  "call_transport online auth during result =
     \<lparr>tr_connected = (\<lambda>_. online), tr_authorize = (\<lambda>_ _. lift auth),
      tr_send = (\<lambda>_ _ _ _ _ _ _ w. (result, during w))\<rparr>"

definition other_write :: "db \<Rightarrow> (core, unit) op" where
  "other_write d = (\<lambda>w. if device_commands d = device_commands (committed w) \<and>
        command_control d = command_control (committed w) \<and> db_ok d
     then (Inr (), w\<lparr>committed := d, work := d\<rparr>) else (Inl ConflictError, w))"

definition ran :: "(core, 'a) op \<Rightarrow> core \<Rightarrow> core" where
  "ran m w = snd (in_session m w)"

fun command_step :: "platform \<Rightarrow> command_call \<Rightarrow> core \<Rightarrow> core"
  and command_steps :: "platform \<Rightarrow> command_call list \<Rightarrow> core \<Rightarrow> core" where
  "command_step F (Submit_command house device user key on online auth during result) w =
     ran (command_submit (pf_sha256 F) (pf_fresh F) (pf_env F)
       (Some (call_transport online auth (\<lambda>v. command_steps F during v) result))
       house device user key on) w"
| "command_step F (Get_command house c) w = ran (command_get (pf_env F) house c) w"
| "command_step F (Ack_command house device e retained) w = ran (command_ack (pf_env F) house device e retained) w"
| "command_step F (State_command house device e retained) w = ran (command_state (pf_env F) house device e retained) w"
| "command_step F (Prepare_control transient row) w =
     ran (prepare (pf_sha256 F) (pf_gate F) (pf_env F) transient row) w"
| "command_step F (Stage_control house device c) w = ran (stage (pf_sha256 F) (pf_gate F) (pf_env F) house device c) w"
| "command_step F (Request_control house device r) w =
     ran (request (pf_sha256 F) (pf_gate F) (pf_env F) house device r) w"
| "command_step F (Validate_control dl) w = ran (validate_delivery (pf_env F) dl) w"
| "command_step F Initialize_control w = ran (initialize (pf_env F)) w"
| "command_step F (Other_write d) w = ran (other_write d) w"
| "command_steps F [] w = w"
| "command_steps F (c # cs) w = command_steps F cs (command_step F c w)"

lemma command_steps_append: "command_steps F (xs @ ys) w = command_steps F ys (command_steps F xs w)"
  by (induction xs arbitrary: w) simp_all

lemma command_steps_fold: "command_steps F cs w = fold (command_step F) cs w"
  by (induction cs arbitrary: w) simp_all

lemma ran_preserves: "preserves P (in_session m) \<Longrightarrow> P w \<Longrightarrow> P (ran m w)"
  unfolding ran_def by (rule preservesD)

lemma pres_run: "(\<And>w. P w \<Longrightarrow> P (f w)) \<Longrightarrow> preserves P (\<lambda>w. (r, f w))"
  by (simp add: preserves_def)

context ledger_invariant begin

lemma pres_other:
  assumes "\<And>d d'. P d \<Longrightarrow> device_commands d' = device_commands d \<Longrightarrow> command_control d' = command_control d \<Longrightarrow> P d'"
  shows "preserves (both ledger) (other_write d)"
  using assms by (auto simp: preserves_def other_write_def both_def ledger_def)

lemma steps_keep:
  assumes "\<And>d d'. P d \<Longrightarrow> device_commands d' = device_commands d \<Longrightarrow> command_control d' = command_control d \<Longrightarrow> P d'"
  shows "both ledger w \<Longrightarrow> both ledger (command_step F call w)"
    and "both ledger w \<Longrightarrow> both ledger (command_steps F calls w)"
proof (induction F call w and F calls w rule: command_step_command_steps.induct)
  case (1 F house device user key on online auth during result w)
  show ?case
    unfolding command_step.simps
    by (rule ran_preserves [OF pres_both_in_session 1(2)], rule pres_submit)
      (auto simp: call_transport_def intro!: pres pres_run 1(1))
next
  case (2 F house c w)
  show ?case unfolding command_step.simps by (rule ran_preserves [OF pres_both_in_session [OF pres_get] 2])
next
  case (3 F house device e retained w)
  show ?case unfolding command_step.simps by (rule ran_preserves [OF pres_both_in_session [OF pres_ack] 3])
next
  case (4 F house device e retained w)
  show ?case unfolding command_step.simps by (rule ran_preserves [OF pres_both_in_session [OF pres_state] 4])
next
  case (5 F transient row w)
  show ?case unfolding command_step.simps by (rule ran_preserves [OF pres_both_in_session [OF pres_prepare] 5])
next
  case (6 F house device c w)
  show ?case unfolding command_step.simps by (rule ran_preserves [OF pres_both_in_session [OF pres_stage] 6])
next
  case (7 F house device r w)
  show ?case unfolding command_step.simps by (rule ran_preserves [OF pres_both_in_session [OF pres_request] 7])
next
  case (8 F dl w)
  show ?case unfolding command_step.simps by (rule ran_preserves [OF pres_both_in_session [OF pres_validate] 8])
next
  case (9 F w)
  show ?case unfolding command_step.simps by (rule ran_preserves [OF pres_both_in_session [OF pres_initialize] 9])
next
  case (10 F d w)
  show ?case unfolding command_step.simps by (rule ran_preserves [OF pres_both_in_session [OF pres_other [OF assms]] 10])
next
  case (12 F c cs w)
  then show ?case by simp
qed simp

end

subsection \<open>The committed state stays within the schema\<close>

lemma pres_sound_put [pres]: "preserves sound (put_command r)" "preserves sound (au_modify f)"
  by (auto simp: put_command_def au_modify_def preserves_def sound_def store_apply)

lemma pres_sound_clocks [pres]:
  "preserves sound next_read" "preserves sound (clock_tick env)" "preserves sound (clock_recovered env)"
  "preserves sound (clock_logical_now env)" "preserves sound (clock_sample env)" "preserves sound (ledger_now env)"
  by (intro pinned_sound pres)+

lemma pres_sound_rows [pres]:
  "preserves sound (expire env row)" "preserves sound (finish env st code row)"
  "preserves sound (mark_dispatched env row)" "preserves sound (apply_ack env s row)"
  "preserves sound (apply_report env d row)"
  by (intro pinned_sound pres)+

lemma pres_sound_nested [pres]: "preserves sound m \<Longrightarrow> preserves sound (nested m)"
proof (rule preservesI)
  fix w :: "'a world_scheme"
  assume m: "preserves sound m" and "sound w"
  then have "sound (w\<lparr>work := committed w\<rparr>)" by simp
  from preservesD [OF m this] show "sound (snd (nested m w))"
    by (cases "m (w\<lparr>work := committed w\<rparr>)") (simp add: nested_def)
qed

lemma pres_sound_get: "preserves sound (command_get env house c)"
  unfolding command_get_def by (intro pres)

lemma pres_sound_settle: "preserves sound (settle env c sent)"
  unfolding settle_def by (intro pres)

lemma pres_sound_submit:
  assumes "\<And>t. transport = Some t \<Longrightarrow> preserves sound (tr_authorize t house device)"
    and "\<And>t st k c a b. transport = Some t \<Longrightarrow> preserves sound (tr_send t house device st k c a b)"
  shows "preserves sound (command_submit sha256 fresh env transport house device user key on)"
  unfolding command_submit_def replay_command_def admit_command_def release_pending_def insert_command_def
    dispatch_def require_active_def require_command_contract_def Let_def
  by (intro pres assms pres_sound_settle pres_sound_get) (auto intro!: pres assms)

lemma pres_sound_evidence:
  assumes "\<And>row. preserves sound (f row)"
  shows "preserves sound (bnd (find_command p) (\<lambda>found_row.
     bnd (eligible env found_row retained) (\<lambda>candidate. put_evidence candidate f)))"
  unfolding eligible_def put_evidence_def case_prod_unfold by (intro pres assms)

lemma pres_sound_control:
  "preserves sound (prepare sha256 gate env transient row)" "preserves sound (stage sha256 gate env house device c)"
  "preserves sound (request sha256 gate env house device r)" "preserves sound (validate_delivery env dl)"
  "preserves sound (initialize env)"
  unfolding prepare_def stage_def request_def validate_delivery_def initialize_def release_terminal_def
    grant_def limit_def consume_permit_def Let_def case_prod_unfold
  by (intro pres; auto intro!: pres split: raw_tick.splits option.splits)+

lemma steps_sound:
  "sound w \<Longrightarrow> sound (command_step F call w)"
  "sound w \<Longrightarrow> sound (command_steps F calls w)"
proof (induction F call w and F calls w rule: command_step_command_steps.induct)
  case (1 F house device user key on online auth during result w)
  show ?case
    unfolding command_step.simps
    by (rule ran_preserves [OF pres_sound_in_session 1(2)], rule pres_sound_submit)
      (auto simp: call_transport_def intro!: pres pres_run 1(1))
next
  case (12 F c cs w)
  then show ?case by simp
next
  case (10 F d w)
  have "preserves sound (other_write d)" by (auto simp: preserves_def other_write_def sound_def)
  from ran_preserves [OF pres_sound_in_session [OF this] 10] show ?case by simp
qed (simp_all add: ran_preserves [OF pres_sound_in_session] pres_sound_get pres_sound_control
    pres_sound_evidence command_ack_def command_state_def pres_sound_rows)

end
