(* ===== verification/Command_Properties.thy ===== *)
theory Command_Properties
  imports Command_Ledger
begin

text \<open>
  The properties of the command service: rows are permanent and move along an abstract life
  cycle, an applied command carries its evidence, a device has one pending command, nothing is
  sent before its row is committed, submissions are idempotent and a read resolves an expired
  command.
\<close>

subsection \<open>The abstract life cycle\<close>

inductive life :: "command_status \<Rightarrow> command_status \<Rightarrow> bool" where
  dispatched: "life Queued Dispatched"
| applied: "life Dispatched Applied"
| failed: "s \<in> set PENDING \<Longrightarrow> life s Failed"
| timed_out: "s \<in> set PENDING \<Longrightarrow> life s Timed_out"

inductive_simps life_simps [simp]: "life Queued s" "life Dispatched s" "life Applied s" "life Failed s" "life Timed_out s"

lemma life_reach: "s \<in> set PENDING \<Longrightarrow> (s' = Queued \<longrightarrow> s = Queued) \<Longrightarrow> life\<^sup>*\<^sup>* s s'"
proof -
  have a: "life\<^sup>*\<^sup>* Dispatched s'" if "s' \<noteq> Queued" for s'
    using that by (cases s') (auto simp: PENDING_def)
  assume "s \<in> set PENDING" and "s' = Queued \<longrightarrow> s = Queued"
  then show ?thesis
    using a [of s'] converse_rtranclp_into_rtranclp [where r = life, OF life.dispatched, of s']
    by (cases "s' = Queued") (auto simp: PENDING_def)
qed

lemma life_final: "life\<^sup>*\<^sup>* s s' \<Longrightarrow> s \<notin> set PENDING \<Longrightarrow> s' = s"
  by (induction rule: rtranclp_induct) (auto simp: PENDING_def elim: life.cases)

definition progress :: "command_row \<Rightarrow> command_row \<Rightarrow> bool" where
  "progress r r' \<longleftrightarrow> same_intent r r' \<and> (\<not> pending r \<longrightarrow> r' = r) \<and> life\<^sup>*\<^sup>* (c_status r) (c_status r')"

lemma progress_refl: "progress r r"
  by (simp add: progress_def)

lemma progress_advance: "progress r s \<Longrightarrow> advance d s t \<Longrightarrow> progress r t"
  using life_reach [of "c_status s" "c_status t"]
  by (auto simp: progress_def advance_def pending_def intro: same_intent_trans rtranclp_trans)

subsection \<open>Two invariants of the ledger\<close>

definition kept :: "command_row list \<Rightarrow> db \<Rightarrow> bool" where
  "kept rows d \<longleftrightarrow> (\<forall>r \<in> set rows. \<exists>r' \<in> set (device_commands d). progress r r')"

definition evidenced :: "db \<Rightarrow> bool" where
  "evidenced d \<longleftrightarrow> (\<forall>r \<in> set (device_commands d). c_status r = Applied \<longrightarrow> confirmed r \<and> permitted d r)"

interpretation kept_rows: ledger_invariant "kept rows" for rows
proof
  fix d r r'
  assume kept: "kept rows d" and uniq: "unique c_command_id (device_commands d)"
    and r: "r \<in> set (device_commands d)" "advance d r r'"
  show "kept rows (device_commands_update (tput c_command_id r') d)"
    unfolding kept_def
  proof
    fix a
    assume "a \<in> set rows"
    with kept obtain b where b: "b \<in> set (device_commands d)" "progress a b" by (auto simp: kept_def)
    show "\<exists>x \<in> set (device_commands (device_commands_update (tput c_command_id r') d)). progress a x"
    proof (cases "c_command_id b = c_command_id r'")
      case True
      then have "b = r" using unique_eqD [OF uniq b(1) r(1)] advance_id [OF r(2)] by simp
      with b r have "progress a r'" by (auto intro: progress_advance)
      moreover have "r' \<in> set (tput c_command_id r' (device_commands d))"
        using True b(1) by (force simp: tput_def)
      ultimately show ?thesis by auto
    next
      case False
      then have "b \<in> set (tput c_command_id r' (device_commands d))" using b(1) by (force simp: tput_def)
      with b(2) show ?thesis by auto
    qed
  qed
qed (auto simp: kept_def)

lemma permitted_commands [simp]: "permitted (device_commands_update f d) r = permitted d r"
  by (simp add: permitted_def)

interpretation evidence_rows: ledger_invariant evidenced
proof
  fix d r r'
  assume "evidenced d" and "unique c_command_id (device_commands d)"
    and r: "r \<in> set (device_commands d)" "advance d r r'"
  then show "evidenced (device_commands_update (tput c_command_id r') d)"
    using set_tput_subset [of c_command_id r' "device_commands d"]
    by (fastforce simp: evidenced_def advance_def)
next
  fix d and k :: control_row
  assume e: "evidenced d" "\<forall>r \<in> set (device_commands d). c_command_id r = k_command_id k \<longrightarrow> pending r"
  show "evidenced (command_control_update (\<lambda>t. t @ [k]) d)"
    unfolding evidenced_def
  proof (intro ballI impI)
    fix r
    assume "r \<in> set (device_commands (command_control_update (\<lambda>t. t @ [k]) d))" and "c_status r = Applied"
    with e have "confirmed r" "permitted d r" "c_command_id r \<noteq> k_command_id k"
      by (auto simp: evidenced_def pending_iff)
    then show "confirmed r \<and> permitted (command_control_update (\<lambda>t. t @ [k]) d) r"
      by (auto simp: permitted_def tget_append tget_Cons split: option.splits)
  qed
qed (auto simp: evidenced_def permitted_def tget_update_where pending_iff split: option.splits)

lemma other_tables:
  assumes "device_commands d' = device_commands d" "command_control d' = command_control d"
  shows "kept rows d \<Longrightarrow> kept rows d'" and "evidenced d \<Longrightarrow> evidenced d'"
  using assms by (simp_all add: kept_def evidenced_def permitted_def)

subsection \<open>A session at its start\<close>

lemma both_start: "sound w \<Longrightarrow> P (committed w) \<Longrightarrow> both P (w\<lparr>work := committed w\<rparr>)"
  by (simp add: both_def)

lemma sound_unique: "sound w \<Longrightarrow> unique c_command_id (device_commands (committed w))"
  by (simp add: sound_def db_ok_def commands_ok_def)

text \<open>Runs begin with no session open.\<close>

definition idle :: "core \<Rightarrow> bool" where
  "idle w \<longleftrightarrow> sound w \<and> work w = committed w"

lemma kept_run:
  assumes "idle w"
  shows "kept (device_commands (committed w)) (committed (command_steps F calls w))"
proof -
  have "kept (device_commands (committed w)) (committed w)"
    using progress_refl by (auto simp: kept_def)
  with assms have "both (kept_rows.ledger (device_commands (committed w))) w"
    by (simp add: both_def idle_def kept_rows.ledger_def)
  from kept_rows.steps_keep(2) [OF other_tables(1) this] have
    "kept_rows.ledger (device_commands (committed w)) (committed (command_steps F calls w))"
    by (simp add: both_def)
  moreover have "sound (command_steps F calls w)" using assms by (intro steps_sound) (simp add: idle_def)
  ultimately show ?thesis by (simp add: kept_rows.ledger_def sound_unique)
qed

lemma evidenced_run:
  assumes "idle w" and "evidenced (committed w)"
  shows "evidenced (committed (command_steps F calls w))"
proof -
  from assms have "both evidence_rows.ledger w"
    by (simp add: both_def idle_def evidence_rows.ledger_def)
  from evidence_rows.steps_keep(2) [OF other_tables(2) this]
  have "evidence_rows.ledger (committed (command_steps F calls w))" by (simp add: both_def)
  moreover have "sound (command_steps F calls w)" using assms by (intro steps_sound) (simp add: idle_def)
  ultimately show ?thesis by (simp add: evidence_rows.ledger_def sound_unique)
qed

subsection \<open>An update of the ledger keeps the schema\<close>

lemma map_tput_same:
  assumes "unique key rows" and "r \<in> set rows" and "key r' = key r" and "f r' = f r"
  shows "map f (tput key r' rows) = map f rows"
proof -
  have "x = r" if "x \<in> set rows" "key x = key r'" for x
    using unique_eqD [OF assms(1) that(1) assms(2)] that(2) assms(3) by simp
  then show ?thesis using assms(4) by (auto simp: tput_def)
qed

lemma list_all_tput: "list_all p rows \<Longrightarrow> p r \<Longrightarrow> list_all p (tput key r rows)"
  by (auto simp: list_all_iff tput_def)

lemma filter_tput:
  assumes "unique key rows" and "r \<in> set rows" and "key r' = key r" and "f r' = f r" and "p r' \<Longrightarrow> p r"
  shows "map f (filter p (tput key r' rows)) = map f (filter (\<lambda>x. key x \<noteq> key r' \<or> p r') (filter p rows))"
proof -
  have eq: "x = r" if "x \<in> set rows" "key x = key r'" for x
    using unique_eqD [OF assms(1) that(1) assms(2)] that(2) assms(3) by simp
  have "map f (filter p (map (\<lambda>x. if key x = key r' then r' else x) xs)) =
      map f (filter (\<lambda>x. key x \<noteq> key r' \<or> p r') (filter p xs))" if "set xs \<subseteq> set rows" for xs
    using that assms(4,5) by (induction xs) (auto dest: eq)
  from this [OF subset_refl] show ?thesis by (simp add: tput_def)
qed

lemma db_ok_row:
  assumes "db_ok d" and "r \<in> set (device_commands d)" and "same_intent r r'" and "pending r' \<Longrightarrow> pending r"
  shows "db_ok (device_commands_update (tput c_command_id r') d)"
proof -
  have ok: "commands_ok d" using assms(1) by (simp add: db_ok_def)
  then have uniq: "unique c_command_id (device_commands d)" by (simp add: commands_ok_def)
  note key = uniq assms(2)
  have i: "c_command_id r' = c_command_id r" "c_correlation_id r' = c_correlation_id r"
    "c_house_id r' = c_house_id r" "c_requested_by r' = c_requested_by r" "c_device_id r' = c_device_id r"
    "c_idempotency_hash r' = c_idempotency_hash r" "c_created_at r' = c_created_at r" "c_expires_at r' = c_expires_at r"
    using assms(3) by (simp_all add: same_intent_def)
  have row: "command_row_ok r' = command_row_ok r" by (simp add: command_row_ok_def i)
  have at: "p r" if "list_all p (device_commands d)" for p
    using that assms(2) by (simp add: list_all_iff)
  have "distinct (map c_device_id (filter pending (device_commands d)))"
    using ok by (simp add: commands_ok_def unique_where_def)
  then have "distinct (map c_device_id (filter pending (tput c_command_id r' (device_commands d))))"
    by (subst filter_tput [where r = r]) (auto simp: i assms(4) uniq assms(2) simp del: filter_filter intro: distinct_map_filter)
  moreover have "fk c_house_id h_id (houses d) (tput c_command_id r' (device_commands d))"
    "fk c_device_id d_id (devices d) (tput c_command_id r' (device_commands d))"
    "fk c_requested_by u_id (users d) (tput c_command_id r' (device_commands d))"
    "list_all command_row_ok (tput c_command_id r' (device_commands d))"
    using ok unfolding commands_ok_def fk_def
    by (auto intro!: list_all_tput simp: i row dest: at)
  moreover have "unique c_correlation_id (tput c_command_id r' (device_commands d))"
    "unique (\<lambda>r. (c_house_id r, c_requested_by r, c_idempotency_hash r)) (tput c_command_id r' (device_commands d))"
    using ok unfolding commands_ok_def unique_def
    by (simp_all add: map_tput_same [OF key i(1)] i)
  moreover have "fk k_command_id c_command_id (tput c_command_id r' (device_commands d)) (command_control d)"
    using ok unfolding commands_ok_def fk_def tget_None_iff set_map [symmetric] map_key_tput by simp
  ultimately have "commands_ok (device_commands_update (tput c_command_id r') d)"
    using ok by (simp add: commands_ok_def unique_where_def)
  with assms(1) show ?thesis
    by (simp add: db_ok_def accounts_ok_def structure_ok_def physical_ok_def provisioning_ok_def)
qed

lemma distinct_map_const: "distinct (map f xs) \<Longrightarrow> \<forall>x \<in> set xs. f x = c \<Longrightarrow> length xs \<le> 1"
  by (cases xs rule: remdups_adj.cases) auto

subsection \<open>Reads resolve expired commands\<close>

lemma ledger_now_apply: "ledger_now env w =
    (case command_now (env_wall env (reads w)) (ledger_clock w) of
       (r, c) \<Rightarrow> (r, w\<lparr>reads := Suc (reads w), ledger_clock := c\<rparr>))"
  by (simp add: ledger_now_def next_read_def bnd_def split: prod.splits)

lemma expire_overdue:
  assumes "pending r" and "tget k_command_id (c_command_id r) (command_control (work w)) = None"
    and "command_now (env_wall env (reads w)) (ledger_clock w) = (Inr now, c1)"
    and "command_now (env_wall env (Suc (reads w))) c1 = (Inr t, c2)"
    and "c_expires_at r \<le> now"
  shows "expire env r w = (Inr (closed_at t Timed_out (Some Deadline_exceeded) r),
    w\<lparr>reads := Suc (Suc (reads w)), ledger_clock := c2\<rparr>)"
  using assms by (simp add: expire_def finish_def event_time_def control_of_def bnd_def ledger_now_apply)

lemma save_apply: "db_ok (work w) \<Longrightarrow> save w = (Inr (), w\<lparr>committed := work w\<rparr>)"
  by (simp add: save_def handle_def commit_def)

lemma put_save:
  assumes "sound w" and "work w = committed w" and "r \<in> set (device_commands (committed w))"
    and "same_intent r r'" and "pending r' \<Longrightarrow> pending r"
  shows "andthen (put_command r') (andthen save (ret x)) w =
    (Inr x, w\<lparr>committed := device_commands_update (tput c_command_id r') (committed w),
      work := device_commands_update (tput c_command_id r') (committed w)\<rparr>)"
proof -
  have "db_ok (device_commands_update (tput c_command_id r') (committed w))"
    using assms by (intro db_ok_row) (simp_all add: sound_def)
  then show ?thesis
    using assms(2) by (simp add: put_command_def andthen_def bnd_def store_apply save_apply)
qed

text \<open>
  A stored command stays itself when its row is written back, and a session that starts on the
  committed state and only expires a row leaves both states as they are.
\<close>

lemma tput_id: "unique key rows \<Longrightarrow> r \<in> set rows \<Longrightarrow> tput key r rows = rows"
  unfolding tput_def by (rule map_idI) (auto dest: unique_eqD)

lemma put_same: "db_ok d \<Longrightarrow> r \<in> set (device_commands d) \<Longrightarrow>
    device_commands_update (tput c_command_id r) d = d"
  by (simp add: db_ok_def commands_ok_def tput_id)

lemma expire_frame:
  assumes "expire env r w = (res, v)"
  shows "committed v = committed w" and "work v = work w"
  using preserves_result [OF pres_pinned_expire [of "work w" "committed w" env r] _ assms]
  by (simp_all add: pinned_def)

text \<open>
  \<open>reads_as env r w x\<close>: reading the command \<open>r\<close> in a session of its own returns it as \<open>x\<close>, and
  commits exactly that row.
\<close>

definition reads_as :: "environment \<Rightarrow> command_row \<Rightarrow> core \<Rightarrow> command_row \<Rightarrow> bool" where
  "reads_as env r w x \<longleftrightarrow> (\<exists>w'. in_session (command_get env (c_house_id r) (c_command_id r)) w =
     (Inr (read_command x), w') \<and>
     committed w' = device_commands_update (tput c_command_id x) (committed w))"

lemma find_stored:
  assumes "sound w" and "r \<in> set (device_commands (committed w))"
  shows "tfind (\<lambda>x. c_house_id x = c_house_id r \<and> c_command_id x = c_command_id r)
    (device_commands (committed w)) = Some r"
  by (rule tfind_unique [where key = c_command_id]) (use assms in \<open>auto simp: sound_unique\<close>)

lemma reads_as_expire:
  assumes "idle w" and "r \<in> set (device_commands (committed w))"
    and "expire env r w = (Inr x, v)"
  shows "reads_as env r w x"
proof -
  have start: "w\<lparr>work := committed w\<rparr> = w" using assms(1) by (simp add: idle_def)
  have v: "sound v" "work v = committed v" "r \<in> set (device_commands (committed v))"
    using assms expire_frame [OF assms(3)] by (simp_all add: idle_def sound_def)
  have "same_intent r x" "pending x \<Longrightarrow> pending r"
    using expire_Inr [OF assms(3)] by auto
  from put_save [OF v this, where x = "read_command x"] find_stored [of w r] assms show ?thesis
    by (auto simp: start reads_as_def in_session_def command_get_def find_command_def bnd_def idle_def
        expire_frame [OF assms(3)])
qed

subsection \<open>The witnesses' installation: a software relay and one command\<close>

definition ex_relay_db :: db where
  "ex_relay_db = ex_db\<lparr>devices := devices ex_db @
     [\<lparr>d_id = ''d2'', d_name = ''P'', d_room_id = ''r1'', d_type = ''relay'', d_state = [],
       d_capabilities = [''on_off''], d_metadata = [], d_online = True\<rparr>]\<rparr>"

definition ex_relay :: core where
  "ex_relay = ex_core\<lparr>committed := ex_relay_db, work := ex_relay_db\<rparr>"

definition ex_platform :: platform where
  "ex_platform = \<lparr>pf_sha256 = ex_sha, pf_fresh = ex_fresh, pf_gate = open_gate, pf_env = ex_env\<rparr>"

definition ex_ack :: ack_envelope where
  "ex_ack = \<lparr>ae_command_id = ''c1'', ae_correlation_id = ''k1'', ae_timestamp = None,
     ae_status = Ack_applied, ae_error_code = None, ae_message = None\<rparr>"

definition ex_report :: state_envelope where
  "ex_report = \<lparr>se_timestamp = utc_time 0, se_correlation_id = ''k1'', se_state = [(''on'', JBool True)]\<rparr>"

definition ex_pending_row :: command_row where
  "ex_pending_row = new_command ''c1'' ''k1'' ''h1'' ''d2'' ''u1'' (ex_sha ''key'') True 0"

definition ex_pending :: core where
  "ex_pending = (let d = ex_relay_db\<lparr>device_commands := [ex_pending_row]\<rparr> in
     ex_core\<lparr>committed := d, work := d\<rparr>)"

lemma ex_idle: "idle ex_pending"
  by code_simp

definition ex_calls :: "command_call list" where
  "ex_calls = [Ack_command ''h1'' ''d2'' ex_ack False, State_command ''h1'' ''d2'' ex_report False]"

definition ex_applied :: core where
  "ex_applied = command_steps ex_platform ex_calls ex_pending"

lemma ex_applied: "map c_status (device_commands (committed ex_applied)) = [Applied]"
  by code_simp

subsection \<open>Properties\<close>

text \<open>
  C6. The ledger is permanent: whatever calls of the command service and the control authority
  run, nested and interleaved in any way with other transactions, every stored command keeps
  its identity, intent and deadline, its status only follows the life cycle queued, dispatched,
  then applied, failed or timed out, and a command in a final status never changes again.
\<close>

theorem ledger_permanent:
  assumes "idle w" and "r \<in> set (device_commands (committed w))"
  shows "\<exists>r' \<in> set (device_commands (committed (command_steps F calls w))).
    same_intent r r' \<and> life\<^sup>*\<^sup>* (c_status r) (c_status r') \<and> (pending r \<or> r' = r)"
  using kept_run [OF assms(1), of F calls] assms(2) by (auto simp: kept_def progress_def)

theorem ledger_permanent_witness:
  "\<exists>r' \<in> set (device_commands (committed ex_applied)).
    same_intent ex_pending_row r' \<and> life\<^sup>*\<^sup>* Queued (c_status r')"
proof -
  have "ex_pending_row \<in> set (device_commands (committed ex_pending))" "c_status ex_pending_row = Queued"
    by (simp_all add: ex_pending_def Let_def ex_pending_row_def new_command_def)
  from ledger_permanent [OF ex_idle this(1), of ex_platform ex_calls] this(2) show ?thesis
    by (auto simp: ex_applied_def)
qed

text \<open>
  C1. A command is applied only on evidence: if no command was applied before, then after any
  calls every applied command has an applied acknowledgement, a received state report that
  equals the requested value, and a consumed permit for each control record it has.
\<close>

theorem applied_has_evidence:
  assumes "idle w" and "list_all (\<lambda>r. c_status r \<noteq> Applied) (device_commands (committed w))"
    and "w' = command_steps F calls w" and "r \<in> set (device_commands (committed w'))" and "c_status r = Applied"
  shows "c_ack_status r = Some Ack_applied \<and> c_reported_on r = Some (c_requested_on r) \<and>
    c_state_received_at r \<noteq> None \<and>
    list_all (\<lambda>k. k_command_id k \<noteq> c_command_id r \<or> k_permit_binding_sha256 k \<noteq> None)
      (command_control (committed w'))"
proof -
  have "evidenced (committed w)" using assms(2) by (auto simp: evidenced_def list_all_iff)
  from evidenced_run [OF assms(1) this, of F calls] assms(3-5)
  have ev: "confirmed r" "permitted (committed w') r" by (auto simp: evidenced_def)
  have "sound w'" unfolding assms(3) using assms(1) by (intro steps_sound) (simp add: idle_def)
  then have "unique k_command_id (command_control (committed w'))"
    by (simp add: sound_def db_ok_def commands_ok_def)
  with ev(2) have "list_all (\<lambda>k. k_command_id k \<noteq> c_command_id r \<or> k_permit_binding_sha256 k \<noteq> None)
      (command_control (committed w'))"
    by (auto simp: list_all_iff permitted_def dest: unique_tget)
  with ev(1) show ?thesis by (simp add: confirmed_def)
qed

theorem applied_has_evidence_witness:
  "c_ack_status (hd (device_commands (committed ex_applied))) = Some Ack_applied"
proof -
  let ?r = "hd (device_commands (committed ex_applied))"
  have mem: "?r \<in> set (device_commands (committed ex_applied))" "c_status ?r = Applied"
    using ex_applied by (cases "device_commands (committed ex_applied)"; simp)+
  have "list_all (\<lambda>r. c_status r \<noteq> Applied) (device_commands (committed ex_pending))"
    by (simp add: ex_pending_def Let_def ex_pending_row_def new_command_def)
  from applied_has_evidence [OF ex_idle this ex_applied_def mem] show ?thesis by simp
qed

text \<open>
  What \<open>submit\<close> asks before it looks at the key: the device exists in the house, an inventory row
  of it is active there, and the key is ASCII.
\<close>

definition admits :: "db \<Rightarrow> string \<Rightarrow> string \<Rightarrow> string \<Rightarrow> bool" where
  "admits d house device key \<longleftrightarrow>
     tget d_id device (devices d) \<noteq> None \<and> device_house d device = Some house \<and>
     (case tget p_device_id device (physical_devices d) of None \<Rightarrow> True
      | Some item \<Rightarrow> p_status item = Active \<and> location_house d device \<noteq> None \<and>
          location_house d device = p_house_id item) \<and>
     list_all (\<lambda>c. ord_of c < 128) key"

text \<open>The session of \<open>submit\<close> up to the search for the key changes nothing.\<close>

lemma submit_preamble:
  fixes w :: core
  shows "if admits (work w) house device key
    then command_submit sha256 fresh env transport house device user key on w =
      (case tfind (\<lambda>r. c_house_id r = house \<and> c_requested_by r = user \<and> c_idempotency_hash r = sha256 key)
          (device_commands (work w)) of
         Some row \<Rightarrow> replay_command env device on row w
       | None \<Rightarrow> andthen (admit_command env transport house device (the (tget d_id device (devices (work w)))) on)
           (bnd (insert_command fresh env house device user (sha256 key) on) (\<lambda>row.
           andthen (case transport of None \<Rightarrow> ret () | Some t \<Rightarrow> dispatch env t house device row)
           (command_get env house (c_command_id row)))) w)
    else \<exists>e. command_submit sha256 fresh env transport house device user key on w = (Inl e, w)"
  by (auto simp: admits_def command_submit_def require_active_def by_device_def structure_house_def
      lock_device_def device_house_id_def found_def find_command_def andthen_def bnd_def reject_def
      split: option.splits)

text \<open>
  C9. A device has one command in flight at a time: when a device has a pending command, a
  submission under a new key first lets it expire. If it has not expired, the submission is
  refused: nothing is written, no identifier is drawn and the transport is not used at all,
  whatever it is; the error is a conflict when the device is one commands can be sent to. If it
  has expired, it is closed as timed out inside the transaction, and after that no command of
  the device is pending, so that the new one can be inserted.
\<close>

theorem single_pending:
  assumes "idle w" and "p \<in> set (device_commands (committed w))" and "pending p" and "c_device_id p = device"
    and "\<forall>r \<in> set (device_commands (committed w)).
      \<not> (c_house_id r = house \<and> c_requested_by r = user \<and> c_idempotency_hash r = sha256 key)"
    and "expire env p w = (Inr q, v)"
  shows "if pending q
    then \<exists>e w'. in_session (command_submit sha256 fresh env transport house device user key on) w = (Inl e, w') \<and>
      (w' = w \<or> w' = v) \<and> committed v = committed w \<and>
      (admits (committed w) house device key \<longrightarrow> tget p_device_id device (physical_devices (committed w)) = None \<longrightarrow>
       (case tget d_id device (devices (committed w)) of None \<Rightarrow> True | Some dev \<Rightarrow>
          d_type dev = ''relay'' \<and> ''on_off'' \<in> set (d_capabilities dev)) \<longrightarrow> e = ConflictError)
    else c_status q = Timed_out \<and> same_intent p q \<and>
      release_pending env device w = (Inr (), v\<lparr>work := device_commands_update (tput c_command_id q) (committed w)\<rparr>) \<and>
      (\<forall>r \<in> set (tput c_command_id q (device_commands (committed w))). c_device_id r = device \<longrightarrow> \<not> pending r)"
proof -
  have idle: "work w = committed w" "w\<lparr>work := committed w\<rparr> = w" and ok: "db_ok (committed w)"
    using assms(1) by (simp_all add: idle_def sound_def)
  note frame = expire_frame [OF assms(6)]
  have only: "r = p" if "r \<in> set (device_commands (committed w))" "pending r" "c_device_id r = device" for r
  proof -
    have "inj_on c_device_id (set (filter pending (device_commands (committed w))))"
      using ok by (simp add: db_ok_def commands_ok_def unique_where_def distinct_map)
    from inj_onD [OF this, of r p] that assms(2-4) show ?thesis by simp
  qed
  have find: "tfind (\<lambda>r. c_device_id r = device \<and> pending r) (device_commands (committed w)) = Some p"
  proof (cases "tfind (\<lambda>r. c_device_id r = device \<and> pending r) (device_commands (committed w))")
    case None
    then show ?thesis using assms(2-4) by (auto simp: tfind_def find_None_iff)
  next
    case (Some r)
    with only [of r] show ?thesis by (auto dest: tfind_SomeD)
  qed
  have key: "tfind (\<lambda>r. c_house_id r = house \<and> c_requested_by r = user \<and> c_idempotency_hash r = sha256 key)
      (device_commands (committed w)) = None"
    using assms(5) by (auto simp: tfind_def find_None_iff)
  show ?thesis
  proof (cases "pending q")
    case True
    then have "q = p" using expire_Inr [OF assms(6)] by (auto simp: pending_iff)
    have release: "release_pending env device w = (Inl ConflictError, v)"
      using find True assms(6) idle by (simp add: release_pending_def pending_command_def bnd_def andthen_def)
    have valid: "validate_command caps [(''on'', JBool on)] = Inr ()" if "''on_off'' \<in> set caps" for caps
      using that by (simp add: validate_command_iff supported_field_def valid_value_def READ_ONLY_FIELDS_def
        FIELD_CAPABILITIES_def INTEGER_RANGES_def)
    have "\<exists>e w'. command_submit sha256 fresh env transport house device user key on w = (Inl e, w') \<and>
      (w' = w \<or> w' = v) \<and>
      (admits (committed w) house device key \<longrightarrow> tget p_device_id device (physical_devices (committed w)) = None \<longrightarrow>
       (case tget d_id device (devices (committed w)) of None \<Rightarrow> True | Some dev \<Rightarrow>
          d_type dev = ''relay'' \<and> ''on_off'' \<in> set (d_capabilities dev)) \<longrightarrow> e = ConflictError)"
    proof (cases "admits (work w) house device key")
      case True
      then obtain dev where dev: "tget d_id device (devices (committed w)) = Some dev"
        by (auto simp: admits_def idle)
      have "\<exists>e w'. admit_command env transport house device dev on w = (Inl e, w') \<and> (w' = w \<or> w' = v) \<and>
        (tget p_device_id device (physical_devices (committed w)) = None \<longrightarrow>
         d_type dev = ''relay'' \<and> ''on_off'' \<in> set (d_capabilities dev) \<longrightarrow> e = ConflictError)"
        using release valid [of "d_capabilities dev"]
        by (auto simp: admit_command_def require_command_contract_def by_device_def andthen_def bnd_def reject_def
            lift_def idle split: sum.splits)
      then obtain e w' where "admit_command env transport house device dev on w = (Inl e, w')" "w' = w \<or> w' = v"
        "tget p_device_id device (physical_devices (committed w)) = None \<longrightarrow>
         d_type dev = ''relay'' \<and> ''on_off'' \<in> set (d_capabilities dev) \<longrightarrow> e = ConflictError"
        by (elim exE conjE) (rule that)
      moreover from True key submit_preamble [of w house device key sha256 fresh env transport user on] idle
      have "command_submit sha256 fresh env transport house device user key on w =
        andthen (admit_command env transport house device dev on)
           (bnd (insert_command fresh env house device user (sha256 key) on) (\<lambda>row.
           andthen (case transport of None \<Rightarrow> ret () | Some t \<Rightarrow> dispatch env t house device row)
           (command_get env house (c_command_id row)))) w"
        by (simp add: dev)
      ultimately show ?thesis using dev by (auto simp: andthen_def bnd_def)
    next
      case False
      with submit_preamble [of w house device key sha256 fresh env transport user on] show ?thesis
        by (auto simp: idle)
    qed
    then obtain e w' where run: "command_submit sha256 fresh env transport house device user key on w = (Inl e, w')"
      and w': "w' = w \<or> w' = v"
      and conflict: "admits (committed w) house device key \<longrightarrow> tget p_device_id device (physical_devices (committed w)) = None \<longrightarrow>
       (case tget d_id device (devices (committed w)) of None \<Rightarrow> True | Some dev \<Rightarrow>
          d_type dev = ''relay'' \<and> ''on_off'' \<in> set (d_capabilities dev)) \<longrightarrow> e = ConflictError"
      by (elim exE conjE) (rule that)
    have "v\<lparr>work := committed v\<rparr> = v" using frame idle(1) by (cases v) simp
    with w' idle(2) have "w'\<lparr>work := committed w'\<rparr> = w'" by auto
    with run idle(2) have "in_session (command_submit sha256 fresh env transport house device user key on) w = (Inl e, w')"
      by (simp add: in_session_def)
    with w' conflict True frame show ?thesis by auto
  next
    case False
    then have q: "c_status q = Timed_out" "same_intent p q" "c_command_id q = c_command_id p"
      using expire_Inr [OF assms(6)] assms(3) by auto
    have "db_ok (device_commands_update (tput c_command_id q) (committed w))"
      using ok assms(2) q(2) False by (intro db_ok_row) simp_all
    then have "release_pending env device w =
        (Inr (), v\<lparr>work := device_commands_update (tput c_command_id q) (committed w)\<rparr>)"
      using find False assms(6) idle frame
      by (simp add: release_pending_def pending_command_def bnd_def andthen_def put_command_def store_apply flush_def)
    moreover have "\<not> pending r" if "r \<in> set (tput c_command_id q (device_commands (committed w)))" "c_device_id r = device" for r
      using that only q False by (fastforce simp: tput_def)
    ultimately show ?thesis using False q by simp
  qed
qed

definition ex_clock_started :: command_clock where
  "ex_clock_started = \<lparr>mc_anchor = Some (utc_time 0, 0), mc_fault = False, mc_last_tick = Some 0\<rparr>"

text \<open>The command of the installation is read a microsecond after it was made: it stands.\<close>

lemma ex_expire_now: "expire ex_env ex_pending_row ex_pending =
    (Inr ex_pending_row, ex_pending\<lparr>reads := 1, ledger_clock := ex_clock_started\<rparr>)"
  by code_simp

theorem single_pending_witness:
  "\<exists>w'. in_session (command_submit ex_sha ex_fresh ex_env None ''h1'' ''d2'' ''u1'' ''other'' False) ex_pending =
    (Inl ConflictError, w')"
proof -
  have p: "ex_pending_row \<in> set (device_commands (committed ex_pending))" "pending ex_pending_row"
    "c_device_id ex_pending_row = ''d2''"
    "\<forall>r \<in> set (device_commands (committed ex_pending)).
      \<not> (c_house_id r = ''h1'' \<and> c_requested_by r = ''u1'' \<and> c_idempotency_hash r = ex_sha ''other'')"
    by code_simp+
  have a: "admits (committed ex_pending) ''h1'' ''d2'' ''other''"
    "tget p_device_id ''d2'' (physical_devices (committed ex_pending)) = None"
    "case tget d_id ''d2'' (devices (committed ex_pending)) of None \<Rightarrow> True | Some dev \<Rightarrow>
          d_type dev = ''relay'' \<and> ''on_off'' \<in> set (d_capabilities dev)"
    by code_simp+
  from single_pending [where w = ex_pending and p = ex_pending_row and device = "''d2''" and house = "''h1''"
      and user = "''u1''" and key = "''other''" and ?sha256.0 = ex_sha, OF ex_idle p ex_expire_now, of ex_fresh None False]
    p(2) a show ?thesis by auto
qed

text \<open>The transport is used only to ask whether it is connected, to authorize and to send.\<close>

lemma dispatch_cong:
  assumes "\<And>st k c a b v. committed v = committed w \<Longrightarrow> work v = committed w \<Longrightarrow>
      st = [(''on'', JBool (c_requested_on row))] \<Longrightarrow> k = c_correlation_id row \<Longrightarrow> c = c_command_id row \<Longrightarrow>
      a = Some (utc_time (c_created_at row)) \<Longrightarrow> b = Some (utc_time (c_expires_at row)) \<Longrightarrow>
      tr_send t house device st k c a b v = tr_send t' house device st k c a b v"
  shows "dispatch env t house device row w = dispatch env t' house device row w"
  unfolding dispatch_def bnd_def handle_def andthen_def in_session_def
  by (subst assms) auto

lemma new_command_ex: "\<exists>i k now. new_command a b house device user digest on t = new_command i k house device user digest on now"
  by blast

lemma insert_command_Inr:
  assumes "insert_command fresh env house device user digest on w = (Inr row, w')"
  shows "row \<in> set (device_commands (committed w')) \<and> (\<exists>i k now. row = new_command i k house device user digest on now)"
proof -
  let ?rest = "\<lambda>now. bnd (draw fresh) (\<lambda>i. bnd (draw fresh) (\<lambda>k.
     let row = new_command i k house device user digest on now in
     andthen (store (device_commands_update (\<lambda>t. t @ [row]))) (andthen save (ret row))))"
  from assms obtain now v where run: "?rest now v = (Inr row, w')"
    unfolding insert_command_def bnd_Inr_iff [of "ledger_now env"] by blast
  have "wp (?rest now) (\<lambda>row w'. row \<in> set (device_commands (committed w')) \<and>
      (\<exists>i k now. row = new_command i k house device user digest on now)) (\<lambda>_ _. True) v"
    by (simp add: wp_simps Let_def new_command_ex)
  from wp_Inr [OF this run] show ?thesis .
qed

text \<open>
  C7. Intent is durable before the network sees it: the transport is only ever asked to send a
  command whose queued row, with its identifiers, house, device, requested value and deadline, is
  already committed. Two transports that agree on such sends give the same submission, whatever
  they would do otherwise.
\<close>

theorem durable_before_network:
  assumes "tr_connected t' = tr_connected t" and "tr_authorize t' = tr_authorize t"
    and "\<And>v st k c a b. \<exists>r \<in> set (device_commands (committed v)). c_command_id r = c \<and>
      c_correlation_id r = k \<and> c_house_id r = house \<and> c_device_id r = device \<and> c_status r = Queued \<and>
      c_requested_on r = on \<and> st = [(''on'', JBool on)] \<and>
      a = Some (utc_time (c_created_at r)) \<and> b = Some (utc_time (c_expires_at r)) \<Longrightarrow>
      tr_send t' house device st k c a b v = tr_send t house device st k c a b v"
  shows "command_submit sha256 fresh env (Some t') house device user key on w =
    command_submit sha256 fresh env (Some t) house device user key on w"
proof -
  have admit: "admit_command env (Some t') house device dev on = admit_command env (Some t) house device dev on" for dev
    by (simp add: admit_command_def assms(1,2))
  have tail: "bnd (insert_command fresh env house device user (sha256 key) on) (\<lambda>row.
         andthen (dispatch env t' house device row) (command_get env house (c_command_id row))) v =
       bnd (insert_command fresh env house device user (sha256 key) on) (\<lambda>row.
         andthen (dispatch env t house device row) (command_get env house (c_command_id row))) v" for v
  proof (rule bnd_cong [OF refl _ refl])
    fix row u
    assume row: "insert_command fresh env house device user (sha256 key) on v = (Inr row, u)"
    note r = insert_command_Inr [OF row]
    have "dispatch env t' house device row u = dispatch env t house device row u"
      by (rule dispatch_cong, rule assms(3)) (use r in \<open>auto simp: new_command_def\<close>)
    then show "andthen (dispatch env t' house device row) (command_get env house (c_command_id row)) u =
      andthen (dispatch env t house device row) (command_get env house (c_command_id row)) u"
      by (simp add: andthen_def bnd_def)
  qed
  then have "bnd (insert_command fresh env house device user (sha256 key) on) (\<lambda>row.
         andthen (dispatch env t' house device row) (command_get env house (c_command_id row))) =
       bnd (insert_command fresh env house device user (sha256 key) on) (\<lambda>row.
         andthen (dispatch env t house device row) (command_get env house (c_command_id row)))" by blast
  then show ?thesis by (simp add: command_submit_def admit cong: option.case_cong)
qed

theorem durable_before_network_witness:
  "command_submit ex_sha ex_fresh ex_env
     (Some (call_transport True (Inr ()) (\<lambda>w. w) (Inl TimeoutError)
       \<lparr>tr_send := \<lambda>h d st k c a b v. if device_commands (committed v) = [] then (Inr ''early'', v) else (Inl TimeoutError, v)\<rparr>))
     ''h1'' ''d2'' ''u1'' ''key'' True ex_pending =
   command_submit ex_sha ex_fresh ex_env (Some (call_transport True (Inr ()) (\<lambda>w. w) (Inl TimeoutError)))
     ''h1'' ''d2'' ''u1'' ''key'' True ex_pending"
  by (rule durable_before_network) (auto simp: call_transport_def)

text \<open>
  C8. A submission is idempotent: when the user has already used the key in the house, submitting
  again, whatever the transport is or does, creates no command. If the device and its placement
  still pass the first checks of a submission and device and value are the same, submitting is
  the same as reading the first command: the same result and the same final state, and for a
  command that is already final just that command, with nothing written. Another device or value
  is refused as a conflict, and if the first checks fail, that error is all that happens.
\<close>

theorem submit_idempotent:
  assumes "idle w" and "r \<in> set (device_commands (committed w))"
    and "c_house_id r = house" "c_requested_by r = user" "c_idempotency_hash r = sha256 key"
    and "in_session (command_submit sha256 fresh env transport house device user key on) w = (result, w')"
  shows "map c_command_id (device_commands (committed w')) = map c_command_id (device_commands (committed w)) \<and>
    (case result of
       Inr v \<Rightarrow> cr_command_id v = c_command_id r \<and> c_device_id r = device \<and> c_requested_on r = on
     | Inl _ \<Rightarrow> True) \<and>
    (if \<not> admits (committed w) house device key then (\<exists>e. result = Inl e) \<and> w' = w
     else if c_device_id r = device \<and> c_requested_on r = on
     then (result, w') = in_session (command_get env house (c_command_id r)) w \<and>
       (pending r \<or> result = Inr (read_command r) \<and> committed w' = committed w)
     else result = Inl ConflictError \<and> w' = w)"
proof -
  let ?ids = "\<lambda>d :: db. map c_command_id (device_commands d)"
  define P where "P d \<longleftrightarrow> ?ids d = ?ids (committed w)" for d :: db
  have start: "w\<lparr>work := committed w\<rparr> = w" and idle: "work w = committed w" and sound: "sound w"
    using assms(1) by (simp_all add: idle_def)
  have ok: "commands_ok (committed w)" using sound by (simp add: sound_def db_ok_def)
  have key: "tfind (\<lambda>x. c_house_id x = house \<and> c_requested_by x = user \<and> c_idempotency_hash x = sha256 key)
      (device_commands (committed w)) = Some r"
    by (rule tfind_unique [where key = "\<lambda>x. (c_house_id x, c_requested_by x, c_idempotency_hash x)"])
      (use ok assms in \<open>auto simp: commands_ok_def\<close>)
  have put: "preserves (both P) (put_command x)" for x
    unfolding put_command_def by (rule pres_both_store) (simp add: P_def)
  have replay: "preserves (both P) (replay_command env device on r)"
    unfolding replay_command_def by (intro pres pinned_both put)
  have result: "cr_command_id v = c_command_id r \<and> c_device_id r = device \<and> c_requested_on r = on"
    if "replay_command env device on r u = (Inr v, u')" for v u u'
    using that by (auto simp: replay_command_def andthen_Inr_iff bnd_Inr_iff read_command_def
        dest!: expire_advance [where d = undefined] advance_id)
  obtain u where u: "command_submit sha256 fresh env transport house device user key on w = (result, u)"
    and w': "w' = u\<lparr>work := committed u\<rparr>"
    using in_session_result [OF assms(6)] start by auto
  have "both P w" by (simp add: both_def P_def idle)
  show ?thesis
  proof (cases "admits (committed w) house device key")
    case False
    with submit_preamble [of w house device key sha256 fresh env transport user on] u
    have "u = w" "\<exists>e. result = Inl e" by (auto simp: idle)
    then show ?thesis using w' start False by auto
  next
    case True
    with submit_preamble [of w house device key sha256 fresh env transport user on] u key
    have run: "replay_command env device on r w = (result, u)" by (simp add: idle)
    from preserves_result [OF replay \<open>both P w\<close> run] have ids: "?ids (committed w') = ?ids (committed w)"
      by (simp add: w' both_def P_def)
    have read: "(result, w') = in_session (command_get env house (c_command_id r)) w \<and>
        (pending r \<or> result = Inr (read_command r) \<and> committed w' = committed w)"
      if same: "c_device_id r = device \<and> c_requested_on r = on"
    proof
      have "command_get env house (c_command_id r) w = replay_command env device on r w"
        using find_stored [OF sound assms(2)] assms(3) same
        by (simp add: command_get_def find_command_def replay_command_def bnd_def andthen_def idle)
      then show get: "(result, w') = in_session (command_get env house (c_command_id r)) w"
        using run w' start by (simp add: in_session_def)
      show "pending r \<or> result = Inr (read_command r) \<and> committed w' = committed w"
      proof (cases "pending r")
        case False
        then have "expire env r w = (Inr r, w)" by (simp add: expire_def)
        from reads_as_expire [OF assms(1,2) this] get assms(3) show ?thesis
          using put_same [of "committed w" r] sound assms(2) by (auto simp: reads_as_def sound_def)
      qed simp
    qed
    have other: "result = Inl ConflictError \<and> w' = w" if "\<not> (c_device_id r = device \<and> c_requested_on r = on)"
      using run that w' start by (auto simp: replay_command_def andthen_def bnd_def)
    have "case result of Inr v \<Rightarrow> cr_command_id v = c_command_id r \<and> c_device_id r = device \<and> c_requested_on r = on
       | Inl _ \<Rightarrow> True"
      using result [of w _ u] run by (cases result) auto
    with ids read other True show ?thesis by auto
  qed
qed

theorem submit_idempotent_witness:
  "map c_command_id (device_commands (committed (snd (in_session
    (command_submit ex_sha ex_fresh ex_env None ''h1'' ''d2'' ''u1'' ''key'' True) ex_pending)))) = [''c1''] \<and>
   in_session (command_submit ex_sha ex_fresh ex_env None ''h1'' ''d2'' ''u1'' ''key'' True) ex_pending =
     in_session (command_get ex_env ''h1'' ''c1'') ex_pending"
proof -
  let ?x = "in_session (command_submit ex_sha ex_fresh ex_env None ''h1'' ''d2'' ''u1'' ''key'' True) ex_pending"
  have r: "ex_pending_row \<in> set (device_commands (committed ex_pending))"
    "c_house_id ex_pending_row = ''h1''" "c_requested_by ex_pending_row = ''u1''"
    "c_idempotency_hash ex_pending_row = ex_sha ''key''"
    by (simp_all add: ex_pending_def Let_def ex_pending_row_def new_command_def)
  have "?x = (fst ?x, snd ?x)" by simp
  note all = submit_idempotent [OF ex_idle r this]
  have "admits (committed ex_pending) ''h1'' ''d2'' ''key''" by code_simp
  moreover have "c_device_id ex_pending_row = ''d2'' \<and> c_requested_on ex_pending_row = True"
    "c_command_id ex_pending_row = ''c1''" "map c_command_id (device_commands (committed ex_pending)) = [''c1'']"
    by (simp_all add: ex_pending_def Let_def ex_pending_row_def new_command_def)
  ultimately show ?thesis
    using conjunct1 [OF all] conjunct2 [OF conjunct2 [OF all]] by (simp only: prod.collapse) simp
qed

text \<open>
  C28. Reading a command resolves it. A command in a final status is returned as it is and
  nothing changes. A pending command without a control row is timed out, in the answer and in the
  database, exactly when its deadline has passed on the command clock. A pending command under
  the control of this process is timed out exactly when the tick of the control clock has reached
  the deadline of its window; before that, both are returned and stay as they were. A pending
  command left over from an earlier epoch that the recovery listed is timed out once the recovery
  fence has passed. All this is for readings the clocks serve, and each such read commits that
  row and nothing else.
\<close>

theorem expired_read_resolves:
  assumes "idle w" and "r \<in> set (device_commands (committed w))"
    and "late = (\<lambda>t. closed_at t Timed_out (Some Deadline_exceeded) r)"
    and "clock = au_clock (authority w)"
  shows "(\<not> pending r \<longrightarrow> reads_as env r w r) \<and>
    (pending r \<longrightarrow> (case tget k_command_id (c_command_id r) (command_control (committed w)) of
       None \<Rightarrow> (\<forall>now c1. command_now (env_wall env (reads w)) (ledger_clock w) = (Inr now, c1) \<longrightarrow>
         (if now < c_expires_at r then reads_as env r w r
          else \<forall>t c2. command_now (env_wall env (Suc (reads w))) c1 = (Inr t, c2) \<longrightarrow> reads_as env r w (late t)))
     | Some k \<Rightarrow>
         if k_authority_epoch k = ck_epoch clock
         then \<forall>win tick c1. alookup (c_command_id r) (au_windows (authority w)) = Some win \<longrightarrow>
           control_tick (env_tick env (reads w)) clock = (Inr tick, c1) \<longrightarrow>
           (if tick < wd_deadline win then reads_as env r w r
            else \<forall>t c2. logical_now (env_tick env (Suc (reads w))) c1 = (Inr t, c2) \<longrightarrow> reads_as env r w (late t))
         else au_recovery_initialized (authority w) \<longrightarrow> c_command_id r \<in> set (au_recovery_ids (authority w)) \<longrightarrow>
           (\<forall>c1 t c2. recovered (env_tick env (reads w)) clock = (Inr True, c1) \<longrightarrow>
            logical_now (env_tick env (Suc (reads w))) c1 = (Inr t, c2) \<longrightarrow> reads_as env r w (late t))))"
proof -
  have work: "work w = committed w" using assms(1) by (simp add: idle_def)
  note readI = reads_as_expire [OF assms(1,2)]
  have final: "reads_as env r w r" if "\<not> pending r"
    using that by (intro readI) (simp add: expire_def)
  have ledger: "if now < c_expires_at r then reads_as env r w r
      else \<forall>t c2. command_now (env_wall env (Suc (reads w))) c1 = (Inr t, c2) \<longrightarrow> reads_as env r w (late t)"
    if "pending r" and none: "tget k_command_id (c_command_id r) (command_control (committed w)) = None"
      and first: "command_now (env_wall env (reads w)) (ledger_clock w) = (Inr now, c1)" for now c1
  proof (cases "now < c_expires_at r")
    case True
    with that have "expire env r w = (Inr r, w\<lparr>reads := Suc (reads w), ledger_clock := c1\<rparr>)"
      by (simp add: expire_def control_of_def bnd_def ledger_now_apply work)
    with True show ?thesis by (auto intro: readI)
  next
    case False
    have "reads_as env r w (late t)" if "command_now (env_wall env (Suc (reads w))) c1 = (Inr t, c2)" for t c2
      unfolding assms(3)
      by (rule readI, rule expire_overdue) (use \<open>pending r\<close> none first False that work in \<open>simp_all add: not_less\<close>)
    with False show ?thesis by simp
  qed
  have control: "expire env r w = bnd (expired env k) (\<lambda>is_expired. if \<not> is_expired then ret r
      else bnd (clock_logical_now env) (\<lambda>t. ret (late t))) w"
    if "pending r" "tget k_command_id (c_command_id r) (command_control (committed w)) = Some k" for k
    unfolding assms(3) using that by (simp add: expire_def control_of_def bnd_def work)
  have own: "if tick < wd_deadline win then reads_as env r w r
      else \<forall>t c2. logical_now (env_tick env (Suc (reads w))) c1 = (Inr t, c2) \<longrightarrow> reads_as env r w (late t)"
    if "pending r" and k: "tget k_command_id (c_command_id r) (command_control (committed w)) = Some k"
      and "k_authority_epoch k = ck_epoch clock" "alookup (c_command_id r) (au_windows (authority w)) = Some win"
      "control_tick (env_tick env (reads w)) clock = (Inr tick, c1)" for k win tick c1
  proof -
    have id: "k_command_id k = c_command_id r" using k by (auto dest: tget_SomeD)
    have "expired env k w = (Inr (wd_deadline win \<le> tick),
        w\<lparr>reads := Suc (reads w), authority := (authority w)\<lparr>au_clock := c1\<rparr>\<rparr>)"
      using that(3-5) id by (simp add: expired_def bnd_def clock_tick_def next_read_def on_clock_def assms(4))
    note run = control [OF that(1,2), unfolded bnd_def this]
    show ?thesis
    proof (cases "tick < wd_deadline win")
      case True
      with run show ?thesis by (simp add: readI)
    next
      case False
      have "reads_as env r w (late t)" if "logical_now (env_tick env (Suc (reads w))) c1 = (Inr t, c2)" for t c2
        by (rule readI) (use run False that in \<open>simp add: clock_logical_now_def bnd_def next_read_def on_clock_def\<close>)
      with False show ?thesis by simp
    qed
  qed
  have old: "reads_as env r w (late t)"
    if "pending r" and k: "tget k_command_id (c_command_id r) (command_control (committed w)) = Some k"
      and "k_authority_epoch k \<noteq> ck_epoch clock" "au_recovery_initialized (authority w)"
      "c_command_id r \<in> set (au_recovery_ids (authority w))"
      "recovered (env_tick env (reads w)) clock = (Inr True, c1)"
      "logical_now (env_tick env (Suc (reads w))) c1 = (Inr t, c2)" for k c1 t c2
  proof -
    have id: "k_command_id k = c_command_id r" using k by (auto dest: tget_SomeD)
    have "expired env k w = (Inr True, w\<lparr>reads := Suc (reads w), authority := (authority w)\<lparr>au_clock := c1\<rparr>\<rparr>)"
      using that(3-6) id by (simp add: expired_def bnd_def andthen_def clock_recovered_def next_read_def on_clock_def assms(4))
    note run = control [OF that(1,2), unfolded bnd_def this]
    show ?thesis
      by (rule readI) (use run that(7) in \<open>simp add: clock_logical_now_def bnd_def next_read_def on_clock_def\<close>)
  qed
  show ?thesis
    using final ledger own old by (auto split: option.split)
qed


definition ex_late :: environment where
  "ex_late = ex_env\<lparr>env_wall := (\<lambda>_. \<lparr>cr_wall = utc_time 40000000, cr_tick = Fin 0\<rparr>)\<rparr>"

definition ex_clock_read :: command_clock where
  "ex_clock_read = \<lparr>mc_anchor = Some (utc_time 40000000, 0), mc_fault = False, mc_last_tick = Some 0\<rparr>"

theorem expired_read_resolves_witness:
  "reads_as ex_late ex_pending_row ex_pending
     (closed_at 40000000 Timed_out (Some Deadline_exceeded) ex_pending_row)"
proof -
  have r: "ex_pending_row \<in> set (device_commands (committed ex_pending))"
    "tget k_command_id (c_command_id ex_pending_row) (command_control (committed ex_pending)) = None"
    "pending ex_pending_row" "\<not> 40000000 < c_expires_at ex_pending_row"
    by (simp_all add: ex_pending_def Let_def ex_pending_row_def new_command_def pending_iff COMMAND_LIFETIME_def
        ex_relay_db_def ex_db_def empty_db_def)
  have c: "command_now (env_wall ex_late (reads ex_pending)) (ledger_clock ex_pending) = (Inr 40000000, ex_clock_read)"
    "command_now (env_wall ex_late (Suc (reads ex_pending))) ex_clock_read = (Inr 40000000, ex_clock_read)"
    by code_simp+
  from expired_read_resolves [OF ex_idle r(1) refl refl, of ex_late] r(2-4) c show ?thesis by simp
qed

end
