(* ===== verification/Auth.thy ===== *)
theory Auth
  imports Examples
begin

text \<open>
  \<open>app/services/auth_service.py\<close>: accounts, house permissions, memberships with the protection
  of the last owner, and the token pairs of a login with refresh rotation. Argon2, PyJWT and
  SHA-256 are the record \<open>crypto\<close>; \<open>clk n\<close> is the n-th reading of the wall clock in a call.
\<close>

subsection \<open>Accounts\<close>

record crypto =
  cy_sha256 :: "string \<Rightarrow> string"
  cy_hash :: "string \<Rightarrow> string"
  cy_verify :: "string \<Rightarrow> string \<Rightarrow> bool option"
  cy_dummy_hash :: string
  cy_encode :: "claims \<Rightarrow> string"
  cy_decode :: "int \<Rightarrow> string \<Rightarrow> claims option"

definition user_create ::
  "crypto \<Rightarrow> (nat \<Rightarrow> string) \<Rightarrow> string \<Rightarrow> string \<Rightarrow> bool \<Rightarrow> bool \<Rightarrow> ('z world_scheme, user_row) op" where
  "user_create K fresh email password is_active is_superuser =
     (let normalized = lower (strip email) in
      bnd (user_by_email normalized) (\<lambda>known.
      andthen (reject (known \<noteq> None) ConflictError)
      (bnd (draw fresh) (\<lambda>i.
      bnd (lift (password_hash (cy_hash K) password)) (\<lambda>h.
      repo_create user_repo \<lparr>u_id = i, u_email = normalized, u_password_hash = h,
        u_is_active = is_active, u_is_superuser = is_superuser\<rparr>)))))"

subsection \<open>Permissions\<close>

definition get_house_membership :: "string \<Rightarrow> string \<Rightarrow> ('z world_scheme, membership_row option) op" where
  "get_house_membership user_id house_id = membership_for_house user_id house_id"

definition permission_roles :: "permission \<Rightarrow> role list" where
  "permission_roles p = filter (\<lambda>r. p \<in> set (ROLE_PERMISSIONS r)) all_roles"

definition accessible_house_ids :: "string \<Rightarrow> permission \<Rightarrow> ('z world_scheme, string list) op" where
  "accessible_house_ids user_id p = membership_house_ids user_id (permission_roles p)"

definition has_permission :: "membership_row option \<Rightarrow> permission \<Rightarrow> bool" where
  "has_permission membership p =
     (case membership of None \<Rightarrow> False | Some m \<Rightarrow> p \<in> set (ROLE_PERMISSIONS (m_role m)))"

definition require_house_permission ::
  "string \<Rightarrow> string \<Rightarrow> permission \<Rightarrow> ('z world_scheme, membership_row) op" where
  "require_house_permission user_id house_id p =
     bnd (get_house_membership user_id house_id) (\<lambda>membership.
     case membership of
       None \<Rightarrow> raise PermissionDenied
     | Some m \<Rightarrow> if has_permission membership p then ret m else raise PermissionDenied)"

subsection \<open>Memberships\<close>

definition member_list :: "string \<Rightarrow> ('z world_scheme, membership_row list) op" where
  "member_list house_id = for_house_members house_id"

definition member_add ::
  "(nat \<Rightarrow> string) \<Rightarrow> string \<Rightarrow> string \<Rightarrow> role \<Rightarrow> ('z world_scheme, membership_row) op" where
  "member_add fresh house_id user_id role =
     bnd (repo_exists user_repo user_id) (\<lambda>known.
     andthen (reject (\<not> known) InvalidReferenceError)
     (bnd (draw fresh) (\<lambda>i.
     repo_create membership_repo
       \<lparr>m_id = i, m_user_id = user_id, m_house_id = house_id, m_role = role\<rparr>)))"

definition protect_final_owner :: "membership_row \<Rightarrow> role option \<Rightarrow> ('z world_scheme, unit) op" where
  "protect_final_owner membership replacement =
     bnd (lock_owners (m_house_id membership)) (\<lambda>owners.
     reject (m_role membership = Owner \<and> replacement \<noteq> Some Owner \<and> length owners \<le> 1) ConflictError)"

definition member_change ::
  "string \<Rightarrow> string \<Rightarrow> role \<Rightarrow> ('z world_scheme, membership_row) op" where
  "member_change house_id user_id role =
     bnd (membership_by_user_house user_id house_id) (\<lambda>m.
     andthen (protect_final_owner m (Some role)) (set_role m role))"

definition member_remove :: "string \<Rightarrow> string \<Rightarrow> ('z world_scheme, unit) op" where
  "member_remove house_id user_id =
     bnd (membership_by_user_house user_id house_id) (\<lambda>m.
     andthen (protect_final_owner m None) (repo_delete membership_repo (m_id m)))"

subsection \<open>Tokens\<close>

record token_pair =
  tp_access_token :: string
  tp_refresh_token :: string
  tp_expires_in :: int

definition issue_pair ::
  "crypto \<Rightarrow> codec \<Rightarrow> (nat \<Rightarrow> string) \<Rightarrow> int \<Rightarrow> int \<Rightarrow> user_row \<Rightarrow> ('z world_scheme, token_pair) op" where
  "issue_pair K c fresh t0 t1 user =
     bnd (draw fresh) (\<lambda>j0.
     bnd (draw fresh) (\<lambda>j1.
     let access = fst (token_issue c (cy_encode K) (u_id user) Access t0 j0);
         (refresh, cl) = token_issue c (cy_encode K) (u_id user) Refresh t1 j1 in
     andthen (repo_create refresh_repo
       \<lparr>rs_jti_hash = hash_jti (cy_sha256 K) (cl_jti cl), rs_user_id = u_id user,
        rs_expires_at = cl_exp cl, rs_revoked_at = None\<rparr>)
     (ret \<lparr>tp_access_token = access, tp_refresh_token = refresh,
           tp_expires_in = access_minutes c * 60\<rparr>)))"

definition login ::
  "crypto \<Rightarrow> codec \<Rightarrow> (nat \<Rightarrow> string) \<Rightarrow> (nat \<Rightarrow> int) \<Rightarrow> string \<Rightarrow> string \<Rightarrow>
   ('z world_scheme, token_pair) op" where
  "login K c fresh clk email password =
     bnd (user_by_email email) (\<lambda>found_user.
     let stored = (case found_user of Some u \<Rightarrow> u_password_hash u | None \<Rightarrow> cy_dummy_hash K);
         valid = password_verify (cy_verify K) stored password in
     case found_user of
       None \<Rightarrow> raise AuthenticationError
     | Some user \<Rightarrow>
         if \<not> u_is_active user \<or> \<not> valid then raise AuthenticationError
         else issue_pair K c fresh (clk 0) (clk 1) user)"

definition decode_token :: "crypto \<Rightarrow> int \<Rightarrow> string \<Rightarrow> token_type \<Rightarrow> ('s, claims) op" where
  "decode_token K now token expected_type =
     handle (lift (token_decode (cy_decode K now) token expected_type))
       (\<lambda>e. raise (if e = TokenError then AuthenticationError else e))"

definition user_of :: "string \<Rightarrow> ('z world_scheme, user_row option) op" where
  "user_of user_id = query (\<lambda>d. tget u_id user_id (users d))"

definition refresh ::
  "crypto \<Rightarrow> codec \<Rightarrow> (nat \<Rightarrow> string) \<Rightarrow> (nat \<Rightarrow> int) \<Rightarrow> string \<Rightarrow> ('z world_scheme, token_pair) op" where
  "refresh K c fresh clk token =
     bnd (decode_token K (clk 0) token Refresh) (\<lambda>cl.
     bnd (refresh_active (clk 1) (hash_jti (cy_sha256 K) (cl_jti cl))) (\<lambda>found_session.
     bnd (user_of (cl_subject cl)) (\<lambda>found_user.
     case (found_session, found_user) of
       (Some session, Some user) \<Rightarrow>
         if rs_user_id session \<noteq> cl_subject cl \<or> \<not> u_is_active user then raise AuthenticationError
         else andthen (refresh_revoke (clk 2) session)
           (issue_pair K c fresh (clk 3) (clk 4) user)
     | _ \<Rightarrow> raise AuthenticationError)))"

definition logout :: "crypto \<Rightarrow> (nat \<Rightarrow> int) \<Rightarrow> string \<Rightarrow> ('z world_scheme, unit) op" where
  "logout K clk token =
     bnd (decode_token K (clk 0) token Refresh) (\<lambda>cl.
     bnd (refresh_active (clk 1) (hash_jti (cy_sha256 K) (cl_jti cl))) (\<lambda>found_session.
     case found_session of
       None \<Rightarrow> raise AuthenticationError
     | Some session \<Rightarrow> refresh_revoke (clk 2) session))"

definition access_user :: "crypto \<Rightarrow> int \<Rightarrow> string \<Rightarrow> ('z world_scheme, user_row) op" where
  "access_user K now token =
     bnd (decode_token K now token Access) (\<lambda>cl.
     bnd (user_of (cl_subject cl)) (\<lambda>found_user.
     case found_user of
       None \<Rightarrow> raise AuthenticationError
     | Some user \<Rightarrow> if u_is_active user then ret user else raise AuthenticationError))"

subsection \<open>Permissions: the two readings agree\<close>

lemma permission_roles_iff: "r \<in> set (permission_roles p) \<longleftrightarrow> p \<in> set (ROLE_PERMISSIONS r)"
  by (cases r) (auto simp: permission_roles_def all_roles_def)

lemma accounts_unique:
  "db_ok d \<Longrightarrow> unique (\<lambda>m. (m_user_id m, m_house_id m)) (memberships d)"
  "db_ok d \<Longrightarrow> unique m_id (memberships d)"
  by (simp_all add: db_ok_def accounts_ok_def)

lemma membership_in_iff:
  "db_ok d \<Longrightarrow> membership_in d u h = Some m \<longleftrightarrow> m \<in> set (memberships d) \<and> m_user_id m = u \<and> m_house_id m = h"
  unfolding membership_in_def
  by (auto dest: tfind_SomeD intro!: tfind_unique [OF accounts_unique(1)])

text \<open>
  Listing and checking permissions agree: in every committed state the houses a user may use
  with a permission are exactly those where the check of the user's membership grants it.
\<close>

theorem accessible_houses_exact:
  assumes "db_ok (work w)"
  shows "\<exists>hs. accessible_house_ids u p w = (Inr hs, w) \<and>
    (h \<in> set hs \<longleftrightarrow> has_permission (membership_in (work w) u h) p) \<and>
    is_ok (fst (require_house_permission u h p w)) = (h \<in> set hs)"
proof -
  let ?hs = "map m_house_id (filter (\<lambda>m. m_user_id m = u \<and> m_role m \<in> set (permission_roles p)) (memberships (work w)))"
  have iff: "h \<in> set ?hs \<longleftrightarrow> has_permission (membership_in (work w) u h) p"
  proof (cases "membership_in (work w) u h")
    case None
    then have "\<not> (m_user_id m = u \<and> m_house_id m = h)" if "m \<in> set (memberships (work w))" for m
      using membership_in_iff [OF assms, of u h m] that by simp
    with None show ?thesis by (auto simp: has_permission_def)
  next
    case (Some m)
    have "x = m" if "x \<in> set (memberships (work w))" "m_user_id x = u" "m_house_id x = h" for x
      using membership_in_iff [OF assms, of u h x] that Some by simp
    moreover have "m \<in> set (memberships (work w))" "m_user_id m = u" "m_house_id m = h"
      using membership_in_iff [OF assms, of u h m] Some by simp_all
    ultimately have "(\<exists>x \<in> set (memberships (work w)). m_user_id x = u \<and> m_house_id x = h \<and>
        m_role x \<in> set (permission_roles p)) \<longleftrightarrow> m_role m \<in> set (permission_roles p)" by blast
    moreover have "h \<in> set ?hs \<longleftrightarrow> (\<exists>x \<in> set (memberships (work w)). m_user_id x = u \<and> m_house_id x = h \<and>
        m_role x \<in> set (permission_roles p))" by auto
    ultimately show ?thesis using Some by (simp add: has_permission_def permission_roles_iff)
  qed
  moreover have "accessible_house_ids u p w = (Inr ?hs, w)"
    by (simp add: accessible_house_ids_def membership_house_ids_def)
  moreover have "is_ok (fst (require_house_permission u h p w)) = has_permission (membership_in (work w) u h) p"
    by (auto simp: require_house_permission_def get_house_membership_def membership_for_house_def
        has_permission_def bnd_def split: option.splits)
  ultimately show ?thesis by simp
qed

theorem accessible_houses_exact_witness:
  "\<exists>hs. accessible_house_ids ''u1'' HOUSE_READ ex_world = (Inr hs, ex_world) \<and>
    (''h1'' \<in> set hs \<longleftrightarrow> has_permission (membership_in (work ex_world) ''u1'' ''h1'') HOUSE_READ)"
proof -
  have "db_ok (work ex_world)" using ex_db_ok by (simp add: ex_world_def)
  from accessible_houses_exact [OF this, of "''u1''" HOUSE_READ "''h1''"] show ?thesis by blast
qed

subsection \<open>A house keeps an owner\<close>

definition owned :: "string \<Rightarrow> db \<Rightarrow> bool" where
  "owned h d \<longleftrightarrow> owners_of d h \<noteq> []"

datatype member_call =
    Add_member string string role
  | Change_member string string role
  | Remove_member string string
  | Create_house house_row string

fun member_op :: "(nat \<Rightarrow> string) \<Rightarrow> member_call \<Rightarrow> ('z world_scheme, unit) op" where
  "member_op fresh (Add_member h u r) = andthen (member_add fresh h u r) (ret ())"
| "member_op fresh (Change_member h u r) = andthen (member_change h u r) (ret ())"
| "member_op fresh (Remove_member h u) = member_remove h u"
| "member_op fresh (Create_house house u) = andthen (create_with_owner fresh house u) (ret ())"

definition member_step :: "(nat \<Rightarrow> string) \<Rightarrow> member_call \<Rightarrow> 'z world_scheme \<Rightarrow> 'z world_scheme" where
  "member_step fresh call w = snd (in_session (member_op fresh call) w)"

lemma owned_iff: "owned h d \<longleftrightarrow> (\<exists>m \<in> set (memberships d). m_house_id m = h \<and> m_role m = Owner)"
  by (auto simp: owned_def owners_of_def filter_empty_conv)

text \<open>Another owner than the one that changes.\<close>

lemma other_owner:
  assumes "db_ok d" and "m \<in> set (memberships d)" and "owned h d"
    and "m_role m = Owner \<Longrightarrow> m_house_id m = h \<Longrightarrow> 1 < length (owners_of d (m_house_id m))"
  obtains x where "x \<in> set (memberships d)" "m_house_id x = h" "m_role x = Owner" "m_id x \<noteq> m_id m"
proof (cases "m_role m = Owner \<and> m_house_id m = h")
  case True
  then have two: "1 < length (owners_of d h)" using assms(4) by simp
  have "distinct (map m_id (owners_of d h))"
    using accounts_unique(2) [OF assms(1)] by (simp add: unique_def owners_of_def distinct_map_filter)
  with two obtain x y where "x \<in> set (owners_of d h)" "y \<in> set (owners_of d h)" "m_id x \<noteq> m_id y"
    by (cases "owners_of d h" rule: remdups_adj.cases) auto
  then obtain x where "x \<in> set (owners_of d h)" "m_id x \<noteq> m_id m" by metis
  then show ?thesis using that by (auto simp: owners_of_def)
next
  case False
  from assms(3) obtain x where "x \<in> set (memberships d)" "m_house_id x = h" "m_role x = Owner"
    by (auto simp: owned_iff)
  moreover have "m_id x \<noteq> m_id m"
    using unique_eqD [OF accounts_unique(2) [OF assms(1)] calculation(1) assms(2)] calculation False by auto
  ultimately show ?thesis using that by blast
qed

lemma owned_change:
  assumes "db_ok d" and "membership_in d u k = Some m" and "owned h d"
    and "\<not> (m_role m = Owner \<and> role \<noteq> Owner \<and> length (owners_of d (m_house_id m)) \<le> 1)"
  shows "owned h (memberships_update (tput m_id (m\<lparr>m_role := role\<rparr>)) d)"
proof (cases "role = Owner \<and> m_house_id m = h")
  case True
  have "m \<in> set (memberships d)" using assms(2) by (simp add: membership_in_iff [OF assms(1)])
  then have "m\<lparr>m_role := role\<rparr> \<in> set (tput m_id (m\<lparr>m_role := role\<rparr>) (memberships d))"
    by (force simp: tput_def)
  moreover have "m_house_id (m\<lparr>m_role := role\<rparr>) = h" "m_role (m\<lparr>m_role := role\<rparr>) = Owner"
    using True by simp_all
  ultimately show ?thesis unfolding owned_iff by (intro bexI [of _ "m\<lparr>m_role := role\<rparr>"]) simp_all
next
  case False
  from assms(2) have "m \<in> set (memberships d)" by (simp add: membership_in_iff [OF assms(1)])
  from this obtain x where
    "x \<in> set (memberships d)" "m_house_id x = h" "m_role x = Owner" "m_id x \<noteq> m_id m"
    by (rule other_owner [OF assms(1) _ assms(3)]) (use assms(4) False in auto)
  then have "x \<in> set (tput m_id (m\<lparr>m_role := role\<rparr>) (memberships d))" "m_house_id x = h" "m_role x = Owner"
    by (force simp: tput_def)+
  then show ?thesis by (auto simp: owned_iff)
qed

lemma owned_remove:
  assumes "db_ok d" and "membership_in d u k = Some m" and "owned h d"
    and "\<not> (m_role m = Owner \<and> length (owners_of d (m_house_id m)) \<le> 1)"
  shows "owned h (memberships_update (tdel (\<lambda>x. m_id x = m_id m)) d)"
proof -
  from assms(2) have "m \<in> set (memberships d)" by (simp add: membership_in_iff [OF assms(1)])
  from this obtain x where
    "x \<in> set (memberships d)" "m_house_id x = h" "m_role x = Owner" "m_id x \<noteq> m_id m"
    by (rule other_owner [OF assms(1) _ assms(3)]) (use assms(4) in auto)
  then show ?thesis by (force simp: owned_iff tdel_def)
qed

definition owner_kept :: "string \<Rightarrow> 'z world_scheme \<Rightarrow> bool" where
  "owner_kept h w \<longleftrightarrow> sound w \<and> owned h (committed w)"

lemma wp_member:
  assumes "db_ok (work w)" and "owned h (work w)" and "committed w = work w"
  shows "wp (member_op fresh call) (\<lambda>_ v. owned h (committed v)) (\<lambda>_ v. owned h (committed v)) w"
proof (cases call)
  case (Add_member k u r)
  have "owned h (memberships_update (\<lambda>t. t @ [x]) (work w))" for x
    using assms(2) by (auto simp: owned_iff)
  with Add_member assms show ?thesis
    by (simp add: member_add_def repo_exists_def repo_find_def repo_create_def membership_repo_def wp_simps)
next
  case (Change_member k u r)
  with assms owned_change [OF assms(1) _ assms(2)] show ?thesis
    by (auto simp: member_change_def membership_by_user_house_def membership_for_house_def
        protect_final_owner_def lock_owners_def set_role_def wp_simps split: option.splits)
next
  case (Remove_member k u)
  have gone: "owned h (work w\<lparr>memberships := tdel (\<lambda>x. m_id x = m_id m) (memberships (work w))\<rparr>)"
    if "membership_in (work w) u k = Some m"
      "\<not> (m_role m = Owner \<and> length (owners_of (work w) (m_house_id m)) \<le> 1)" for m
    using owned_remove [OF assms(1) that(1) assms(2) that(2)] by (simp add: owned_iff)
  from Remove_member assms show ?thesis
    by (auto simp: gone member_remove_def membership_by_user_house_def membership_for_house_def
        protect_final_owner_def lock_owners_def repo_delete_def repo_get_def repo_find_def
        membership_repo_def wp_simps split: option.splits)
next
  case (Create_house house u)
  have "owned h (memberships_update (\<lambda>t. t @ [x]) (houses_update f (work w)))" for x f
    using assms(2) by (auto simp: owned_iff)
  with Create_house assms show ?thesis
    by (simp add: create_with_owner_def wp_simps)
qed

lemma pres_sound_member [pres]: "preserves sound (member_op fresh call)"
  by (cases call) (auto intro!: pres simp: member_add_def member_change_def member_remove_def repo_create_def
      repo_delete_def protect_final_owner_def set_role_def create_with_owner_def)

interpretation owner_runs: invariant_machine "member_step fresh" "owner_kept h" for fresh h
proof
  fix w :: "'a world_scheme" and call
  assume "owner_kept h w"
  then have ok: "sound w" "db_ok (committed w)" "owned h (committed w)"
    by (simp_all add: owner_kept_def sound_def)
  have "sound (member_step fresh call w)"
    unfolding member_step_def by (rule preservesD [OF pres_sound_in_session [OF pres_sound_member] ok(1)])
  moreover have "owned h (committed (member_step fresh call w))"
    using wp_member [of "w\<lparr>work := committed w\<rparr>" h fresh call] ok
    by (auto simp: member_step_def in_session_def wp_def split: prod.splits sum.splits)
  ultimately show "owner_kept h (member_step fresh call w)" by (simp add: owner_kept_def)
qed

text \<open>
  C25. A house never loses its last owner: from a committed state where a house has an owner, after
  any sequence of membership additions, role changes, removals and new houses it still has one.
\<close>

theorem house_keeps_owner:
  assumes "db_ok (committed w)" and "owners_of (committed w) h \<noteq> []"
  shows "owners_of (committed (fold (member_step fresh) calls w)) h \<noteq> []"
  using owner_runs.inv_run [of h w fresh calls] assms
  by (simp add: owner_kept_def sound_def owned_def)

theorem house_keeps_owner_witness:
  "owners_of (committed (fold (member_step ex_fresh)
     [Change_member ''h1'' ''u1'' Resident, Remove_member ''h1'' ''u1''] ex_world)) ''h1'' \<noteq> []"
proof (rule house_keeps_owner)
  show "db_ok (committed ex_world)" using ex_db_ok by (simp add: ex_world_def)
  show "owners_of (committed ex_world) ''h1'' \<noteq> []" by code_simp
qed

subsection \<open>A refresh token is used once\<close>

definition spent :: "string \<Rightarrow> db \<Rightarrow> bool" where
  "spent j d \<longleftrightarrow> (\<exists>s. tget rs_jti_hash j (refresh_sessions d) = Some s \<and> rs_revoked_at s \<noteq> None)"

datatype auth_call =
    Login_call "nat \<Rightarrow> int" string string
  | Refresh_call "nat \<Rightarrow> int" string
  | Logout_call "nat \<Rightarrow> int" string

fun auth_op :: "crypto \<Rightarrow> codec \<Rightarrow> (nat \<Rightarrow> string) \<Rightarrow> auth_call \<Rightarrow> ('z world_scheme, unit) op" where
  "auth_op K c fresh (Login_call clk email password) = andthen (login K c fresh clk email password) (ret ())"
| "auth_op K c fresh (Refresh_call clk token) = andthen (refresh K c fresh clk token) (ret ())"
| "auth_op K c fresh (Logout_call clk token) = logout K clk token"

definition auth_step ::
  "crypto \<Rightarrow> codec \<Rightarrow> (nat \<Rightarrow> string) \<Rightarrow> auth_call \<Rightarrow> 'z world_scheme \<Rightarrow> 'z world_scheme" where
  "auth_step K c fresh call w = snd (in_session (auth_op K c fresh call) w)"

lemma spent_create: "spent j d \<Longrightarrow> spent j (refresh_sessions_update (\<lambda>t. t @ xs) d)"
  by (auto simp: spent_def tget_append)

lemma spent_revoke: "spent j d \<Longrightarrow> spent j (refresh_sessions_update (tput rs_jti_hash (s\<lparr>rs_revoked_at := Some t\<rparr>)) d)"
  using tget_tput_same [of rs_jti_hash "s\<lparr>rs_revoked_at := Some t\<rparr>" "refresh_sessions d"]
    tget_tput_other [of j rs_jti_hash "s\<lparr>rs_revoked_at := Some t\<rparr>" "refresh_sessions d"]
  by (cases "rs_jti_hash s = j") (auto simp: spent_def)

lemma pres_decode [pres, intro!]: "preserves P (decode_token K now token ty)"
  unfolding decode_token_def by (intro pres)

lemma pres_spent_issue [pres]: "preserves (both (spent j)) (issue_pair K c fresh t0 t1 user)"
  unfolding issue_pair_def repo_create_def refresh_repo_def Let_def case_prod_unfold
  by (intro pres) (simp_all add: spent_create)

lemma pres_spent_revoke [pres]: "preserves (both (spent j)) (refresh_revoke now s)"
  unfolding refresh_revoke_def by (intro pres spent_revoke)

lemma pres_spent_op [pres]: "preserves (both (spent j)) (auth_op K c fresh call)"
  by (cases call) (auto simp: login_def refresh_def logout_def user_of_def Let_def case_prod_unfold intro!: pres split: option.splits)

interpretation spent_runs: invariant_machine "auth_step K c fresh" "both (spent j)" for K c fresh j
  unfolding auth_step_def
  by unfold_locales (intro preservesD [OF pres_both_in_session [OF pres_spent_op]])

lemma decode_token_Inr:
  "decode_token K now token ty w = (Inr cl, w') \<longleftrightarrow> cy_decode K now token = Some cl \<and> cl_type cl = ty \<and> w' = w"
  by (auto simp: decode_token_def handle_def token_decode_def split: option.splits)

lemma refresh_revoke_spent:
  assumes "tget rs_jti_hash j (refresh_sessions (work w)) = Some s"
  shows "wp (refresh_revoke now s) (\<lambda>_. both (spent j)) (\<lambda>_ _. True) w"
proof -
  have j: "rs_jti_hash s = j" using tget_SomeD [OF assms] by simp
  with assms have "tget rs_jti_hash j (tput rs_jti_hash (s\<lparr>rs_revoked_at := Some now\<rparr>) (refresh_sessions (work w))) =
      Some (s\<lparr>rs_revoked_at := Some now\<rparr>)"
    using tget_tput_same [of rs_jti_hash "s\<lparr>rs_revoked_at := Some now\<rparr>" "refresh_sessions (work w)"] by simp
  then show ?thesis by (simp add: refresh_revoke_def wp_simps both_def spent_def)
qed

lemma refresh_active_apply: "refresh_active now j w =
   (Inr (case tget rs_jti_hash j (refresh_sessions (work w)) of None \<Rightarrow> None
      | Some s \<Rightarrow> if rs_revoked_at s \<noteq> None \<or> rs_expires_at s \<le> now then None else Some s), w)"
  by (simp add: refresh_active_def cong: option.case_cong)

lemma refresh_spends:
  assumes "refresh K c fresh clk token w = (Inr pair, w')"
  shows "\<exists>cl. cy_decode K (clk 0) token = Some cl \<and> both (spent (hash_jti (cy_sha256 K) (cl_jti cl))) w'"
proof -
  from assms obtain cl where dec: "cy_decode K (clk 0) token = Some cl"
    and rest: "bnd (refresh_active (clk 1) (hash_jti (cy_sha256 K) (cl_jti cl))) (\<lambda>found_session.
     bnd (user_of (cl_subject cl)) (\<lambda>found_user.
     case (found_session, found_user) of
       (Some session, Some user) \<Rightarrow>
         if rs_user_id session \<noteq> cl_subject cl \<or> \<not> u_is_active user then raise AuthenticationError
         else andthen (refresh_revoke (clk 2) session) (issue_pair K c fresh (clk 3) (clk 4) user)
     | _ \<Rightarrow> raise AuthenticationError)) w = (Inr pair, w')"
    unfolding refresh_def bnd_Inr_iff [of "decode_token K (clk 0) token Refresh"] decode_token_Inr by blast
  from rest obtain session user where
    s: "tget rs_jti_hash (hash_jti (cy_sha256 K) (cl_jti cl)) (refresh_sessions (work w)) = Some session"
    and run: "andthen (refresh_revoke (clk 2) session) (issue_pair K c fresh (clk 3) (clk 4) user) w = (Inr pair, w')"
    by (auto simp: bnd_def refresh_active_apply user_of_def split: option.splits if_splits)
  from run obtain v where v: "refresh_revoke (clk 2) session w = (Inr (), v)"
    "issue_pair K c fresh (clk 3) (clk 4) user v = (Inr pair, w')" by (auto simp: andthen_Inr_iff)
  from wp_Inr [OF refresh_revoke_spent [OF s] v(1)] have "both (spent (hash_jti (cy_sha256 K) (cl_jti cl))) v" .
  from preserves_result [OF pres_spent_issue this v(2)] dec show ?thesis by blast
qed

lemma spent_refused:
  assumes "spent (hash_jti (cy_sha256 K) (cl_jti cl)) (work w)" and "cy_decode K (clk 0) token = Some cl"
  shows "refresh K c fresh clk token w = (Inl AuthenticationError, w)" "logout K clk token w = (Inl AuthenticationError, w)"
proof -
  have "refresh_active t (hash_jti (cy_sha256 K) (cl_jti cl)) w = (Inr None, w)" for t
    using assms(1) by (auto simp: refresh_active_def spent_def)
  moreover have "decode_token K (clk 0) token Refresh w =
      (if cl_type cl = Refresh then (Inr cl, w) else (Inl AuthenticationError, w))"
    using assms(2) by (simp add: decode_token_def handle_def token_decode_def)
  ultimately show "refresh K c fresh clk token w = (Inl AuthenticationError, w)"
    and "logout K clk token w = (Inl AuthenticationError, w)"
    by (simp_all add: refresh_def logout_def bnd_def user_of_def)
qed

text \<open>
  C24. Refresh tokens rotate: once a refresh token has been exchanged, after any further logins,
  refreshes and logouts every token with the same identifier is refused by refresh and by logout,
  and the refusal changes nothing.
\<close>

theorem refresh_rotates:
  assumes "in_session (refresh K c fresh clk token) w = (Inr pair, w1)"
    and "w2 = fold (auth_step K c fresh) calls w1"
    and "cy_decode K (clk 0) token = Some cl" and "cy_decode K (clk' 0) token' = Some cl'"
    and "cl_jti cl' = cl_jti cl"
  shows "in_session (refresh K c fresh clk' token') w2 = (Inl AuthenticationError, w2\<lparr>work := committed w2\<rparr>) \<and>
    in_session (logout K clk' token') w2 = (Inl AuthenticationError, w2\<lparr>work := committed w2\<rparr>)"
proof -
  let ?j = "hash_jti (cy_sha256 K) (cl_jti cl)"
  from in_session_result [OF assms(1)] obtain v where
    "refresh K c fresh clk token (w\<lparr>work := committed w\<rparr>) = (Inr pair, v)" "w1 = v\<lparr>work := committed v\<rparr>" by blast
  with refresh_spends [of K c fresh clk token] assms(3) have "both (spent ?j) w1"
    by (fastforce simp: both_def)
  then have "both (spent ?j) w2" unfolding assms(2) by (rule spent_runs.inv_run)
  then have "spent (hash_jti (cy_sha256 K) (cl_jti cl')) (work (w2\<lparr>work := committed w2\<rparr>))"
    by (simp add: both_def assms(5))
  note spent_refused [where K = K and clk = clk' and token = token', OF this assms(4)]
  then show ?thesis by (simp add: in_session_def)
qed

text \<open>The installation of the witness: an account with one open session.\<close>

definition ex_claims :: claims where
  "ex_claims = \<lparr>cl_subject = ''u1'', cl_type = Refresh, cl_iat = 0, cl_exp = 100, cl_jti = ''j''\<rparr>"

definition ex_crypto :: crypto where
  "ex_crypto = \<lparr>cy_sha256 = (\<lambda>s. ''h'' @ s), cy_hash = (\<lambda>s. s), cy_verify = (\<lambda>h p. Some (h = p)),
     cy_dummy_hash = [], cy_encode = (\<lambda>cl. cl_jti cl), cy_decode = (\<lambda>now t. if t = ''t'' then Some ex_claims else None)\<rparr>"

definition ex_account :: world where
  "ex_account = (let d = empty_db\<lparr>users := users ex_db, refresh_sessions :=
       [\<lparr>rs_jti_hash = ''hj'', rs_user_id = ''u1'', rs_expires_at = 100, rs_revoked_at = None\<rparr>]\<rparr> in
     \<lparr>committed = d, work = d, drawn = 0\<rparr>)"

definition ex_codec :: codec where
  "ex_codec = \<lparr>access_minutes = 15, refresh_days = 30\<rparr>"

definition ex_refreshed :: "(exn + token_pair) \<times> world" where
  "ex_refreshed = in_session (refresh ex_crypto ex_codec ex_fresh (\<lambda>_. 0) ''t'') ex_account"

lemma ex_refreshed_ok: "is_ok (fst ex_refreshed)"
  by code_simp

theorem refresh_rotates_witness:
  "fst (in_session (refresh ex_crypto ex_codec ex_fresh (\<lambda>_. 0) ''t'') (snd ex_refreshed)) = Inl AuthenticationError"
proof -
  obtain pair where "fst ex_refreshed = Inr pair" using ex_refreshed_ok by (auto simp: is_ok_iff)
  then have "in_session (refresh ex_crypto ex_codec ex_fresh (\<lambda>_. 0) ''t'') ex_account = (Inr pair, snd ex_refreshed)"
    unfolding ex_refreshed_def [symmetric] by (metis prod.collapse)
  from refresh_rotates [OF this, where calls = "[]"] show ?thesis by (simp add: ex_crypto_def)
qed

end
