(* ===== verification/Events.thy ===== *)
theory Events
  imports Examples Clocks
begin

text \<open>
  \<open>app/events/bus.py\<close>, \<open>app/services/event_log_service.py\<close> and \<open>app/websocket.py\<close>: events, the
  sequential bus, the audit log with its redaction, and the fan-out to WebSocket clients.
  A handler is an operation on the state of the process; the bus is the list of its handlers.
\<close>

subsection \<open>Events\<close>

record event =
  e_type :: string
  e_data :: obj
  e_correlation_id :: string
  e_depth :: int

definition event_types :: "string list" where
  "event_types = [''device_state_changed'', ''device_online'', ''device_offline'',
     ''device_ack_received'', ''device_telemetry_received'', ''device_status_changed'',
     ''mqtt_connected'', ''mqtt_disconnected'', ''scene_started'', ''automation_triggered'',
     ''automation_completed'', ''automation_failed'', ''auth_login_succeeded'',
     ''auth_login_failed'', ''auth_refresh_succeeded'', ''auth_refresh_failed'', ''auth_logout'',
     ''authorization_denied'']"

text \<open>The constructor validates the type and draws a correlation identifier where none is given.\<close>

definition new_event ::
  "(nat \<Rightarrow> string) \<Rightarrow> string \<Rightarrow> obj \<Rightarrow> string \<Rightarrow> int \<Rightarrow> ('z world_scheme, event) op" where
  "new_event fresh type_name data correlation_id level =
     andthen (reject (type_name \<notin> set event_types) ValidationError)
     (if correlation_id = [] then
        bnd (draw fresh) (\<lambda>c. ret \<lparr>e_type = type_name, e_data = data, e_correlation_id = c, e_depth = level\<rparr>)
      else ret \<lparr>e_type = type_name, e_data = data, e_correlation_id = correlation_id, e_depth = level\<rparr>)"

definition event_message :: "event \<Rightarrow> obj" where
  "event_message e =
     aput ''correlation_id'' (JStr (e_correlation_id e)) (omerge [(''type'', JStr (e_type e))] (e_data e))"

type_synonym 'w handler = "event \<Rightarrow> ('w, unit) op"

definition subscribe :: "'w handler \<Rightarrow> 'w handler list \<Rightarrow> 'w handler list" where
  "subscribe h subscribers = subscribers @ [h]"

definition publish :: "'w handler list \<Rightarrow> 'w handler" where
  "publish subscribers e = for_each (\<lambda>h. h e) subscribers"

subsection \<open>The audit log\<close>

definition IMPORTANT_EVENTS :: "string list" where
  "IMPORTANT_EVENTS = [''device_state_changed'', ''device_ack_received'', ''device_telemetry_received'',
     ''device_status_changed'', ''scene_started'', ''automation_triggered'', ''automation_completed'',
     ''automation_failed'', ''auth_login_succeeded'', ''auth_login_failed'', ''auth_refresh_succeeded'',
     ''auth_refresh_failed'', ''auth_logout'', ''authorization_denied'']"

definition SENSITIVE_KEY_PARTS :: "string list" where
  "SENSITIVE_KEY_PARTS = [''password'', ''token'', ''secret'', ''authorization'']"

definition sensitive_key :: "string \<Rightarrow> bool" where
  "sensitive_key k \<longleftrightarrow> lower k = ''database_url'' \<or> list_ex (\<lambda>part. contains part (lower k)) SENSITIVE_KEY_PARTS"

fun sanitized :: "json \<Rightarrow> json" where
  "sanitized (JObj kvs) =
     JObj (map (\<lambda>(k, v). (k, sanitized v)) (filter (\<lambda>(k, _). \<not> sensitive_key k) kvs))"
| "sanitized (JArr xs) = JArr (map sanitized xs)"
| "sanitized v = v"

definition sanitized_data :: "obj \<Rightarrow> obj" where
  "sanitized_data d = map (\<lambda>(k, v). (k, sanitized v)) (filter (\<lambda>(k, _). \<not> sensitive_key k) d)"

text \<open>A text column takes a string or null; the driver rejects any other value.\<close>

definition text_column :: "json \<Rightarrow> exn + string option" where
  "text_column v = (case v of JNull \<Rightarrow> Inr None | JStr s \<Rightarrow> Inr (Some s) | _ \<Rightarrow> Inl TypeError)"

definition or_json :: "json \<Rightarrow> json \<Rightarrow> json" where
  "or_json a b = (if truthy a then a else b)"

definition event_entity :: "obj \<Rightarrow> json" where
  "event_entity d =
     or_json (or_json (oget ''device_id'' d) (oget ''scene_id'' d)) (oget ''automation_id'' d)"

definition log_handle_event :: "(nat \<Rightarrow> string) \<Rightarrow> event \<Rightarrow> ('z world_scheme, unit) op" where
  "log_handle_event fresh e =
     (if e_type e \<notin> set IMPORTANT_EVENTS then ret ()
      else
        bnd (draw fresh) (\<lambda>i.
        bnd (lift (text_column (oget ''house_id'' (e_data e)))) (\<lambda>house_id.
        bnd (lift (text_column (event_entity (e_data e)))) (\<lambda>entity_id.
        andthen (repo_create event_log_repo
          \<lparr>ev_id = i, ev_house_id = house_id, ev_event_type = e_type e, ev_entity_id = entity_id,
           ev_payload = sanitized_data (e_data e), ev_correlation_id = e_correlation_id e\<rparr>)
        (ret ())))))"

definition log_authorization_denied ::
  "(nat \<Rightarrow> string) \<Rightarrow> string \<Rightarrow> string \<Rightarrow> string \<Rightarrow> ('z world_scheme, unit) op" where
  "log_authorization_denied fresh user_id house_id permission =
     bnd (draw fresh) (\<lambda>i.
     bnd (draw fresh) (\<lambda>c.
     andthen (repo_create event_log_repo
       \<lparr>ev_id = i, ev_house_id = Some house_id, ev_event_type = ''authorization_denied'',
        ev_entity_id = Some user_id,
        ev_payload = [(''user_id'', JStr user_id), (''permission'', JStr permission)],
        ev_correlation_id = c\<rparr>)
     (ret ())))"

text \<open>\<open>log_event\<close> of \<open>app/main.py\<close>: its own session, and a failure is only logged.\<close>

definition log_event :: "(nat \<Rightarrow> string) \<Rightarrow> ('z world_scheme) handler" where
  "log_event fresh e =
     handle (in_session (log_handle_event fresh e)) (\<lambda>x. if is_exception x then ret () else raise x)"

subsection \<open>WebSocket fan-out\<close>

text \<open>
  A connection is its number and the user it was opened for; \<open>authorizes\<close> is the callback that
  \<open>connect\<close> stores, \<open>send_json\<close> the client's socket, which raises \<open>RuntimeError\<close> once closed.
\<close>

type_synonym connections = "(nat \<times> string) list"

definition ws_connect :: "nat \<Rightarrow> string \<Rightarrow> connections \<Rightarrow> connections" where
  "ws_connect websocket user = aput websocket user"

definition ws_disconnect :: "nat \<Rightarrow> connections \<Rightarrow> connections" where
  "ws_disconnect websocket = apop websocket"

record 'w fanout =
  fo_connections :: "'w \<Rightarrow> connections"
  fo_set :: "(connections \<Rightarrow> connections) \<Rightarrow> 'w \<Rightarrow> 'w"
  fo_authorizes :: "string \<Rightarrow> string \<Rightarrow> ('w, bool) op"
  fo_send_json :: "nat \<Rightarrow> obj \<Rightarrow> ('w, unit) op"

definition ws_send :: "'w fanout \<Rightarrow> string \<Rightarrow> event \<Rightarrow> nat \<times> string \<Rightarrow> ('w, unit) op" where
  "ws_send F house e = (\<lambda>(websocket, user).
     bnd (fo_authorizes F user house) (\<lambda>ok.
     if \<not> ok then ret ()
     else handle (fo_send_json F websocket (event_message e))
       (\<lambda>x. if x = RuntimeError then modify (fo_set F (ws_disconnect websocket)) else raise x)))"

definition ws_handle_event :: "'w fanout \<Rightarrow> 'w handler" where
  "ws_handle_event F e =
     (case oget ''house_id'' (e_data e) of
        JStr house \<Rightarrow> bnd (gets (fo_connections F)) (for_each (ws_send F house e))
      | _ \<Rightarrow> ret ())"

subsection \<open>Redaction\<close>

text \<open>No object anywhere in the value has a sensitive key.\<close>

fun redacted :: "json \<Rightarrow> bool" where
  "redacted (JObj kvs) = list_all (\<lambda>(k, v). \<not> sensitive_key k \<and> redacted v) kvs"
| "redacted (JArr xs) = list_all redacted xs"
| "redacted _ = True"

lemma sanitized_redacted: "redacted (sanitized v)"
  by (induction v rule: sanitized.induct) (auto simp: list_all_iff)

lemma sanitized_id: "redacted v \<Longrightarrow> sanitized v = v"
proof (induction v rule: sanitized.induct)
  case (1 kvs)
  then have "filter (\<lambda>(k, _). \<not> sensitive_key k) kvs = kvs"
    by (auto simp: list_all_iff filter_id_conv)
  moreover have "map (\<lambda>(k, v). (k, sanitized v)) kvs = kvs"
  proof (rule map_idI)
    fix x assume x: "x \<in> set kvs"
    obtain k v where "x = (k, v)" by (cases x)
    with 1 x calculation show "(case x of (k, v) \<Rightarrow> (k, sanitized v)) = x"
      by (fastforce simp: list_all_iff)
  qed
  ultimately show ?case by simp
next
  case (2 xs)
  then show ?case by (auto simp: list_all_iff intro: map_idI)
qed simp_all

lemma sanitized_data_redacted: "redacted (JObj (sanitized_data d))"
  using sanitized_redacted [of "JObj d"] by (simp add: sanitized_data_def)

lemma alookup_sanitized: "alookup k (sanitized_data d) =
    (if sensitive_key k then None else map_option sanitized (alookup k d))"
  by (induction d) (auto simp: sanitized_data_def split: if_splits)

definition log_redacted :: "db \<Rightarrow> bool" where
  "log_redacted d \<longleftrightarrow> list_all (\<lambda>r. redacted (JObj (ev_payload r))) (event_logs d)"

lemma log_redacted_append:
  "log_redacted d \<Longrightarrow> redacted (JObj (ev_payload r)) \<Longrightarrow> log_redacted (event_logs_update (\<lambda>t. t @ [r]) d)"
  by (simp add: log_redacted_def)

lemma pres_redacted_log: "preserves (both log_redacted) (log_handle_event fresh e)"
  unfolding log_handle_event_def repo_create_def event_log_repo_def repo.simps
  by (intro pres log_redacted_append) (simp_all add: sanitized_data_redacted del: redacted.simps)

lemma pres_redacted_denied: "preserves (both log_redacted) (log_authorization_denied fresh u h p)"
proof -
  have "redacted (JObj [(''user_id'', JStr u), (''permission'', JStr p)])" by code_simp
  then show ?thesis
    unfolding log_authorization_denied_def repo_create_def event_log_repo_def repo.simps
    by (intro pres log_redacted_append) (simp_all del: redacted.simps)
qed

datatype audit_call = Event_call event | Denied_call string string string

fun audit_op :: "(nat \<Rightarrow> string) \<Rightarrow> audit_call \<Rightarrow> ('z world_scheme, unit) op" where
  "audit_op fresh (Event_call e) = log_event fresh e"
| "audit_op fresh (Denied_call u h p) = in_session (log_authorization_denied fresh u h p)"

definition audit_step :: "(nat \<Rightarrow> string) \<Rightarrow> audit_call \<Rightarrow> 'z world_scheme \<Rightarrow> 'z world_scheme" where
  "audit_step fresh call w = snd (audit_op fresh call w)"

lemma pres_redacted_audit: "preserves (both log_redacted) (audit_op fresh call)"
  by (cases call) (auto simp: log_event_def intro!: pres pres_redacted_log pres_redacted_denied)

interpretation audit_runs: invariant_machine "audit_step fresh" "both log_redacted" for fresh
  unfolding audit_step_def by unfold_locales (rule preservesD [OF pres_redacted_audit])

text \<open>
  What a stored row says of the call it came from: for an event, its type and correlation and
  under every key the sanitized member of the event, nothing under a sensitive key; for a denied
  request, the account and the permission.
\<close>

fun logged_from :: "audit_call \<Rightarrow> event_log_row \<Rightarrow> bool" where
  "logged_from (Event_call e) r \<longleftrightarrow>
     e_type e \<in> set IMPORTANT_EVENTS \<and> ev_event_type r = e_type e \<and>
     ev_correlation_id r = e_correlation_id e \<and>
     (\<forall>k. alookup k (ev_payload r) =
        (if sensitive_key k then None else map_option sanitized (alookup k (e_data e))))"
| "logged_from (Denied_call u h p) r \<longleftrightarrow>
     ev_event_type r = ''authorization_denied'' \<and> ev_house_id r = Some h \<and> ev_entity_id r = Some u \<and>
     ev_payload r = [(''user_id'', JStr u), (''permission'', JStr p)]"

definition traced :: "audit_call set \<Rightarrow> db \<Rightarrow> bool" where
  "traced calls d \<longleftrightarrow> (\<forall>r \<in> set (event_logs d). \<exists>call \<in> calls. logged_from call r)"

lemma traced_append:
  "traced calls d \<Longrightarrow> call \<in> calls \<Longrightarrow> logged_from call r \<Longrightarrow> traced calls (event_logs_update (\<lambda>t. t @ [r]) d)"
  by (auto simp: traced_def)

lemma pres_traced_log:
  assumes "Event_call e \<in> calls"
  shows "preserves (both (traced calls)) (log_handle_event fresh e)"
  unfolding log_handle_event_def repo_create_def event_log_repo_def repo.simps
proof (cases "e_type e \<in> set IMPORTANT_EVENTS")
  case True
  show "preserves (both (traced calls)) (if e_type e \<notin> set IMPORTANT_EVENTS then ret () else
        bnd (draw fresh) (\<lambda>i.
        bnd (lift (text_column (oget ''house_id'' (e_data e)))) (\<lambda>house_id.
        bnd (lift (text_column (event_entity (e_data e)))) (\<lambda>entity_id.
        andthen (andthen (store (event_logs_update (\<lambda>rows. rows @
          [\<lparr>ev_id = i, ev_house_id = house_id, ev_event_type = e_type e, ev_entity_id = entity_id,
           ev_payload = sanitized_data (e_data e), ev_correlation_id = e_correlation_id e\<rparr>])))
          (andthen save (ret \<lparr>ev_id = i, ev_house_id = house_id, ev_event_type = e_type e, ev_entity_id = entity_id,
           ev_payload = sanitized_data (e_data e), ev_correlation_id = e_correlation_id e\<rparr>)))
        (ret ())))))"
    using True by (intro pres traced_append [OF _ assms]) (simp_all add: alookup_sanitized)
qed (intro pres, simp)

lemma pres_traced_denied:
  assumes "Denied_call u h p \<in> calls"
  shows "preserves (both (traced calls)) (log_authorization_denied fresh u h p)"
  unfolding log_authorization_denied_def repo_create_def event_log_repo_def repo.simps
  by (intro pres traced_append [OF _ assms]) simp_all

lemma traced_run:
  "both (traced cs) w \<Longrightarrow> set calls \<subseteq> cs \<Longrightarrow> both (traced cs) (fold (audit_step fresh) calls w)"
proof (induction calls arbitrary: w)
  case (Cons call calls)
  have "preserves (both (traced cs)) (audit_op fresh call)"
    using Cons.prems(2) by (cases call) (auto simp: log_event_def intro!: pres pres_traced_log pres_traced_denied)
  from preservesD [OF this Cons.prems(1)] Cons.IH [of "audit_step fresh call w"] Cons.prems(2)
  show ?case by (simp add: audit_step_def)
qed simp

text \<open>
  C26. The audit log is redacted and complete: whatever events are logged and requests denied, no
  stored payload has a sensitive key at any depth, and every stored row comes from one of those
  calls and has every other member of its event under its key. Handling an event either raises
  and stores nothing or, when its type is one of the important ones, appends exactly one such
  row for it.
\<close>

theorem audit_log_redacted:
  assumes "event_logs (committed w) = []" and "work w = committed w"
    and "r \<in> set (event_logs (committed (fold (audit_step fresh) calls w)))"
  shows "redacted (JObj (ev_payload r)) \<and> (\<exists>call \<in> set calls. logged_from call r) \<and>
    (case in_session (log_handle_event fresh e) v of
       (Inl _, v') \<Rightarrow> event_logs (committed v') = event_logs (committed v)
     | (Inr _, v') \<Rightarrow> if e_type e \<in> set IMPORTANT_EVENTS
         then \<exists>row. logged_from (Event_call e) row \<and>
           event_logs (committed v') = event_logs (committed v) @ [row]
         else event_logs (committed v') = event_logs (committed v))"
proof (intro conjI)
  have "both log_redacted w" using assms(1,2) by (simp add: both_def log_redacted_def)
  from audit_runs.inv_run [OF this, of fresh calls] have
    "log_redacted (committed (fold (audit_step fresh) calls w))" by (simp add: both_def)
  with assms(3) show "redacted (JObj (ev_payload r))" by (simp add: log_redacted_def list_all_iff)
  have "both (traced (set calls)) w" using assms(1,2) by (simp add: both_def traced_def)
  from traced_run [OF this subset_refl, of fresh] assms(3)
  show "\<exists>call \<in> set calls. logged_from call r" by (simp add: both_def traced_def)
  have "wp (log_handle_event fresh e)
    (\<lambda>_ u. if e_type e \<in> set IMPORTANT_EVENTS
         then \<exists>row. logged_from (Event_call e) row \<and> event_logs (committed u) = event_logs (committed v) @ [row]
         else event_logs (committed u) = event_logs (committed v))
    (\<lambda>_ u. event_logs (committed u) = event_logs (committed v)) (v\<lparr>work := committed v\<rparr>)"
    by (auto simp: log_handle_event_def repo_create_def event_log_repo_def wp_simps alookup_sanitized split: sum.splits)
  then show "case in_session (log_handle_event fresh e) v of
       (Inl _, v') \<Rightarrow> event_logs (committed v') = event_logs (committed v)
     | (Inr _, v') \<Rightarrow> if e_type e \<in> set IMPORTANT_EVENTS
         then \<exists>row. logged_from (Event_call e) row \<and>
           event_logs (committed v') = event_logs (committed v) @ [row]
         else event_logs (committed v') = event_logs (committed v)"
    by (auto simp: in_session_def wp_def split: prod.splits sum.splits)
qed

definition ex_event :: event where
  "ex_event = \<lparr>e_type = ''device_telemetry_received'',
     e_data = [(''house_id'', JStr ''h1''), (''metrics'', JObj [(''API_Token'', JStr ''s''), (''v'', JInt 1)])],
     e_correlation_id = ''k1'', e_depth = 0\<rparr>"

definition ex_logged :: world where
  "ex_logged = fold (audit_step ex_fresh) [Event_call ex_event] ex_world"

lemma ex_logged: "map ev_payload (event_logs (committed ex_logged)) =
    [[(''house_id'', JStr ''h1''), (''metrics'', JObj [(''v'', JInt 1)])]]"
  by code_simp

theorem audit_log_redacted_witness:
  "redacted (JObj (ev_payload (hd (event_logs (committed ex_logged))))) \<and>
   logged_from (Event_call ex_event) (hd (event_logs (committed ex_logged)))"
proof -
  have "hd (event_logs (committed ex_logged)) \<in> set (event_logs (committed ex_logged))"
    using ex_logged by (cases "event_logs (committed ex_logged)") simp_all
  moreover have "event_logs (committed ex_world) = []" "work ex_world = committed ex_world"
    by (simp_all add: ex_world_def ex_db_def empty_db_def)
  ultimately show ?thesis
    unfolding ex_logged_def
    using audit_log_redacted [where w = ex_world and fresh = ex_fresh and calls = "[Event_call ex_event]"
      and r = "hd (event_logs (committed (fold (audit_step ex_fresh) [Event_call ex_event] ex_world)))"]
    by (auto simp del: logged_from.simps fold.simps fold_simps)
qed

end
