(* ===== verification/Devices.thy ===== *)
theory Devices
  imports Commands Events
begin

text \<open>
  \<open>app/services/device_service.py\<close> and \<open>app/services/crud_service.py\<close>: devices and the
  structure they live in. The read schemas copy a row, so a row stands for its own reading. An
  awaited call runs while the session of the caller has nothing uncommitted: other transactions
  may run in it, and the caller then goes on from the committed state (\<open>in_session\<close>).
\<close>

subsection \<open>Houses, floors and rooms: CrudService\<close>

definition validate_parents ::
  "structure_kind \<Rightarrow> string option \<Rightarrow> string option \<Rightarrow> ('z world_scheme, unit) op" where
  "validate_parents kind house_id floor_id =
     (case (kind, house_id, floor_id) of
        (K_floor, Some h, _) \<Rightarrow> bnd (repo_exists house_repo h) (\<lambda>ok. reject (\<not> ok) InvalidReferenceError)
      | (K_room, _, Some f) \<Rightarrow> bnd (repo_exists floor_repo f) (\<lambda>ok. reject (\<not> ok) InvalidReferenceError)
      | _ \<Rightarrow> ret ())"

text \<open>The target is read before and after the guard; the second reading repeats the first.\<close>

definition guard_binding ::
  "structure_kind \<Rightarrow> string \<Rightarrow> string option \<Rightarrow> string option \<Rightarrow> bool \<Rightarrow> ('z world_scheme, unit) op" where
  "guard_binding kind entity_id house_id floor_id deleting =
     bnd (case floor_id of
            None \<Rightarrow> ret house_id
          | Some f \<Rightarrow> bnd (structure_house K_floor f) (\<lambda>h. ret (Some h))) (\<lambda>target.
     andthen (structure_mutation kind entity_id target deleting)
     (case floor_id of
        None \<Rightarrow> ret ()
      | Some f \<Rightarrow> bnd (structure_house K_floor f) (\<lambda>again. reject (Some again \<noteq> target) ConflictError)))"

definition crud_create ::
  "'r repo \<Rightarrow> structure_kind \<Rightarrow> string option \<Rightarrow> string option \<Rightarrow> 'r \<Rightarrow> ('z world_scheme, 'r) op" where
  "crud_create R kind house_id floor_id entity =
     andthen (validate_parents kind house_id floor_id) (repo_create R entity)"

definition crud_update ::
  "'r repo \<Rightarrow> structure_kind \<Rightarrow> string \<Rightarrow> string option \<Rightarrow> string option \<Rightarrow> ('r \<Rightarrow> 'r) \<Rightarrow>
   ('z world_scheme, 'r) op" where
  "crud_update R kind entity_id house_id floor_id values =
     andthen (validate_parents kind house_id floor_id)
     (andthen (guard_binding kind entity_id house_id floor_id False)
     (repo_update R entity_id values))"

definition crud_delete :: "'r repo \<Rightarrow> structure_kind \<Rightarrow> string \<Rightarrow> ('z world_scheme, unit) op" where
  "crud_delete R kind entity_id =
     andthen (guard_binding kind entity_id None None True) (repo_delete R entity_id)"

definition update_house :: "string \<Rightarrow> string option \<Rightarrow> ('z world_scheme, house_row) op" where
  "update_house entity_id name =
     crud_update house_repo K_house entity_id None None (\<lambda>r. r\<lparr>h_name := dflt (h_name r) name\<rparr>)"

definition create_floor :: "floor_create \<Rightarrow> ('z world_scheme, floor_row) op" where
  "create_floor x = crud_create floor_repo K_floor (Some (fc_house_id x)) None
     \<lparr>f_id = fc_id x, f_house_id = fc_house_id x, f_name = fc_name x, f_order = fc_order x\<rparr>"

definition floor_values :: "floor_update \<Rightarrow> floor_row \<Rightarrow> floor_row" where
  "floor_values x r = r\<lparr>f_house_id := dflt (f_house_id r) (fu_house_id x),
     f_name := dflt (f_name r) (fu_name x), f_order := dflt (f_order r) (fu_order x)\<rparr>"

definition update_floor :: "string \<Rightarrow> floor_update \<Rightarrow> ('z world_scheme, floor_row) op" where
  "update_floor entity_id x = crud_update floor_repo K_floor entity_id (fu_house_id x) None (floor_values x)"

definition delete_floor :: "string \<Rightarrow> ('z world_scheme, unit) op" where
  "delete_floor = crud_delete floor_repo K_floor"

definition create_room :: "room_create \<Rightarrow> ('z world_scheme, room_row) op" where
  "create_room x = crud_create room_repo K_room None (Some (rc_floor_id x))
     \<lparr>r_id = rc_id x, r_floor_id = rc_floor_id x, r_name = rc_name x, r_icon = rc_icon x\<rparr>"

definition room_values :: "room_update \<Rightarrow> room_row \<Rightarrow> room_row" where
  "room_values x r = r\<lparr>r_floor_id := dflt (r_floor_id r) (ru_floor_id x),
     r_name := dflt (r_name r) (ru_name x),
     r_icon := (case ru_icon x of None \<Rightarrow> r_icon r | Some i \<Rightarrow> Some i)\<rparr>"

definition update_room :: "string \<Rightarrow> room_update \<Rightarrow> ('z world_scheme, room_row) op" where
  "update_room entity_id x = crud_update room_repo K_room entity_id None (ru_floor_id x) (room_values x)"

definition delete_room :: "string \<Rightarrow> ('z world_scheme, unit) op" where
  "delete_room = crud_delete room_repo K_room"

subsection \<open>Devices\<close>

definition device_list ::
  "string option \<Rightarrow> string option \<Rightarrow> string option \<Rightarrow> bool option \<Rightarrow> ('z world_scheme, device_row list) op" where
  "device_list = device_filtered"

definition device_list_for_houses ::
  "string list \<Rightarrow> string option \<Rightarrow> string option \<Rightarrow> bool option \<Rightarrow> ('z world_scheme, device_row list) op" where
  "device_list_for_houses = device_filtered_for_houses"

definition device_get :: "string \<Rightarrow> ('z world_scheme, device_row) op" where
  "device_get = repo_get device_repo"

definition validate_room :: "string \<Rightarrow> ('z world_scheme, unit) op" where
  "validate_room room_id = bnd (repo_exists room_repo room_id) (\<lambda>ok. reject (\<not> ok) InvalidReferenceError)"

definition create_device :: "device_create \<Rightarrow> ('z world_scheme, device_row) op" where
  "create_device x =
     bnd (by_device (dc_id x)) (\<lambda>physical.
     andthen (reject (physical \<noteq> None) ConflictError)
     (andthen (validate_room (dc_room_id x))
     (andthen (lift (validate_capabilities (dc_capabilities x) (dc_state x)))
     (repo_create device_repo
       \<lparr>d_id = dc_id x, d_name = dc_name x, d_room_id = dc_room_id x, d_type = dc_type x,
        d_state = dc_state x, d_capabilities = dc_capabilities x, d_metadata = dc_metadata x,
        d_online = dc_online x\<rparr>))))"

definition device_values :: "device_update \<Rightarrow> device_row \<Rightarrow> device_row" where
  "device_values x r = r\<lparr>d_name := dflt (d_name r) (du_name x), d_room_id := dflt (d_room_id r) (du_room_id x),
     d_type := dflt (d_type r) (du_type x), d_state := dflt (d_state r) (du_state x),
     d_capabilities := dflt (d_capabilities r) (du_capabilities x),
     d_metadata := dflt (d_metadata r) (du_metadata x), d_online := dflt (d_online r) (du_online x)\<rparr>"

definition target_of_room :: "string option \<Rightarrow> ('z world_scheme, string option) op" where
  "target_of_room room_id = (case room_id of
     None \<Rightarrow> ret None | Some r \<Rightarrow> bnd (room_house_id r) (\<lambda>h. ret (Some h)))"

definition update_device :: "string \<Rightarrow> device_update \<Rightarrow> ('z world_scheme, device_row) op" where
  "update_device device_id x =
     bnd (target_of_room (du_room_id x)) (\<lambda>target.
     andthen (structure_mutation K_device device_id target False)
     (bnd (target_of_room (du_room_id x)) (\<lambda>again.
     andthen (reject (again \<noteq> target) ConflictError)
     (bnd (by_device device_id) (\<lambda>physical.
     andthen (reject (physical \<noteq> None \<and> \<not> set (du_fields_set x) \<subseteq> {''name'', ''room_id''}) ConflictError)
     (andthen (case du_room_id x of None \<Rightarrow> ret () | Some r \<Rightarrow> validate_room r)
     (andthen
       (if du_state x = None \<and> du_capabilities x = None then ret ()
        else bnd (device_get device_id) (\<lambda>current.
          lift (validate_capabilities (dflt (d_capabilities current) (du_capabilities x))
            (dflt (d_state current) (du_state x)))))
     (repo_update device_repo device_id (device_values x)))))))))"

definition delete_device :: "string \<Rightarrow> ('z world_scheme, unit) op" where
  "delete_device device_id =
     andthen (structure_mutation K_device device_id None True) (repo_delete device_repo device_id)"

definition require_house :: "string \<Rightarrow> string \<Rightarrow> ('z world_scheme, device_row) op" where
  "require_house house_id device_id =
     andthen (require_active device_id)
     (bnd (device_get device_id) (\<lambda>dev.
     bnd (device_house_id device_id) (\<lambda>h.
     andthen (reject (h \<noteq> house_id) InvalidReferenceError)
     (ret dev))))"

subsection \<open>State\<close>

definition changed_fields :: "obj \<Rightarrow> obj \<Rightarrow> obj" where
  "changed_fields state patch = filter (\<lambda>(k, v). \<not> py_eq (oget k state) v) patch"

text \<open>\<open>bus\<close> is \<open>event_bus.publish\<close>.\<close>

definition persist_state ::
  "(nat \<Rightarrow> string) \<Rightarrow> ('z world_scheme) handler \<Rightarrow> device_row \<Rightarrow> obj \<Rightarrow> string \<Rightarrow> int \<Rightarrow>
   ('z world_scheme, device_row) op" where
  "persist_state fresh bus entity patch correlation_id level =
     (let changed = changed_fields (d_state entity) patch in
      if changed = [] then ret entity
      else
        bnd (repo_update device_repo (d_id entity) (\<lambda>r. r\<lparr>d_state := omerge (d_state entity) changed\<rparr>)) (\<lambda>updated.
        bnd (device_house_id (d_id entity)) (\<lambda>house_id.
        bnd (new_event fresh ''device_state_changed''
               [(''device_id'', JStr (d_id entity)), (''house_id'', JStr house_id), (''state'', JObj changed)]
               correlation_id level) (\<lambda>e.
        andthen (in_session (bus e))
        (ret updated)))))"

definition update_state ::
  "(nat \<Rightarrow> string) \<Rightarrow> ('z core_scheme) handler \<Rightarrow> environment \<Rightarrow> 'z core_scheme transport option \<Rightarrow>
   string \<Rightarrow> obj \<Rightarrow> string \<Rightarrow> int \<Rightarrow> ('z core_scheme, device_row) op" where
  "update_state fresh bus env transport device_id patch correlation_id level =
     andthen (require_active device_id)
     (andthen (require_command_contract device_id)
     (bnd (device_get device_id) (\<lambda>entity.
     case transport of
       Some t \<Rightarrow>
         andthen (lift (validate_command (d_capabilities entity) patch))
         (bnd (ledger_now env) (\<lambda>timestamp.
         bnd (device_house_id device_id) (\<lambda>house_id.
         andthen (in_session (tr_send t house_id device_id patch correlation_id []
           (Some (utc_time timestamp)) (Some (utc_time (timestamp + COMMAND_LIFETIME)))))
         (ret entity))))
     | None \<Rightarrow>
         andthen (lift (validate (d_capabilities entity) patch))
         (persist_state fresh bus entity patch correlation_id level))))"

definition report_state ::
  "(nat \<Rightarrow> string) \<Rightarrow> ('z world_scheme) handler \<Rightarrow> string \<Rightarrow> string \<Rightarrow> obj \<Rightarrow> string \<Rightarrow>
   ('z world_scheme, device_row) op" where
  "report_state fresh bus house_id device_id patch correlation_id =
     bnd (require_house house_id device_id) (\<lambda>_.
     bnd (device_get device_id) (\<lambda>entity.
     andthen (lift (validate_report (d_capabilities entity) patch))
     (persist_state fresh bus entity patch correlation_id 0)))"

text \<open>\<open>datetime.isoformat()\<close> for an aware or a naive time.\<close>

definition offset_text :: "int \<Rightarrow> string" where
  "offset_text off =
     (let s = \<bar>off\<bar> div 1000000; frac = \<bar>off\<bar> mod 1000000 in
      (if off < 0 then ''-'' else ''+'') @ pad 2 (s div 3600) @ '':'' @ pad 2 (s div 60 mod 60) @
      (if s mod 60 = 0 \<and> frac = 0 then [] else '':'' @ pad 2 (s mod 60)) @
      (if frac = 0 then [] else ''.'' @ pad 6 frac))"

definition wall_isoformat :: "wall_time \<Rightarrow> string" where
  "wall_isoformat t =
     (let local_text = (\<lambda>i. let s = isoformat i in take (length s - 6) s) in
      case utcoffset t of
        None \<Rightarrow> local_text (instant t)
      | Some off \<Rightarrow> local_text (instant t + off) @ offset_text off)"

definition update_status ::
  "string \<Rightarrow> string \<Rightarrow> bool \<Rightarrow> wall_time \<Rightarrow> ('z world_scheme, bool) op" where
  "update_status house_id device_id online last_seen =
     bnd (require_house house_id device_id) (\<lambda>dev.
     andthen (repo_update device_repo device_id
       (\<lambda>r. r\<lparr>d_online := online,
             d_metadata := omerge (d_metadata dev) [(''last_seen'', JStr (wall_isoformat last_seen))]\<rparr>))
     (ret (d_online dev \<noteq> online)))"

subsection \<open>Bound devices stay in the house of their binding\<close>

definition bound_home :: "db \<Rightarrow> bool" where
  "bound_home d \<longleftrightarrow> db_ok d \<and>
     list_all (\<lambda>p. case p_bound_device_id p of None \<Rightarrow> True | Some b \<Rightarrow> location_house d b = p_house_id p)
       (physical_devices d)"

lemma bound_home_row: "bound_home d \<Longrightarrow> p \<in> set (physical_devices d) \<Longrightarrow> p_bound_device_id p = Some b \<Longrightarrow>
    location_house d b = p_house_id p \<and> p_house_id p \<noteq> None"
  by (auto simp: bound_home_def list_all_iff db_ok_def physical_ok_def physical_row_ok_def)

lemma bound_homeI:
  assumes "bound_home d" and "db_ok d'" and "physical_devices d' = physical_devices d"
    and "\<And>p b h. p \<in> set (physical_devices d) \<Longrightarrow> p_bound_device_id p = Some b \<Longrightarrow>
      location_house d b = Some h \<Longrightarrow> p_house_id p \<noteq> None \<Longrightarrow> location_house d' b = Some h"
  shows "bound_home d'"
  using assms bound_home_row [OF assms(1)]
  by (fastforce simp: bound_home_def list_all_iff split: option.splits)

text \<open>The path of a located device, and what a guard that passed says about it.\<close>

lemma located_path: "location_house d b = Some h \<longleftrightarrow> (\<exists>x r f. tget d_id b (devices d) = Some x \<and>
    tget r_id (d_room_id x) (rooms d) = Some r \<and> tget f_id (r_floor_id r) (floors d) = Some f \<and> h = f_house_id f)"
  by (auto simp: location_house_def room_house_def floor_house_def bind_eq_Some_conv)

lemma unbound_away:
  assumes "\<not> bound_in_structure_of d kind k" and "kind \<noteq> K_house" and "p \<in> set (physical_devices d)"
    and "p_house_id p \<noteq> None" and "p_bound_device_id p = Some b"
    and "tget d_id b (devices d) = Some x" and "tget r_id (d_room_id x) (rooms d) = Some r"
  shows "(kind = K_device \<longrightarrow> b \<noteq> k) \<and> (kind = K_room \<longrightarrow> d_room_id x \<noteq> k) \<and> (kind = K_floor \<longrightarrow> r_floor_id r \<noteq> k)"
  using assms tget_SomeD [OF assms(6)] by (cases kind) (fastforce simp: list_ex_iff)+

lemma tget_tput: "tget key k (tput key r rows) =
    (if key r = k \<and> tget key k rows \<noteq> None then Some r else tget key k rows)"
  by (induction rows) (auto simp: tput_def tget_Cons)

lemma home_append:
  assumes "bound_home d" and "db_ok d'" and "physical_devices d' = physical_devices d"
    and "\<And>k y. tget d_id k (devices d) = Some y \<Longrightarrow> tget d_id k (devices d') = Some y"
    and "\<And>k y. tget r_id k (rooms d) = Some y \<Longrightarrow> tget r_id k (rooms d') = Some y"
    and "\<And>k y. tget f_id k (floors d) = Some y \<Longrightarrow> tget f_id k (floors d') = Some y"
  shows "bound_home d'"
  using assms(1,2,3) by (rule bound_homeI) (metis assms(4-6) located_path)

lemma home_floor:
  assumes "bound_home d" and "db_ok (floors_update (tput f_id f') d)" and "tget f_id k (floors d) = Some f"
    and "f_id f' = k" and "f_house_id f' = f_house_id f \<or> \<not> bound_in_structure_of d K_floor k"
  shows "bound_home (floors_update (tput f_id f') d)"
  using assms(1,2) assms(3-5) unbound_away [of d K_floor k]
  by (elim bound_homeI) (auto simp: located_path tget_tput, fastforce+)

lemma home_room:
  assumes "bound_home d" and "db_ok (rooms_update (tput r_id r') d)" and "tget r_id k (rooms d) = Some r"
    and "r_id r' = k"
    and "floor_house d (r_floor_id r') = floor_house d (r_floor_id r) \<or> \<not> bound_in_structure_of d K_room k"
  shows "bound_home (rooms_update (tput r_id r') d)"
  using assms(1,2) assms(3-5) unbound_away [of d K_room k]
  by (elim bound_homeI) (auto simp: located_path tget_tput floor_house_def, fastforce+)

lemma home_device:
  assumes "bound_home d" and "db_ok (devices_update (tput d_id x') d)" and "tget d_id k (devices d) = Some x"
    and "d_id x' = k"
    and "room_house d (d_room_id x') = room_house d (d_room_id x) \<or> \<not> bound_in_structure_of d K_device k"
  shows "bound_home (devices_update (tput d_id x') d)"
  using assms(1,2) assms(3-5) unbound_away [of d K_device k]
  by (elim bound_homeI) (auto simp: location_house_def tget_tput room_house_def floor_house_def bind_eq_Some_conv, fastforce+)

text \<open>A cascading delete that the guard let through removes no part of such a path.\<close>

lemma tget_tdel_iff: "tget key k (tdel p rows) = Some r \<Longrightarrow> unique key rows \<Longrightarrow> tget key k rows = Some r \<and> \<not> p r"
  using tget_SomeD [of key k "tdel p rows" r] unique_tget [of key rows r] by (auto simp: tdel_def)

lemma gone_key:
  assumes "unique key rows" and "tget key k rows = Some r" and "\<not> p r"
  shows "k \<notin> set (map key (filter p rows))"
proof
  assume "k \<in> set (map key (filter p rows))"
  then obtain r' where "r' \<in> set rows" "p r'" "key r' = k" by auto
  with unique_tget [OF assms(1), of r'] assms(2,3) show False by simp
qed

definition path :: "db \<Rightarrow> string \<Rightarrow> device_row \<Rightarrow> room_row \<Rightarrow> floor_row \<Rightarrow> bool" where
  "path d b x r f \<longleftrightarrow> tget d_id b (devices d) = Some x \<and>
     tget r_id (d_room_id x) (rooms d) = Some r \<and> tget f_id (r_floor_id r) (floors d) = Some f"

lemma path_house: "location_house d b = Some h \<longleftrightarrow> (\<exists>x r f. path d b x r f \<and> h = f_house_id f)"
  by (simp add: path_def located_path)

lemma path_kept:
  assumes "db_ok d" and "path d b x r f"
  shows "\<not> t x \<Longrightarrow> path (delete_device_rows t d) b x r f"
    and "\<not> q r \<Longrightarrow> path (delete_room_rows q d) b x r f"
    and "\<not> p f \<Longrightarrow> path (delete_floor_rows p d) b x r f"
proof -
  have u: "unique r_id (rooms d)" "unique f_id (floors d)"
    using assms(1) by (simp_all add: db_ok_def structure_ok_def)
  have device: "tget d_id b (devices d) = Some x" and room: "tget r_id (d_room_id x) (rooms d) = Some r"
    and floor: "tget f_id (r_floor_id r) (floors d) = Some f"
    using assms(2) by (simp_all add: path_def)
  show "path (delete_device_rows t d) b x r f" if "\<not> t x"
    using assms(2) that by (simp add: path_def delete_device_rows_def tget_tdel)
  show rooms: "path (delete_room_rows q d) b x r f" if "\<not> q r" for q
    using assms(2) tget_tdel [OF device, of "\<lambda>x. d_room_id x \<in> set (map r_id (filter q (rooms d)))"]
      gone_key [OF u(1) room, of q, OF that] tget_tdel [OF room, of q, OF that]
    by (simp add: path_def delete_room_rows_def delete_device_rows_def Let_def)
  show "path (delete_floor_rows p d) b x r f" if "\<not> p f"
  proof -
    let ?q = "\<lambda>x. r_floor_id x \<in> set (map f_id (filter p (floors d)))"
    have "\<not> ?q r" using gone_key [OF u(2) floor, of p, OF that] by simp
    from rooms [of ?q, OF this] tget_tdel [OF floor, of p, OF that] show ?thesis
      by (simp add: path_def delete_floor_rows_def Let_def)
  qed
qed

lemma physical_delete [simp]:
  "physical_devices (delete_device_rows t d) = physical_devices d"
  "physical_devices (delete_room_rows q d) = physical_devices d"
  "physical_devices (delete_floor_rows p d) = physical_devices d"
  "physical_devices (delete_house_row h d) = physical_devices d"
  by (simp_all add: delete_house_row_def delete_floor_rows_def delete_room_rows_def delete_device_rows_def Let_def)

lemma home_delete:
  assumes "bound_home d" and "\<not> bound_in_structure_of d kind k" and "db_ok d'"
    and "d' = (case kind of K_house \<Rightarrow> delete_house_row k (memberships_update m d)
      | K_floor \<Rightarrow> repo_cascade floor_repo k d | K_room \<Rightarrow> repo_cascade room_repo k d
      | K_device \<Rightarrow> repo_cascade device_repo k d)"
  shows "bound_home d'"
proof (rule bound_homeI [OF assms(1,3)])
  show "physical_devices d' = physical_devices d"
    using assms(4) by (cases kind) (simp_all add: repo_defs)
  fix p b h
  assume p: "p \<in> set (physical_devices d)" "p_bound_device_id p = Some b" "location_house d b = Some h"
    "p_house_id p \<noteq> None"
  then obtain x r f where path: "path d b x r f" and h: "h = f_house_id f"
    by (auto simp: path_house)
  have ok: "db_ok d" using assms(1) by (simp add: bound_home_def)
  have ids: "d_id x = b" "r_id r = d_room_id x" "f_id f = r_floor_id r"
    using path by (auto simp: path_def dest: tget_SomeD)
  note kept = path_kept [OF ok path]
  have "path d' b x r f"
  proof (cases "kind = K_house")
    case True
    with assms(2) p have "f_house_id f \<noteq> k"
      using bound_home_row [OF assms(1) p(1,2)] h by (auto simp: list_ex_iff)
    with kept(3) [of "\<lambda>x. f_house_id x = k"] True assms(4) show ?thesis
      by (simp add: path_def delete_house_row_def delete_floor_rows_def delete_room_rows_def
          delete_device_rows_def Let_def)
  next
    case False
    from path have "tget d_id b (devices d) = Some x" "tget r_id (d_room_id x) (rooms d) = Some r"
      by (simp_all add: path_def)
    from unbound_away [OF assms(2) False p(1,4,2) this] ids kept False assms(4) show ?thesis
      by (cases kind) (simp_all add: repo_defs)
  qed
  with h show "location_house d' b = Some h" by (auto simp: path_house)
qed

subsection \<open>The structure requests keep the invariant\<close>

text \<open>The deletion of a house as the route does it.\<close>

definition delete_house :: "string \<Rightarrow> ('z world_scheme, unit) op" where
  "delete_house entity_id =
     andthen (structure_mutation K_house entity_id None True) (delete_with_memberships entity_id)"

datatype structure_call =
    Create_home "nat \<Rightarrow> string" house_row string | Update_house string "string option" | Delete_house string
  | Create_floor floor_create | Update_floor string floor_update | Delete_floor string
  | Create_room room_create | Update_room string room_update | Delete_room string
  | Create_device device_create | Update_device string device_update | Delete_device string

definition void :: "('s, 'a) op \<Rightarrow> ('s, unit) op" where
  "void m = bnd m (\<lambda>_. ret ())"

fun structure_op :: "structure_call \<Rightarrow> ('z world_scheme, unit) op" where
  "structure_op (Create_home fresh house user) = void (create_with_owner fresh house user)"
| "structure_op (Update_house k n) = void (update_house k n)"
| "structure_op (Delete_house k) = delete_house k"
| "structure_op (Create_floor x) = void (create_floor x)"
| "structure_op (Update_floor k x) = void (update_floor k x)"
| "structure_op (Delete_floor k) = delete_floor k"
| "structure_op (Create_room x) = void (create_room x)"
| "structure_op (Update_room k x) = void (update_room k x)"
| "structure_op (Delete_room k) = delete_room k"
| "structure_op (Create_device x) = void (create_device x)"
| "structure_op (Update_device k x) = void (update_device k x)"
| "structure_op (Delete_device k) = delete_device k"

definition structure_step :: "structure_call \<Rightarrow> 'z world_scheme \<Rightarrow> 'z world_scheme" where
  "structure_step call w = snd (in_session (structure_op call) w)"

definition at_home :: "'z world_scheme \<Rightarrow> bool" where
  "at_home w \<longleftrightarrow> bound_home (committed w)"

text \<open>From a fresh session, the operation leaves a database at home committed.\<close>

definition keeps_home :: "('z world_scheme, 'a) op \<Rightarrow> bool" where
  "keeps_home m \<longleftrightarrow> (\<forall>w. bound_home (committed w) \<longrightarrow> work w = committed w \<longrightarrow>
     wp m (\<lambda>_. at_home) (\<lambda>_. at_home) w)"

lemma keeps_home_void: "keeps_home m \<Longrightarrow> keeps_home (void m)"
  by (simp add: keeps_home_def void_def wp_simps)

lemma wp_repo_create: "wp (repo_create R e) Q E = (\<lambda>w. let d = repo_set R (\<lambda>t. t @ [e]) (work w) in
    if db_ok d then Q e (w\<lparr>work := d, committed := d\<rparr>) else E ConflictError (w\<lparr>work := committed w\<rparr>))"
  by (simp add: repo_create_def wp_simps Let_def)

lemma wp_repo_update: "wp (repo_update R k f) Q E = (\<lambda>w. case tget (repo_key R) k (repo_rows R (work w)) of
      None \<Rightarrow> E EntityNotFoundError w
    | Some r \<Rightarrow> (let d = repo_set R (tput (repo_key R) (f r)) (work w) in
        if db_ok d then Q (f r) (w\<lparr>work := d, committed := d\<rparr>) else E ConflictError (w\<lparr>work := committed w\<rparr>)))"
  by (simp add: repo_update_def repo_get_def repo_find_def wp_simps Let_def cong: option.case_cong)

lemma wp_repo_delete: "wp (repo_delete R k) Q E = (\<lambda>w. case tget (repo_key R) k (repo_rows R (work w)) of
      None \<Rightarrow> E EntityNotFoundError w
    | Some r \<Rightarrow> (let d = repo_cascade R k (work w) in
        if db_ok d then Q () (w\<lparr>work := d, committed := d\<rparr>) else E ConflictError (w\<lparr>work := committed w\<rparr>)))"
  by (simp add: repo_delete_def repo_get_def repo_find_def wp_simps Let_def cong: option.case_cong)

lemma wp_structure_mutation: "wp (structure_mutation kind k target deleting) Q E =
    (\<lambda>w. case structure_house_of (work w) kind k of None \<Rightarrow> E EntityNotFoundError w
     | Some source \<Rightarrow>
        if (deleting \<or> (target \<noteq> None \<and> target \<noteq> Some source)) \<and> bound_in_structure_of (work w) kind k
        then E ConflictError w else Q () w)"
  by (simp add: structure_mutation_def structure_house_def bound_in_structure_def wp_simps
      cong: option.case_cong)

lemmas wp_structure = wp_simps wp_repo_create wp_repo_update wp_repo_delete wp_structure_mutation Let_def

text \<open>A check that only reads the session leaves it as it is.\<close>

definition only_reads :: "('s, 'a) op \<Rightarrow> bool" where
  "only_reads m \<longleftrightarrow> (\<forall>s. snd (m s) = s)"

lemma reads_wp:
  assumes "only_reads m" and "Q s" and "\<And>e. E e s"
  shows "wp m (\<lambda>_. Q) E s"
proof -
  have "snd (m s) = s" using assms(1) by (simp add: only_reads_def)
  with assms(2,3) show ?thesis by (cases "m s") (auto simp: wp_def split: sum.splits)
qed

lemma reads_bnd_wp:
  assumes "only_reads m" and "\<And>x. wp (k x) Q E s" and "\<And>e. E e s"
  shows "wp (bnd m k) Q E s"
proof -
  have "snd (m s) = s" using assms(1) by (simp add: only_reads_def)
  with assms(2,3) show ?thesis by (cases "m s") (auto simp: wp_bnd wp_def [of m] split: sum.splits)
qed

lemma reads_andthen_wp: "only_reads m \<Longrightarrow> wp k Q E s \<Longrightarrow> (\<And>e. E e s) \<Longrightarrow> wp (andthen m k) Q E s"
  by (simp add: andthen_def reads_bnd_wp)

lemma keeps_home_check: "only_reads m \<Longrightarrow> keeps_home k \<Longrightarrow> keeps_home (andthen m k)"
  unfolding keeps_home_def wp_andthen
proof (intro allI impI)
  fix w :: "'a world_scheme"
  assume m: "only_reads m" and k: "\<forall>w. bound_home (committed w) \<longrightarrow> work w = committed w \<longrightarrow> wp k (\<lambda>_. at_home) (\<lambda>_. at_home) w"
    and w: "bound_home (committed w)" "work w = committed w"
  from m have "snd (m w) = w" by (simp add: only_reads_def)
  then show "wp m (\<lambda>_. wp k (\<lambda>_. at_home) (\<lambda>_. at_home)) (\<lambda>_. at_home) w"
    using k w by (cases "m w") (auto simp: wp_def [of m] at_home_def split: sum.splits)
qed

lemma keeps_home_bind: "only_reads m \<Longrightarrow> (\<And>x. keeps_home (k x)) \<Longrightarrow> keeps_home (bnd m k)"
  unfolding keeps_home_def wp_bnd
proof (intro allI impI)
  fix w :: "'a world_scheme"
  assume m: "only_reads m" and k: "\<And>x. \<forall>w. bound_home (committed w) \<longrightarrow> work w = committed w \<longrightarrow> wp (k x) (\<lambda>_. at_home) (\<lambda>_. at_home) w"
    and w: "bound_home (committed w)" "work w = committed w"
  from m have "snd (m w) = w" by (simp add: only_reads_def)
  then show "wp m (\<lambda>x. wp (k x) (\<lambda>_. at_home) (\<lambda>_. at_home)) (\<lambda>_. at_home) w"
    using k w by (cases "m w") (auto simp: wp_def [of m] at_home_def split: sum.splits)
qed

lemma only_reads_intros: "only_reads (ret x)" "only_reads (reject b e)" "only_reads (lift r)" "only_reads (query f)"
  "only_reads m \<Longrightarrow> (\<And>x. only_reads (k x)) \<Longrightarrow> only_reads (bnd m k)" "only_reads (found y)"
  by (auto simp: only_reads_def op_defs query_def found_def split: prod.splits sum.splits option.splits)
    (metis snd_conv)+

lemma checks_only_read: "only_reads (validate_parents kind h f)" "only_reads (validate_room r)" "only_reads (by_device k)"
  "only_reads (target_of_room t)" "only_reads (device_get k)"
  unfolding validate_parents_def validate_room_def by_device_def target_of_room_def device_get_def
    repo_exists_def repo_find_def repo_get_def room_house_id_def
  by (auto intro!: only_reads_intros split: structure_kind.splits option.splits)

lemma keeps_create:
  "keeps_home (create_floor x)" "keeps_home (create_room x')" "keeps_home (create_device x'')"
  unfolding create_floor_def create_room_def create_device_def crud_create_def
  by (intro keeps_home_check keeps_home_bind checks_only_read only_reads_intros;
    auto simp: keeps_home_def wp_structure at_home_def repo_defs tget_append intro: home_append)+

lemma keeps_create_home: "keeps_home (create_with_owner fresh house user)"
  unfolding create_with_owner_def keeps_home_def
  by (auto simp: wp_simps at_home_def tget_append intro: home_append)

text \<open>What the deletions leave, one kind at a time.\<close>

lemma wp_guard_delete: "wp (guard_binding kind k None None True) Q E = wp (structure_mutation kind k None True) Q E"
  by (simp add: guard_binding_def wp_simps)

lemma keeps_delete_guarded:
  assumes "\<And>d. bound_home d \<Longrightarrow> \<not> bound_in_structure_of d kind k \<Longrightarrow> db_ok (repo_cascade R k d) \<Longrightarrow>
    bound_home (repo_cascade R k d)"
  shows "keeps_home (andthen (structure_mutation kind k None True) (repo_delete R k))"
  unfolding keeps_home_def wp_andthen wp_structure_mutation wp_repo_delete
  using assms by (auto simp: at_home_def Let_def split: option.splits)

lemma crud_delete_guarded: "crud_delete R kind k = andthen (structure_mutation kind k None True) (repo_delete R k)"
  by (simp add: crud_delete_def guard_binding_def op_defs fun_eq_iff split: prod.splits sum.splits)

lemma keeps_delete:
  "keeps_home (delete_floor k)" "keeps_home (delete_room k)" "keeps_home (delete_device k)"
  unfolding delete_floor_def delete_room_def delete_device_def crud_delete_guarded
  by (rule keeps_delete_guarded, erule (2) home_delete, simp)+

lemma keeps_delete_house: "keeps_home (delete_house k)"
proof -
  have "bound_home (delete_house_row k (memberships_update m d))"
    if "bound_home d" "\<not> bound_in_structure_of d K_house k" "db_ok (delete_house_row k (memberships_update m d))"
    for m d by (rule home_delete [OF that]) simp
  then show ?thesis
    unfolding keeps_home_def delete_house_def delete_with_memberships_def repo_get_def repo_find_def
      wp_andthen wp_structure_mutation
    by (auto simp: wp_simps at_home_def simp del: bound_in_structure_of.simps split: option.splits)
qed

lemma wp_room_house_id: "wp (room_house_id k) Q E =
    (\<lambda>w. case room_house (work w) k of None \<Rightarrow> E EntityNotFoundError w | Some h \<Rightarrow> Q h w)"
  and wp_structure_house: "wp (structure_house kind k) Q E =
    (\<lambda>w. case structure_house_of (work w) kind k of None \<Rightarrow> E EntityNotFoundError w | Some h \<Rightarrow> Q h w)"
  by (simp_all add: room_house_id_def structure_house_def wp_simps)

lemma wp_target: "wp (target_of_room t) Q E = (\<lambda>w. case t of None \<Rightarrow> Q None w
    | Some r \<Rightarrow> (case room_house (work w) r of None \<Rightarrow> E EntityNotFoundError w | Some h \<Rightarrow> Q (Some h) w))"
  by (cases t) (simp_all add: target_of_room_def wp_simps wp_room_house_id)

lemma keeps_update_house: "keeps_home (update_house k n)"
proof -
  have "bound_home (houses_update g d)" if "bound_home d" "db_ok (houses_update g d)" for g d
    using that(1,2) by (rule bound_homeI) (simp_all add: located_path)
  then show ?thesis
    unfolding update_house_def crud_update_def guard_binding_def
    by (intro keeps_home_check [OF checks_only_read(1)])
      (auto simp: keeps_home_def at_home_def wp_structure house_repo_def simp del: bound_in_structure_of.simps
        split: option.splits)
qed

lemma keeps_update_floor: "keeps_home (update_floor k x)"
  unfolding update_floor_def crud_update_def guard_binding_def
  by (intro keeps_home_check [OF checks_only_read(1)], cases "fu_house_id x")
    (auto simp: keeps_home_def at_home_def wp_structure floor_repo_def floor_values_def floor_house_def dflt_def
      simp del: bound_in_structure_of.simps split: option.splits dest: tget_SomeD
      intro!: home_floor)

lemma keeps_update_room: "keeps_home (update_room k x)"
  unfolding update_room_def crud_update_def guard_binding_def
  by (intro keeps_home_check [OF checks_only_read(1)], cases "ru_floor_id x"; cases "ru_icon x")
    (auto simp: keeps_home_def at_home_def wp_structure wp_structure_house room_repo_def room_values_def room_house_def dflt_def
      bind_eq_Some_conv
      simp del: bound_in_structure_of.simps split: option.splits dest: tget_SomeD
      intro!: home_room)

lemma keeps_update_device: "keeps_home (update_device k x)"
proof -
  have home: "bound_home (devices_update (tput d_id (device_values x r)) d)"
    if "bound_home d" "tget d_id k (devices d) = Some r" "db_ok (devices_update (tput d_id (device_values x r)) d)"
      "location_house d k = Some source"
      "case du_room_id x of None \<Rightarrow> True
        | Some m \<Rightarrow> room_house d m = Some source \<or> \<not> bound_in_structure_of d K_device k"
    for d r source
  proof (rule home_device [OF that(1,3,2)])
    show "d_id (device_values x r) = k" using that(2) by (auto simp: device_values_def dest: tget_SomeD)
    show "room_house d (d_room_id (device_values x r)) = room_house d (d_room_id r) \<or>
        \<not> bound_in_structure_of d K_device k"
      using that(2,4,5) by (cases "du_room_id x") (auto simp: device_values_def location_house_def dflt_def
        simp del: bound_in_structure_of.simps)
  qed
  define rest :: "('a world_scheme, device_row) op" where "rest =
     bnd (by_device k) (\<lambda>physical.
     andthen (reject (physical \<noteq> None \<and> \<not> set (du_fields_set x) \<subseteq> {''name'', ''room_id''}) ConflictError)
     (andthen (case du_room_id x of None \<Rightarrow> ret () | Some r \<Rightarrow> validate_room r)
     (andthen
       (if du_state x = None \<and> du_capabilities x = None then ret ()
        else bnd (device_get k) (\<lambda>current.
          lift (validate_capabilities (dflt (d_capabilities current) (du_capabilities x))
            (dflt (d_state current) (du_state x)))))
     (repo_update device_repo k (device_values x)))))"
  have split: "update_device k x = bnd (target_of_room (du_room_id x)) (\<lambda>target.
     andthen (structure_mutation K_device k target False)
     (bnd (target_of_room (du_room_id x)) (\<lambda>again.
     andthen (reject (again \<noteq> target) ConflictError) rest)))"
    by (simp add: update_device_def rest_def)
  have tail: "wp rest (\<lambda>_. at_home) (\<lambda>_. at_home) w"
    if w: "bound_home (committed w)" "work w = committed w" "location_house (committed w) k = Some source"
      "case du_room_id x of None \<Rightarrow> True
        | Some m \<Rightarrow> room_house (committed w) m = Some source \<or> \<not> bound_in_structure_of (committed w) K_device k"
    for w source
  proof -
    have "wp (repo_update device_repo k (device_values x)) (\<lambda>_. at_home) (\<lambda>_. at_home) w"
      using home w by (auto simp: at_home_def wp_repo_update Let_def device_repo_def
        simp del: bound_in_structure_of.simps split: option.splits)
    moreover have "at_home w" using w by (simp add: at_home_def)
    ultimately show ?thesis
      unfolding rest_def by (intro reads_bnd_wp reads_andthen_wp checks_only_read only_reads_intros)
        (auto intro: checks_only_read only_reads_intros split: option.splits)
  qed
  show ?thesis
    unfolding keeps_home_def split
    by (cases "du_room_id x")
      (auto simp: wp_bnd wp_andthen wp_target wp_structure_mutation wp_reject at_home_def
        simp del: bound_in_structure_of.simps split: option.splits intro!: tail)
qed

lemma keeps_structure: "keeps_home (structure_op call)"
  by (cases call) (simp_all add: keeps_home_void keeps_create_home keeps_create keeps_delete keeps_delete_house
      keeps_update_house keeps_update_floor keeps_update_room keeps_update_device)

interpretation structure_runs: invariant_machine structure_step at_home
proof
  fix w :: "'a world_scheme" and call
  assume w: "at_home w"
  have "wp (structure_op call) (\<lambda>_. at_home) (\<lambda>_. at_home) (w\<lparr>work := committed w\<rparr>)"
    using keeps_structure [of call, unfolded keeps_home_def, rule_format, of "w\<lparr>work := committed w\<rparr>"] w
    by (simp add: at_home_def)
  then show "at_home (structure_step call w)"
    by (auto simp: structure_step_def in_session_def wp_def at_home_def split: prod.splits sum.splits)
qed

subsection \<open>What a report stores\<close>

lemma alookup_filter_distinct: "distinct (map fst kvs) \<Longrightarrow> alookup k (filter (\<lambda>(k, v). q k v) kvs) =
    (case alookup k kvs of None \<Rightarrow> None | Some v \<Rightarrow> if q k v then Some v else None)"
  by (induction kvs) (auto simp: alookup_None_iff [symmetric] alookup_def split: option.splits)

lemma oget_changed:
  assumes "distinct (map fst patch)"
  shows "oget k (omerge state (changed_fields state patch)) =
    (case alookup k patch of None \<Rightarrow> oget k state
     | Some v \<Rightarrow> if py_eq (oget k state) v then oget k state else v)"
proof -
  have "distinct (map fst (changed_fields state patch))"
    using assms by (simp add: changed_fields_def distinct_map_filter)
  with assms show ?thesis
    by (simp add: oget_def [of k "omerge state _"] alookup_omerge wf_obj_def)
      (simp add: changed_fields_def alookup_filter_distinct oget_def split: option.splits)
qed

lemma tput_self: "unique key rows \<Longrightarrow> tget key k rows = Some r \<Longrightarrow> tput key r rows = rows"
  by (auto simp: tput_def intro!: map_idI dest!: tget_SomeD dest: unique_eqD)

text \<open>The handlers of an event that do not write device rows.\<close>

definition spares_devices :: "('z world_scheme) handler \<Rightarrow> bool" where
  "spares_devices h \<longleftrightarrow> (\<forall>e t. preserves (both (\<lambda>d. devices d = t)) (h e))"

lemma log_spares_devices: "spares_devices (log_event fresh)"
  unfolding spares_devices_def log_event_def log_handle_event_def repo_create_def event_log_repo_def repo.simps
  by (intro allI pres) simp_all

lemma db_ok_device_put:
  assumes "db_ok d" and "tget d_id (d_id x') (devices d) = Some x" and "d_room_id x' = d_room_id x"
  shows "db_ok (devices_update (tput d_id x') d)"
proof -
  have x: "x \<in> set (devices d)" using assms(2) by (auto dest: tget_SomeD)
  have "fk d_room_id r_id (rooms d) (tput d_id x' (devices d))"
    using assms x by (auto simp: fk_def tput_def list_all_iff db_ok_def structure_ok_def)
  moreover have "tget d_id k (tput d_id x' (devices d)) = None \<longleftrightarrow> tget d_id k (devices d) = None" for k
    by (simp add: tget_tput)
  then have "fk f d_id (tput d_id x' (devices d)) t = fk f d_id (devices d) t"
    "fk_null g d_id (tput d_id x' (devices d)) u = fk_null g d_id (devices d) u"
    for f g and t :: "command_row list" and u :: "physical_row list"
    by (simp_all only: fk_def fk_null_def)
  ultimately show ?thesis
    using assms(1) by (simp add: db_constraint_defs)
qed

lemma persist_state_devices:
  assumes bus: "spares_devices bus" and w: "work w = committed w" and ok: "db_ok (committed w)"
    and dev: "tget d_id (d_id x) (devices (committed w)) = Some x"
  shows "devices (committed (snd (persist_state fresh bus x patch c l w))) =
    tput d_id (x\<lparr>d_state := omerge (d_state x) (changed_fields (d_state x) patch)\<rparr>) (devices (committed w))"
proof (cases "changed_fields (d_state x) patch = []")
  case True
  have "unique d_id (devices (committed w))" using ok by (simp add: db_ok_def structure_ok_def)
  from tput_self [OF this dev] True show ?thesis
    by (simp add: persist_state_def omerge_def)
next
  case False
  let ?t = "tput d_id (x\<lparr>d_state := omerge (d_state x) (changed_fields (d_state x) patch)\<rparr>) (devices (committed w))"
  let ?P = "both (\<lambda>d. devices d = ?t)"
  define rest where "rest = (\<lambda>updated. bnd (device_house_id (d_id x)) (\<lambda>house_id.
        bnd (new_event fresh ''device_state_changed''
               [(''device_id'', JStr (d_id x)), (''house_id'', JStr house_id),
                (''state'', JObj (changed_fields (d_state x) patch))] c l) (\<lambda>e.
        andthen (in_session (bus e)) (ret (updated :: device_row)))))"
  have "preserves ?P (rest u)" for u
    using bus unfolding rest_def new_event_def spares_devices_def
    by (intro pres) auto
  moreover have "persist_state fresh bus x patch c l =
    bnd (repo_update device_repo (d_id x) (\<lambda>r. r\<lparr>d_state := omerge (d_state x) (changed_fields (d_state x) patch)\<rparr>)) rest"
    using False unfolding persist_state_def rest_def Let_def by (simp only: if_False)
  moreover have "wp (repo_update device_repo (d_id x) (\<lambda>r. r\<lparr>d_state := omerge (d_state x) (changed_fields (d_state x) patch)\<rparr>))
     (\<lambda>_. ?P) (\<lambda>_. ?P) w"
    using w dev db_ok_device_put [OF ok, of "x\<lparr>d_state := omerge (d_state x) (changed_fields (d_state x) patch)\<rparr>" x]
    by (simp add: wp_repo_update device_repo_def Let_def both_def)
  ultimately have "?P (snd (persist_state fresh bus x patch c l w))"
    by (auto simp: bnd_def wp_def preserves_def split: prod.splits sum.splits)
  then show ?thesis by (simp add: both_def)
qed

subsection \<open>Properties\<close>

text \<open>
  C17. A bound physical device stays in the house of its binding: whatever requests create, move,
  edit or delete houses, floors, rooms and devices, every device row with a physical binding still
  exists and its room and floor still lead to the house it was claimed for.
\<close>

theorem bound_devices_stay_home:
  assumes "bound_home (committed w)"
    and "p \<in> set (physical_devices (committed (fold structure_step calls w)))"
    and "p_bound_device_id p = Some b"
  shows "\<exists>h. p_house_id p = Some h \<and> location_house (committed (fold structure_step calls w)) b = Some h"
proof -
  have "at_home w" using assms(1) by (simp add: at_home_def)
  from structure_runs.inv_run [OF this, of calls] have "bound_home (committed (fold structure_step calls w))"
    by (simp add: at_home_def)
  from bound_home_row [OF this assms(2,3)] show ?thesis by auto
qed

definition ex_moves :: "structure_call list" where
  "ex_moves = [Delete_floor ''f1'',
     Update_floor ''f1'' \<lparr>fu_house_id = Some ''h2'', fu_name = None, fu_order = None\<rparr>,
     Create_floor \<lparr>fc_id = ''f2'', fc_house_id = ''h2'', fc_name = ''G'', fc_order = 1\<rparr>,
     Update_room ''r1'' \<lparr>ru_floor_id = Some ''f2'', ru_name = None, ru_icon = None\<rparr>,
     Update_room ''r2'' \<lparr>ru_floor_id = Some ''f2'', ru_name = None, ru_icon = None\<rparr>,
     Delete_house ''h1'']"

lemma ex_moves_run: "map (\<lambda>r. (r_id r, r_floor_id r)) (rooms (committed (fold structure_step ex_moves ex_bound))) =
    [(''r1'', ''f1''), (''r2'', ''f2'')] \<and>
    physical_devices (committed (fold structure_step ex_moves ex_bound)) = [ex_bound_row]"
  by code_simp

theorem bound_devices_stay_home_witness:
  "location_house (committed (fold structure_step ex_moves ex_bound)) ''d1'' = Some ''h1''"
proof -
  have "bound_home (committed ex_bound)" by code_simp
  moreover have "ex_bound_row \<in> set (physical_devices (committed (fold structure_step ex_moves ex_bound)))"
    using ex_moves_run by simp
  moreover have "p_bound_device_id ex_bound_row = Some ''d1''" "p_house_id ex_bound_row = Some ''h1''"
    by code_simp+
  ultimately show ?thesis using bound_devices_stay_home by fastforce
qed

text \<open>
  What the generic edit requests leave of a device: everything but its name and its room. The
  fields that have a value are among the fields the request set, as the schema class has it.
\<close>

definition core_fields :: "device_row \<Rightarrow> string \<times> string \<times> obj \<times> string list \<times> obj \<times> bool" where
  "core_fields r = (d_id r, d_type r, d_state r, d_capabilities r, d_metadata r, d_online r)"

definition fields_declared :: "device_update \<Rightarrow> bool" where
  "fields_declared u \<longleftrightarrow>
     (du_type u \<noteq> None \<longrightarrow> ''type'' \<in> set (du_fields_set u)) \<and>
     (du_state u \<noteq> None \<longrightarrow> ''state'' \<in> set (du_fields_set u)) \<and>
     (du_online u \<noteq> None \<longrightarrow> ''online'' \<in> set (du_fields_set u)) \<and>
     (du_capabilities u \<noteq> None \<longrightarrow> ''capabilities'' \<in> set (du_fields_set u)) \<and>
     (du_metadata u \<noteq> None \<longrightarrow> ''metadata'' \<in> set (du_fields_set u))"

lemma tput_core_fields:
  assumes "unique d_id rows" and "tget d_id k rows = Some r" and "core_fields r' = core_fields r"
  shows "map core_fields (tput d_id r' rows) = map core_fields rows"
proof -
  have r: "r \<in> set rows" "d_id r = k" "d_id r' = k" using assms(2,3) by (auto simp: core_fields_def dest: tget_SomeD)
  have "core_fields x = core_fields r'" if "x \<in> set rows" "d_id x = d_id r'" for x
    using unique_eqD [OF assms(1) that(1) r(1)] that(2) r(2,3) assms(3) by simp
  then show ?thesis by (auto simp: tput_def)
qed

text \<open>The edit of a physical device: refused, or no field but the name and the room changes.\<close>

lemma update_physical:
  assumes "tget p_device_id k (physical_devices (work w)) = Some p"
    and "work w = committed w" and "db_ok (committed w)" and "fields_declared u"
  shows "wp (update_device k u)
    (\<lambda>_ v. set (du_fields_set u) \<subseteq> {''name'', ''room_id''} \<and>
       map core_fields (devices (committed v)) = map core_fields (devices (committed w)))
    (\<lambda>_ v. committed v = committed w) w"
proof -
  have uniq: "unique d_id (devices (committed w))" using assms(3) by (simp add: db_ok_def structure_ok_def)
  have same: "core_fields (device_values u r) = core_fields r"
    if "set (du_fields_set u) \<subseteq> {''name'', ''room_id''}" for r
  proof -
    have "f \<in> set (du_fields_set u) \<Longrightarrow> f = ''name'' \<or> f = ''room_id''" for f using that by blast
    then have "du_type u = None" "du_state u = None" "du_online u = None" "du_capabilities u = None"
      "du_metadata u = None"
      using assms(4) unfolding fields_declared_def by fastforce+
    then show ?thesis by (simp add: core_fields_def device_values_def dflt_def)
  qed
  have rows: "map core_fields (tput d_id (device_values u r) (devices (committed w))) =
      map core_fields (devices (committed w))"
    if "tget d_id k (devices (committed w)) = Some r" "set (du_fields_set u) \<subseteq> {''name'', ''room_id''}" for r
    by (rule tput_core_fields [OF uniq that(1) same [OF that(2)]])
  let ?S = "set (du_fields_set u) \<subseteq> {''name'', ''room_id''}"
  let ?Q = "\<lambda>v. ?S \<and> map core_fields (devices (committed v)) = map core_fields (devices (committed w))"
  let ?E = "\<lambda>_ v. committed v = committed w"
  have guard: "only_reads (structure_mutation kind e target deleting)" for kind e target deleting
    unfolding structure_mutation_def structure_house_def bound_in_structure_def andthen_def
    by (intro only_reads_intros)
  have put: "wp (repo_update device_repo k (device_values u)) (\<lambda>_. ?Q) ?E w" if ?S
    using rows that assms(2) by (auto simp: wp_repo_update device_repo_def Let_def split: option.splits)
  have rest: "wp (andthen (case du_room_id u of None \<Rightarrow> ret () | Some r \<Rightarrow> validate_room r)
     (andthen (if du_state u = None \<and> du_capabilities u = None then ret ()
        else bnd (device_get k) (\<lambda>current.
          lift (validate_capabilities (dflt (d_capabilities current) (du_capabilities u))
            (dflt (d_state current) (du_state u)))))
     (repo_update device_repo k (device_values u)))) (\<lambda>_. ?Q) ?E w" if ?S
    using put [OF that]
    by (intro reads_andthen_wp) (auto intro!: only_reads_intros checks_only_read split: option.splits)
  show ?thesis
    unfolding update_device_def
  proof (rule reads_bnd_wp [OF checks_only_read(4)], rule reads_andthen_wp [OF guard],
      rule reads_bnd_wp [OF checks_only_read(4)], rule reads_andthen_wp [OF only_reads_intros(2)])
    show "wp (bnd (by_device k) (\<lambda>physical. andthen (reject (physical \<noteq> None \<and> \<not> ?S) ConflictError)
      (andthen (case du_room_id u of None \<Rightarrow> ret () | Some r \<Rightarrow> validate_room r)
     (andthen (if du_state u = None \<and> du_capabilities u = None then ret ()
        else bnd (device_get k) (\<lambda>current.
          lift (validate_capabilities (dflt (d_capabilities current) (du_capabilities u))
            (dflt (d_state current) (du_state u)))))
     (repo_update device_repo k (device_values u)))))) (\<lambda>_. ?Q) ?E w"
      using rest assms(1) by (simp add: wp_bnd wp_andthen by_device_def wp_simps(1-5) wp_query wp_reject)
  qed simp_all
qed

text \<open>
  C18. The state of a physical device is never written or commanded through the generic requests of
  the device service. Setting it raises, for every transport, patch and event handler, before
  anything is sent, published or stored; creating a device under its identifier raises; an edit
  that sets any field but the name and the room raises, and one that succeeds leaves the type,
  state, capabilities, metadata and online flag of every device as they were. What does write
  the state is \<open>report_state\<close>, the report of the device itself: it raises and changes nothing unless
  the inventory row is active and the device is in the house the row is bound to.
\<close>

theorem physical_state_not_written:
  assumes "tget p_device_id device_id (physical_devices (work w)) = Some p"
    and "work w = committed w" and "db_ok (committed w)" and "fields_declared u" and "dc_id x = device_id"
  shows "(\<exists>e. update_state fresh bus env transport device_id patch correlation_id level w = (Inl e, w)) \<and>
    (\<exists>e. create_device x w = (Inl e, w)) \<and>
    (case update_device device_id u w of
       (Inl e, v) \<Rightarrow> committed v = committed w
     | (Inr _, v) \<Rightarrow> set (du_fields_set u) \<subseteq> {''name'', ''room_id''} \<and>
         map core_fields (devices (committed v)) = map core_fields (devices (committed w))) \<and>
    (p_status p = Active \<and> p_house_id p = location_house (work w) device_id \<and> p_house_id p \<noteq> None \<or>
      (\<exists>e. report_state fresh bus house device_id patch correlation_id w = (Inl e, w)))"
proof (intro conjI)
  show "\<exists>e. update_state fresh bus env transport device_id patch correlation_id level w = (Inl e, w)"
    using assms(1)
    by (auto simp: update_state_def require_active_def require_command_contract_def by_device_def
        structure_house_def found_def op_defs query_def split: option.splits sum.splits)
  show "\<exists>e. create_device x w = (Inl e, w)"
    using assms(1,5) by (simp add: create_device_def by_device_def op_defs query_def)
  show "case update_device device_id u w of
       (Inl e, v) \<Rightarrow> committed v = committed w
     | (Inr _, v) \<Rightarrow> set (du_fields_set u) \<subseteq> {''name'', ''room_id''} \<and>
         map core_fields (devices (committed v)) = map core_fields (devices (committed w))"
    using update_physical [OF assms(1-4)] by (auto simp: wp_def split: prod.splits sum.splits)
  show "p_status p = Active \<and> p_house_id p = location_house (work w) device_id \<and> p_house_id p \<noteq> None \<or>
      (\<exists>e. report_state fresh bus house device_id patch correlation_id w = (Inl e, w))"
    using assms(1)
    by (auto simp: report_state_def require_house_def require_active_def by_device_def structure_house_def
        found_def op_defs query_def split: option.splits sum.splits)
qed

text \<open>Renaming the unclaimed device of the example and switching it in one request is refused.\<close>

definition ex_rename :: device_update where
  "ex_rename = \<lparr>du_name = Some ''Lamp'', du_room_id = None, du_type = None, du_state = Some [(''on'', JBool True)],
     du_online = None, du_capabilities = None, du_metadata = None, du_fields_set = [''name'', ''state'']\<rparr>"

definition ex_switch :: device_create where
  "ex_switch = \<lparr>dc_id = ''d1'', dc_name = ''Lamp'', dc_room_id = ''r1'', dc_type = ''relay'', dc_state = [],
     dc_online = True, dc_capabilities = [], dc_metadata = []\<rparr>"

theorem physical_state_not_written_witness:
  "(\<exists>e. update_state ex_fresh (\<lambda>_. ret ()) ex_env None ''d1'' [(''on'', JBool True)] [] 0 ex_core = (Inl e, ex_core)) \<and>
   (\<exists>e. fst (update_device ''d1'' ex_rename ex_core) = Inl e)"
proof -
  have "tget p_device_id ''d1'' (physical_devices (work ex_core)) = Some (hd (physical_devices (work ex_core)))"
    "db_ok (committed ex_core)"
    by code_simp+
  moreover have "work ex_core = committed ex_core" by (simp add: ex_core_def)
  moreover have "fields_declared ex_rename" "dc_id ex_switch = ''d1''"
    by (simp_all add: fields_declared_def ex_rename_def ex_switch_def)
  moreover have "\<not> set (du_fields_set ex_rename) \<subseteq> {''name'', ''room_id''}"
    by (simp add: ex_rename_def)
  ultimately show ?thesis
    using physical_state_not_written [of "''d1''" ex_core "hd (physical_devices (work ex_core))" ex_rename ex_switch
      ex_fresh "\<lambda>_. ret ()" ex_env None "[(''on'', JBool True)]" "[]" 0 "''h1''"]
    by (cases "update_device ''d1'' ex_rename ex_core"; cases "fst (update_device ''d1'' ex_rename ex_core)") simp_all
qed

text \<open>
  A validated report is merged into the stored state: the committed row of the device keeps
  every field the report does not name and takes the reported value of each field that differs;
  no other device row changes, whether or not the handlers of the event succeed.
\<close>

theorem report_state_stores:
  assumes "spares_devices bus" and "work w = committed w" and "db_ok (committed w)"
    and "require_house house_id device_id w = (Inr x, w)"
    and "validate_report (d_capabilities x) patch = Inr ()" and "distinct (map fst patch)"
  shows "\<exists>s. devices (committed (snd (report_state fresh bus house_id device_id patch c w))) =
      tput d_id (x\<lparr>d_state := s\<rparr>) (devices (committed w)) \<and>
    (\<forall>k. oget k s = (case alookup k patch of None \<Rightarrow> oget k (d_state x)
       | Some v \<Rightarrow> if py_eq (oget k (d_state x)) v then oget k (d_state x) else v))"
proof (intro exI conjI allI)
  have dev: "tget d_id device_id (devices (committed w)) = Some x"
    using assms(2,4) by (auto simp: require_house_def andthen_Inr_iff bnd_Inr_iff device_get_def repo_get_def
        repo_find_def device_repo_def device_house_id_def found_def split: option.splits)
  then have dev': "tget d_id (d_id x) (devices (committed w)) = Some x" by (auto dest: tget_SomeD)
  have "report_state fresh bus house_id device_id patch c w = persist_state fresh bus x patch c 0 w"
    using assms(2,4,5) dev by (simp add: report_state_def bnd_def andthen_def device_get_def repo_get_def
        repo_find_def device_repo_def found_def)
  with persist_state_devices [OF assms(1-3) dev']
  show "devices (committed (snd (report_state fresh bus house_id device_id patch c w))) =
      tput d_id (x\<lparr>d_state := omerge (d_state x) (changed_fields (d_state x) patch)\<rparr>) (devices (committed w))"
    by simp
qed (rule oget_changed [OF assms(6)])

lemma ex_required: "require_house ''h1'' ''d0'' ex_world = (Inr (hd (devices (committed ex_world))), ex_world)"
  by code_simp

theorem report_state_stores_witness:
  "\<exists>s. devices (committed (snd (report_state ex_fresh (log_event ex_fresh) ''h1'' ''d0''
      [(''on'', JBool True)] ''c'' ex_world))) =
    tput d_id ((hd (devices (committed ex_world)))\<lparr>d_state := s\<rparr>) (devices (committed ex_world)) \<and>
    (\<forall>k. oget k s = (case alookup k [(''on'', JBool True)] of
         None \<Rightarrow> oget k (d_state (hd (devices (committed ex_world))))
       | Some v \<Rightarrow> if py_eq (oget k (d_state (hd (devices (committed ex_world))))) v
           then oget k (d_state (hd (devices (committed ex_world)))) else v))"
proof (rule report_state_stores [OF log_spares_devices _ _ ex_required])
  show "work ex_world = committed ex_world" "db_ok (committed ex_world)"
    by (simp_all add: ex_world_def ex_db_ok)
  show "validate_report (d_capabilities (hd (devices (committed ex_world)))) [(''on'', JBool True)] = Inr ()"
    by code_simp
qed simp

end
