(* ===== verification/Automations.thy ===== *)
theory Automations
  imports Devices "HOL-Library.Multiset"
begin

text \<open>
  \<open>app/services/scene_service.py\<close>, \<open>app/services/automation_service.py\<close> and the wiring of
  automations in \<open>app/main.py\<close>: scenes, rules, their conditions and actions, and the cascade
  of events that the actions of one rule raise for others.
\<close>

subsection \<open>Stored scenes and rules as schema values\<close>

text \<open>\<open>model_validate\<close> on a row, and \<open>model_dump\<close> of the request into a row.\<close>

definition scene_of_row :: "scene_row \<Rightarrow> scene_create" where
  "scene_of_row r = \<lparr>sc_id = s_id r, sc_name = s_name r, sc_house_id = s_house_id r, sc_actions = s_actions r\<rparr>"

definition row_of_scene :: "scene_create \<Rightarrow> scene_row" where
  "row_of_scene x = \<lparr>s_id = sc_id x, s_name = sc_name x, s_house_id = sc_house_id x, s_actions = sc_actions x\<rparr>"

definition check_scene :: "scene_create \<Rightarrow> exn + scene_create" where
  "check_scene x = (if scene_create_ok x then Inr x else Inl ValidationError)"

definition read_scene :: "scene_row \<Rightarrow> exn + scene_create" where
  "read_scene r = check_scene (scene_of_row r)"

definition rule_of_row :: "automation_row \<Rightarrow> automation_create" where
  "rule_of_row r = \<lparr>ac_id = a_id r, ac_name = a_name r, ac_house_id = a_house_id r, ac_enabled = a_enabled r,
     ac_trigger = a_trigger r, ac_conditions = a_conditions r, ac_actions = a_actions r\<rparr>"

definition row_of_rule :: "automation_create \<Rightarrow> automation_row" where
  "row_of_rule x = \<lparr>a_id = ac_id x, a_name = ac_name x, a_house_id = ac_house_id x, a_enabled = ac_enabled x,
     a_trigger = ac_trigger x, a_conditions = ac_conditions x, a_actions = ac_actions x\<rparr>"

definition read_rule :: "automation_row \<Rightarrow> exn + automation_create" where
  "read_rule r = check_automation (rule_of_row r)"

subsection \<open>Scenes\<close>

definition same_house :: "string \<Rightarrow> string \<Rightarrow> ('z world_scheme, unit) op" where
  "same_house house_id device_id =
     bnd (device_house_id device_id) (\<lambda>h. reject (h \<noteq> house_id) InvalidReferenceError)"

definition scene_validate :: "scene_create \<Rightarrow> ('z world_scheme, unit) op" where
  "scene_validate x =
     bnd (repo_exists house_repo (sc_house_id x)) (\<lambda>ok.
     andthen (reject (\<not> ok) InvalidReferenceError)
     (for_each (\<lambda>a. same_house (sc_house_id x) (act_device_id a)) (sc_actions x)))"

definition scene_list :: "('z world_scheme, scene_create list) op" where
  "scene_list = bnd (repo_list scene_repo) (\<lambda>rows. lift (emap read_scene rows))"

definition scene_get :: "string \<Rightarrow> ('z world_scheme, scene_create) op" where
  "scene_get scene_id = bnd (repo_get scene_repo scene_id) (\<lambda>r. lift (read_scene r))"

definition scene_create_op :: "scene_create \<Rightarrow> ('z world_scheme, scene_create) op" where
  "scene_create_op x =
     andthen (scene_validate x)
     (bnd (repo_create scene_repo (row_of_scene x)) (\<lambda>r. lift (read_scene r)))"

definition scene_values :: "scene_update \<Rightarrow> scene_row \<Rightarrow> scene_row" where
  "scene_values u r = r\<lparr>s_name := dflt (s_name r) (su_name u), s_house_id := dflt (s_house_id r) (su_house_id u),
     s_actions := dflt (s_actions r) (su_actions u)\<rparr>"

text \<open>The candidate is the current reading with the values of the request, validated again.\<close>

definition scene_candidate :: "scene_update \<Rightarrow> scene_create \<Rightarrow> scene_create" where
  "scene_candidate u x = scene_of_row (scene_values u (row_of_scene x))"

definition scene_update_op :: "string \<Rightarrow> scene_update \<Rightarrow> ('z world_scheme, scene_create) op" where
  "scene_update_op scene_id u =
     bnd (scene_get scene_id) (\<lambda>current.
     bnd (lift (check_scene (scene_candidate u current))) (\<lambda>candidate.
     andthen (scene_validate candidate)
     (bnd (repo_update scene_repo scene_id (scene_values u)) (\<lambda>r. lift (read_scene r)))))"

definition scene_delete :: "string \<Rightarrow> ('z world_scheme, unit) op" where
  "scene_delete = repo_delete scene_repo"

text \<open>
  What the services hold: \<open>pr_bus\<close> is \<open>event_bus.publish\<close>, \<open>pr_transport\<close> the command
  transport, \<open>pr_sleep\<close> is \<open>asyncio.sleep\<close>, \<open>pr_time\<close> is \<open>now().time()\<close> in microseconds.
\<close>

record 'w process =
  pr_fresh :: "nat \<Rightarrow> string"
  pr_bus :: "'w handler"
  pr_env :: environment
  pr_transport :: "'w transport option"
  pr_sleep :: "pyfloat \<Rightarrow> ('w, unit) op"
  pr_time :: "('w, int) op"

definition process_update ::
  "'z core_scheme process \<Rightarrow> string \<Rightarrow> obj \<Rightarrow> string \<Rightarrow> int \<Rightarrow> ('z core_scheme, device_row) op" where
  "process_update P = update_state (pr_fresh P) (pr_bus P) (pr_env P) (pr_transport P)"

definition scene_run :: "'z core_scheme process \<Rightarrow> string \<Rightarrow> ('z core_scheme, scene_create) op" where
  "scene_run P scene_id =
     bnd (scene_get scene_id) (\<lambda>x.
     andthen (scene_validate x)
     (andthen (for_each (\<lambda>a. bnd (process_update P (act_device_id a) (act_state a) [] 0) (\<lambda>_. ret ())) (sc_actions x))
     (bnd (new_event (pr_fresh P) ''scene_started''
         [(''scene_id'', JStr (sc_id x)), (''house_id'', JStr (sc_house_id x))] [] 0) (\<lambda>e.
     andthen (in_session (pr_bus P e))
     (ret x)))))"

subsection \<open>Comparisons and times\<close>

definition MAX_AUTOMATION_DEPTH :: int where
  "MAX_AUTOMATION_DEPTH = 8"

text \<open>A comparison that Python refuses (\<open>TypeError\<close>) is false, as is an unknown operator.\<close>

definition compare :: "json \<Rightarrow> string \<Rightarrow> json \<Rightarrow> bool" where
  "compare actual operator expected =
     (if operator = ''eq'' then py_eq actual expected
      else if operator = ''neq'' then \<not> py_eq actual expected
      else if operator = ''gt'' then dflt False (py_order OpGt actual expected)
      else if operator = ''gte'' then dflt False (py_order OpGe actual expected)
      else if operator = ''lt'' then dflt False (py_order OpLt actual expected)
      else if operator = ''lte'' then dflt False (py_order OpLe actual expected)
      else False)"

text \<open>
  \<open>time.fromisoformat\<close> on the texts that \<open>valid_time\<close> returns, in microseconds since midnight;
  no other text reaches it.
\<close>

definition MINUTE :: int where
  "MINUTE = 60000000"

definition time_fromisoformat :: "string \<Rightarrow> exn + int" where
  "time_fromisoformat s =
     (let parts = split_on (CHR '':'') s; h = nat_of_digits (parts ! 0); m = nat_of_digits (parts ! 1) in
      if length parts = 2 \<and> list_all (\<lambda>p. length p = 2 \<and> list_all is_digit p) parts \<and> h \<le> 23 \<and> m \<le> 59
      then Inr ((60 * int h + int m) * MINUTE) else Inl ValueError)"

definition time_matches :: "string \<Rightarrow> string \<Rightarrow> int \<Rightarrow> exn + bool" where
  "time_matches after_text before_text current =
     ebind (time_fromisoformat after_text) (\<lambda>after.
     ebind (time_fromisoformat before_text) (\<lambda>before.
     Inr (if after \<le> before then after \<le> current \<and> current \<le> before
          else after \<le> current \<or> current \<le> before)))"

subsection \<open>Rules\<close>

fun condition_device :: "automation_condition \<Rightarrow> string list" where
  "condition_device (DeviceStateCondition t) = [tr_device_id t]"
| "condition_device (TimeCondition _ _) = []"

fun action_device :: "automation_action \<Rightarrow> string list" where
  "action_device (DeviceAction a) = [act_device_id a]"
| "action_device (DelayAction _) = []"

definition rule_devices :: "automation_create \<Rightarrow> string list" where
  "rule_devices x = tr_device_id (ac_trigger x) # concat (map condition_device (ac_conditions x)) @
     concat (map action_device (ac_actions x))"

text \<open>\<open>StateValidator.validate\<close> on the device of a field, a condition or an action.\<close>

definition validate_fields :: "string \<Rightarrow> obj \<Rightarrow> ('z world_scheme, unit) op" where
  "validate_fields device_id state =
     bnd (device_get device_id) (\<lambda>dev. lift (validate (d_capabilities dev) state))"

fun validate_condition :: "automation_condition \<Rightarrow> ('z world_scheme, unit) op" where
  "validate_condition (DeviceStateCondition t) = validate_fields (tr_device_id t) [(tr_field t, tr_value t)]"
| "validate_condition (TimeCondition _ _) = ret ()"

fun validate_action :: "automation_action \<Rightarrow> ('z world_scheme, unit) op" where
  "validate_action (DeviceAction a) = validate_fields (act_device_id a) (act_state a)"
| "validate_action (DelayAction _) = ret ()"

definition rule_validate :: "automation_create \<Rightarrow> ('z world_scheme, unit) op" where
  "rule_validate x =
     bnd (repo_exists house_repo (ac_house_id x)) (\<lambda>ok.
     andthen (reject (\<not> ok) InvalidReferenceError)
     (andthen (for_each (\<lambda>device_id. andthen (device_get device_id) (same_house (ac_house_id x) device_id))
        (rule_devices x))
     (andthen (validate_fields (tr_device_id (ac_trigger x)) [(tr_field (ac_trigger x), tr_value (ac_trigger x))])
     (andthen (for_each validate_condition (ac_conditions x))
     (for_each validate_action (ac_actions x))))))"

definition validate_read_rule :: "automation_create \<Rightarrow> ('z world_scheme, unit) op" where
  "validate_read_rule x = bnd (lift (check_automation x)) rule_validate"

definition rule_list :: "('z world_scheme, automation_create list) op" where
  "rule_list = bnd (repo_list automation_repo) (\<lambda>rows. lift (emap read_rule rows))"

definition rule_get :: "string \<Rightarrow> ('z world_scheme, automation_create) op" where
  "rule_get entity_id = bnd (repo_get automation_repo entity_id) (\<lambda>r. lift (read_rule r))"

definition rule_create :: "automation_create \<Rightarrow> ('z world_scheme, automation_create) op" where
  "rule_create x =
     andthen (rule_validate x)
     (bnd (repo_create automation_repo (row_of_rule x)) (\<lambda>r. lift (read_rule r)))"

definition rule_values :: "automation_update \<Rightarrow> automation_row \<Rightarrow> automation_row" where
  "rule_values u r = r\<lparr>a_name := dflt (a_name r) (au_name u), a_house_id := dflt (a_house_id r) (au_house_id u),
     a_enabled := dflt (a_enabled r) (au_enabled u), a_trigger := dflt (a_trigger r) (au_trigger u),
     a_conditions := dflt (a_conditions r) (au_conditions u), a_actions := dflt (a_actions r) (au_actions u)\<rparr>"

definition rule_candidate :: "automation_update \<Rightarrow> automation_create \<Rightarrow> automation_create" where
  "rule_candidate u x = rule_of_row (rule_values u (row_of_rule x))"

definition rule_update :: "string \<Rightarrow> automation_update \<Rightarrow> ('z world_scheme, automation_create) op" where
  "rule_update entity_id u =
     bnd (rule_get entity_id) (\<lambda>current.
     bnd (lift (check_automation (rule_candidate u current))) (\<lambda>candidate.
     andthen (rule_validate candidate)
     (bnd (repo_update automation_repo entity_id (rule_values u)) (\<lambda>r. lift (read_rule r)))))"

definition rule_delete :: "string \<Rightarrow> ('z world_scheme, unit) op" where
  "rule_delete = repo_delete automation_repo"

definition set_enabled :: "string \<Rightarrow> bool \<Rightarrow> ('z world_scheme, automation_create) op" where
  "set_enabled entity_id enabled =
     bnd (repo_update automation_repo entity_id (\<lambda>r. r\<lparr>a_enabled := enabled\<rparr>)) (\<lambda>r. lift (read_rule r))"

subsection \<open>Running a rule\<close>

definition publish_status ::
  "'z core_scheme process \<Rightarrow> string \<Rightarrow> automation_create \<Rightarrow> event \<Rightarrow> obj \<Rightarrow> ('z core_scheme, unit) op" where
  "publish_status P event_type x source extra =
     bnd (new_event (pr_fresh P) event_type
       (omerge [(''automation_id'', JStr (ac_id x)), (''house_id'', JStr (ac_house_id x))] extra)
       (e_correlation_id source) (e_depth source)) (\<lambda>e.
     in_session (pr_bus P e))"

text \<open>\<open>type(error).__name__\<close>; the cancellation of the task is not caught.\<close>

definition exn_name :: "exn \<Rightarrow> string" where
  "exn_name e = (case e of
      EntityNotFoundError \<Rightarrow> ''EntityNotFoundError'' | ConflictError \<Rightarrow> ''ConflictError''
    | InvalidReferenceError \<Rightarrow> ''InvalidReferenceError'' | UnavailableError \<Rightarrow> ''UnavailableError''
    | ValueError \<Rightarrow> ''ValueError'' | TypeError \<Rightarrow> ''TypeError'' | KeyError \<Rightarrow> ''KeyError''
    | ValidationError \<Rightarrow> ''ValidationError'' | PermissionDenied \<Rightarrow> ''PermissionError''
    | AuthenticationError \<Rightarrow> ''AuthenticationError'' | TokenError \<Rightarrow> ''TokenError''
    | IntegrityError \<Rightarrow> ''IntegrityError'' | ConnectionError \<Rightarrow> ''ConnectionError''
    | HTTPException _ \<Rightarrow> ''HTTPException'' | ProvisioningConflict \<Rightarrow> ''ProvisioningConflict''
    | ProvisioningExpired \<Rightarrow> ''ProvisioningExpired'' | AttributeError \<Rightarrow> ''AttributeError''
    | RuntimeError \<Rightarrow> ''RuntimeError'' | TransportError \<Rightarrow> ''MqttError''
    | TimeoutError \<Rightarrow> ''TimeoutError'' | CancelledError \<Rightarrow> ''CancelledError''
    | RequestValidationError \<Rightarrow> ''RequestValidationError'' | OSError \<Rightarrow> ''OSError'')"

definition failed_status ::
  "'z core_scheme process \<Rightarrow> automation_create \<Rightarrow> event \<Rightarrow> exn \<Rightarrow> ('z core_scheme, unit) op" where
  "failed_status P x source error =
     (if is_exception error
      then publish_status P ''automation_failed'' x source [(''error'', JStr (exn_name error))]
      else raise error)"

fun run_action :: "'z core_scheme process \<Rightarrow> event \<Rightarrow> automation_action \<Rightarrow> ('z core_scheme, unit) op" where
  "run_action P source (DelayAction s) = in_session (pr_sleep P s)"
| "run_action P source (DeviceAction a) =
     bnd (process_update P (act_device_id a) (act_state a) (e_correlation_id source) (e_depth source + 1))
       (\<lambda>_. ret ())"

definition execute ::
  "'z core_scheme process \<Rightarrow> automation_create \<Rightarrow> event \<Rightarrow> bool \<Rightarrow> ('z core_scheme, unit) op" where
  "execute P x source publish_trigger =
     handle
       (andthen (for_each (run_action P source) (ac_actions x))
       (andthen (if publish_trigger then publish_status P ''automation_triggered'' x source [] else ret ())
       (publish_status P ''automation_completed'' x source [])))
       (failed_status P x source)"

fun condition_holds :: "'z core_scheme process \<Rightarrow> automation_condition \<Rightarrow> ('z core_scheme, bool) op" where
  "condition_holds P (DeviceStateCondition t) =
     bnd (device_get (tr_device_id t)) (\<lambda>dev.
     ret (compare (oget (tr_field t) (d_state dev)) (tr_operator t) (tr_value t)))"
| "condition_holds P (TimeCondition after_text before_text) =
     bnd (pr_time P) (\<lambda>current. lift (time_matches after_text before_text current))"

primrec conditions_match :: "'z core_scheme process \<Rightarrow> automation_condition list \<Rightarrow> ('z core_scheme, bool) op" where
  "conditions_match P [] = ret True"
| "conditions_match P (c # cs) = bnd (condition_holds P c) (\<lambda>ok. if ok then conditions_match P cs else ret False)"

definition manual_run :: "'z core_scheme process \<Rightarrow> string \<Rightarrow> ('z core_scheme, automation_create) op" where
  "manual_run P entity_id =
     bnd (rule_get entity_id) (\<lambda>x.
     andthen (validate_read_rule x)
     (bnd (new_event (pr_fresh P) ''automation_triggered'' [] [] 0) (\<lambda>e.
     andthen (execute P x e True)
     (ret x))))"

text \<open>
  \<open>session.close()\<close> ends the transaction. The trigger of a rule is compared before the rule is
  validated; a \<open>data\<close> without \<open>device_id\<close> or \<open>state\<close> raises.
\<close>

definition data_member :: "string \<Rightarrow> obj \<Rightarrow> exn + json" where
  "data_member k d = (case alookup k d of None \<Rightarrow> Inl KeyError | Some v \<Rightarrow> Inr v)"

fun state_get :: "json \<Rightarrow> string \<Rightarrow> exn + json" where
  "state_get (JObj s) k = Inr (oget k s)"
| "state_get _ k = Inl AttributeError"

definition triggered :: "automation_create \<Rightarrow> event \<Rightarrow> exn + bool" where
  "triggered x e =
     ebind (data_member ''device_id'' (e_data e)) (\<lambda>device_id.
     if JStr (tr_device_id (ac_trigger x)) \<noteq> device_id then Inr False
     else
       ebind (data_member ''state'' (e_data e)) (\<lambda>state.
       ebind (state_get state (tr_field (ac_trigger x))) (\<lambda>actual.
       Inr (compare actual (tr_operator (ac_trigger x)) (tr_value (ac_trigger x))))))"

definition run_rule :: "'z core_scheme process \<Rightarrow> event \<Rightarrow> automation_create \<Rightarrow> ('z core_scheme, unit) op" where
  "run_rule P e x =
     bnd (lift (triggered x e)) (\<lambda>matches.
     if \<not> matches then ret ()
     else
       handle
         (andthen (validate_read_rule x)
         (bnd (conditions_match P (ac_conditions x)) (\<lambda>ok.
         if \<not> ok then ret ()
         else andthen rollback (execute P x e True))))
         (failed_status P x e))"

definition handle_event :: "'z core_scheme process \<Rightarrow> event \<Rightarrow> ('z core_scheme, unit) op" where
  "handle_event P e =
     (if e_type e \<noteq> ''device_state_changed'' \<or> MAX_AUTOMATION_DEPTH \<le> e_depth e then ret ()
      else case oget ''house_id'' (e_data e) of
        JStr house_id \<Rightarrow>
          if house_id = [] then ret ()
          else
            bnd (automations_enabled_for_house house_id) (\<lambda>rows.
            bnd (lift (emap read_rule rows)) (\<lambda>rules.
            andthen rollback
            (for_each (run_rule P e) rules)))
      | house \<Rightarrow> if truthy house then lift (Inl TypeError) else ret ())"

subsection \<open>Windows of the day\<close>

definition DAY :: int where
  "DAY = 1440 * MINUTE"

definition clock_text :: "nat \<Rightarrow> nat \<Rightarrow> string" where
  "clock_text h m = two_digits h @ '':'' @ two_digits m"

lemma time_of_clock_text:
  assumes "h \<le> 23" and "m \<le> 59"
  shows "time_fromisoformat (clock_text h m) = Inr ((60 * int h + int m) * MINUTE)"
proof -
  have "list_all is_digit (two_digits h)" "list_all is_digit (two_digits m)"
    using assms two_digits_digits [of h] two_digits_digits [of m] by (auto simp: list_all_iff)
  moreover have "length (two_digits h) = 2" "length (two_digits m) = 2" by (simp_all add: two_digits_def)
  ultimately show ?thesis
    using assms split_hh_mm [of h m]
    by (simp add: time_fromisoformat_def clock_text_def Let_def del: append_Cons)
qed

lemma window_cyclic:
  assumes "0 \<le> a" "a < D" "0 \<le> b" "b < D" "0 \<le> c" "c < (D :: int)"
  shows "(if a \<le> b then a \<le> c \<and> c \<le> b else a \<le> c \<or> c \<le> b) \<longleftrightarrow> (c - a) mod D \<le> (b - a) mod D"
proof -
  have wrap: "(x - a) mod D = (if a \<le> x then x - a else x - a + D)" if "0 \<le> x" "x < D" for x
  proof (cases "a \<le> x")
    case True
    then show ?thesis using that assms by (simp add: mod_pos_pos_trivial)
  next
    case False
    then have "(x - a + D) mod D = x - a + D" using that assms by (intro mod_pos_pos_trivial) auto
    with False show ?thesis by simp
  qed
  show ?thesis using assms wrap [of b] wrap [of c] by auto
qed

text \<open>
  C23. A time condition is a window on the circular day: for the times the schema accepts and a
  current time to the microsecond, it matches exactly when the clock, started at \<open>after\<close>, reaches
  the current time no later than \<open>before\<close>, also when the window passes midnight.
\<close>

theorem time_window_cyclic:
  assumes "valid_time after_request = Inr after_text" and "valid_time before_request = Inr before_text"
    and "0 \<le> current" and "current < DAY"
  shows "\<exists>a b. time_fromisoformat after_text = Inr a \<and> time_fromisoformat before_text = Inr b \<and>
    time_matches after_text before_text current = Inr ((current - a) mod DAY \<le> (b - a) mod DAY)"
proof -
  obtain h m where a: "h \<le> 23" "m \<le> 59" "after_text = clock_text h m"
    using assms(1) by (auto elim!: valid_time_Inr simp: clock_text_def)
  obtain h' m' where b: "h' \<le> 23" "m' \<le> 59" "before_text = clock_text h' m'"
    using assms(2) by (auto elim!: valid_time_Inr simp: clock_text_def)
  let ?a = "(60 * int h + int m) * MINUTE" and ?b = "(60 * int h' + int m') * MINUTE"
  have "0 \<le> ?a" "?a < DAY" "0 \<le> ?b" "?b < DAY"
    using a(1,2) b(1,2) by (auto simp: DAY_def MINUTE_def)
  from window_cyclic [OF this assms(3,4)] show ?thesis
    using a b by (simp add: time_matches_def time_of_clock_text)
qed

theorem time_window_cyclic_witness:
  "\<exists>a b. time_fromisoformat ''22:30'' = Inr a \<and> time_fromisoformat ''06:05'' = Inr b \<and>
    time_matches ''22:30'' ''06:05'' (23 * 60 * MINUTE) = Inr ((23 * 60 * MINUTE - a) mod DAY \<le> (b - a) mod DAY)"
proof (rule time_window_cyclic)
  show "valid_time ''22:30'' = Inr ''22:30''" "valid_time ''6:5'' = Inr ''06:05''" by code_simp+
qed (simp_all add: DAY_def MINUTE_def)

subsection \<open>Stored values stay readable\<close>

text \<open>The update schemas, as the framework validates them before a handler runs.\<close>

definition check_scene_update :: "scene_update \<Rightarrow> exn + scene_update" where
  "check_scene_update u =
     (if opt_ok (bounded 1 255) (su_name u) \<and> opt_ok (list_all device_action_ok) (su_actions u)
      then Inr u else Inl RequestValidationError)"

definition check_automation_update :: "automation_update \<Rightarrow> exn + automation_update" where
  "check_automation_update u =
     (if opt_ok (bounded 1 255) (au_name u) \<and> opt_ok trigger_ok (au_trigger u) \<and>
         opt_ok (\<lambda>xs. 1 \<le> length xs \<and> length xs \<le> 100 \<and> list_all automation_action_ok xs) (au_actions u)
      then case au_conditions u of
          None \<Rightarrow> Inr u
        | Some cs \<Rightarrow> ebind (emap check_condition cs) (\<lambda>ds. Inr (u\<lparr>au_conditions := Some ds\<rparr>))
      else Inl RequestValidationError)"

definition scene_readable :: "scene_row \<Rightarrow> bool" where
  "scene_readable r \<longleftrightarrow> read_scene r = Inr (scene_of_row r)"

definition rule_readable :: "automation_row \<Rightarrow> bool" where
  "rule_readable r \<longleftrightarrow> read_rule r = Inr (rule_of_row r)"

definition readable :: "db \<Rightarrow> bool" where
  "readable d \<longleftrightarrow> list_all scene_readable (scenes d) \<and> list_all rule_readable (automations d)"

lemma emap_Inr_iff: "emap f xs = Inr ys \<longleftrightarrow> list_all2 (\<lambda>x y. f x = Inr y) xs ys"
  by (induction xs arbitrary: ys) (auto simp: ebind_Inr_iff list_all2_Cons1)

lemma emap_self: "emap f xs = Inr xs \<longleftrightarrow> list_all (\<lambda>x. f x = Inr x) xs"
  by (auto simp: emap_Inr_iff list_all2_same list_all_iff)

lemma valid_time_idem: "valid_time s = Inr t \<Longrightarrow> valid_time t = Inr t"
  by (elim valid_time_Inr) (simp only: valid_time_canonical)

lemma check_condition_idem: "check_condition c = Inr c' \<Longrightarrow> check_condition c' = Inr c'"
  by (cases c) (auto simp: ebind_Inr_iff valid_time_idem split: if_splits)

lemma emap_condition_idem: "emap check_condition cs = Inr ds \<Longrightarrow> emap check_condition ds = Inr ds"
proof (induction cs arbitrary: ds)
  case (Cons c cs)
  then show ?case by (auto simp: ebind_Inr_iff check_condition_idem)
qed simp

lemma check_automation_Inr: "check_automation x = Inr y \<longleftrightarrow>
    bounded 1 64 (ac_id x) \<and> bounded 1 255 (ac_name x) \<and> trigger_ok (ac_trigger x) \<and>
    length (ac_conditions x) \<le> 50 \<and> 1 \<le> length (ac_actions x) \<and> length (ac_actions x) \<le> 100 \<and>
    list_all automation_action_ok (ac_actions x) \<and>
    (\<exists>cs. emap check_condition (ac_conditions x) = Inr cs \<and> y = x\<lparr>ac_conditions := cs\<rparr>)"
  by (auto simp: check_automation_def ebind_Inr_iff)

lemma emap_length: "emap f xs = Inr ys \<Longrightarrow> length ys = length xs"
  by (auto simp: emap_Inr_iff dest: list_all2_lengthD)

lemma check_automation_idem: "check_automation x = Inr y \<Longrightarrow> check_automation y = Inr y"
  unfolding check_automation_Inr by (auto dest: emap_condition_idem emap_length)

lemma check_automation_fixed:
  assumes "check_automation x = Inr y" and "emap check_condition (ac_conditions x) = Inr (ac_conditions x)"
  shows "y = x"
  using assms by (auto simp: check_automation_def split: if_splits)

lemma check_automation_conditions:
  assumes "check_automation x = Inr x"
  shows "emap check_condition (ac_conditions x) = Inr (ac_conditions x)"
proof -
  from assms obtain cs where "emap check_condition (ac_conditions x) = Inr cs" "x = x\<lparr>ac_conditions := cs\<rparr>"
    by (auto simp: check_automation_Inr)
  then show ?thesis by (metis automation_create.select_convs(6) automation_create.surjective automation_create.update_convs(6))
qed

lemma rule_row [simp]: "rule_of_row (row_of_rule x) = x" "row_of_rule (rule_of_row r) = r"
  "scene_of_row (row_of_scene y) = y" "row_of_scene (scene_of_row q) = q"
  by (simp_all add: rule_of_row_def row_of_rule_def scene_of_row_def row_of_scene_def)

text \<open>The row that an accepted edit stores reads back as the validated candidate.\<close>

lemma rule_values_readable:
  assumes "rule_readable r" and "check_automation_update u = Inr u'"
    and "check_automation (rule_candidate u' (rule_of_row r)) = Inr c"
  shows "rule_readable (rule_values u' r)"
proof -
  have "emap check_condition (a_conditions r) = Inr (a_conditions r)"
    using assms(1) check_automation_conditions [of "rule_of_row r"]
    by (simp add: rule_readable_def read_rule_def) (simp add: rule_of_row_def)
  moreover have "\<And>cs. au_conditions u' = Some cs \<Longrightarrow> emap check_condition cs = Inr cs"
    using assms(2) emap_condition_idem
    by (auto simp: check_automation_update_def ebind_Inr_iff split: if_splits option.splits)
  ultimately have "emap check_condition (ac_conditions (rule_candidate u' (rule_of_row r))) =
      Inr (ac_conditions (rule_candidate u' (rule_of_row r)))"
    by (cases "au_conditions u'") (simp_all add: rule_candidate_def, simp_all add: rule_of_row_def rule_values_def dflt_def)
  from check_automation_fixed [OF assms(3) this] assms(3) show ?thesis
    by (simp add: rule_readable_def read_rule_def rule_candidate_def)
qed

lemma scene_values_readable:
  "check_scene (scene_candidate u (scene_of_row r)) = Inr c \<Longrightarrow> scene_readable (scene_values u r)"
  by (auto simp: scene_readable_def read_scene_def scene_candidate_def check_scene_def split: if_splits)

lemma only_reads_for_each: "(\<And>x. only_reads (f x)) \<Longrightarrow> only_reads (for_each f xs)"
  by (induction xs) (simp_all add: only_reads_intros andthen_def)

lemma only_reads_validate: "only_reads (scene_validate x)" "only_reads (rule_validate y)"
proof -
  have house: "only_reads (same_house h k)" and fields: "only_reads (validate_fields k s)" for h k s
    by (auto simp: same_house_def validate_fields_def device_house_id_def device_get_def repo_get_def repo_find_def
        intro!: only_reads_intros)
  moreover have "only_reads (validate_condition c)" "only_reads (validate_action a)" for c a
    by (cases c; cases a; simp add: fields only_reads_intros)+
  ultimately show "only_reads (scene_validate x)" "only_reads (rule_validate y)"
    unfolding scene_validate_def rule_validate_def repo_exists_def repo_find_def device_get_def repo_get_def andthen_def
    by (auto intro!: only_reads_intros only_reads_for_each)
qed

lemma wp_get: "wp (scene_get k) Q E = (\<lambda>w. case tget s_id k (scenes (work w)) of None \<Rightarrow> E EntityNotFoundError w
      | Some r \<Rightarrow> (case read_scene r of Inl e \<Rightarrow> E e w | Inr x \<Rightarrow> Q x w))"
  "wp (rule_get k) Q' E = (\<lambda>w. case tget a_id k (automations (work w)) of None \<Rightarrow> E EntityNotFoundError w
      | Some r \<Rightarrow> (case read_rule r of Inl e \<Rightarrow> E e w | Inr x \<Rightarrow> Q' x w))"
  by (simp_all add: scene_get_def rule_get_def repo_get_def repo_find_def wp_simps scene_repo_def automation_repo_def
      cong: option.case_cong)

datatype library_call =
    New_scene scene_create | Edit_scene string scene_update | Remove_scene string
  | New_rule automation_create | Edit_rule string automation_update | Toggle_rule string bool | Remove_rule string

text \<open>The framework validates the body and only then calls the handler.\<close>

fun library_op :: "library_call \<Rightarrow> ('z world_scheme, unit) op" where
  "library_op (New_scene x) = bnd (lift (check_scene x)) (\<lambda>y. void (scene_create_op y))"
| "library_op (Edit_scene k u) = bnd (lift (check_scene_update u)) (\<lambda>v. void (scene_update_op k v))"
| "library_op (Remove_scene k) = scene_delete k"
| "library_op (New_rule x) = bnd (lift (check_automation x)) (\<lambda>y. void (rule_create y))"
| "library_op (Edit_rule k u) = bnd (lift (check_automation_update u)) (\<lambda>v. void (rule_update k v))"
| "library_op (Toggle_rule k b) = void (set_enabled k b)"
| "library_op (Remove_rule k) = rule_delete k"

definition library_step :: "library_call \<Rightarrow> 'z world_scheme \<Rightarrow> 'z world_scheme" where
  "library_step call w = snd (in_session (library_op call) w)"

lemma readable_append:
  "readable d \<Longrightarrow> scene_readable r \<Longrightarrow> readable (scenes_update (\<lambda>t. t @ [r]) d)"
  "readable d \<Longrightarrow> rule_readable q \<Longrightarrow> readable (automations_update (\<lambda>t. t @ [q]) d)"
  by (simp_all add: readable_def)

lemma readable_put:
  "readable d \<Longrightarrow> scene_readable r \<Longrightarrow> readable (scenes_update (tput s_id r) d)"
  "readable d \<Longrightarrow> rule_readable q \<Longrightarrow> readable (automations_update (tput a_id q) d)"
  by (auto simp: readable_def list_all_iff tput_def)

lemma readable_del:
  "readable d \<Longrightarrow> readable (d\<lparr>scenes := tdel p (scenes d)\<rparr>)"
  "readable d \<Longrightarrow> readable (d\<lparr>automations := tdel q (automations d)\<rparr>)"
  by (auto simp: readable_def list_all_iff tdel_def)

lemma wp_only_reads: "only_reads m \<Longrightarrow> wp m Q E = (\<lambda>s. case fst (m s) of Inl e \<Rightarrow> E e s | Inr x \<Rightarrow> Q x s)"
proof
  fix s assume "only_reads m"
  then have "snd (m s) = s" by (simp add: only_reads_def)
  then show "wp m Q E s = (case fst (m s) of Inl e \<Rightarrow> E e s | Inr x \<Rightarrow> Q x s)"
    by (cases "m s") (auto simp: wp_def split: sum.splits)
qed

lemmas wp_library = wp_simps wp_repo_create wp_repo_update wp_repo_delete wp_get Let_def void_def both_def
  wp_only_reads [OF only_reads_validate(1)] wp_only_reads [OF only_reads_validate(2)]

lemma tget_all: "list_all P rows \<Longrightarrow> tget key k rows = Some r \<Longrightarrow> P r"
  by (auto simp: list_all_iff dest: tget_SomeD)

lemma readable_get:
  "readable d \<Longrightarrow> tget s_id k (scenes d) = Some r \<Longrightarrow> scene_readable r"
  "readable d \<Longrightarrow> tget a_id k (automations d) = Some q \<Longrightarrow> rule_readable q"
  unfolding readable_def by (meson tget_all)+

lemma readable_edit:
  "readable d \<Longrightarrow> tget s_id k (scenes d) = Some r \<Longrightarrow> read_scene r = Inr x \<Longrightarrow>
    check_scene (scene_candidate u x) = Inr c \<Longrightarrow> readable (scenes_update (tput s_id (scene_values u r)) d)"
  "readable d \<Longrightarrow> tget a_id k (automations d) = Some q \<Longrightarrow> read_rule q = Inr y \<Longrightarrow>
    check_automation_update v = Inr v' \<Longrightarrow> check_automation (rule_candidate v' y) = Inr c' \<Longrightarrow>
    readable (automations_update (tput a_id (rule_values v' q)) d)"
  "readable d \<Longrightarrow> tget a_id k (automations d) = Some q \<Longrightarrow>
    readable (automations_update (tput a_id (q\<lparr>a_enabled := b\<rparr>)) d)"
proof -
  show "readable (scenes_update (tput s_id (scene_values u r)) d)"
    if "readable d" "tget s_id k (scenes d) = Some r" "read_scene r = Inr x" "check_scene (scene_candidate u x) = Inr c"
    using readable_put(1) [OF that(1)] readable_get(1) [OF that(1,2)] that(3,4) scene_values_readable
    by (simp add: scene_readable_def)
  show "readable (automations_update (tput a_id (rule_values v' q)) d)"
    if "readable d" "tget a_id k (automations d) = Some q" "read_rule q = Inr y" "check_automation_update v = Inr v'"
      "check_automation (rule_candidate v' y) = Inr c'"
    using readable_put(2) [OF that(1)] readable_get(2) [OF that(1,2)] that(3-) rule_values_readable
    by (simp add: rule_readable_def)
  show "readable (automations_update (tput a_id (q\<lparr>a_enabled := b\<rparr>)) d)"
    if "readable d" "tget a_id k (automations d) = Some q"
    using readable_put(2) [OF that(1)] readable_get(2) [OF that]
    by (simp add: rule_readable_def read_rule_def check_automation_Inr) (auto simp: rule_of_row_def)
qed

lemma pres_readable: "preserves (both readable) (library_op call)"
proof (rule preserves_wp)
  fix w :: "'a world_scheme"
  assume w: "both readable w"
  then have r: "readable (committed w)" "readable (work w)" by (simp_all add: both_def)
  show "wp (library_op call) (\<lambda>_. both readable) (\<lambda>_. both readable) w"
  proof (cases call)
    case (New_scene x)
    with r show ?thesis
      by (auto simp: wp_library scene_create_op_def check_scene_def scene_repo_def scene_readable_def read_scene_def
          intro!: readable_append split: sum.splits if_splits)
  next
    case (Edit_scene k u)
    with r show ?thesis
      by (auto simp: wp_library scene_update_op_def scene_repo_def check_scene_update_def
          intro: readable_edit split: sum.splits option.splits)
  next
    case (Remove_scene k)
    with r show ?thesis
      by (auto simp: wp_library scene_delete_def scene_repo_def intro: readable_del split: option.splits)
  next
    case (New_rule x)
    have "rule_readable (row_of_rule y)" if "check_automation x = Inr y" for y
      using check_automation_idem [OF that] by (simp add: rule_readable_def read_rule_def)
    with r New_rule show ?thesis
      by (auto simp: wp_library rule_create_def automation_repo_def intro!: readable_append split: sum.splits)
  next
    case (Edit_rule k u)
    with r show ?thesis
      by (auto simp: wp_library rule_update_def automation_repo_def
          intro: readable_edit split: sum.splits option.splits)
  next
    case (Toggle_rule k b)
    with r show ?thesis
      by (auto simp: wp_library set_enabled_def automation_repo_def
          intro: readable_edit split: sum.splits option.splits)
  next
    case (Remove_rule k)
    with r show ?thesis
      by (auto simp: wp_library rule_delete_def automation_repo_def intro: readable_del split: option.splits)
  qed
qed

interpretation library_runs: invariant_machine library_step "both readable"
  unfolding library_step_def by unfold_locales (rule preservesD [OF pres_both_in_session [OF pres_readable]])

text \<open>
  C22. Stored scenes and rules are always well-typed: after any sequence of creations, edits, toggles
  and deletions, with whatever request bodies, every stored row reads back through its schema as
  exactly what is stored, so no listing, run or trigger meets a row it cannot read.
\<close>

theorem stored_rules_readable:
  assumes "readable (committed w)" and "work w = committed w"
    and "r \<in> set (automations (committed (fold library_step calls w)))"
    and "q \<in> set (scenes (committed (fold library_step calls w)))"
  shows "read_rule r = Inr (rule_of_row r) \<and> read_scene q = Inr (scene_of_row q)"
proof -
  have "both readable w" using assms(1,2) by (simp add: both_def)
  from library_runs.inv_run [OF this, of calls] show ?thesis
    using assms(3,4) by (auto simp: both_def readable_def list_all_iff rule_readable_def scene_readable_def)
qed

definition ex_rule :: automation_create where
  "ex_rule = \<lparr>ac_id = ''a1'', ac_name = ''R'', ac_house_id = ''h1'', ac_enabled = True,
     ac_trigger = \<lparr>tr_device_id = ''d0'', tr_field = ''on'', tr_operator = ''eq'', tr_value = JBool True\<rparr>,
     ac_conditions = [TimeCondition ''7:5'' ''22:00''],
     ac_actions = [DelayAction (Fin 2), DeviceAction \<lparr>act_device_id = ''d0'', act_state = [(''on'', JBool False)]\<rparr>]\<rparr>"

definition ex_library :: "library_call list" where
  "ex_library = [New_rule ex_rule,
     New_scene \<lparr>sc_id = ''s1'', sc_name = ''N'', sc_house_id = ''h1'',
       sc_actions = [\<lparr>act_device_id = ''d0'', act_state = [(''on'', JBool True)]\<rparr>]\<rparr>,
     Edit_rule ''a1'' \<lparr>au_name = None, au_house_id = None, au_enabled = None, au_trigger = None,
       au_conditions = Some [TimeCondition ''8:5'' ''9:00''], au_actions = None\<rparr>,
     Toggle_rule ''a1'' False]"

definition ex_library_world :: world where
  "ex_library_world = fold library_step ex_library ex_world"

lemma ex_library_world:
  "map (\<lambda>r. (a_conditions r, a_enabled r)) (automations (committed ex_library_world)) =
     [([TimeCondition ''08:05'' ''09:00''], False)] \<and> length (scenes (committed ex_library_world)) = 1"
  by code_simp

theorem stored_rules_readable_witness:
  "read_rule (hd (automations (committed ex_library_world))) =
      Inr (rule_of_row (hd (automations (committed ex_library_world)))) \<and>
    read_scene (hd (scenes (committed ex_library_world))) =
      Inr (scene_of_row (hd (scenes (committed ex_library_world))))"
  unfolding ex_library_world_def
proof (rule stored_rules_readable)
  show "readable (committed ex_world)" by code_simp
  show "work ex_world = committed ex_world" by (simp add: ex_world_def)
  have "automations (committed ex_library_world) \<noteq> []" "scenes (committed ex_library_world) \<noteq> []"
    using ex_library_world by auto
  then show "hd (automations (committed (fold library_step ex_library ex_world)))
      \<in> set (automations (committed (fold library_step ex_library ex_world)))"
    "hd (scenes (committed (fold library_step ex_library ex_world)))
      \<in> set (scenes (committed (fold library_step ex_library ex_world)))"
    by (simp_all add: ex_library_world_def)
qed

subsection \<open>Failures stay inside a rule\<close>

text \<open>Operations that are never cancelled, and operations that always return.\<close>

definition calm :: "('s, 'a) op \<Rightarrow> bool" where
  "calm m \<longleftrightarrow> (\<forall>s. fst (m s) \<noteq> Inl CancelledError)"

definition returns :: "('s, 'a) op \<Rightarrow> bool" where
  "returns m \<longleftrightarrow> (\<forall>s. \<exists>x t. m s = (Inr x, t))"

named_theorems calm_rules \<open>operations that are never cancelled\<close>

lemma calm_basic [calm_rules]:
  "calm (ret x)" "e \<noteq> CancelledError \<Longrightarrow> calm (raise e)" "e \<noteq> CancelledError \<Longrightarrow> calm (reject b e)"
  "r \<noteq> Inl CancelledError \<Longrightarrow> calm (lift r)" "calm (query f)" "calm (found y)" "calm (store g)"
  "calm commit" "calm rollback" "calm (draw h)" "calm (gets k)" "calm (modify u)"
  by (auto simp: calm_def op_defs query_def found_def store_def commit_def rollback_def draw_def split: option.splits)

lemma calm_bnd [calm_rules]: "calm m \<Longrightarrow> (\<And>x. calm (f x)) \<Longrightarrow> calm (bnd m f)"
  by (auto simp: calm_def bnd_def split: prod.splits sum.splits) (metis fst_conv)+

lemma calm_andthen [calm_rules]: "calm m \<Longrightarrow> calm k \<Longrightarrow> calm (andthen m k)"
  by (simp add: andthen_def calm_bnd)

lemma calm_handle [calm_rules]: "(\<And>e. e \<noteq> CancelledError \<Longrightarrow> calm (h e)) \<Longrightarrow> calm m \<Longrightarrow> calm (handle m h)"
  by (auto simp: calm_def handle_def split: prod.splits sum.splits) (metis fst_conv)+

lemma calm_if [calm_rules]: "calm m \<Longrightarrow> calm k \<Longrightarrow> calm (if b then m else k)"
  by simp

lemma calm_option [calm_rules]:
  "(x = None \<Longrightarrow> calm m) \<Longrightarrow> (\<And>y. x = Some y \<Longrightarrow> calm (f y)) \<Longrightarrow> calm (case x of None \<Rightarrow> m | Some y \<Rightarrow> f y)"
  by (cases x) simp_all

lemma calm_for_each [calm_rules]: "(\<And>x. calm (f x)) \<Longrightarrow> calm (for_each f xs)"
  by (induction xs) (auto intro: calm_rules)

lemma calm_in_session [calm_rules]: "calm m \<Longrightarrow> calm (in_session m)"
  by (auto simp: calm_def in_session_def split: prod.splits) (metis fst_conv)

lemma calm_returns: "returns m \<Longrightarrow> calm m"
  by (auto simp: returns_def calm_def) (metis Inl_Inr_False fst_conv)

lemma calm_pair [calm_rules]: "(\<And>x y. calm (f x y)) \<Longrightarrow> calm (case p of (x, y) \<Rightarrow> f x y)"
  by (cases p) simp

lemma calm_command_now: "calm (command_now r)"
  unfolding command_now_def Let_def by (intro calm_rules) auto

lemma calm_clock [calm_rules]: "calm (ledger_now env)"
proof -
  have "fst (command_now (env_wall env n) c) \<noteq> Inl CancelledError" for n c
    using calm_command_now by (simp add: calm_def)
  then show ?thesis
    by (auto simp: calm_def ledger_now_def next_read_def bnd_def split: prod.splits) (metis fst_conv)
qed

lemma calm_save [calm_rules]: "calm save"
  unfolding save_def by (intro calm_rules) auto

lemma seq_calm: "r \<noteq> Inl CancelledError \<Longrightarrow> k \<noteq> Inl CancelledError \<Longrightarrow> seq r k \<noteq> Inl CancelledError"
  by (auto simp: seq_def split: sum.splits)

lemma ebind_calm: "r \<noteq> Inl CancelledError \<Longrightarrow> (\<And>x. f x \<noteq> Inl CancelledError) \<Longrightarrow> ebind r f \<noteq> Inl CancelledError"
  by (cases r) auto

lemma emap_calm: "(\<And>x. f x \<noteq> Inl CancelledError) \<Longrightarrow> emap f xs \<noteq> Inl CancelledError"
  by (induction xs) (simp_all del: ebind_simps add: ebind_calm)

lemma calm_checks [calm_rules]:
  "validate caps s \<noteq> Inl CancelledError" "validate_command caps s \<noteq> Inl CancelledError"
  "check_automation x \<noteq> Inl CancelledError" "time_matches a b t \<noteq> Inl CancelledError"
proof -
  show fields: "validate caps s \<noteq> Inl CancelledError"
    by (simp add: validate_def validate_capabilities_def)
  have "validate_values s \<noteq> Inl CancelledError" using validate_only_invalid_reference(2) by fastforce
  with fields show "validate_command caps s \<noteq> Inl CancelledError"
    unfolding validate_command_def Let_def by (intro seq_calm) auto
  have "check_condition c \<noteq> Inl CancelledError" for c
    by (cases c) (auto intro!: ebind_calm simp: valid_time_def Let_def)
  then show "check_automation x \<noteq> Inl CancelledError"
    unfolding check_automation_def by (simp add: ebind_calm emap_calm)
  show "time_matches a b t \<noteq> Inl CancelledError"
    unfolding time_matches_def by (intro ebind_calm) (auto simp: time_fromisoformat_def Let_def)
qed

text \<open>What a process is given: handlers that return, and calls that are not cancelled.\<close>

definition well_behaved :: "'z core_scheme process \<Rightarrow> bool" where
  "well_behaved P \<longleftrightarrow> (\<forall>e. returns (pr_bus P e)) \<and> (\<forall>s. calm (pr_sleep P s)) \<and> calm (pr_time P) \<and>
     (\<forall>t. pr_transport P = Some t \<longrightarrow> (\<forall>h d s c i a b. calm (tr_send t h d s c i a b)))"

lemma calm_reads [calm_rules]: "calm (device_get k)" "calm (device_house_id k)" "calm (by_device k)"
  "calm (structure_house kind k)" "calm (repo_exists R k)" "calm (same_house h k)" "calm (repo_update R k f)"
  unfolding device_get_def device_house_id_def by_device_def structure_house_def repo_exists_def repo_get_def
    repo_find_def same_house_def repo_update_def
  by (intro calm_rules; simp)+

lemma calm_rule [calm_rules]: "calm (rule_validate x)" "calm (validate_read_rule x)"
proof -
  have fields: "calm (validate_fields k s)" for k s
    unfolding validate_fields_def by (intro calm_rules)
  have "calm (validate_condition c)" "calm (validate_action a)" for c a
    by (cases c; cases a; simp add: fields calm_rules)+
  then show rule: "calm (rule_validate x)" for x
    unfolding rule_validate_def by (intro calm_rules fields) simp_all
  show "calm (validate_read_rule x)"
    unfolding validate_read_rule_def by (intro calm_rules rule)
qed

lemma calm_event: "type_name \<in> set event_types \<Longrightarrow> calm (new_event fresh type_name d c l)"
  unfolding new_event_def by (intro calm_rules) auto

lemma returns_bnd: "returns m \<Longrightarrow> (\<And>x. returns (f x)) \<Longrightarrow> returns (bnd m f)"
  unfolding returns_def bnd_def by (intro allI) (metis (mono_tags, lifting) prod.case sum.case(2))

lemma returns_in_session: "returns m \<Longrightarrow> returns (in_session m)"
  unfolding returns_def in_session_def by (intro allI) (metis (mono_tags, lifting) prod.case)

lemma returns_status:
  assumes "well_behaved P" and "event_type \<in> set event_types"
  shows "returns (publish_status P event_type x source extra)"
proof -
  have "returns (new_event (pr_fresh P) event_type d c l)" for d c l
    using assms(2) by (auto simp: new_event_def returns_def op_defs draw_def)
  with assms(1) show ?thesis
    unfolding publish_status_def by (auto intro!: returns_bnd returns_in_session simp: well_behaved_def)
qed

lemma calm_action:
  assumes "well_behaved P"
  shows "calm (run_action P source a)"
proof -
  have update: "calm (process_update P k s c l)" for k s c l
    using assms unfolding process_update_def update_state_def persist_state_def Let_def require_active_def
      require_command_contract_def well_behaved_def
    by (intro calm_rules calm_event) (auto simp: event_types_def intro: calm_returns)
  with assms show ?thesis by (cases a) (auto intro!: calm_rules simp: well_behaved_def)
qed

lemma returns_failed:
  "well_behaved P \<Longrightarrow> e \<noteq> CancelledError \<Longrightarrow> returns (failed_status P x source e)"
  by (simp add: failed_status_def is_exception_def returns_status event_types_def)

lemma returns_handle: "calm m \<Longrightarrow> (\<And>e. e \<noteq> CancelledError \<Longrightarrow> returns (h e)) \<Longrightarrow> returns (handle m h)"
  unfolding returns_def calm_def handle_def
  by (intro allI) (metis (mono_tags, lifting) fst_conv old.sum.exhaust prod.case prod.exhaust sum.case(1) sum.case(2))

lemma returns_execute: "well_behaved P \<Longrightarrow> returns (execute P x source b)"
  unfolding execute_def
  by (intro returns_handle returns_failed calm_rules calm_action)
    (auto intro!: calm_returns returns_status simp: event_types_def returns_def)

lemma calm_conditions:
  assumes "well_behaved P"
  shows "calm (conditions_match P cs)"
proof (induction cs)
  case (Cons c cs)
  have "calm (condition_holds P c)"
    using assms by (cases c) (auto intro!: calm_rules simp: well_behaved_def)
  with Cons show ?case by (auto intro!: calm_rules)
qed (auto simp: calm_def)

lemma returns_rule:
  assumes "well_behaved P" and "data_member ''device_id'' (e_data e) = Inr i"
    and "data_member ''state'' (e_data e) = Inr (JObj s)"
  shows "returns (run_rule P e x)"
proof -
  have "\<exists>b. triggered x e = Inr b"
    by (cases "JStr (tr_device_id (ac_trigger x)) = i") (auto simp: triggered_def assms(2,3))
  then obtain b where b: "triggered x e = Inr b" ..
  have "returns (handle
         (andthen (validate_read_rule x)
         (bnd (conditions_match P (ac_conditions x)) (\<lambda>ok.
         if \<not> ok then ret () else andthen rollback (execute P x e True))))
         (failed_status P x e))"
    using assms(1) by (intro returns_handle returns_failed calm_rules calm_conditions)
      (auto intro!: calm_returns returns_execute)
  moreover have "run_rule P e x = (if \<not> b then ret () else handle
         (andthen (validate_read_rule x)
         (bnd (conditions_match P (ac_conditions x)) (\<lambda>ok.
         if \<not> ok then ret () else andthen rollback (execute P x e True))))
         (failed_status P x e))"
    by (simp add: run_rule_def b op_defs fun_eq_iff)
  ultimately show ?thesis by (simp add: returns_def)
qed

lemma returns_for_each: "(\<And>x. returns (f x)) \<Longrightarrow> returns (for_each f xs)"
  by (induction xs) (auto simp: andthen_def intro!: returns_bnd, simp add: returns_def)

lemma for_each_fold:
  assumes "\<And>x. returns (f x)"
  shows "for_each f xs w = (Inr (), fold (\<lambda>x v. snd (f x v)) xs w)"
proof (induction xs arbitrary: w)
  case (Cons x xs)
  from assms [of x] obtain v where "f x w = (Inr (), v)" unfolding returns_def by fastforce
  with Cons show ?case by (simp add: andthen_def bnd_def)
qed simp

text \<open>The event a failing rule is reported with.\<close>

definition failure_event :: "automation_create \<Rightarrow> event \<Rightarrow> exn \<Rightarrow> event" where
  "failure_event x source error =
     \<lparr>e_type = ''automation_failed'',
      e_data = [(''automation_id'', JStr (ac_id x)), (''house_id'', JStr (ac_house_id x)),
        (''error'', JStr (exn_name error))],
      e_correlation_id = e_correlation_id source, e_depth = e_depth source\<rparr>"

lemma failed_status_event:
  "error \<noteq> CancelledError \<Longrightarrow> e_correlation_id source \<noteq> [] \<Longrightarrow>
   failed_status P x source error = in_session (pr_bus P (failure_event x source error))"
  by (simp add: failed_status_def is_exception_def publish_status_def new_event_def event_types_def
      failure_event_def fun_eq_iff bnd_def andthen_def omerge_def)

lemma session_returns: "well_behaved P \<Longrightarrow> \<exists>u. in_session (pr_bus P ev) v = (Inr (), u)"
  using returns_in_session [of "pr_bus P ev"] by (auto simp: well_behaved_def returns_def)

text \<open>A rule that fails before its actions, or in one of them, ends with the failure event.\<close>

lemma run_rule_failure:
  assumes "well_behaved P" and "error \<noteq> CancelledError" and "e_correlation_id e \<noteq> []" and "triggered x e = Inr True"
    and "andthen (validate_read_rule x) (conditions_match P (ac_conditions x)) v = (Inl error, v') \<or>
      (\<exists>u. andthen (validate_read_rule x) (conditions_match P (ac_conditions x)) v = (Inr True, u) \<and>
         for_each (run_action P e) (ac_actions x) (u\<lparr>work := committed u\<rparr>) = (Inl error, v'))"
  shows "run_rule P e x v = in_session (pr_bus P (failure_event x e error)) v'"
proof -
  note failed = failed_status_event [OF assms(2,3)]
  from session_returns [OF assms(1)] obtain u where
    sent: "in_session (pr_bus P (failure_event x e error)) v' = (Inr (), u)" by blast
  from assms(5) show ?thesis
  proof
    assume "andthen (validate_read_rule x) (conditions_match P (ac_conditions x)) v = (Inl error, v')"
    then have "andthen (validate_read_rule x) (bnd (conditions_match P (ac_conditions x)) g) v = (Inl error, v')" for g :: "bool \<Rightarrow> ('a core_scheme, unit) op"
      by (auto simp: andthen_def bnd_def split: prod.splits sum.splits)
    then show ?thesis using assms(4) by (simp add: run_rule_def handle_def failed bnd_def)
  next
    assume "\<exists>u. andthen (validate_read_rule x) (conditions_match P (ac_conditions x)) v = (Inr True, u) \<and>
         for_each (run_action P e) (ac_actions x) (u\<lparr>work := committed u\<rparr>) = (Inl error, v')"
    then obtain u1 where checked: "andthen (validate_read_rule x) (conditions_match P (ac_conditions x)) v = (Inr True, u1)"
      and acted: "for_each (run_action P e) (ac_actions x) (u1\<lparr>work := committed u1\<rparr>) = (Inl error, v')" by blast
    have "execute P x e True (u1\<lparr>work := committed u1\<rparr>) = (Inr (), u)"
      using acted sent by (simp add: execute_def handle_def andthen_def bnd_def failed)
    with checked have "andthen (validate_read_rule x) (bnd (conditions_match P (ac_conditions x)) (\<lambda>ok.
         if \<not> ok then ret () else andthen rollback (execute P x e True))) v = (Inr (), u)"
      by (auto simp: andthen_def bnd_def rollback_def split: prod.splits sum.splits)
    then show ?thesis using assms(4) sent by (simp add: run_rule_def handle_def bnd_def)
  qed
qed

text \<open>
  C21. One rule cannot break another: when the stored rules are readable, the event carries a device
  and a state object, and the bus handlers return, handling the event returns, and what it did is
  to run every enabled rule of the house in turn, each from the state its predecessor left,
  whether that one failed or not. A rule whose validation, conditions or actions fail with
  anything but the cancellation of the task ends by putting on the bus exactly one
  \<open>automation_failed\<close> event with the rule, the house and the name of the error.
\<close>

theorem rule_failures_contained:
  assumes "well_behaved P" and "readable (work w)"
    and "data_member ''device_id'' (e_data e) = Inr i" and "data_member ''state'' (e_data e) = Inr (JObj s)"
    and "oget ''house_id'' (e_data e) = JStr h" and "e_correlation_id e \<noteq> []"
  shows "handle_event P e w = (Inr (),
      if e_type e = ''device_state_changed'' \<and> e_depth e < MAX_AUTOMATION_DEPTH \<and> h \<noteq> []
      then fold (\<lambda>x v. snd (run_rule P e x v))
        (map rule_of_row (filter (\<lambda>a. a_house_id a = h \<and> a_enabled a) (automations (work w))))
        (w\<lparr>work := committed w\<rparr>)
      else w) \<and>
    (\<forall>x v error v'. error \<noteq> CancelledError \<longrightarrow> triggered x e = Inr True \<longrightarrow>
      andthen (validate_read_rule x) (conditions_match P (ac_conditions x)) v = (Inl error, v') \<or>
      (\<exists>u. andthen (validate_read_rule x) (conditions_match P (ac_conditions x)) v = (Inr True, u) \<and>
         for_each (run_action P e) (ac_actions x) (u\<lparr>work := committed u\<rparr>) = (Inl error, v')) \<longrightarrow>
      run_rule P e x v = in_session (pr_bus P
        \<lparr>e_type = ''automation_failed'',
         e_data = [(''automation_id'', JStr (ac_id x)), (''house_id'', JStr (ac_house_id x)),
           (''error'', JStr (exn_name error))],
         e_correlation_id = e_correlation_id e, e_depth = e_depth e\<rparr>) v')"
proof
  have "list_all (\<lambda>r. read_rule r = Inr (rule_of_row r)) (automations (work w))"
    using assms(2) by (simp add: readable_def rule_readable_def [abs_def])
  then have "emap read_rule (filter q (automations (work w))) =
      Inr (map rule_of_row (filter q (automations (work w))))" for q
    by (simp add: emap_Inr_iff list_all2_map2 list_all2_same list_all_iff)
  then show "handle_event P e w = (Inr (),
      if e_type e = ''device_state_changed'' \<and> e_depth e < MAX_AUTOMATION_DEPTH \<and> h \<noteq> []
      then fold (\<lambda>x v. snd (run_rule P e x v))
        (map rule_of_row (filter (\<lambda>a. a_house_id a = h \<and> a_enabled a) (automations (work w))))
        (w\<lparr>work := committed w\<rparr>)
      else w)"
    using for_each_fold [of "run_rule P e", OF returns_rule [OF assms(1,3,4)]] assms(5)
    by (auto simp: handle_event_def automations_enabled_for_house_def bnd_def andthen_def rollback_def not_less)
  show "\<forall>x v error v'. error \<noteq> CancelledError \<longrightarrow> triggered x e = Inr True \<longrightarrow>
      andthen (validate_read_rule x) (conditions_match P (ac_conditions x)) v = (Inl error, v') \<or>
      (\<exists>u. andthen (validate_read_rule x) (conditions_match P (ac_conditions x)) v = (Inr True, u) \<and>
         for_each (run_action P e) (ac_actions x) (u\<lparr>work := committed u\<rparr>) = (Inl error, v')) \<longrightarrow>
      run_rule P e x v = in_session (pr_bus P
        \<lparr>e_type = ''automation_failed'',
         e_data = [(''automation_id'', JStr (ac_id x)), (''house_id'', JStr (ac_house_id x)),
           (''error'', JStr (exn_name error))],
         e_correlation_id = e_correlation_id e, e_depth = e_depth e\<rparr>) v'"
    by (intro allI impI) (simp only: run_rule_failure [OF assms(1) _ assms(6)] failure_event_def)
qed

definition ex_process :: "core process" where
  "ex_process = \<lparr>pr_fresh = ex_fresh, pr_bus = log_event ex_fresh, pr_env = ex_env, pr_transport = None,
     pr_sleep = (\<lambda>_. raise TimeoutError), pr_time = ret (8 * 60 * MINUTE)\<rparr>"

lemma returns_log: "returns (log_event fresh e)"
proof -
  have "text_column v \<noteq> Inl CancelledError" for v
    by (simp add: text_column_def split: json.splits)
  then have "calm (log_handle_event fresh e)"
    unfolding log_handle_event_def repo_create_def by (intro calm_rules)
  then show ?thesis
    unfolding log_event_def
    by (intro returns_handle calm_rules) (auto simp: is_exception_def returns_def)
qed

lemma ex_process_ok: "well_behaved ex_process"
  by (simp add: well_behaved_def ex_process_def returns_log) (simp add: calm_def)

definition ex_changed :: event where
  "ex_changed = \<lparr>e_type = ''device_state_changed'', e_data = [(''device_id'', JStr ''d0''),
     (''house_id'', JStr ''h1''), (''state'', JObj [(''on'', JBool True)])], e_correlation_id = ''k'', e_depth = 0\<rparr>"

definition ex_ruled :: core where
  "ex_ruled = fold library_step [New_rule ex_rule] ex_core"

lemma ex_ruled: "length (automations (work ex_ruled)) = 1 \<and>
    map (\<lambda>r. (ev_event_type r, ev_payload r)) (event_logs (committed (snd (handle_event ex_process ex_changed ex_ruled)))) =
      map (\<lambda>r. (ev_event_type r, ev_payload r)) (event_logs (committed ex_ruled)) @
      [(''automation_failed'', [(''automation_id'', JStr ''a1''), (''house_id'', JStr ''h1''),
         (''error'', JStr ''TimeoutError'')])]"
  by code_simp

theorem rule_failures_contained_witness:
  "\<exists>w'. handle_event ex_process ex_changed ex_ruled = (Inr (), w')"
proof -
  have "readable (work ex_ruled)" by code_simp
  moreover have "data_member ''device_id'' (e_data ex_changed) = Inr (JStr ''d0'')"
    "data_member ''state'' (e_data ex_changed) = Inr (JObj [(''on'', JBool True)])"
    "oget ''house_id'' (e_data ex_changed) = JStr ''h1''" "e_correlation_id ex_changed \<noteq> []"
    by (simp_all add: ex_changed_def data_member_def oget_def)
  ultimately show ?thesis using rule_failures_contained [OF ex_process_ok] by blast
qed

end
