(* ===== verification/Wiring.thy ===== *)
theory Wiring
  imports Automations Auth "HOL-Library.While_Combinator"
begin

text \<open>
  The composition root \<open>app/main.py\<close>: the subscribers of the event bus, the automation tasks
  they start, the callbacks that the MQTT gateway is given, and the WebSocket endpoint. The
  process state is the database with the control authority, the automation tasks that are
  scheduled and not yet run, and the open WebSocket connections. A task runs as one step; the
  order in which tasks run is arbitrary.
\<close>

record hub = core +
  tasks :: "event list"
  sockets :: connections

subsection \<open>Subscribers of the event bus\<close>

definition schedule_automations :: "('z hub_scheme) handler" where
  "schedule_automations e =
     (if e_type e \<noteq> ''device_state_changed'' then ret () else modify (\<lambda>w. w\<lparr>tasks := tasks w @ [e]\<rparr>))"

text \<open>
  \<open>authorizes_house\<close> of the endpoint: the account is looked up again for every event.
\<close>

definition authorizes_house :: "string \<Rightarrow> string \<Rightarrow> ('z hub_scheme, bool) op" where
  "authorizes_house user_id house_id =
     in_session
       (bnd (user_of user_id) (\<lambda>current_user.
       case current_user of
         None \<Rightarrow> ret False
       | Some u \<Rightarrow>
           if \<not> u_is_active u then ret False
           else bnd (get_house_membership user_id house_id) (\<lambda>membership.
             ret (has_permission membership HOUSE_READ))))"

text \<open>\<open>send_json\<close> is the socket's own.\<close>

definition socket_fanout :: "(nat \<Rightarrow> obj \<Rightarrow> ('z hub_scheme, unit) op) \<Rightarrow> 'z hub_scheme fanout" where
  "socket_fanout send_json = \<lparr>fo_connections = sockets, fo_set = sockets_update,
     fo_authorizes = authorizes_house, fo_send_json = send_json\<rparr>"

definition subscribers ::
  "(nat \<Rightarrow> string) \<Rightarrow> (nat \<Rightarrow> obj \<Rightarrow> ('z hub_scheme, unit) op) \<Rightarrow> 'z hub_scheme handler list" where
  "subscribers fresh send_json =
     subscribe (ws_handle_event (socket_fanout send_json))
       (subscribe (log_event fresh) (subscribe schedule_automations []))"

subsection \<open>Automation tasks\<close>

definition process_automations :: "'z hub_scheme process \<Rightarrow> event \<Rightarrow> ('z hub_scheme, unit) op" where
  "process_automations P e = in_session (handle_event P e)"

text \<open>The task with index \<open>n\<close> runs and is discarded; its exception is only logged.\<close>

definition run_task :: "'z hub_scheme process \<Rightarrow> nat \<Rightarrow> 'z hub_scheme \<Rightarrow> 'z hub_scheme" where
  "run_task P n w =
     (if n < length (tasks w)
      then snd (process_automations P (tasks w ! n) (w\<lparr>tasks := take n (tasks w) @ drop (Suc n) (tasks w)\<rparr>))
      else w)"

subsection \<open>Callbacks of the gateway\<close>

definition receive_state ::
  "'z hub_scheme process \<Rightarrow> string \<Rightarrow> string \<Rightarrow> obj \<Rightarrow> string \<Rightarrow> ('z hub_scheme, unit) op" where
  "receive_state P house_id device_id state correlation_id =
     in_session (void (report_state (pr_fresh P) (pr_bus P) house_id device_id state correlation_id))"

definition receive_status ::
  "string \<Rightarrow> string \<Rightarrow> bool \<Rightarrow> wall_time \<Rightarrow> ('z hub_scheme, bool) op" where
  "receive_status house_id device_id online last_seen =
     in_session (update_status house_id device_id online last_seen)"

definition validate_device_identity :: "string \<Rightarrow> string \<Rightarrow> ('z hub_scheme, unit) op" where
  "validate_device_identity house_id device_id = in_session (void (require_house house_id device_id))"

definition receive_command_ack ::
  "environment \<Rightarrow> string \<Rightarrow> string \<Rightarrow> ack_envelope \<Rightarrow> bool \<Rightarrow> ('z hub_scheme, unit) op" where
  "receive_command_ack env house_id device_id envelope retained =
     in_session (command_ack env house_id device_id envelope retained)"

definition receive_command_state ::
  "environment \<Rightarrow> string \<Rightarrow> string \<Rightarrow> state_envelope \<Rightarrow> bool \<Rightarrow> ('z hub_scheme, unit) op" where
  "receive_command_state env house_id device_id envelope retained =
     in_session (command_state env house_id device_id envelope retained)"

definition authorize_command :: "(string \<times> string) list \<Rightarrow> string \<Rightarrow> string \<Rightarrow> ('z hub_scheme, unit) op" where
  "authorize_command software_devices house_id device_id =
     in_session
       (andthen (require_house house_id device_id)
       (andthen (require_command_contract device_id)
       (reject ((house_id, device_id) \<notin> set software_devices) ConflictError)))"

definition receive_control_stage ::
  "(string \<Rightarrow> string) \<Rightarrow> gate \<Rightarrow> environment \<Rightarrow> string \<Rightarrow> string \<Rightarrow> string \<Rightarrow>
   ('z hub_scheme, control_delivery) op" where
  "receive_control_stage sha256 gate env house_id device_id command_id =
     in_session (stage sha256 gate env house_id device_id command_id)"

definition receive_control_request ::
  "(string \<Rightarrow> string) \<Rightarrow> gate \<Rightarrow> environment \<Rightarrow> string \<Rightarrow> string \<Rightarrow> permit_request \<Rightarrow>
   ('z hub_scheme, control_delivery) op" where
  "receive_control_request sha256 gate env house_id device_id r =
     in_session (request sha256 gate env house_id device_id r)"

subsection \<open>Readiness and start\<close>

text \<open>
  \<open>app/services/readiness_service.py\<close>: \<open>heads\<close> are the revisions the database reports, \<open>None\<close>
  where the driver fails.
\<close>

definition readiness_check :: "string \<Rightarrow> bool \<Rightarrow> string list option \<Rightarrow> string option" where
  "readiness_check expected_head initialized heads =
     (if \<not> initialized then Some ''application_not_initialized''
      else case heads of
        None \<Rightarrow> Some ''database_unavailable''
      | Some hs \<Rightarrow> if hs \<noteq> [expected_head] then Some ''schema_revision_mismatch'' else None)"

definition ready_status :: "string \<Rightarrow> bool \<Rightarrow> string list option \<Rightarrow> nat" where
  "ready_status expected_head initialized heads =
     (if readiness_check expected_head initialized heads = None then 200 else 503)"

text \<open>The start with MQTT enabled recovers old commands once; without it the gate stays closed.\<close>

definition lifespan_recovery :: "environment \<Rightarrow> string option \<Rightarrow> ('z hub_scheme, unit) op" where
  "lifespan_recovery env not_ready =
     (if not_ready \<noteq> None then ret ()
      else in_session (handle (initialize env) (\<lambda>e. if e = UnavailableError then ret () else raise e)))"

subsection \<open>The WebSocket endpoint\<close>

text \<open>
  \<open>websocket\<close> numbers the new connection. \<open>None\<close> is the close with code 4401, before the
  connection is accepted.
\<close>

definition websocket_user :: "crypto \<Rightarrow> int \<Rightarrow> string \<Rightarrow> ('z hub_scheme, string option) op" where
  "websocket_user K now header =
     (let authorization = words header in
      if length authorization \<noteq> 2 \<or> lower (hd authorization) \<noteq> ''bearer'' then ret None
      else in_session (handle
        (bnd (access_user K now (authorization ! 1)) (\<lambda>user. ret (Some (u_id user))))
        (\<lambda>e. if e = AuthenticationError then ret None else raise e)))"

definition websocket_endpoint :: "crypto \<Rightarrow> int \<Rightarrow> nat \<Rightarrow> string \<Rightarrow> ('z hub_scheme, bool) op" where
  "websocket_endpoint K now websocket header =
     bnd (websocket_user K now header) (\<lambda>found_user.
     case found_user of
       None \<Rightarrow> ret False
     | Some user_id \<Rightarrow> andthen (modify (sockets_update (ws_connect websocket user_id))) (ret True))"

definition websocket_closed :: "nat \<Rightarrow> ('z hub_scheme, unit) op" where
  "websocket_closed websocket = modify (sockets_update (ws_disconnect websocket))"

subsection \<open>The process of one installation\<close>

text \<open>
  What the composition root is given from outside works on the state below the hub: a socket, a
  transport, \<open>asyncio.sleep\<close> and the wall clock schedule no automation by themselves. In
  particular the transport only sends: what a device reports back enters through
  \<open>receive_state\<close>, as a step of its own, and not inside the call that sent the command.
\<close>

definition core_of :: "'z hub_scheme \<Rightarrow> core" where
  "core_of w = \<lparr>committed = committed w, work = work w, drawn = drawn w, authority = authority w,
     ledger_clock = ledger_clock w, reads = reads w\<rparr>"

definition on_core :: "(core, 'a) op \<Rightarrow> ('z hub_scheme, 'a) op" where
  "on_core m = (\<lambda>w. case m (core_of w) of (r, c) \<Rightarrow>
     (r, w\<lparr>committed := committed c, work := work c, drawn := drawn c, authority := authority c,
           ledger_clock := ledger_clock c, reads := reads c\<rparr>))"

record outside =
  out_fresh :: "nat \<Rightarrow> string"
  out_env :: environment
  out_transport :: "core transport option"
  out_sleep :: "pyfloat \<Rightarrow> (core, unit) op"
  out_time :: "(core, int) op"
  out_send_json :: "nat \<Rightarrow> obj \<Rightarrow> (core, unit) op"

definition hub_transport :: "core transport \<Rightarrow> 'z hub_scheme transport" where
  "hub_transport t = \<lparr>tr_connected = (\<lambda>w. tr_connected t (core_of w)),
     tr_authorize = (\<lambda>h d. on_core (tr_authorize t h d)),
     tr_send = (\<lambda>h d s c i a b. on_core (tr_send t h d s c i a b))\<rparr>"

definition hub_bus :: "outside \<Rightarrow> ('z hub_scheme) handler" where
  "hub_bus X = publish (subscribers (out_fresh X) (\<lambda>n m. on_core (out_send_json X n m)))"

definition hub_process :: "outside \<Rightarrow> 'z hub_scheme process" where
  "hub_process X = \<lparr>pr_fresh = out_fresh X, pr_bus = hub_bus X, pr_env = out_env X,
     pr_transport = map_option hub_transport (out_transport X),
     pr_sleep = (\<lambda>s. on_core (out_sleep X s)), pr_time = on_core (out_time X)\<rparr>"

subsection \<open>Cascades end\<close>

text \<open>
  A pool of pending events: running one removes it and adds only events of a lower level. Whatever
  order a scheduler picks, the pool runs empty.
\<close>

locale event_pool =
  fixes pending_events :: "'s \<Rightarrow> 'e list"
    and run :: "nat \<Rightarrow> 's \<Rightarrow> 's"
    and level :: "'e \<Rightarrow> nat"
  assumes run_lowers: "n < length (pending_events s) \<Longrightarrow>
    \<exists>new. pending_events (run n s) = take n (pending_events s) @ drop (Suc n) (pending_events s) @ new \<and>
      (\<forall>e \<in> set new. level e < level (pending_events s ! n))"
begin

definition measure_of :: "'s \<Rightarrow> nat multiset" where
  "measure_of s = mset (map level (pending_events s))"

lemma run_decreases:
  assumes "n < length (pending_events s)"
  shows "(measure_of (run n s), measure_of s) \<in> mult less_than"
proof -
  let ?ts = "pending_events s"
  from run_lowers [OF assms] obtain new where
    new: "pending_events (run n s) = take n ?ts @ drop (Suc n) ?ts @ new" and
    low: "\<forall>e \<in> set new. level e < level (?ts ! n)" by blast
  let ?I = "mset (map level (take n ?ts @ drop (Suc n) ?ts))"
  have "measure_of s = mset (map level (take n ?ts @ ?ts ! n # drop (Suc n) ?ts))"
    by (simp add: measure_of_def id_take_nth_drop [OF assms, symmetric])
  then have "measure_of s = ?I + {#level (?ts ! n)#}" by simp
  moreover have "measure_of (run n s) = ?I + mset (map level new)"
    by (simp add: measure_of_def new)
  moreover have "(?I + mset (map level new), ?I + {#level (?ts ! n)#}) \<in> mult less_than"
    using low by (intro one_step_implies_mult) auto
  ultimately show ?thesis by simp
qed

lemma pool_drains:
  assumes "\<And>s. pending_events s \<noteq> [] \<Longrightarrow> pick s < length (pending_events s)"
  shows "\<exists>t. while_option (\<lambda>s. pending_events s \<noteq> []) (\<lambda>s. run (pick s) s) s = Some t \<and> pending_events t = []"
proof -
  let ?R = "inv_image (mult less_than) measure_of"
  have "wf ?R" by (intro wf_inv_image wf_mult wf_less_than)
  moreover have "(run (pick s) s, s) \<in> ?R" if "pending_events s \<noteq> []" for s
    using run_decreases [OF assms [OF that]] by simp
  ultimately obtain t where "while_option (\<lambda>s. pending_events s \<noteq> []) (\<lambda>s. run (pick s) s) s = Some t"
    using wf_rel_while_option_Some [of ?R "\<lambda>_. True" "\<lambda>s. pending_events s \<noteq> []" "\<lambda>s. run (pick s) s" s] by auto
  with while_option_stop [OF this] show ?thesis by auto
qed

end

subsection \<open>What handling an event schedules\<close>

definition on_tasks :: "(event list \<Rightarrow> bool) \<Rightarrow> 'z hub_scheme \<Rightarrow> bool" where
  "on_tasks R w \<longleftrightarrow> R (tasks w)"

definition extends :: "int \<Rightarrow> event list \<Rightarrow> event list \<Rightarrow> bool" where
  "extends d old ts \<longleftrightarrow> (\<exists>new. ts = old @ new \<and> (\<forall>e \<in> set new. e_depth e = d))"

lemma extends_refl [simp]: "extends d old old"
  by (simp add: extends_def)

lemma extends_append: "extends d old ts \<Longrightarrow> e_depth e = d \<Longrightarrow> extends d old (ts @ [e])"
  by (auto simp: extends_def)

lemma pres_tasks [pres]: "preserves (on_tasks R) commit" "preserves (on_tasks R) flush"
  "preserves (on_tasks R) rollback" "preserves (on_tasks R) (store f)" "preserves (on_tasks R) (draw h)"
  "preserves (on_tasks R) (ledger_now env)" "preserves (on_tasks R) (on_core m)"
  "preserves (on_tasks R) (modify (sockets_update g))"
  by (auto simp: preserves_def on_tasks_def commit_def flush_def rollback_def store_def draw_def op_defs
      ledger_now_def next_read_def on_core_def split: prod.splits)

lemma pres_tasks_session [pres]: "preserves (on_tasks R) m \<Longrightarrow> preserves (on_tasks R) (in_session m)"
proof (rule preservesI)
  fix w :: "'a hub_scheme"
  assume m: "preserves (on_tasks R) m" and "on_tasks R w"
  then have "on_tasks R (w\<lparr>work := committed w\<rparr>)" by (simp add: on_tasks_def)
  from preservesD [OF m this] show "on_tasks R (snd (in_session m w))"
    by (cases "m (w\<lparr>work := committed w\<rparr>)") (simp add: in_session_def on_tasks_def)
qed

lemma pres_tasks_save [pres]: "preserves (on_tasks R) save"
  unfolding save_def by (intro pres)

lemma pres_tasks_repo [pres]: "preserves (on_tasks R) (repo_create Q e)" "preserves (on_tasks R) (repo_update Q k f)"
  unfolding repo_create_def repo_update_def by (intro pres)+

lemma pres_tasks_log [pres]: "preserves (on_tasks R) (log_event fresh e)"
  unfolding log_event_def log_handle_event_def by (intro pres)

lemma pres_tasks_socket [pres]:
  "preserves (on_tasks R) (ws_handle_event (socket_fanout (\<lambda>n m. on_core (send n m))) e)"
proof -
  have send: "preserves (on_tasks R) (ws_send (socket_fanout (\<lambda>n m. on_core (send n m))) house e c)" for house c
    by (cases c) (auto simp: ws_send_def socket_fanout_def authorizes_house_def user_of_def get_house_membership_def
        intro!: pres simp: on_tasks_def)
  show ?thesis
    by (cases "oget ''house_id'' (e_data e)") (auto simp: ws_handle_event_def intro!: pres send)
qed

text \<open>The handler contract: an event schedules itself if it is a state change, and nothing else.\<close>

definition schedules :: "int \<Rightarrow> event \<Rightarrow> bool" where
  "schedules d e \<longleftrightarrow> e_type e = ''device_state_changed'' \<longrightarrow> e_depth e = d"

lemma pres_bus:
  assumes "schedules d e"
  shows "preserves (on_tasks (extends d old)) (hub_bus X e)"
proof -
  have "preserves (on_tasks (extends d old)) (schedule_automations e)"
    using assms by (auto simp: schedule_automations_def preserves_def on_tasks_def schedules_def extends_append)
  then show ?thesis
    unfolding hub_bus_def publish_def subscribers_def subscribe_def
    by (simp) (intro pres; assumption)
qed

lemma new_event_Inr: "new_event fresh t data c l w = (Inr e, w') \<Longrightarrow> e_type e = t \<and> e_depth e = l"
  by (auto simp: new_event_def andthen_Inr_iff bnd_Inr_iff split: if_splits)

lemma pres_new_event [pres]: "preserves (on_tasks R) (new_event fresh t data c l)"
  unfolding new_event_def by (intro pres)

lemma pres_announce:
  assumes "t = ''device_state_changed'' \<Longrightarrow> l = d" and "\<And>e. preserves (on_tasks (extends d old)) (k e)"
  shows "preserves (on_tasks (extends d old)) (bnd (new_event fresh t data c l) (\<lambda>e. andthen (in_session (hub_bus X e)) (k e)))"
proof (rule pres_bnd_fact [where F = "schedules d"])
  show "new_event fresh t data c l s = (Inr e, w) \<Longrightarrow> schedules d e" for s e w
    using assms(1) new_event_Inr [of fresh t data c l s e w] by (auto simp: schedules_def)
qed (intro pres pres_bus assms; assumption)+

lemma publish_status_hub: "publish_status (hub_process X) t x source extra =
    bnd (new_event (out_fresh X) t (omerge [(''automation_id'', JStr (ac_id x)), (''house_id'', JStr (ac_house_id x))] extra)
       (e_correlation_id source) (e_depth source)) (\<lambda>e. andthen (in_session (hub_bus X e)) (ret ()))"
  by (auto simp: publish_status_def hub_process_def op_defs fun_eq_iff split: prod.splits sum.splits)

lemma pres_status: "t \<noteq> ''device_state_changed'' \<Longrightarrow>
    preserves (on_tasks (extends d old)) (publish_status (hub_process X) t x source extra)"
  unfolding publish_status_hub by (intro pres_announce pres) simp

lemma pres_update: "preserves (on_tasks (extends d old)) (process_update (hub_process X) k s c d)"
proof -
  have persist: "preserves (on_tasks (extends d old)) (persist_state (out_fresh X) (hub_bus X) x s c d)" for x
    unfolding persist_state_def Let_def by (intro pres pres_announce refl)
  have send: "preserves (on_tasks (extends d old)) (tr_send t h d' s' c' i a b)"
    if "map_option hub_transport (out_transport X) = Some t" for t h d' s' c' i a b
    using that by (auto simp: hub_transport_def intro: pres)
  show ?thesis
    unfolding process_update_def update_state_def hub_process_def process.simps require_active_def
      require_command_contract_def device_get_def
    by (intro pres persist send)
qed

lemma pres_rule:
  assumes "d = e_depth e + 1"
  shows "preserves (on_tasks (extends d old)) (run_rule (hub_process X) e x)"
proof -
  have failed: "preserves (on_tasks (extends d old)) (failed_status (hub_process X) x e err)" for err
    unfolding failed_status_def by (intro pres pres_status) simp
  have action: "preserves (on_tasks (extends d old)) (run_action (hub_process X) e a)" for a
    using assms by (cases a) (auto simp: hub_process_def [of X] pres_update [unfolded hub_process_def] intro!: pres)
  have cond: "preserves (on_tasks (extends d old)) (condition_holds (hub_process X) c)" for c
    by (cases c) (auto simp: hub_process_def device_get_def intro!: pres)
  have conds: "preserves (on_tasks (extends d old)) (conditions_match (hub_process X) cs)" for cs
    by (induction cs) (auto intro!: pres cond simp: pres_ret [unfolded ret_def])
  have fields: "preserves (on_tasks (extends d old)) (validate_fields k s)" for k s
    unfolding validate_fields_def device_get_def by (intro pres)
  have "preserves (on_tasks (extends d old)) (validate_condition c)" "preserves (on_tasks (extends d old)) (validate_action a)" for c a
    by (cases c; cases a; simp add: fields pres_ret)+
  then have rule: "preserves (on_tasks (extends d old)) (validate_read_rule y)" for y
    unfolding validate_read_rule_def rule_validate_def same_house_def device_get_def
    by (intro pres fields)
  show ?thesis
    unfolding run_rule_def execute_def
    by (intro pres rule conds failed action pres_status) simp_all
qed

lemma process_extends:
  "tasks (snd (process_automations (hub_process X) e w)) = tasks w \<or>
   (e_depth e < MAX_AUTOMATION_DEPTH \<and>
    extends (e_depth e + 1) (tasks w) (tasks (snd (process_automations (hub_process X) e w))))"
proof (cases "e_type e \<noteq> ''device_state_changed'' \<or> MAX_AUTOMATION_DEPTH \<le> e_depth e")
  case True
  then show ?thesis by (simp add: process_automations_def handle_event_def in_session_def)
next
  case False
  have "preserves (on_tasks (extends (e_depth e + 1) (tasks w))) (process_automations (hub_process X) e)"
    unfolding process_automations_def handle_event_def
    by (intro pres pres_rule refl) (cases "oget ''house_id'' (e_data e)"; auto intro!: pres pres_rule)
  from preservesD [OF this, of w] False show ?thesis by (simp add: on_tasks_def)
qed

text \<open>A report of a device starts over: the events it raises are at level zero.\<close>

lemma report_extends: "extends 0 (tasks w) (tasks (snd (receive_state (hub_process X) h k s c w)))"
proof -
  have persist: "preserves (on_tasks (extends 0 (tasks w))) (persist_state (out_fresh X) (hub_bus X) x s c 0)" for x
    unfolding persist_state_def Let_def by (intro pres pres_announce refl)
  have "preserves (on_tasks (extends 0 (tasks w))) (receive_state (hub_process X) h k s c)"
    unfolding receive_state_def report_state_def void_def require_house_def require_active_def device_get_def
      hub_process_def process.simps
    by (intro pres persist)
  from preservesD [OF this, of w] show ?thesis by (simp add: on_tasks_def)
qed

definition task_level :: "event \<Rightarrow> nat" where
  "task_level e = nat (MAX_AUTOMATION_DEPTH - e_depth e)"

lemma run_task_extends:
  assumes "n < length (tasks w)"
  shows "tasks (run_task (hub_process X) n w) = take n (tasks w) @ drop (Suc n) (tasks w) \<or>
    (e_depth (tasks w ! n) < MAX_AUTOMATION_DEPTH \<and>
     extends (e_depth (tasks w ! n) + 1) (take n (tasks w) @ drop (Suc n) (tasks w))
       (tasks (run_task (hub_process X) n w)))"
  using process_extends [of X "tasks w ! n" "w\<lparr>tasks := take n (tasks w) @ drop (Suc n) (tasks w)\<rparr>"] assms
  by (simp add: run_task_def)

interpretation automation_tasks: event_pool tasks "run_task (hub_process X)" task_level for X
proof
  fix n and w :: "'a hub_scheme"
  assume n: "n < length (tasks w)"
  from run_task_extends [OF n, of X]
  show "\<exists>new. tasks (run_task (hub_process X) n w) = take n (tasks w) @ drop (Suc n) (tasks w) @ new \<and>
      (\<forall>e \<in> set new. task_level e < task_level (tasks w ! n))"
    by (auto simp: extends_def task_level_def)
qed

subsection \<open>Properties\<close>

text \<open>
  C19. Automation cascades end inside the process: however rules trigger one another, whatever
  sends, sockets and timers answer and in whatever order the tasks run, as long as no device
  report comes in, from every state a finite number of task runs empties the pool. Every event
  a task adds is one level deeper than its own, and a task of level 8 or more adds nothing. A
  device report starts over, as the status notes of the project say: the events it adds are at
  level zero, so that a loop through a physical device is not bounded by the level, only by the
  reports that arrive.
\<close>

theorem automations_terminate:
  fixes w :: "'z hub_scheme"
  assumes "\<And>v. tasks v \<noteq> [] \<Longrightarrow> pick v < length (tasks v)"
  shows "(\<exists>v. while_option (\<lambda>w. tasks w \<noteq> []) (\<lambda>w. run_task (hub_process X) (pick w) w) w = Some v \<and> tasks v = []) \<and>
    (\<forall>(u :: 'z hub_scheme) n. n < length (tasks u) \<longrightarrow> (\<exists>new.
       tasks (run_task (hub_process X) n u) = take n (tasks u) @ drop (Suc n) (tasks u) @ new \<and>
       (\<forall>e \<in> set new. e_depth e = e_depth (tasks u ! n) + 1) \<and>
       (8 \<le> e_depth (tasks u ! n) \<longrightarrow> new = []))) \<and>
    (\<forall>(u :: 'z hub_scheme) house device state correlation_id. \<exists>new.
       tasks (snd (receive_state (hub_process X) house device state correlation_id u)) = tasks u @ new \<and>
       (\<forall>e \<in> set new. e_depth e = 0))"
proof (intro conjI allI impI)
  show "\<exists>v. while_option (\<lambda>w. tasks w \<noteq> []) (\<lambda>w. run_task (hub_process X) (pick w) w) w = Some v \<and> tasks v = []"
    by (rule automation_tasks.pool_drains [OF assms])
  show "\<exists>new. tasks (run_task (hub_process X) n u) = take n (tasks u) @ drop (Suc n) (tasks u) @ new \<and>
       (\<forall>e \<in> set new. e_depth e = e_depth (tasks u ! n) + 1) \<and>
       (8 \<le> e_depth (tasks u ! n) \<longrightarrow> new = [])" if "n < length (tasks u)" for u :: "'z hub_scheme" and n
    using run_task_extends [OF that, of X] by (fastforce simp: extends_def MAX_AUTOMATION_DEPTH_def)
  show "\<exists>new. tasks (snd (receive_state (hub_process X) house device state correlation_id u)) = tasks u @ new \<and>
       (\<forall>e \<in> set new. e_depth e = 0)" for u :: "'z hub_scheme" and house device state correlation_id
    using report_extends [of u X house device state correlation_id] by (simp add: extends_def)
qed

definition ex_outside :: outside where
  "ex_outside = \<lparr>out_fresh = ex_fresh, out_env = ex_env, out_transport = None, out_sleep = (\<lambda>_. ret ()),
     out_time = ret (9 * 60 * MINUTE), out_send_json = (\<lambda>_ _. raise RuntimeError)\<rparr>"

text \<open>A lamp whose two rules switch each other for ever.\<close>

definition ex_toggle :: "string \<Rightarrow> bool \<Rightarrow> automation_create" where
  "ex_toggle i b = \<lparr>ac_id = i, ac_name = i, ac_house_id = ''h1'', ac_enabled = True,
     ac_trigger = \<lparr>tr_device_id = ''d0'', tr_field = ''on'', tr_operator = ''eq'', tr_value = JBool b\<rparr>,
     ac_conditions = [], ac_actions = [DeviceAction \<lparr>act_device_id = ''d0'', act_state = [(''on'', JBool (\<not> b))]\<rparr>]\<rparr>"

definition ex_hub :: hub where
  "ex_hub = (let c = fold library_step [New_rule (ex_toggle ''a1'' True), New_rule (ex_toggle ''a2'' False)] ex_core in
     \<lparr>committed = committed c, work = work c, drawn = drawn c, authority = authority c,
      ledger_clock = ledger_clock c, reads = reads c, tasks = [ex_changed], sockets = [(0, ''u1''), (1, ''u9'')]\<rparr>)"

theorem automations_terminate_witness:
  "\<exists>v. while_option (\<lambda>w. tasks w \<noteq> []) (\<lambda>w. run_task (hub_process ex_outside) 0 w) ex_hub = Some v \<and> tasks v = []"
  by (rule conjunct1 [OF automations_terminate]) simp



end
