(* ===== verification/Gateway.thy ===== *)
theory Gateway
  imports Wiring Mqtt_Models
begin

text \<open>
  \<open>app/transports/mqtt.py\<close> and \<open>app/transports/mqtt_client.py\<close>: the MQTT gateway with its
  outbound commands, its inbound routing and its connection loop, and the two clients. The
  state of the process is extended by the fields of the gateway and of its client; \<open>gw_backoff\<close> is
  the local variable of \<open>run\<close>, which keeps its value when a round ends with an exception.
\<close>

subsection \<open>Messages and clients\<close>

text \<open>
  A payload that is received is its size in bytes and its document in the order of the text,
  \<open>None\<close> where the bytes are no UTF-8 JSON. A payload that is sent is a wire text or the
  document that \<open>model_dump_json\<close> writes.
\<close>

record mqtt_message =
  msg_topic :: string
  msg_size :: nat
  msg_document :: "json option"
  msg_retained :: bool

datatype outgoing = Wire string | Document obj

record gateway = hub +
  gw_connected :: bool
  gw_control_subscribed :: bool
  gw_control_devices :: "((string \<times> string) \<times> rat) list"
  gw_control_second :: int
  gw_control_count :: nat
  gw_stopping :: bool
  gw_task :: bool
  gw_backoff :: rat
  mq_open :: bool
  mq_stream_failed :: bool
  mq_subscriptions :: "(string \<times> nat) list"
  mq_published :: "(string \<times> outgoing \<times> nat \<times> bool) list"

record 'w mqtt_client =
  cl_connect :: "('w, unit) op"
  cl_disconnect :: "('w, unit) op"
  cl_subscribe :: "string \<Rightarrow> nat \<Rightarrow> ('w, unit) op"
  cl_publish :: "string \<Rightarrow> outgoing \<Rightarrow> nat \<Rightarrow> bool \<Rightarrow> ('w, unit) op"
  cl_stream_ended :: "exn option \<Rightarrow> ('w, unit) op"

text \<open>\<open>try: m finally: k\<close>; an exception of the clean-up replaces the outcome.\<close>

definition finally_do :: "('s, 'a) op \<Rightarrow> ('s, unit) op \<Rightarrow> ('s, 'a) op" where
  "finally_do m k = (\<lambda>s. case m s of (r, t) \<Rightarrow> (case k t of (Inl e, u) \<Rightarrow> (Inl e, u) | (Inr _, u) \<Rightarrow> (r, u)))"

text \<open>\<open>except Exception\<close> with a log line.\<close>

definition logged :: "('s, unit) op \<Rightarrow> ('s, unit) op" where
  "logged m = handle m (\<lambda>e. if is_exception e then ret () else raise e)"

text \<open>
  \<open>FakeMQTTClient\<close>, the client of the tests: it records what is published and raises the error it
  was made with when it is asked to connect.
\<close>

definition fake_client :: "exn option \<Rightarrow> 'z gateway_scheme mqtt_client" where
  "fake_client connect_error =
     \<lparr>cl_connect = (case connect_error of Some e \<Rightarrow> raise e | None \<Rightarrow> modify (mq_open_update (\<lambda>_. True))),
      cl_disconnect = modify (mq_open_update (\<lambda>_. False)),
      cl_subscribe = (\<lambda>topic qos. modify (mq_subscriptions_update (\<lambda>xs. xs @ [(topic, qos)]))),
      cl_publish = (\<lambda>topic payload qos retain.
        modify (mq_published_update (\<lambda>xs. xs @ [(topic, payload, qos, retain)]))),
      cl_stream_ended = (\<lambda>ending. case ending of None \<Rightarrow> ret () | Some e \<Rightarrow> raise e)\<rparr>"

text \<open>
  \<open>AiomqttClient\<close> over the library client: \<open>mq_open\<close> tells whether a library client is held.
  A cancelled \<open>connect\<close> lets the entry settle and releases a late connection.
\<close>

record 'w mqtt_library =
  lib_enter :: "('w, unit) op"
  lib_settle :: "('w, unit) op"
  lib_exit :: "('w, unit) op"
  lib_subscribe :: "string \<Rightarrow> nat \<Rightarrow> ('w, unit) op"
  lib_publish :: "string \<Rightarrow> outgoing \<Rightarrow> nat \<Rightarrow> bool \<Rightarrow> ('w, unit) op"

definition ignoring :: "exn \<Rightarrow> ('s, unit) op \<Rightarrow> ('s, unit) op" where
  "ignoring x m = handle m (\<lambda>e. if e = x then ret () else raise e)"

definition settle_entry :: "'w mqtt_library \<Rightarrow> ('w, unit) op" where
  "settle_entry L =
     bnd (handle (andthen (lib_settle L) (ret True)) (\<lambda>e. if is_exception e then ret False else raise e))
       (\<lambda>entered. if entered then ignoring TransportError (lib_exit L) else ret ())"

definition aio_connect :: "'z gateway_scheme mqtt_library \<Rightarrow> ('z gateway_scheme, unit) op" where
  "aio_connect L =
     bnd (gets mq_open) (\<lambda>held.
     andthen (reject held RuntimeError)
     (andthen
       (handle (lib_enter L) (\<lambda>e. if e = CancelledError then andthen (settle_entry L) (raise e) else raise e))
     (modify (\<lambda>w. w\<lparr>mq_open := True, mq_stream_failed := False\<rparr>))))"

definition aio_disconnect :: "'z gateway_scheme mqtt_library \<Rightarrow> ('z gateway_scheme, unit) op" where
  "aio_disconnect L =
     bnd (gets mq_open) (\<lambda>held.
     andthen (modify (\<lambda>w. w\<lparr>mq_open := False\<rparr>))
     (if \<not> held then ret ()
      else finally_do
        (handle (lib_exit L) (\<lambda>e.
           bnd (gets mq_stream_failed) (\<lambda>stream_failed.
           if e = TransportError \<and> stream_failed then ret () else raise e)))
        (modify (\<lambda>w. w\<lparr>mq_stream_failed := False\<rparr>))))"

definition aio_open :: "('z gateway_scheme, unit) op" where
  "aio_open = bnd (gets mq_open) (\<lambda>held. reject (\<not> held) ConnectionError)"

text \<open>The end of the message stream: an error of the library is remembered and raised again.\<close>

definition aio_stream_ended :: "exn option \<Rightarrow> ('z gateway_scheme, unit) op" where
  "aio_stream_ended ending =
     (case ending of
        None \<Rightarrow> ret ()
      | Some e \<Rightarrow> andthen (if e = TransportError then modify (\<lambda>w. w\<lparr>mq_stream_failed := True\<rparr>) else ret ()) (raise e))"

definition aiomqtt_client :: "'z gateway_scheme mqtt_library \<Rightarrow> 'z gateway_scheme mqtt_client" where
  "aiomqtt_client L =
     \<lparr>cl_connect = aio_connect L, cl_disconnect = aio_disconnect L,
      cl_subscribe = (\<lambda>topic qos. andthen aio_open (lib_subscribe L topic qos)),
      cl_publish = (\<lambda>topic payload qos retain. andthen aio_open (lib_publish L topic payload qos retain)),
      cl_stream_ended = aio_stream_ended\<rparr>"

subsection \<open>The gateway\<close>

text \<open>
  The arguments of the constructor, and of the library what the gateway uses: the lax conversions
  and the time format of pydantic, and \<open>time.monotonic\<close>.
\<close>

record 'w gateway_args =
  ga_client :: "'w mqtt_client"
  ga_bus :: "'w handler"
  ga_state :: "string \<Rightarrow> string \<Rightarrow> obj \<Rightarrow> string \<Rightarrow> ('w, unit) op"
  ga_status :: "string \<Rightarrow> string \<Rightarrow> bool \<Rightarrow> wall_time \<Rightarrow> ('w, bool) op"
  ga_identity :: "string \<Rightarrow> string \<Rightarrow> ('w, unit) op"
  ga_sleep :: "rat \<Rightarrow> ('w, unit) op"
  ga_initial_backoff :: rat
  ga_maximum_backoff :: rat
  ga_command_ack :: "(string \<Rightarrow> string \<Rightarrow> ack_envelope \<Rightarrow> bool \<Rightarrow> ('w, unit) op) option"
  ga_command_state :: "(string \<Rightarrow> string \<Rightarrow> state_envelope \<Rightarrow> bool \<Rightarrow> ('w, unit) op) option"
  ga_command_guard :: "(string \<Rightarrow> string \<Rightarrow> ('w, unit) op) option"
  ga_control_stage :: "(string \<Rightarrow> string \<Rightarrow> string \<Rightarrow> ('w, control_delivery) op) option"
  ga_control_request :: "(string \<Rightarrow> string \<Rightarrow> permit_request \<Rightarrow> ('w, control_delivery) op) option"
  ga_env :: environment
  ga_fresh :: "nat \<Rightarrow> string"
  ga_lenient :: lenient
  ga_format :: "wall_time \<Rightarrow> string"
  ga_monotonic :: "nat \<Rightarrow> rat"

definition gateway_args_ok :: "'w gateway_args \<Rightarrow> bool" where
  "gateway_args_ok G \<longleftrightarrow> 0 < ga_initial_backoff G \<and> ga_initial_backoff G \<le> ga_maximum_backoff G"

definition announce :: "'z gateway_scheme gateway_args \<Rightarrow> string \<Rightarrow> obj \<Rightarrow> string \<Rightarrow> ('z gateway_scheme, unit) op" where
  "announce G type_name data correlation_id =
     bnd (new_event (ga_fresh G) type_name data correlation_id 0) (ga_bus G)"

subsection \<open>Outbound\<close>

definition gateway_authorize :: "'w gateway_args \<Rightarrow> string \<Rightarrow> string \<Rightarrow> ('w, unit) op" where
  "gateway_authorize G house_id device_id =
     (case ga_command_guard G of None \<Rightarrow> raise ConflictError | Some guard \<Rightarrow> guard house_id device_id)"

text \<open>The deadline a command must come with: both times in UTC, at most the lifetime apart.\<close>

definition original_deadline :: "wall_time option \<Rightarrow> wall_time option \<Rightarrow> bool" where
  "original_deadline timestamp expires_at =
     (case (timestamp, expires_at) of
        (Some t, Some e) \<Rightarrow> utcoffset t = Some 0 \<and> utcoffset e = Some 0 \<and>
          0 < instant e - instant t \<and> instant e - instant t \<le> COMMAND_LIFETIME
      | _ \<Rightarrow> False)"

definition or_fresh :: "(nat \<Rightarrow> string) \<Rightarrow> string \<Rightarrow> ('z world_scheme, string) op" where
  "or_fresh fresh s = (if s = [] then draw fresh else ret s)"

definition send_command ::
  "'z gateway_scheme gateway_args \<Rightarrow> string \<Rightarrow> string \<Rightarrow> obj \<Rightarrow> string \<Rightarrow> string \<Rightarrow>
   wall_time option \<Rightarrow> wall_time option \<Rightarrow> ('z gateway_scheme, string) op" where
  "send_command G house_id device_id state correlation command timestamp expires_at =
     andthen (gateway_authorize G house_id device_id)
     (case (timestamp, expires_at) of
        (Some t, Some e) \<Rightarrow>
          andthen (reject (\<not> original_deadline timestamp expires_at) InvalidReferenceError)
          (bnd (or_fresh (ga_fresh G) correlation) (\<lambda>correlation_id.
          bnd (or_fresh (ga_fresh G) command) (\<lambda>command_id.
          let envelope = \<lparr>ce_command_id = command_id, ce_correlation_id = correlation_id,
                ce_timestamp = t, ce_expires_at = Some e, ce_state = state\<rparr> in
          andthen (reject (\<not> command_envelope_ok envelope) ValidationError)
          (bnd (ledger_now (ga_env G)) (\<lambda>now.
          andthen (reject (\<not> (instant t \<le> now \<and> now < instant e)) ConflictError)
          (bnd (lift (build_topic house_id device_id SET)) (\<lambda>topic.
          andthen (cl_publish (ga_client G) topic (Document (command_document (ga_format G) envelope))
            (tp_qos (TOPIC_POLICY SET)) (tp_retain (TOPIC_POLICY SET)))
          (ret command_id))))))))
      | _ \<Rightarrow> raise InvalidReferenceError)"

definition control_ready :: "('z gateway_scheme, unit) op" where
  "control_ready =
     bnd (gets (\<lambda>w. gw_connected w \<and> gw_control_subscribed w)) (\<lambda>ready. reject (\<not> ready) UnavailableError)"

definition send_control_command ::
  "'z gateway_scheme gateway_args \<Rightarrow> string \<Rightarrow> string \<Rightarrow> string \<Rightarrow> ('z gateway_scheme, unit) op" where
  "send_control_command G house_id device_id command_id =
     (case ga_control_stage G of
        None \<Rightarrow> raise ConflictError
      | Some stage_handler \<Rightarrow>
          bnd (stage_handler house_id device_id command_id) (\<lambda>delivery.
          andthen control_ready
          (andthen (validate_delivery (ga_env G) delivery)
          (bnd (lift (build_topic house_id device_id CONTROL_COMMAND)) (\<lambda>topic.
          cl_publish (ga_client G) topic (Wire (dl_payload delivery)) 1 False)))))"

text \<open>What command and device services call.\<close>

definition gateway_transport :: "'z gateway_scheme gateway_args \<Rightarrow> 'z gateway_scheme transport" where
  "gateway_transport G =
     \<lparr>tr_connected = gw_connected, tr_authorize = gateway_authorize G, tr_send = send_command G\<rparr>"

subsection \<open>Control requests\<close>

text \<open>\<open>int(tick)\<close> truncates; the subtraction of two ticks is exact here.\<close>

definition truncate_tick :: "rat \<Rightarrow> int" where
  "truncate_tick t = (if 0 \<le> t then floor t else - floor (- t))"

definition prune_control :: "rat \<Rightarrow> 'z gateway_scheme \<Rightarrow> 'z gateway_scheme" where
  "prune_control tick w =
     (let w1 = w\<lparr>gw_control_devices := filter (\<lambda>(_, v). tick - v < 1) (gw_control_devices w)\<rparr>;
          second = truncate_tick tick in
      if second \<noteq> gw_control_second w1 then w1\<lparr>gw_control_second := second, gw_control_count := 0\<rparr> else w1)"

definition control_throttled :: "string \<times> string \<Rightarrow> 'z gateway_scheme \<Rightarrow> bool" where
  "control_throttled key w \<longleftrightarrow> alookup key (gw_control_devices w) \<noteq> None \<or>
     4096 \<le> length (gw_control_devices w) \<or> 100 \<le> gw_control_count w"

definition count_control :: "string \<times> string \<Rightarrow> rat \<Rightarrow> 'z gateway_scheme \<Rightarrow> 'z gateway_scheme" where
  "count_control key tick w =
     w\<lparr>gw_control_devices := aput key tick (gw_control_devices w), gw_control_count := Suc (gw_control_count w)\<rparr>"

definition denial_payload :: "permit_request \<Rightarrow> string" where
  "denial_payload r =
     obj_text [(''control_version'', int_text 1), (''type'', quote ''permit_denied''),
       (''execution_profile'', quote PROFILE), (''core_epoch'', quote (pq_core_epoch r)),
       (''command_id'', quote (pq_command_id r)), (''boot_id'', quote (pq_boot_id r)),
       (''session_id'', quote (pq_session_id r)), (''nonce'', quote (pq_nonce r)),
       (''intent_sha256'', quote (pq_intent_sha256 r)), (''reason'', quote ''unavailable'')]"

definition answer_request ::
  "'z gateway_scheme gateway_args \<Rightarrow> (string \<Rightarrow> string \<Rightarrow> permit_request \<Rightarrow> ('z gateway_scheme, control_delivery) op) \<Rightarrow>
   string \<Rightarrow> string \<Rightarrow> permit_request \<Rightarrow> ('z gateway_scheme, string) op" where
  "answer_request G request_handler house_id device_id r =
     handle
       (bnd (request_handler house_id device_id r) (\<lambda>delivery.
       andthen control_ready
       (andthen (validate_delivery (ga_env G) delivery)
       (ret (dl_payload delivery)))))
       (\<lambda>e. if e = ConflictError \<or> e = UnavailableError then ret (denial_payload r) else raise e)"

definition control_request ::
  "'z gateway_scheme gateway_args \<Rightarrow> parsed_topic \<Rightarrow> mqtt_message \<Rightarrow> ('z gateway_scheme, unit) op" where
  "control_request G parsed message =
     andthen (reject (msg_retained message) ValueError)
     (bnd (lift (decode_request (msg_size message) (msg_document message))) (\<lambda>r.
     bnd next_read (\<lambda>n.
     let tick = ga_monotonic G n; house_id = topic_house_id parsed; device_id = topic_device_id parsed in
     andthen (modify (prune_control tick))
     (bnd (gets (control_throttled (house_id, device_id))) (\<lambda>throttled.
     if throttled then ret ()
     else
       andthen (modify (count_control (house_id, device_id) tick))
       (andthen (ga_identity G house_id device_id)
       (case ga_control_request G of
          None \<Rightarrow> raise ConflictError
        | Some request_handler \<Rightarrow>
            bnd (answer_request G request_handler house_id device_id r) (\<lambda>payload.
            bnd (lift (build_topic house_id device_id CONTROL_REPLY)) (\<lambda>topic.
            cl_publish (ga_client G) topic (Wire payload) 1 False)))))))))"

subsection \<open>Inbound\<close>

text \<open>\<open>json.loads\<close> on the members of an object: the last of two equal keys decides.\<close>

fun loads :: "json \<Rightarrow> json" where
  "loads (JObj kvs) = JObj (omerge [] (map (\<lambda>(k, v). (k, loads v)) kvs))"
| "loads (JArr xs) = JArr (map loads xs)"
| "loads v = v"

definition status_text :: "bool \<Rightarrow> string" where
  "status_text online = (if online then ''online'' else ''offline'')"

definition route_state ::
  "'z gateway_scheme gateway_args \<Rightarrow> string \<Rightarrow> string \<Rightarrow> obj \<Rightarrow> bool \<Rightarrow> ('z gateway_scheme, unit) op" where
  "route_state G house_id device_id raw retained =
     bnd (lift (state_envelope_of (ga_lenient G) raw)) (\<lambda>e.
     andthen (ga_state G house_id device_id (se_state e) (se_correlation_id e))
     (case ga_command_state G of None \<Rightarrow> ret () | Some h \<Rightarrow> h house_id device_id e retained))"

definition route_status ::
  "'z gateway_scheme gateway_args \<Rightarrow> string \<Rightarrow> string \<Rightarrow> obj \<Rightarrow> ('z gateway_scheme, unit) op" where
  "route_status G house_id device_id raw =
     bnd (lift (status_envelope_of (ga_lenient G) raw)) (\<lambda>e.
     bnd (ga_status G house_id device_id (te_online e) (te_last_seen e)) (\<lambda>changed.
     if changed
     then announce G ''device_status_changed''
       [(''house_id'', JStr house_id), (''device_id'', JStr device_id), (''status'', JStr (status_text (te_online e))),
        (''last_seen'', JStr (wall_isoformat (te_last_seen e)))] []
     else ret ()))"

definition ack_event_data ::
  "(wall_time \<Rightarrow> string) \<Rightarrow> string \<Rightarrow> string \<Rightarrow> ack_envelope \<Rightarrow> obj" where
  "ack_event_data fmt house_id device_id e =
     omerge [(''house_id'', JStr house_id), (''device_id'', JStr device_id)]
       (apop ''protocol_version'' (apop ''correlation_id'' (ack_document fmt e)))"

definition route_ack ::
  "'z gateway_scheme gateway_args \<Rightarrow> string \<Rightarrow> string \<Rightarrow> obj \<Rightarrow> bool \<Rightarrow> ('z gateway_scheme, unit) op" where
  "route_ack G house_id device_id raw retained =
     bnd (lift (ack_envelope_of (ga_lenient G) raw)) (\<lambda>e.
     andthen (case ga_command_ack G of None \<Rightarrow> ret () | Some h \<Rightarrow> h house_id device_id e retained)
     (announce G ''device_ack_received'' (ack_event_data (ga_format G) house_id device_id e) (ae_correlation_id e)))"

definition route_telemetry ::
  "'z gateway_scheme gateway_args \<Rightarrow> string \<Rightarrow> string \<Rightarrow> obj \<Rightarrow> ('z gateway_scheme, unit) op" where
  "route_telemetry G house_id device_id raw =
     bnd (lift (telemetry_envelope_of (ga_lenient G) raw)) (\<lambda>e.
     announce G ''device_telemetry_received''
       [(''house_id'', JStr house_id), (''device_id'', JStr device_id),
        (''timestamp'', JStr (wall_isoformat (me_timestamp e))), (''metrics'', JObj (me_metrics e))]
       (me_correlation_id e))"

text \<open>Every kind but state, status and acknowledgement ends in the telemetry branch.\<close>

definition route ::
  "'z gateway_scheme gateway_args \<Rightarrow> string \<Rightarrow> string \<Rightarrow> topic_kind \<Rightarrow> obj \<Rightarrow> bool \<Rightarrow> ('z gateway_scheme, unit) op" where
  "route G house_id device_id kind raw retained =
     andthen (ga_identity G house_id device_id)
     (case kind of
        STATE \<Rightarrow> route_state G house_id device_id raw retained
      | STATUS \<Rightarrow> route_status G house_id device_id raw
      | ACK \<Rightarrow> route_ack G house_id device_id raw retained
      | _ \<Rightarrow> route_telemetry G house_id device_id raw)"

definition payload_limit :: "topic_kind \<Rightarrow> nat" where
  "payload_limit kind = (if kind = TELEMETRY then MAX_TELEMETRY_PAYLOAD else MAX_CONTROL_PAYLOAD)"

definition handle_message ::
  "'z gateway_scheme gateway_args \<Rightarrow> mqtt_message \<Rightarrow> ('z gateway_scheme, unit) op" where
  "handle_message G message =
     bnd (lift (parse_topic (msg_topic message))) (\<lambda>parsed.
     let kind = topic_kind parsed in
     andthen (reject (kind \<in> {SET, CONTROL_COMMAND, CONTROL_REPLY}) ValueError)
     (if kind = CONTROL_REQUEST then control_request G parsed message
      else
        andthen (reject (payload_limit kind < msg_size message) ValueError)
        (case map_option loads (msg_document message) of
           Some (JObj raw) \<Rightarrow>
             andthen (lift (validate_json_bounds (JObj raw)))
             (andthen (reject (\<not> py_eq (dflt (JStr PROTOCOL_VERSION) (alookup ''protocol_version'' raw))
                        (JStr PROTOCOL_VERSION)) ValueError)
             (handle (route G (topic_house_id parsed) (topic_device_id parsed) kind raw (msg_retained message))
               (\<lambda>e. raise (if e = ValidationError then ValueError else e))))
         | _ \<Rightarrow> raise ValueError)))"

subsection \<open>The connection loop\<close>

text \<open>
  A round is one connection: the messages the broker delivers and how the stream ends. The loop
  runs over the rounds that happen; it ends early when the gateway is stopped.
\<close>

record mqtt_round =
  rd_messages :: "mqtt_message list"
  rd_ending :: "exn option"

definition gateway_disconnect :: "'z gateway_scheme gateway_args \<Rightarrow> ('z gateway_scheme, unit) op" where
  "gateway_disconnect G =
     andthen (modify (\<lambda>w. w\<lparr>gw_control_subscribed := False\<rparr>))
     (bnd (gets gw_connected) (\<lambda>was_connected.
     andthen (modify (\<lambda>w. w\<lparr>gw_connected := False\<rparr>))
     (andthen (logged (cl_disconnect (ga_client G)))
     (if was_connected then announce G ''mqtt_disconnected'' [] [] else ret ()))))"

definition subscribe_topic ::
  "'z gateway_scheme gateway_args \<Rightarrow> string \<times> nat \<Rightarrow> ('z gateway_scheme, unit) op" where
  "subscribe_topic G = (\<lambda>(topic, qos).
     let control = ends_with ''/control/request'' topic in
     bnd (handle (andthen (cl_subscribe (ga_client G) topic qos) (ret True))
           (\<lambda>e. if is_exception e \<and> control then ret False else raise e)) (\<lambda>subscribed.
     if subscribed \<and> control then modify (\<lambda>w. w\<lparr>gw_control_subscribed := True\<rparr>) else ret ()))"

definition receive_message ::
  "'z gateway_scheme gateway_args \<Rightarrow> mqtt_message \<Rightarrow> ('z gateway_scheme, unit) op" where
  "receive_message G message =
     andthen (modify (\<lambda>w. w\<lparr>gw_backoff := ga_initial_backoff G\<rparr>)) (logged (handle_message G message))"

definition connection ::
  "'z gateway_scheme gateway_args \<Rightarrow> mqtt_round \<Rightarrow> ('z gateway_scheme, unit) op" where
  "connection G r =
     andthen (cl_connect (ga_client G))
     (andthen (modify (\<lambda>w. w\<lparr>gw_control_subscribed := False\<rparr>))
     (andthen (for_each (subscribe_topic G) subscription_topics)
     (andthen (modify (\<lambda>w. w\<lparr>gw_connected := True\<rparr>))
     (andthen (announce G ''mqtt_connected'' [] [])
     (andthen (for_each (receive_message G) (rd_messages r))
     (andthen (cl_stream_ended (ga_client G) (rd_ending r))
     (bnd (gets gw_stopping) (\<lambda>stopping. reject (\<not> stopping) ConnectionError))))))))"

definition run_round ::
  "'z gateway_scheme gateway_args \<Rightarrow> mqtt_round \<Rightarrow> ('z gateway_scheme, unit) op" where
  "run_round G r = finally_do (logged (connection G r)) (gateway_disconnect G)"

definition pause :: "'z gateway_scheme gateway_args \<Rightarrow> ('z gateway_scheme, unit) op" where
  "pause G =
     bnd (gets gw_stopping) (\<lambda>stopping.
     if stopping then ret ()
     else
       bnd (gets gw_backoff) (\<lambda>backoff.
       andthen (ga_sleep G backoff)
       (modify (\<lambda>w. w\<lparr>gw_backoff := min (backoff * 2) (ga_maximum_backoff G)\<rparr>))))"

primrec run_rounds ::
  "'z gateway_scheme gateway_args \<Rightarrow> mqtt_round list \<Rightarrow> ('z gateway_scheme, unit) op" where
  "run_rounds G [] = ret ()"
| "run_rounds G (r # rs) =
     bnd (gets gw_stopping) (\<lambda>stopping.
     if stopping then ret ()
     else andthen (run_round G r) (andthen (pause G) (run_rounds G rs)))"

definition run_gateway ::
  "'z gateway_scheme gateway_args \<Rightarrow> mqtt_round list \<Rightarrow> ('z gateway_scheme, unit) op" where
  "run_gateway G rounds =
     andthen (modify (\<lambda>w. w\<lparr>gw_backoff := ga_initial_backoff G\<rparr>)) (run_rounds G rounds)"

definition start_gateway :: "('z gateway_scheme, bool) op" where
  "start_gateway =
     bnd (gets gw_task) (\<lambda>running.
     if running then ret False
     else andthen (modify (\<lambda>w. w\<lparr>gw_stopping := False, gw_task := True\<rparr>)) (ret True))"

text \<open>The cancelled task runs its own clean-up first (\<open>run_round\<close> with a \<open>CancelledError\<close>).\<close>

definition stop_gateway :: "'z gateway_scheme gateway_args \<Rightarrow> ('z gateway_scheme, unit) op" where
  "stop_gateway G =
     andthen (modify (\<lambda>w. w\<lparr>gw_stopping := True, gw_task := False\<rparr>))
     (bnd (gets gw_connected) (\<lambda>connected_now.
     if connected_now then gateway_disconnect G else ret ()))"

subsection \<open>The gateway of the application\<close>

text \<open>\<open>create_app\<close> with MQTT enabled: the callbacks of the composition root.\<close>

record installation =
  in_sha256 :: "string \<Rightarrow> string"
  in_gate :: gate
  in_software_devices :: "(string \<times> string) list"
  in_lenient :: lenient
  in_format :: "wall_time \<Rightarrow> string"
  in_monotonic :: "nat \<Rightarrow> rat"

definition application_gateway ::
  "installation \<Rightarrow> 'z gateway_scheme mqtt_client \<Rightarrow> (rat \<Rightarrow> ('z gateway_scheme, unit) op) \<Rightarrow>
   'z gateway_scheme process \<Rightarrow> 'z gateway_scheme gateway_args" where
  "application_gateway I client sleep P =
     \<lparr>ga_client = client, ga_bus = pr_bus P, ga_state = receive_state P, ga_status = receive_status,
      ga_identity = validate_device_identity, ga_sleep = sleep, ga_initial_backoff = 1, ga_maximum_backoff = 30,
      ga_command_ack = Some (receive_command_ack (pr_env P)),
      ga_command_state = Some (receive_command_state (pr_env P)),
      ga_command_guard = Some (authorize_command (in_software_devices I)),
      ga_control_stage = Some (receive_control_stage (in_sha256 I) (in_gate I) (pr_env P)),
      ga_control_request = Some (receive_control_request (in_sha256 I) (in_gate I) (pr_env P)),
      ga_env = pr_env P, ga_fresh = pr_fresh P, ga_lenient = in_lenient I, ga_format = in_format I,
      ga_monotonic = in_monotonic I\<rparr>"

subsection \<open>What the services leave alone\<close>

text \<open>
  The broker's side of the state: nothing below the gateway publishes or touches the backoff.
\<close>

definition on_broker :: "((string \<times> outgoing \<times> nat \<times> bool) list \<Rightarrow> rat \<Rightarrow> bool) \<Rightarrow> 'z gateway_scheme \<Rightarrow> bool" where
  "on_broker R w \<longleftrightarrow> R (mq_published w) (gw_backoff w)"

named_theorems broker \<open>operations that leave the broker's side alone\<close>

lemma broker_basic [broker]:
  "preserves (on_broker R) commit" "preserves (on_broker R) flush" "preserves (on_broker R) rollback"
  "preserves (on_broker R) (store f)" "preserves (on_broker R) (draw h)" "preserves (on_broker R) next_read"
  "preserves (on_broker R) (ledger_now env)" "preserves (on_broker R) (on_clock g)"
  "preserves (on_broker R) (au_modify k)" "preserves (on_broker R) (au_gets l)"
  "preserves (on_broker R) (on_core m)" "preserves (on_broker R) (modify (sockets_update n))"
  "preserves (on_broker R) (schedule_automations e)"
  by (auto simp: preserves_def on_broker_def commit_def flush_def rollback_def store_def draw_def op_defs
      next_read_def ledger_now_def on_clock_def au_modify_def au_gets_def on_core_def schedule_automations_def
      split: prod.splits)

lemma broker_session [broker]: "preserves (on_broker R) m \<Longrightarrow> preserves (on_broker R) (in_session m)"
proof (rule preservesI)
  fix w :: "'a gateway_scheme"
  assume m: "preserves (on_broker R) m" and "on_broker R w"
  then have "on_broker R (w\<lparr>work := committed w\<rparr>)" by (simp add: on_broker_def)
  from preservesD [OF m this] show "on_broker R (snd (in_session m w))"
    by (cases "m (w\<lparr>work := committed w\<rparr>)") (simp add: in_session_def on_broker_def)
qed

lemma broker_repo [broker]: "preserves (on_broker R) save" "preserves (on_broker R) (repo_create Q e)"
  "preserves (on_broker R) (repo_update Q k f)"
  unfolding save_def repo_create_def repo_update_def by (intro pres broker)+

lemma broker_clocks [broker]: "preserves (on_broker R) (clock_tick env)" "preserves (on_broker R) (clock_recovered env)"
  "preserves (on_broker R) (clock_logical_now env)" "preserves (on_broker R) (clock_sample env)"
  unfolding clock_tick_def clock_recovered_def clock_logical_now_def clock_sample_def by (intro pres broker)+

lemma pres_pair: "(\<And>x y. preserves P (f x y)) \<Longrightarrow> preserves P (case p of (x, y) \<Rightarrow> f x y)"
  by (cases p) simp

lemma broker_authority [broker]: "preserves (on_broker R) (validate_delivery env d)"
  "preserves (on_broker R) (stage sha256 gate env h k c)" "preserves (on_broker R) (request sha256 gate env h k r)"
  unfolding validate_delivery_def stage_def request_def physical_def current_candidate_def replay_reply_def grant_def
    limit_def consume_permit_def put_command_def Let_def
  by (intro pres broker pres_pair; (simp split: option.splits prod.splits; intro conjI impI allI pres broker)?)+

lemma broker_checks [broker]: "preserves (on_broker R) (require_active k)" "preserves (on_broker R) (require_house h k)"
  "preserves (on_broker R) (require_command_contract k)"
  unfolding require_active_def require_house_def require_command_contract_def device_get_def
  by (intro pres broker)+

lemma broker_ledger [broker]:
  "preserves (on_broker R) (event_time env row)" "preserves (on_broker R) (finish env st code row)"
  "preserves (on_broker R) (expired env k)" "preserves (on_broker R) (expire env row)"
  "preserves (on_broker R) (confirm env row)" "preserves (on_broker R) (put_command row)"
  unfolding event_time_def finish_def expired_def expire_def confirm_def permit_evidence_def put_command_def
  by (intro pres broker)+

lemma broker_permit [broker]: "preserves (on_broker R) (permit_evidence row)"
  unfolding permit_evidence_def by (intro pres)

lemma broker_report [broker]: "preserves (on_broker R) (apply_report env reported row)"
  by (cases "oget ''on'' reported") (auto simp: apply_report_def intro!: pres broker)

lemma broker_evidence [broker]:
  "preserves (on_broker R) (command_ack env h k ack retained)"
  "preserves (on_broker R) (command_state env h k report retained)"
  unfolding command_ack_def command_state_def put_evidence_def eligible_def apply_ack_def record_ack_def
    conclude_ack_def
  by (intro pres broker pres_pair; simp?)+

lemma broker_event [broker]: "preserves (on_broker R) (new_event fresh t data c l)"
  unfolding new_event_def by (intro pres broker)

lemma broker_log [broker]: "preserves (on_broker R) (log_event fresh e)"
  unfolding log_event_def log_handle_event_def by (intro pres broker)

lemma broker_socket [broker]:
  "preserves (on_broker R) (ws_handle_event (socket_fanout (\<lambda>n m. on_core (send n m))) e)"
proof -
  have send: "preserves (on_broker R) (ws_send (socket_fanout (\<lambda>n m. on_core (send n m))) house e c)" for house c
    by (cases c) (auto simp: ws_send_def socket_fanout_def authorizes_house_def user_of_def get_house_membership_def
        intro!: pres broker simp: on_broker_def)
  show ?thesis
    by (cases "oget ''house_id'' (e_data e)") (auto simp: ws_handle_event_def intro!: pres send)
qed

lemma broker_bus [broker]: "preserves (on_broker R) (hub_bus X e)"
  unfolding hub_bus_def publish_def subscribers_def subscribe_def
  by (simp) (intro pres broker)

lemma broker_callbacks [broker]:
  "preserves (on_broker R) (receive_state (hub_process X) h k s c)"
  "preserves (on_broker R) (receive_status h k online seen)"
  "preserves (on_broker R) (validate_device_identity h k)"
  "preserves (on_broker R) (receive_command_ack env h k ack retained)"
  "preserves (on_broker R) (receive_command_state env h k report retained)"
  "preserves (on_broker R) (authorize_command sw h k)"
  "preserves (on_broker R) (receive_control_stage sha256 gate env h k cid)"
  "preserves (on_broker R) (receive_control_request sha256 gate env h k r)"
  unfolding receive_state_def receive_status_def validate_device_identity_def receive_command_ack_def
    receive_command_state_def authorize_command_def receive_control_stage_def receive_control_request_def
    void_def report_state_def update_status_def persist_state_def hub_process_def process.simps Let_def device_get_def
  by (intro pres broker)+

text \<open>The application with the recording client and callbacks that work below the hub.\<close>

definition recorded_gateway :: "installation \<Rightarrow> exn option \<Rightarrow> (rat \<Rightarrow> (core, unit) op) \<Rightarrow> outside \<Rightarrow>
    'z gateway_scheme gateway_args" where
  "recorded_gateway I connect_error sleep X =
     application_gateway I (fake_client connect_error) (\<lambda>b. on_core (sleep b)) (hub_process X)"

lemmas recorded = recorded_gateway_def application_gateway_def hub_process_def gateway_args.simps process.simps

lemma broker_announce [broker]: "preserves (on_broker R) (announce (recorded_gateway I ce sl X) t data c)"
  unfolding announce_def recorded by (intro pres broker)

lemma broker_route [broker]: "preserves (on_broker R) (route (recorded_gateway I ce sl X) h k kind raw retained)"
proof -
  let ?G = "recorded_gateway I ce sl X"
  have args: "ga_identity ?G = validate_device_identity" "ga_state ?G = receive_state (hub_process X)"
    "ga_status ?G = receive_status" "ga_command_state ?G = Some (receive_command_state (out_env X))"
    "ga_command_ack ?G = Some (receive_command_ack (out_env X))"
    by (simp_all add: recorded)
  have "preserves (on_broker R) (route_state ?G h k raw retained)" "preserves (on_broker R) (route_status ?G h k raw)"
    "preserves (on_broker R) (route_ack ?G h k raw retained)" "preserves (on_broker R) (route_telemetry ?G h k raw)"
    unfolding route_state_def route_status_def route_ack_def route_telemetry_def args option.case
    by (intro pres broker)+
  then show ?thesis
    unfolding route_def args by (cases kind) (auto intro!: pres broker)
qed

text \<open>From \<open>P\<close> the operation ends in \<open>Q\<close>, whether it returns or raises.\<close>

definition moves :: "('s \<Rightarrow> bool) \<Rightarrow> ('s \<Rightarrow> bool) \<Rightarrow> ('s, 'a) op \<Rightarrow> bool" where
  "moves P Q m \<longleftrightarrow> (\<forall>s. P s \<longrightarrow> Q (snd (m s)))"

lemma moves_preserves: "preserves P m \<Longrightarrow> (\<And>s. P s \<Longrightarrow> Q s) \<Longrightarrow> moves P Q m"
  by (auto simp: moves_def preserves_def)

lemma moves_bnd:
  assumes "preserves P m" and "\<And>s. P s \<Longrightarrow> Q s" and "\<And>x. moves P Q (f x)"
  shows "moves P Q (bnd m f)"
  unfolding moves_def
proof (intro allI impI)
  fix s
  assume s: "P s"
  with assms(1) have t: "P (snd (m s))" by (rule preservesD)
  show "Q (snd (bnd m f s))"
    using t assms(2,3) by (cases "m s") (auto simp: bnd_def moves_def split: sum.splits)
qed

lemma moves_andthen: "preserves P m \<Longrightarrow> (\<And>s. P s \<Longrightarrow> Q s) \<Longrightarrow> moves P Q k \<Longrightarrow> moves P Q (andthen m k)"
  unfolding andthen_def by (rule moves_bnd)

lemma moves_lift: "(\<And>s. P s \<Longrightarrow> Q s) \<Longrightarrow> (\<And>v. r = Inr v \<Longrightarrow> moves P Q (f v)) \<Longrightarrow> moves P Q (bnd (lift r) f)"
  by (cases r) (auto simp: moves_def bnd_lift_apply)

lemma moves_reject: "(\<And>s. P s \<Longrightarrow> Q s) \<Longrightarrow> (\<not> b \<Longrightarrow> moves P Q k) \<Longrightarrow> moves P Q (andthen (reject b e) k)"
  by (cases b) (auto simp: moves_def)

lemma moves_if: "moves P Q m \<Longrightarrow> moves P Q k \<Longrightarrow> moves P Q (if b then m else k)"
  by simp

text \<open>At most one reply on the topic of the device has been added to what was published.\<close>

definition replied :: "parsed_topic \<Rightarrow> (string \<times> outgoing \<times> nat \<times> bool) list \<Rightarrow>
    (string \<times> outgoing \<times> nat \<times> bool) list \<Rightarrow> rat \<Rightarrow> bool" where
  "replied p old ps b \<longleftrightarrow> ps = old \<or> (\<exists>topic payload.
     build_topic (topic_house_id p) (topic_device_id p) CONTROL_REPLY = Inr topic \<and>
     ps = old @ [(topic, Wire payload, 1, False)])"

lemma broker_answer [broker]:
  "preserves (on_broker R) (answer_request (recorded_gateway I ce sl X)
     (receive_control_request sha256 gate env) h k r)"
  unfolding answer_request_def control_ready_def by (intro pres broker)

lemma moves_control_request:
  "moves (on_broker (\<lambda>ps b. ps = old)) (on_broker (replied p old)) (control_request (recorded_gateway I ce sl X) p m)"
proof -
  let ?G = "recorded_gateway I ce sl X"
  let ?P = "on_broker (\<lambda>ps b. ps = old) :: 'a gateway_scheme \<Rightarrow> bool"
  have args: "ga_identity ?G = validate_device_identity" "ga_client ?G = fake_client ce"
    "ga_control_request ?G = Some (receive_control_request (in_sha256 I) (in_gate I) (out_env X))"
    by (simp_all add: recorded)
  have sub: "?P s \<Longrightarrow> on_broker (replied p old) s" for s by (simp add: on_broker_def replied_def)
  have prune: "preserves ?P (modify (prune_control t))" "preserves ?P (modify (count_control key t))" for t key
    by (auto simp: preserves_def op_defs on_broker_def prune_control_def count_control_def Let_def)
  have publish: "moves ?P (on_broker (replied p old)) (cl_publish (fake_client ce) topic (Wire payload) 1 False)"
    if "build_topic (topic_house_id p) (topic_device_id p) CONTROL_REPLY = Inr topic" for topic payload
    using that by (auto simp: moves_def fake_client_def op_defs on_broker_def replied_def)
  have tail: "moves ?P (on_broker (replied p old))
      (andthen (modify (count_control (topic_house_id p, topic_device_id p) t))
      (andthen (validate_device_identity (topic_house_id p) (topic_device_id p))
      (bnd (answer_request ?G (receive_control_request (in_sha256 I) (in_gate I) (out_env X))
             (topic_house_id p) (topic_device_id p) r) (\<lambda>payload.
      bnd (lift (build_topic (topic_house_id p) (topic_device_id p) CONTROL_REPLY)) (\<lambda>topic.
      cl_publish (fake_client ce) topic (Wire payload) 1 False)))))" for t r
    by (intro moves_andthen [OF prune(2)] moves_andthen [OF broker_callbacks(3)] moves_bnd [OF broker_answer]
        moves_lift sub publish)
  have head: "moves ?P (on_broker (replied p old)) (ret ())"
    using sub by (simp add: moves_def)
  show ?thesis
    unfolding control_request_def args option.case Let_def
    by (intro moves_reject moves_lift moves_bnd [OF broker_basic(6)] moves_bnd [OF pres_gets]
        moves_andthen [OF prune(1)] moves_if tail head sub)
qed

lemma rejected_request:
  "msg_retained m \<Longrightarrow> control_request G p m w = (Inl ValueError, w)"
  "decode_request (msg_size m) (msg_document m) = Inl e \<Longrightarrow> snd (control_request G p m w) = w"
  by (auto simp: control_request_def andthen_reject_apply bnd_lift_apply)

lemma broker_routed [broker]:
  "preserves (on_broker R) (handle (route (recorded_gateway I ce sl X) h k kind raw retained) (\<lambda>e. raise (f e)))"
  by (intro pres broker)

text \<open>A message of another kind publishes nothing.\<close>

lemma broker_other_kind:
  assumes "\<And>p. parse_topic (msg_topic m) = Inr p \<Longrightarrow> topic_kind p \<noteq> CONTROL_REQUEST"
  shows "preserves (on_broker R) (handle_message (recorded_gateway I ce sl X) m)"
  unfolding handle_message_def Let_def
proof (rule pres_bnd_lift)
  fix p
  assume p: "parse_topic (msg_topic m) = Inr p"
  let ?body = "case map_option loads (msg_document m) of
    Some (JObj raw) \<Rightarrow>
      andthen (lift (validate_json_bounds (JObj raw)))
      (andthen (reject (\<not> py_eq (dflt (JStr PROTOCOL_VERSION) (alookup ''protocol_version'' raw))
                 (JStr PROTOCOL_VERSION)) ValueError)
      (handle (route (recorded_gateway I ce sl X) (topic_house_id p) (topic_device_id p) (topic_kind p) raw
          (msg_retained m))
        (\<lambda>e. raise (if e = ValidationError then ValueError else e))))
    | _ \<Rightarrow> raise ValueError"
  have "preserves (on_broker R) ?body"
    by (cases "map_option loads (msg_document m)") (auto split: json.split intro!: pres broker)
  then show "preserves (on_broker R) (andthen (reject (topic_kind p \<in> {SET, CONTROL_COMMAND, CONTROL_REPLY}) ValueError)
      (if topic_kind p = CONTROL_REQUEST then control_request (recorded_gateway I ce sl X) p m
       else andthen (reject (payload_limit (topic_kind p) < msg_size m) ValueError) ?body))"
    using assms [OF p] by (auto intro!: pres)
qed

lemma handle_control_request:
  "parse_topic (msg_topic m) = Inr p \<Longrightarrow> topic_kind p = CONTROL_REQUEST \<Longrightarrow>
   handle_message G m = control_request G p m"
  by (auto simp: handle_message_def fun_eq_iff bnd_lift_apply)

text \<open>
  C16. What the broker sends the installation is never forwarded: handling an inbound message publishes
  nothing, whatever happens, except for a live, well-formed control request, which is answered by at
  most one message: a reply, never retained, on the reply topic of the house and device it came from.
\<close>

theorem inbound_publishes_only_replies:
  "mq_published (snd (handle_message (recorded_gateway I ce sl X) m w)) = mq_published w \<or>
   (\<exists>p r topic payload.
     parse_topic (msg_topic m) = Inr p \<and> topic_kind p = CONTROL_REQUEST \<and> msg_retained m = False \<and>
     decode_request (msg_size m) (msg_document m) = Inr r \<and>
     build_topic (topic_house_id p) (topic_device_id p) CONTROL_REPLY = Inr topic \<and>
     mq_published (snd (handle_message (recorded_gateway I ce sl X) m w)) =
       mq_published w @ [(topic, Wire payload, 1, False)])"
proof (cases "\<exists>p. parse_topic (msg_topic m) = Inr p \<and> topic_kind p = CONTROL_REQUEST")
  case False
  then have "on_broker (\<lambda>ps _. ps = mq_published w) (snd (handle_message (recorded_gateway I ce sl X) m w))"
    by (intro preservesD [OF broker_other_kind]) (auto simp: on_broker_def)
  then show ?thesis by (simp add: on_broker_def)
next
  case True
  then obtain p where p: "parse_topic (msg_topic m) = Inr p" "topic_kind p = CONTROL_REQUEST" by blast
  have "on_broker (replied p (mq_published w)) (snd (control_request (recorded_gateway I ce sl X) p m w))"
    using moves_control_request [of "mq_published w" p I ce sl X m] by (auto simp: moves_def on_broker_def)
  with p rejected_request [where G = "recorded_gateway I ce sl X" and p = p and m = m and w = w] show ?thesis
    by (cases "msg_retained m"; cases "decode_request (msg_size m) (msg_document m)")
      (auto simp: handle_control_request on_broker_def replied_def)
qed

subsection \<open>Outbound commands\<close>

lemma wp_ledger_now: "wp (ledger_now env) Q E w =
    (case command_now (env_wall env (reads w)) (ledger_clock w) of
       (Inl x, c) \<Rightarrow> E x (w\<lparr>reads := Suc (reads w), ledger_clock := c\<rparr>)
     | (Inr t, c) \<Rightarrow> Q t (w\<lparr>reads := Suc (reads w), ledger_clock := c\<rparr>))"
  by (auto simp: ledger_now_def wp_bnd next_read_def wp_def split: prod.splits sum.splits)

text \<open>The guard of the application reads the committed state and writes nothing.\<close>

lemma wp_authorize_command:
  assumes "\<And>e. E e (w\<lparr>work := committed w\<rparr>)"
    and "(h, k) \<in> set sw \<Longrightarrow> device_house (committed w) k = Some h \<Longrightarrow>
      tget p_device_id k (physical_devices (committed w)) = None \<Longrightarrow> Q () (w\<lparr>work := committed w\<rparr>)"
  shows "wp (authorize_command sw h k) Q E w"
proof -
  let ?u = "w\<lparr>work := committed w\<rparr>"
  let ?m = "andthen (require_house h k) (andthen (require_command_contract k) (reject ((h, k) \<notin> set sw) ConflictError))"
  have m: "wp ?m (\<lambda>_ v. v = ?u \<and> (h, k) \<in> set sw \<and> device_house (committed w) k = Some h \<and>
      tget p_device_id k (physical_devices (committed w)) = None) (\<lambda>_ v. v = ?u) ?u"
    by (simp add: require_house_def require_active_def require_command_contract_def device_get_def query_ops
        by_device_def wp_simps split: option.splits)
  show ?thesis
    using m assms unfolding authorize_command_def in_session_def
    by (cases "?m ?u") (auto simp: wp_def split: sum.splits)
qed

text \<open>
  C15. A plain command leaves the gateway only for a software device: when \<open>send_command\<close> returns, the pair
  is on the list of the installation, the device stands in that house and has no physical identity, the
  deadline that came with the command is at most its lifetime after its timestamp, the command clock read
  a time within it, and exactly one document was published, on the set topic and not retained. When it
  raises, nothing was published.
\<close>

theorem commands_only_to_software:
  "case send_command (recorded_gateway I ce sl X) h k state corr cmd timestamp expires w of
     (Inl _, out) \<Rightarrow> mq_published out = mq_published w
   | (Inr command_id, out) \<Rightarrow>
       \<exists>t e now topic envelope.
         (h, k) \<in> set (in_software_devices I) \<and> device_house (committed w) k = Some h \<and>
         tget p_device_id k (physical_devices (committed w)) = None \<and>
         timestamp = Some t \<and> expires = Some e \<and> instant e - instant t \<le> COMMAND_LIFETIME \<and>
         fst (command_now (env_wall (out_env X) (reads w)) (ledger_clock w)) = Inr now \<and>
         instant t \<le> now \<and> now < instant e \<and>
         build_topic h k SET = Inr topic \<and> command_envelope_ok envelope \<and>
         ce_command_id envelope = command_id \<and> ce_state envelope = state \<and>
         ce_timestamp envelope = t \<and> ce_expires_at envelope = Some e \<and>
         mq_published out = mq_published w @ [(topic, Document (command_document (in_format I) envelope), 1, False)]"
proof -
  let ?G = "recorded_gateway I ce sl X"
  let ?E = "\<lambda>_ out. mq_published out = mq_published w"
  have args: "ga_command_guard ?G = Some (authorize_command (in_software_devices I))" "ga_client ?G = fake_client ce"
    "ga_env ?G = out_env X" "ga_format ?G = in_format I"
    by (simp_all add: recorded)
  let ?Q = "\<lambda>command_id out. \<exists>t e now topic envelope.
         (h, k) \<in> set (in_software_devices I) \<and> device_house (committed w) k = Some h \<and>
         tget p_device_id k (physical_devices (committed w)) = None \<and>
         timestamp = Some t \<and> expires = Some e \<and> instant e - instant t \<le> COMMAND_LIFETIME \<and>
         fst (command_now (env_wall (out_env X) (reads w)) (ledger_clock w)) = Inr now \<and>
         instant t \<le> now \<and> now < instant e \<and>
         build_topic h k SET = Inr topic \<and> command_envelope_ok envelope \<and>
         ce_command_id envelope = command_id \<and> ce_state envelope = state \<and>
         ce_timestamp envelope = t \<and> ce_expires_at envelope = Some e \<and>
         mq_published out = mq_published w @ [(topic, Document (command_document (in_format I) envelope), 1, False)]"
  have "wp (send_command ?G h k state corr cmd timestamp expires) ?Q ?E w"
    unfolding send_command_def gateway_authorize_def args option.case wp_andthen
  proof (rule wp_authorize_command)
    assume software: "(h, k) \<in> set (in_software_devices I)" "device_house (committed w) k = Some h"
      "tget p_device_id k (physical_devices (committed w)) = None"
    show "wp (case (timestamp, expires) of
        (Some t, Some e) \<Rightarrow>
          andthen (reject (\<not> original_deadline timestamp expires) InvalidReferenceError)
          (bnd (or_fresh (ga_fresh ?G) corr) (\<lambda>correlation_id.
          bnd (or_fresh (ga_fresh ?G) cmd) (\<lambda>command_id.
          let envelope = \<lparr>ce_command_id = command_id, ce_correlation_id = correlation_id,
                ce_timestamp = t, ce_expires_at = Some e, ce_state = state\<rparr> in
          andthen (reject (\<not> command_envelope_ok envelope) ValidationError)
          (bnd (ledger_now (out_env X)) (\<lambda>now.
          andthen (reject (\<not> (instant t \<le> now \<and> now < instant e)) ConflictError)
          (bnd (lift (build_topic h k SET)) (\<lambda>topic.
          andthen (cl_publish (fake_client ce) topic (Document (command_document (in_format I) envelope))
            (tp_qos (TOPIC_POLICY SET)) (tp_retain (TOPIC_POLICY SET)))
          (ret command_id))))))))
      | _ \<Rightarrow> raise InvalidReferenceError) ?Q ?E (w\<lparr>work := committed w\<rparr>)"
      using software
      by (cases timestamp; cases expires)
        (auto simp: wp_simps Let_def or_fresh_def wp_ledger_now fake_client_def original_deadline_def
          split: prod.splits sum.splits)
  qed simp
  then show ?thesis unfolding wp_def by (auto split: prod.splits sum.splits)
qed

subsection \<open>Reconnecting\<close>

definition paced :: "'z gateway_scheme \<Rightarrow> bool" where
  "paced = on_broker (\<lambda>_ b. 1 \<le> b \<and> b \<le> 30)"

lemma paced_basic:
  "preserves paced (modify (gw_connected_update f))" "preserves paced (modify (gw_control_subscribed_update f))"
  "preserves paced (modify (mq_open_update f))" "preserves paced (modify (mq_subscriptions_update g))"
  "preserves paced (modify (mq_published_update q))" "preserves paced (modify (gw_backoff_update (\<lambda>_. 1)))"
  "preserves paced (modify (prune_control t))" "preserves paced (modify (count_control key t))"
  by (auto simp: preserves_def op_defs paced_def on_broker_def prune_control_def count_control_def Let_def)

lemma pres_finally: "preserves P m \<Longrightarrow> preserves P k \<Longrightarrow> preserves P (finally_do m k)"
  by (fastforce simp: preserves_def finally_do_def split: prod.splits sum.splits)

lemma pres_logged: "preserves P m \<Longrightarrow> preserves P (logged m)"
  unfolding logged_def by (intro pres)

lemma paced_client:
  "preserves paced (cl_connect (fake_client ce))" "preserves paced (cl_disconnect (fake_client ce))"
  "preserves paced (cl_subscribe (fake_client ce) topic qos)"
  "preserves paced (cl_publish (fake_client ce) topic payload qos retain)"
  "preserves paced (cl_stream_ended (fake_client ce) ending)"
  by (auto simp: fake_client_def intro: paced_basic split: option.split)

lemma paced_control_request: "preserves paced (control_request (recorded_gateway I ce sl X) p m)"
proof -
  let ?G = "recorded_gateway I ce sl X"
  have args: "ga_identity ?G = validate_device_identity" "ga_client ?G = fake_client ce"
    "ga_control_request ?G = Some (receive_control_request (in_sha256 I) (in_gate I) (out_env X))"
    by (simp_all add: recorded)
  show ?thesis
    unfolding control_request_def args option.case Let_def
    by (intro pres paced_basic paced_client broker [where R = "\<lambda>_ b. 1 \<le> b \<and> b \<le> 30", folded paced_def])
qed

lemma paced_message: "preserves paced (handle_message (recorded_gateway I ce sl X) m)"
proof (cases "\<exists>p. parse_topic (msg_topic m) = Inr p \<and> topic_kind p = CONTROL_REQUEST")
  case True
  then obtain p where "parse_topic (msg_topic m) = Inr p" "topic_kind p = CONTROL_REQUEST" by blast
  then show ?thesis by (simp add: handle_control_request paced_control_request)
next
  case False
  then show ?thesis unfolding paced_def by (intro broker_other_kind) auto
qed

lemma paced_announce: "preserves paced (announce (recorded_gateway I ce sl X) t data c)"
  unfolding paced_def by (rule broker_announce)

lemma paced_disconnect: "preserves paced (gateway_disconnect (recorded_gateway I ce sl X))"
  unfolding gateway_disconnect_def
  by (intro pres paced_basic paced_announce pres_logged) (auto simp: recorded intro: paced_client)

lemma paced_round: "preserves paced (run_round (recorded_gateway I ce sl X) r)"
proof -
  let ?G = "recorded_gateway I ce sl X"
  have args: "ga_client ?G = fake_client ce" "ga_initial_backoff ?G = 1"
    by (simp_all add: recorded)
  have "preserves paced (subscribe_topic ?G tq)" for tq
    unfolding subscribe_topic_def args Let_def by (cases tq) (auto intro!: pres paced_basic paced_client)
  moreover have "preserves paced (receive_message ?G m)" for m
    unfolding receive_message_def args by (intro pres paced_basic pres_logged paced_message)
  ultimately have "preserves paced (connection ?G r)"
    unfolding connection_def args by (intro pres paced_basic paced_client paced_announce)
  then show ?thesis
    unfolding run_round_def by (intro pres_finally pres_logged paced_disconnect)
qed

text \<open>The loop with another pause: only \<open>pause\<close> uses it.\<close>

definition guarded_sleep :: "(rat \<Rightarrow> ('s, unit) op) \<Rightarrow> rat \<Rightarrow> ('s, unit) op" where
  "guarded_sleep sl b = (if 1 \<le> b \<and> b \<le> 30 then sl b else raise RuntimeError)"

lemma sleep_only_in_pause:
  "run_round (recorded_gateway I ce sl X) r = run_round (recorded_gateway I ce sl' X) r"
proof -
  have G: "recorded_gateway I ce sl X = (recorded_gateway I ce sl' X)\<lparr>ga_sleep := \<lambda>b. on_core (sl b)\<rparr>"
    by (simp add: recorded_gateway_def application_gateway_def)
  have announce: "announce (G\<lparr>ga_sleep := f\<rparr>) = announce G" for G :: "'a gateway_scheme gateway_args" and f
    by (simp add: announce_def fun_eq_iff)
  have routed: "route (G\<lparr>ga_sleep := f\<rparr>) = route G" for G :: "'a gateway_scheme gateway_args" and f
    by (simp add: fun_eq_iff route_def route_state_def route_status_def route_ack_def route_telemetry_def announce
        cong: topic_kind.case_cong if_cong)
  have control: "control_request (G\<lparr>ga_sleep := f\<rparr>) = control_request G" for G :: "'a gateway_scheme gateway_args" and f
    by (simp add: fun_eq_iff control_request_def answer_request_def Let_def cong: if_cong option.case_cong)
  have handle: "handle_message (G\<lparr>ga_sleep := f\<rparr>) = handle_message G" for G :: "'a gateway_scheme gateway_args" and f
    unfolding handle_message_def routed control ..
  have parts: "gateway_disconnect (G\<lparr>ga_sleep := f\<rparr>) = gateway_disconnect G"
    "subscribe_topic (G\<lparr>ga_sleep := f\<rparr>) = subscribe_topic G" "receive_message (G\<lparr>ga_sleep := f\<rparr>) = receive_message G"
    for G :: "'a gateway_scheme gateway_args" and f
    by (simp_all add: gateway_disconnect_def subscribe_topic_def receive_message_def announce handle fun_eq_iff)
  show ?thesis unfolding G by (simp add: run_round_def connection_def parts announce)
qed

lemma paced_pause:
  assumes "paced w"
  shows "pause (recorded_gateway I ce (guarded_sleep sl) X) w = pause (recorded_gateway I ce sl X) w"
    and "paced (snd (pause (recorded_gateway I ce sl X) w))"
proof -
  have b: "1 \<le> gw_backoff w" "gw_backoff w \<le> 30" using assms by (auto simp: paced_def on_broker_def)
  then show "pause (recorded_gateway I ce (guarded_sleep sl) X) w = pause (recorded_gateway I ce sl X) w"
    by (simp add: pause_def guarded_sleep_def recorded andthen_def bnd_def)
  have "preserves paced (andthen (on_core (sl c)) (modify (gw_backoff_update (\<lambda>_. min (c * 2) 30))))"
    if "1 \<le> c" for c
    using that by (intro pres) (auto simp: paced_def on_broker_def broker_basic min_def)
  from preservesD [OF this [OF b(1)] assms] show "paced (snd (pause (recorded_gateway I ce sl X) w))"
    using assms by (simp add: pause_def recorded)
qed

lemma paced_rounds:
  "paced w \<Longrightarrow> run_rounds (recorded_gateway I ce sl X) rs w = run_rounds (recorded_gateway I ce (guarded_sleep sl) X) rs w"
proof (induction rs arbitrary: w)
  case (Cons r rs)
  let ?G = "recorded_gateway I ce sl X" and ?H = "recorded_gateway I ce (guarded_sleep sl) X"
  obtain x u where r: "run_round ?G r w = (x, u)" by (cases "run_round ?G r w") auto
  have u: "paced u" using preserves_result [OF paced_round Cons.prems r] .
  obtain y v where p: "pause ?G u = (y, v)" by (cases "pause ?G u") auto
  have v: "paced v" using paced_pause(2) [OF u, of I ce sl X] p by simp
  have r': "run_round ?H r w = (x, u)" using r by (simp only: sleep_only_in_pause [of I ce "guarded_sleep sl" X r sl])
  have p': "pause ?H u = (y, v)" using p paced_pause(1) [OF u, of I ce sl X] by simp
  show ?case
    using r p r' p' Cons.IH [OF v] by (auto simp: andthen_def bnd_def split: sum.splits)
qed simp

text \<open>
  Reconnecting is paced: whatever the rounds bring, failed connections, messages and errors, the
  connection loop only ever sleeps between one and thirty seconds. It behaves the same when every other
  pause would be an error.
\<close>

theorem reconnect_pauses_bounded:
  "run_gateway (recorded_gateway I ce sl X) rounds w =
   run_gateway (recorded_gateway I ce (\<lambda>b. if 1 \<le> b \<and> b \<le> 30 then sl b else raise RuntimeError) X) rounds w"
proof -
  have "paced (w\<lparr>gw_backoff := 1\<rparr>)" by (simp add: paced_def on_broker_def)
  from paced_rounds [OF this, of I ce sl X rounds] show ?thesis
    by (simp add: run_gateway_def recorded guarded_sleep_def [abs_def])
qed

end
