(* ===== verification/Api.thy ===== *)
theory Api
  imports Wiring Provisioning Command_Ledger
begin

text \<open>
  The HTTP interface: \<open>app/api/routes.py\<close>, \<open>commands.py\<close>, \<open>provisioning.py\<close>, \<open>onboarding.py\<close> and
  \<open>dependencies.py\<close>, with the exception handlers of \<open>app/main.py\<close>. A request is its endpoint with the
  validated parameters; the framework resolves the caller first, then validates, then runs the
  handler in the session of the request.
\<close>

subsection \<open>What the router is built with\<close>

text \<open>
  \<open>ap_clk n\<close> is the n-th reading of the wall clock in the call, \<open>ap_db_now\<close> the time of the
  database. The database of the session is the state.
\<close>

record 'w api =
  ap_process :: "'w process"
  ap_crypto :: crypto
  ap_codec :: codec
  ap_clk :: "nat \<Rightarrow> int"
  ap_db_now :: int

definition bearer_token :: "string option \<Rightarrow> exn + string" where
  "bearer_token authorization =
     (let parts = (case authorization of None \<Rightarrow> [] | Some header \<Rightarrow> if header = [] then [] else words header) in
      if length parts \<noteq> 2 \<or> lower (hd parts) \<noteq> ''bearer'' then Inl (HTTPException 401) else Inr (parts ! 1))"

definition get_current_user :: "crypto \<Rightarrow> int \<Rightarrow> string \<Rightarrow> ('z world_scheme, user_row) op" where
  "get_current_user K now token =
     handle (access_user K now token)
       (\<lambda>e. raise (if e = AuthenticationError then HTTPException 401 else e))"

definition require :: "'w api \<Rightarrow> user_row \<Rightarrow> string \<Rightarrow> permission \<Rightarrow> ('z world_scheme, unit) op" where
  "require A user house_id p =
     bnd (get_house_membership (u_id user) house_id) (\<lambda>membership.
     if membership = None then raise (HTTPException 404)
     else if \<not> has_permission membership p
     then andthen (log_authorization_denied (pr_fresh (ap_process A)) (u_id user) house_id (permission_value p))
       (raise (HTTPException 403))
     else ret ())"

datatype entity_kind = House_kind | Floor_kind | Room_kind | Device_kind | Scene_kind | Automation_kind

fun house_for :: "entity_kind \<Rightarrow> string \<Rightarrow> ('z world_scheme, string) op" where
  "house_for House_kind k = bnd (repo_get house_repo k) (\<lambda>_. ret k)"
| "house_for Floor_kind k = bnd (repo_get floor_repo k) (\<lambda>f. ret (f_house_id f))"
| "house_for Room_kind k = room_house_id k"
| "house_for Device_kind k = device_house_id k"
| "house_for Scene_kind k = bnd (repo_get scene_repo k) (\<lambda>s. ret (s_house_id s))"
| "house_for Automation_kind k = bnd (repo_get automation_repo k) (\<lambda>a. ret (a_house_id a))"

definition allowed_houses :: "user_row \<Rightarrow> permission \<Rightarrow> ('z world_scheme, string list) op" where
  "allowed_houses user p = accessible_house_ids (u_id user) p"

text \<open>\<open>require(session, user, house_for(session, kind, entity_id), permission)\<close>.\<close>

definition require_for ::
  "'w api \<Rightarrow> user_row \<Rightarrow> entity_kind \<Rightarrow> string \<Rightarrow> permission \<Rightarrow> ('z world_scheme, unit) op" where
  "require_for A user kind entity_id p = bnd (house_for kind entity_id) (\<lambda>h. require A user h p)"

definition require_optional :: "'w api \<Rightarrow> user_row \<Rightarrow> string option \<Rightarrow> permission \<Rightarrow> ('z world_scheme, unit) op" where
  "require_optional A user house_id p = (case house_id of None \<Rightarrow> ret () | Some h \<Rightarrow> require A user h p)"

definition require_optional_for ::
  "'w api \<Rightarrow> user_row \<Rightarrow> entity_kind \<Rightarrow> string option \<Rightarrow> permission \<Rightarrow> ('z world_scheme, unit) op" where
  "require_optional_for A user kind entity_id p =
     (case entity_id of None \<Rightarrow> ret () | Some k \<Rightarrow> require_for A user kind k p)"

subsection \<open>Accounts\<close>

definition announce_auth :: "'z core_scheme api \<Rightarrow> string \<Rightarrow> ('z core_scheme, unit) op" where
  "announce_auth A type_name =
     bnd (new_event (pr_fresh (ap_process A)) type_name [] [] 0) (\<lambda>e. in_session (pr_bus (ap_process A) e))"

definition login_route :: "'z core_scheme api \<Rightarrow> string \<Rightarrow> string \<Rightarrow> ('z core_scheme, token_pair) op" where
  "login_route A email password =
     bnd (handle (login (ap_crypto A) (ap_codec A) (pr_fresh (ap_process A)) (ap_clk A) email password)
       (\<lambda>e. if e = AuthenticationError
         then andthen (announce_auth A ''auth_login_failed'') (raise (HTTPException 401)) else raise e)) (\<lambda>result.
     andthen (announce_auth A ''auth_login_succeeded'') (ret result))"

definition refresh_route :: "'z core_scheme api \<Rightarrow> string \<Rightarrow> ('z core_scheme, token_pair) op" where
  "refresh_route A token =
     bnd (handle (refresh (ap_crypto A) (ap_codec A) (pr_fresh (ap_process A)) (ap_clk A) token)
       (\<lambda>e. if e = AuthenticationError
         then andthen (announce_auth A ''auth_refresh_failed'') (raise (HTTPException 401)) else raise e)) (\<lambda>result.
     andthen (announce_auth A ''auth_refresh_succeeded'') (ret result))"

definition logout_route :: "'z core_scheme api \<Rightarrow> string \<Rightarrow> ('z core_scheme, unit) op" where
  "logout_route A token =
     andthen (handle (logout (ap_crypto A) (ap_clk A) token)
       (\<lambda>e. raise (if e = AuthenticationError then HTTPException 401 else e)))
     (announce_auth A ''auth_logout'')"

record user_read =
  ur_id :: string
  ur_email :: string
  ur_is_active :: bool
  ur_is_superuser :: bool

definition me_route :: "user_row \<Rightarrow> user_read" where
  "me_route user = \<lparr>ur_id = u_id user, ur_email = u_email user, ur_is_active = u_is_active user,
     ur_is_superuser = u_is_superuser user\<rparr>"

text \<open>\<open>sorted\<close> on the values of the permissions.\<close>

fun insert_text :: "string \<Rightarrow> string list \<Rightarrow> string list" where
  "insert_text s [] = [s]"
| "insert_text s (t # ts) = (if str_lt t s then t # insert_text s ts else s # t # ts)"

definition my_house_permissions :: "'w api \<Rightarrow> user_row \<Rightarrow> string \<Rightarrow> ('z world_scheme, string list) op" where
  "my_house_permissions A user house_id =
     andthen (require A user house_id HOUSE_READ)
     (bnd (get_house_membership (u_id user) house_id) (\<lambda>membership.
     ret (foldr insert_text (map permission_value (filter (has_permission membership) ALL_PERMISSIONS)) [])))"

subsection \<open>Structure\<close>

definition create_house_route :: "'w api \<Rightarrow> user_row \<Rightarrow> house_create \<Rightarrow> ('z world_scheme, house_row) op" where
  "create_house_route A user data =
     create_with_owner (pr_fresh (ap_process A)) \<lparr>h_id = hc_id data, h_name = hc_name data\<rparr> (u_id user)"

definition list_houses :: "user_row \<Rightarrow> ('z world_scheme, house_row list) op" where
  "list_houses user = bnd (allowed_houses user HOUSE_READ) houses_for_ids"

definition get_house :: "'w api \<Rightarrow> user_row \<Rightarrow> string \<Rightarrow> ('z world_scheme, house_row) op" where
  "get_house A user k = andthen (require A user k HOUSE_READ) (repo_get house_repo k)"

definition update_house_route :: "'w api \<Rightarrow> user_row \<Rightarrow> string \<Rightarrow> string option \<Rightarrow> ('z world_scheme, house_row) op" where
  "update_house_route A user k name = andthen (require A user k HOUSE_MANAGE) (update_house k name)"

definition delete_house_route :: "'w api \<Rightarrow> user_row \<Rightarrow> string \<Rightarrow> ('z world_scheme, unit) op" where
  "delete_house_route A user k = andthen (require A user k HOUSE_MANAGE) (delete_house k)"

definition create_floor_route :: "'w api \<Rightarrow> user_row \<Rightarrow> floor_create \<Rightarrow> ('z world_scheme, floor_row) op" where
  "create_floor_route A user data = andthen (require A user (fc_house_id data) HOUSE_MANAGE) (create_floor data)"

definition list_floors :: "user_row \<Rightarrow> ('z world_scheme, floor_row list) op" where
  "list_floors user = bnd (allowed_houses user HOUSE_READ) floors_for_houses"

definition get_floor :: "'w api \<Rightarrow> user_row \<Rightarrow> string \<Rightarrow> ('z world_scheme, floor_row) op" where
  "get_floor A user k = andthen (require_for A user Floor_kind k HOUSE_READ) (repo_get floor_repo k)"

definition update_floor_route :: "'w api \<Rightarrow> user_row \<Rightarrow> string \<Rightarrow> floor_update \<Rightarrow> ('z world_scheme, floor_row) op" where
  "update_floor_route A user k data =
     andthen (require_for A user Floor_kind k HOUSE_MANAGE)
     (andthen (require_optional A user (fu_house_id data) HOUSE_MANAGE)
     (update_floor k data))"

definition delete_floor_route :: "'w api \<Rightarrow> user_row \<Rightarrow> string \<Rightarrow> ('z world_scheme, unit) op" where
  "delete_floor_route A user k = andthen (require_for A user Floor_kind k HOUSE_MANAGE) (delete_floor k)"

definition create_room_route :: "'w api \<Rightarrow> user_row \<Rightarrow> room_create \<Rightarrow> ('z world_scheme, room_row) op" where
  "create_room_route A user data =
     andthen (require_for A user Floor_kind (rc_floor_id data) HOUSE_MANAGE) (create_room data)"

definition list_rooms :: "user_row \<Rightarrow> ('z world_scheme, room_row list) op" where
  "list_rooms user = bnd (allowed_houses user HOUSE_READ) rooms_for_houses"

definition get_room :: "'w api \<Rightarrow> user_row \<Rightarrow> string \<Rightarrow> ('z world_scheme, room_row) op" where
  "get_room A user k = andthen (require_for A user Room_kind k HOUSE_READ) (repo_get room_repo k)"

definition update_room_route :: "'w api \<Rightarrow> user_row \<Rightarrow> string \<Rightarrow> room_update \<Rightarrow> ('z world_scheme, room_row) op" where
  "update_room_route A user k data =
     andthen (require_for A user Room_kind k HOUSE_MANAGE)
     (andthen (require_optional_for A user Floor_kind (ru_floor_id data) HOUSE_MANAGE)
     (update_room k data))"

definition delete_room_route :: "'w api \<Rightarrow> user_row \<Rightarrow> string \<Rightarrow> ('z world_scheme, unit) op" where
  "delete_room_route A user k = andthen (require_for A user Room_kind k HOUSE_MANAGE) (delete_room k)"

subsection \<open>Devices\<close>

definition create_device_route :: "'w api \<Rightarrow> user_row \<Rightarrow> device_create \<Rightarrow> ('z world_scheme, device_row) op" where
  "create_device_route A user data =
     andthen (require_for A user Room_kind (dc_room_id data) DEVICE_MANAGE) (create_device data)"

definition list_devices ::
  "'w api \<Rightarrow> user_row \<Rightarrow> string option \<Rightarrow> string option \<Rightarrow> string option \<Rightarrow> bool option \<Rightarrow>
   ('z world_scheme, device_row list) op" where
  "list_devices A user house_id room_id device_type online =
     bnd (allowed_houses user DEVICE_READ) (\<lambda>house_ids.
     andthen (require_optional A user house_id DEVICE_READ)
     (andthen (require_optional_for A user Room_kind room_id DEVICE_READ)
     (device_list_for_houses (case house_id of None \<Rightarrow> house_ids | Some h \<Rightarrow> [h]) room_id device_type online)))"

definition get_device :: "'w api \<Rightarrow> user_row \<Rightarrow> string \<Rightarrow> ('z world_scheme, device_row) op" where
  "get_device A user k = andthen (require_for A user Device_kind k DEVICE_READ) (device_get k)"

definition update_device_route :: "'w api \<Rightarrow> user_row \<Rightarrow> string \<Rightarrow> device_update \<Rightarrow> ('z world_scheme, device_row) op" where
  "update_device_route A user k data =
     andthen (require_for A user Device_kind k DEVICE_MANAGE)
     (andthen (require_optional_for A user Room_kind (du_room_id data) DEVICE_MANAGE)
     (update_device k data))"

definition delete_device_route :: "'w api \<Rightarrow> user_row \<Rightarrow> string \<Rightarrow> ('z world_scheme, unit) op" where
  "delete_device_route A user k = andthen (require_for A user Device_kind k DEVICE_MANAGE) (delete_device k)"

definition update_state_route ::
  "'z core_scheme api \<Rightarrow> user_row \<Rightarrow> string \<Rightarrow> obj \<Rightarrow> ('z core_scheme, device_row) op" where
  "update_state_route A user k state =
     andthen (require_for A user Device_kind k DEVICE_CONTROL) (process_update (ap_process A) k state [] 0)"

definition turn_on :: "'z core_scheme api \<Rightarrow> user_row \<Rightarrow> string \<Rightarrow> ('z core_scheme, device_row) op" where
  "turn_on A user k =
     andthen (require_for A user Device_kind k DEVICE_CONTROL)
       (process_update (ap_process A) k [(''on'', JBool True)] [] 0)"

definition turn_off :: "'z core_scheme api \<Rightarrow> user_row \<Rightarrow> string \<Rightarrow> ('z core_scheme, device_row) op" where
  "turn_off A user k =
     andthen (require_for A user Device_kind k DEVICE_CONTROL)
       (process_update (ap_process A) k [(''on'', JBool False)] [] 0)"

subsection \<open>Scenes and automations\<close>

text \<open>The rows of a list are read with the response model.\<close>

definition create_scene_route :: "'w api \<Rightarrow> user_row \<Rightarrow> scene_create \<Rightarrow> ('z world_scheme, scene_create) op" where
  "create_scene_route A user data = andthen (require A user (sc_house_id data) SCENE_MANAGE) (scene_create_op data)"

definition list_scenes :: "user_row \<Rightarrow> ('z world_scheme, scene_create list) op" where
  "list_scenes user =
     bnd (allowed_houses user SCENE_READ) (\<lambda>hs. bnd (scenes_for_houses hs) (\<lambda>rows. lift (emap read_scene rows)))"

definition get_scene :: "'w api \<Rightarrow> user_row \<Rightarrow> string \<Rightarrow> ('z world_scheme, scene_create) op" where
  "get_scene A user k = andthen (require_for A user Scene_kind k SCENE_READ) (scene_get k)"

definition update_scene_route :: "'w api \<Rightarrow> user_row \<Rightarrow> string \<Rightarrow> scene_update \<Rightarrow> ('z world_scheme, scene_create) op" where
  "update_scene_route A user k data =
     andthen (require_for A user Scene_kind k SCENE_MANAGE)
     (andthen (require_optional A user (su_house_id data) SCENE_MANAGE)
     (scene_update_op k data))"

definition delete_scene_route :: "'w api \<Rightarrow> user_row \<Rightarrow> string \<Rightarrow> ('z world_scheme, unit) op" where
  "delete_scene_route A user k = andthen (require_for A user Scene_kind k SCENE_MANAGE) (scene_delete k)"

definition run_scene_route :: "'z core_scheme api \<Rightarrow> user_row \<Rightarrow> string \<Rightarrow> ('z core_scheme, scene_create) op" where
  "run_scene_route A user k =
     andthen (require_for A user Scene_kind k SCENE_RUN) (scene_run (ap_process A) k)"

definition create_automation_route :: "'w api \<Rightarrow> user_row \<Rightarrow> automation_create \<Rightarrow> ('z world_scheme, automation_create) op" where
  "create_automation_route A user data =
     andthen (require A user (ac_house_id data) AUTOMATION_MANAGE) (rule_create data)"

definition list_automations :: "user_row \<Rightarrow> ('z world_scheme, automation_create list) op" where
  "list_automations user =
     bnd (allowed_houses user AUTOMATION_READ) (\<lambda>hs.
     bnd (automations_for_houses hs) (\<lambda>rows. lift (emap read_rule rows)))"

definition get_automation :: "'w api \<Rightarrow> user_row \<Rightarrow> string \<Rightarrow> ('z world_scheme, automation_create) op" where
  "get_automation A user k = andthen (require_for A user Automation_kind k AUTOMATION_READ) (rule_get k)"

definition update_automation_route ::
  "'w api \<Rightarrow> user_row \<Rightarrow> string \<Rightarrow> automation_update \<Rightarrow> ('z world_scheme, automation_create) op" where
  "update_automation_route A user k data =
     andthen (require_for A user Automation_kind k AUTOMATION_MANAGE)
     (andthen (require_optional A user (au_house_id data) AUTOMATION_MANAGE)
     (rule_update k data))"

definition delete_automation_route :: "'w api \<Rightarrow> user_row \<Rightarrow> string \<Rightarrow> ('z world_scheme, unit) op" where
  "delete_automation_route A user k =
     andthen (require_for A user Automation_kind k AUTOMATION_MANAGE) (rule_delete k)"

definition enable_automation :: "'w api \<Rightarrow> user_row \<Rightarrow> string \<Rightarrow> ('z world_scheme, automation_create) op" where
  "enable_automation A user k =
     andthen (require_for A user Automation_kind k AUTOMATION_MANAGE) (set_enabled k True)"

definition disable_automation :: "'w api \<Rightarrow> user_row \<Rightarrow> string \<Rightarrow> ('z world_scheme, automation_create) op" where
  "disable_automation A user k =
     andthen (require_for A user Automation_kind k AUTOMATION_MANAGE) (set_enabled k False)"

definition run_automation :: "'z core_scheme api \<Rightarrow> user_row \<Rightarrow> string \<Rightarrow> ('z core_scheme, automation_create) op" where
  "run_automation A user k =
     andthen (require_for A user Automation_kind k AUTOMATION_MANAGE) (manual_run (ap_process A) k)"

subsection \<open>Events and members\<close>

definition audit_permission :: "string option \<Rightarrow> permission" where
  "audit_permission event_type =
     (case event_type of
        None \<Rightarrow> EVENT_READ
      | Some t \<Rightarrow>
          if starts_with ''auth_'' t \<or> starts_with ''authorization_'' t then SECURITY_AUDIT_READ else EVENT_READ)"

definition list_events ::
  "'w api \<Rightarrow> user_row \<Rightarrow> string option \<Rightarrow> string option \<Rightarrow> nat \<Rightarrow> ('z world_scheme, event_log_row list) op" where
  "list_events A user house_id event_type limit_rows =
     (let p = audit_permission event_type in
      bnd (allowed_houses user p) (\<lambda>house_ids.
      andthen (require_optional A user house_id p)
      (bnd (allowed_houses user SECURITY_AUDIT_READ) (\<lambda>audit_house_ids.
      event_log_filtered_for_houses (case house_id of None \<Rightarrow> house_ids | Some h \<Rightarrow> [h])
        event_type limit_rows audit_house_ids))))"

definition list_members :: "'w api \<Rightarrow> user_row \<Rightarrow> string \<Rightarrow> ('z world_scheme, membership_row list) op" where
  "list_members A user house_id = andthen (require A user house_id MEMBER_READ) (member_list house_id)"

definition add_member ::
  "'w api \<Rightarrow> user_row \<Rightarrow> string \<Rightarrow> string \<Rightarrow> role \<Rightarrow> ('z world_scheme, membership_row) op" where
  "add_member A user house_id user_id r =
     andthen (require A user house_id MEMBER_MANAGE)
       (member_add (pr_fresh (ap_process A)) house_id user_id r)"

definition change_member ::
  "'w api \<Rightarrow> user_row \<Rightarrow> string \<Rightarrow> string \<Rightarrow> role \<Rightarrow> ('z world_scheme, membership_row) op" where
  "change_member A user house_id user_id r =
     andthen (require A user house_id MEMBER_MANAGE) (member_change house_id user_id r)"

definition remove_member :: "'w api \<Rightarrow> user_row \<Rightarrow> string \<Rightarrow> string \<Rightarrow> ('z world_scheme, unit) op" where
  "remove_member A user house_id user_id =
     andthen (require A user house_id MEMBER_MANAGE) (member_remove house_id user_id)"

subsection \<open>Commands, provisioning and onboarding\<close>

definition submit_command ::
  "'z core_scheme api \<Rightarrow> user_row \<Rightarrow> string \<Rightarrow> bool \<Rightarrow> string \<Rightarrow> ('z core_scheme, command_read) op" where
  "submit_command A user device_id on idempotency_key =
     (let P = ap_process A in
      bnd (device_house_id device_id) (\<lambda>house_id.
      andthen (require A user house_id DEVICE_CONTROL)
      (command_submit (cy_sha256 (ap_crypto A)) (pr_fresh P) (pr_env P) (pr_transport P)
        house_id device_id (u_id user) idempotency_key on)))"

definition get_command :: "'z core_scheme api \<Rightarrow> user_row \<Rightarrow> string \<Rightarrow> string \<Rightarrow> ('z core_scheme, command_read) op" where
  "get_command A user house_id command_id =
     andthen (require A user house_id DEVICE_READ) (command_get (pr_env (ap_process A)) house_id command_id)"

text \<open>\<open>execute\<close> of the provisioning router: a database error becomes 503.\<close>

definition execute_provisioning ::
  "'w api \<Rightarrow> user_row \<Rightarrow> string \<Rightarrow> ('z world_scheme, 'a) op \<Rightarrow> ('z world_scheme, 'a) op" where
  "execute_provisioning A user house operation =
     handle (andthen (require A user house DEVICE_ONBOARD) operation)
       (\<lambda>e. if e = IntegrityError then andthen rollback (raise (HTTPException 503)) else raise e)"

definition create_provisioning ::
  "'w api \<Rightarrow> user_row \<Rightarrow> string \<Rightarrow> device_claim \<Rightarrow> string \<Rightarrow> ('z world_scheme, provisioning_public_status) op" where
  "create_provisioning A user house_id data idempotency_key =
     execute_provisioning A user house_id
       (create_session (cy_sha256 (ap_crypto A)) (pr_fresh (ap_process A)) house_id (u_id user) data
         idempotency_key (ap_db_now A))"

definition get_provisioning ::
  "'w api \<Rightarrow> user_row \<Rightarrow> string \<Rightarrow> string \<Rightarrow> ('z world_scheme, provisioning_public_status) op" where
  "get_provisioning A user house_id session_id =
     execute_provisioning A user house_id
       (get_session (cy_sha256 (ap_crypto A)) house_id (u_id user) session_id (ap_db_now A))"

definition cancel_provisioning ::
  "'w api \<Rightarrow> user_row \<Rightarrow> string \<Rightarrow> string \<Rightarrow> int \<Rightarrow> string \<Rightarrow> ('z world_scheme, provisioning_public_status) op" where
  "cancel_provisioning A user house_id session_id revision idempotency_key =
     execute_provisioning A user house_id
       (cancel_session (cy_sha256 (ap_crypto A)) house_id (u_id user) session_id revision idempotency_key (ap_db_now A))"

definition claim_route :: "'w api \<Rightarrow> user_row \<Rightarrow> string \<Rightarrow> device_claim \<Rightarrow> ('z world_scheme, physical_device_read) op" where
  "claim_route A user house_id data =
     andthen (require A user house_id DEVICE_ONBOARD)
       (claim (cy_sha256 (ap_crypto A)) (pr_fresh (ap_process A)) house_id data (u_id user))"

definition list_physical :: "'w api \<Rightarrow> user_row \<Rightarrow> string \<Rightarrow> ('z world_scheme, physical_device_read list) op" where
  "list_physical A user house_id =
     andthen (require A user house_id DEVICE_READ)
       (bnd (list_for_house house_id) (\<lambda>rows. lift (emap read_physical rows)))"

definition get_physical ::
  "'w api \<Rightarrow> user_row \<Rightarrow> string \<Rightarrow> string \<Rightarrow> ('z world_scheme, physical_device_read) op" where
  "get_physical A user house_id device_id =
     andthen (require A user house_id DEVICE_READ)
       (bnd (physical_for_house house_id device_id) (\<lambda>item. lift (read_physical item)))"

definition lifecycle_route ::
  "'w api \<Rightarrow> user_row \<Rightarrow> string \<Rightarrow> string \<Rightarrow> physical_status \<Rightarrow> ('z world_scheme, physical_device_read) op" where
  "lifecycle_route A user house_id device_id target =
     andthen (require A user house_id DEVICE_ONBOARD)
       (lifecycle (pr_fresh (ap_process A)) house_id device_id target (u_id user))"

definition activate :: "'w api \<Rightarrow> user_row \<Rightarrow> string \<Rightarrow> string \<Rightarrow> ('z world_scheme, physical_device_read) op" where
  "activate A user house_id device_id = lifecycle_route A user house_id device_id Active"

definition deactivate :: "'w api \<Rightarrow> user_row \<Rightarrow> string \<Rightarrow> string \<Rightarrow> ('z world_scheme, physical_device_read) op" where
  "deactivate A user house_id device_id = lifecycle_route A user house_id device_id Inactive"

definition revoke :: "'w api \<Rightarrow> user_row \<Rightarrow> string \<Rightarrow> string \<Rightarrow> ('z world_scheme, physical_device_read) op" where
  "revoke A user house_id device_id = lifecycle_route A user house_id device_id Revoked"

subsection \<open>Requests\<close>

text \<open>
  The endpoints that need a caller, with their parameters. \<open>valid_request\<close> is what the framework
  checks on path, query, header and body; it also applies the validators that normalise.
\<close>

datatype home_request =
    My_permissions string | Who_am_i | Post_house house_create | List_houses | Get_house string
  | Patch_house string "string option" | Drop_house string | Post_floor floor_create | List_floors
  | Get_floor string | Patch_floor string floor_update | Drop_floor string | List_members string
  | Post_member string string role | Patch_member string string role | Drop_member string string

datatype device_request =
    Post_room room_create | List_rooms | Get_room string | Patch_room string room_update
  | Drop_room string | Post_device device_create
  | List_devices "string option" "string option" "string option" "bool option" | Get_device string
  | Patch_device string device_update | Drop_device string | Patch_state string obj | Turn_on string
  | Turn_off string

datatype rule_request =
    Post_scene scene_create | List_scenes | Get_scene string | Patch_scene string scene_update
  | Drop_scene string | Run_scene string | Post_automation automation_create | List_automations
  | Get_automation string | Patch_automation string automation_update | Drop_automation string
  | Enable_automation string | Disable_automation string | Run_automation string
  | List_events "string option" "string option" nat

datatype binding_request =
    Post_command string bool string | Get_command string string
  | Post_provisioning string device_claim string | Get_provisioning string string
  | Cancel_provisioning string string int string | Post_claim string device_claim | List_physical string
  | Get_physical string string | Activate string string | Deactivate string string | Revoke string string

datatype api_request =
    Home_request home_request | Device_request device_request
  | Rule_request rule_request | Binding_request binding_request

text \<open>The body of a response; a single entity is a list of one.\<close>

datatype api_body =
    No_content
  | Permissions string "string list"
  | Account user_read
  | Houses "house_row list" | Floors "floor_row list" | Rooms "room_row list" | Devices "device_row list"
  | Scenes "scene_create list" | Rules "automation_create list"
  | Logged "event_log_row list" | Members "membership_row list"
  | Command command_read | Attempt provisioning_public_status | Physicals "physical_device_read list"

definition body_of :: "('a \<Rightarrow> api_body) \<Rightarrow> ('s, 'a) op \<Rightarrow> ('s, api_body) op" where
  "body_of f m = bnd m (\<lambda>x. ret (f x))"

definition one :: "('a list \<Rightarrow> api_body) \<Rightarrow> 'a \<Rightarrow> api_body" where
  "one f x = f [x]"

fun serve_home :: "'z core_scheme api \<Rightarrow> user_row \<Rightarrow> home_request \<Rightarrow> ('z core_scheme, api_body) op" where
  "serve_home A u (My_permissions h) = body_of (Permissions h) (my_house_permissions A u h)"
| "serve_home A u Who_am_i = ret (Account (me_route u))"
| "serve_home A u (Post_house x) = body_of (one Houses) (create_house_route A u x)"
| "serve_home A u List_houses = body_of Houses (list_houses u)"
| "serve_home A u (Get_house k) = body_of (one Houses) (get_house A u k)"
| "serve_home A u (Patch_house k n) = body_of (one Houses) (update_house_route A u k n)"
| "serve_home A u (Drop_house k) = body_of (\<lambda>_. No_content) (delete_house_route A u k)"
| "serve_home A u (Post_floor x) = body_of (one Floors) (create_floor_route A u x)"
| "serve_home A u List_floors = body_of Floors (list_floors u)"
| "serve_home A u (Get_floor k) = body_of (one Floors) (get_floor A u k)"
| "serve_home A u (Patch_floor k x) = body_of (one Floors) (update_floor_route A u k x)"
| "serve_home A u (Drop_floor k) = body_of (\<lambda>_. No_content) (delete_floor_route A u k)"
| "serve_home A u (List_members h) = body_of Members (list_members A u h)"
| "serve_home A u (Post_member h k r) = body_of (one Members) (add_member A u h k r)"
| "serve_home A u (Patch_member h k r) = body_of (one Members) (change_member A u h k r)"
| "serve_home A u (Drop_member h k) = body_of (\<lambda>_. No_content) (remove_member A u h k)"

fun serve_device :: "'z core_scheme api \<Rightarrow> user_row \<Rightarrow> device_request \<Rightarrow> ('z core_scheme, api_body) op" where
  "serve_device A u (Post_room x) = body_of (one Rooms) (create_room_route A u x)"
| "serve_device A u List_rooms = body_of Rooms (list_rooms u)"
| "serve_device A u (Get_room k) = body_of (one Rooms) (get_room A u k)"
| "serve_device A u (Patch_room k x) = body_of (one Rooms) (update_room_route A u k x)"
| "serve_device A u (Drop_room k) = body_of (\<lambda>_. No_content) (delete_room_route A u k)"
| "serve_device A u (Post_device x) = body_of (one Devices) (create_device_route A u x)"
| "serve_device A u (List_devices h r t b) = body_of Devices (list_devices A u h r t b)"
| "serve_device A u (Get_device k) = body_of (one Devices) (get_device A u k)"
| "serve_device A u (Patch_device k x) = body_of (one Devices) (update_device_route A u k x)"
| "serve_device A u (Drop_device k) = body_of (\<lambda>_. No_content) (delete_device_route A u k)"
| "serve_device A u (Patch_state k x) = body_of (one Devices) (update_state_route A u k x)"
| "serve_device A u (Turn_on k) = body_of (one Devices) (turn_on A u k)"
| "serve_device A u (Turn_off k) = body_of (one Devices) (turn_off A u k)"

fun serve_rule :: "'z core_scheme api \<Rightarrow> user_row \<Rightarrow> rule_request \<Rightarrow> ('z core_scheme, api_body) op" where
  "serve_rule A u (Post_scene x) = body_of (one Scenes) (create_scene_route A u x)"
| "serve_rule A u List_scenes = body_of Scenes (list_scenes u)"
| "serve_rule A u (Get_scene k) = body_of (one Scenes) (get_scene A u k)"
| "serve_rule A u (Patch_scene k x) = body_of (one Scenes) (update_scene_route A u k x)"
| "serve_rule A u (Drop_scene k) = body_of (\<lambda>_. No_content) (delete_scene_route A u k)"
| "serve_rule A u (Run_scene k) = body_of (one Scenes) (run_scene_route A u k)"
| "serve_rule A u (Post_automation x) = body_of (one Rules) (create_automation_route A u x)"
| "serve_rule A u List_automations = body_of Rules (list_automations u)"
| "serve_rule A u (Get_automation k) = body_of (one Rules) (get_automation A u k)"
| "serve_rule A u (Patch_automation k x) = body_of (one Rules) (update_automation_route A u k x)"
| "serve_rule A u (Drop_automation k) = body_of (\<lambda>_. No_content) (delete_automation_route A u k)"
| "serve_rule A u (Enable_automation k) = body_of (one Rules) (enable_automation A u k)"
| "serve_rule A u (Disable_automation k) = body_of (one Rules) (disable_automation A u k)"
| "serve_rule A u (Run_automation k) = body_of (one Rules) (run_automation A u k)"
| "serve_rule A u (List_events h t n) = body_of Logged (list_events A u h t n)"

fun serve_binding :: "'z core_scheme api \<Rightarrow> user_row \<Rightarrow> binding_request \<Rightarrow> ('z core_scheme, api_body) op" where
  "serve_binding A u (Post_command k on key) = body_of Command (submit_command A u k on key)"
| "serve_binding A u (Get_command h k) = body_of Command (get_command A u h k)"
| "serve_binding A u (Post_provisioning h x key) = body_of Attempt (create_provisioning A u h x key)"
| "serve_binding A u (Get_provisioning h k) = body_of Attempt (get_provisioning A u h k)"
| "serve_binding A u (Cancel_provisioning h k v key) = body_of Attempt (cancel_provisioning A u h k v key)"
| "serve_binding A u (Post_claim h x) = body_of (one Physicals) (claim_route A u h x)"
| "serve_binding A u (List_physical h) = body_of Physicals (list_physical A u h)"
| "serve_binding A u (Get_physical h k) = body_of (one Physicals) (get_physical A u h k)"
| "serve_binding A u (Activate h k) = body_of (one Physicals) (activate A u h k)"
| "serve_binding A u (Deactivate h k) = body_of (one Physicals) (deactivate A u h k)"
| "serve_binding A u (Revoke h k) = body_of (one Physicals) (revoke A u h k)"

fun serve :: "'z core_scheme api \<Rightarrow> user_row \<Rightarrow> api_request \<Rightarrow> ('z core_scheme, api_body) op" where
  "serve A u (Home_request r) = serve_home A u r"
| "serve A u (Device_request r) = serve_device A u r"
| "serve A u (Rule_request r) = serve_rule A u r"
| "serve A u (Binding_request r) = serve_binding A u r"

text \<open>Validation of the parameters of a request.\<close>

definition accept :: "bool \<Rightarrow> 'r \<Rightarrow> exn + 'r" where
  "accept ok r = (if ok then Inr r else Inl RequestValidationError)"

definition revalidated :: "exn + 'a \<Rightarrow> ('a \<Rightarrow> 'r) \<Rightarrow> exn + 'r" where
  "revalidated checked f = (case checked of Inl _ \<Rightarrow> Inl RequestValidationError | Inr x \<Rightarrow> Inr (f x))"

definition idempotency_key_ok :: "string \<Rightarrow> bool" where
  "idempotency_key_ok key \<longleftrightarrow> bounded 16 128 key \<and> list_all is_token_char key"

fun validated_home :: "home_request \<Rightarrow> exn + home_request" where
  "validated_home (Post_house x) = accept (house_create_ok x) (Post_house x)"
| "validated_home (Patch_house k n) = accept (opt_ok (bounded 1 255) n) (Patch_house k n)"
| "validated_home (Post_floor x) = accept (floor_create_ok x) (Post_floor x)"
| "validated_home (Patch_floor k x) = accept (floor_update_ok x) (Patch_floor k x)"
| "validated_home (Post_member h k r) = accept (bounded 1 36 k) (Post_member h k r)"
| "validated_home r = Inr r"

fun validated_device :: "device_request \<Rightarrow> exn + device_request" where
  "validated_device (Post_room x) = accept (room_create_ok x) (Post_room x)"
| "validated_device (Patch_room k x) = accept (room_update_ok x) (Patch_room k x)"
| "validated_device (Post_device x) = accept (device_create_ok x) (Post_device x)"
| "validated_device (List_devices h r t b) = accept (opt_ok (\<lambda>n. n \<in> set device_types) t) (List_devices h r t b)"
| "validated_device (Patch_device k x) = accept (device_update_ok x) (Patch_device k x)"
| "validated_device r = Inr r"

fun validated_rule :: "rule_request \<Rightarrow> exn + rule_request" where
  "validated_rule (Post_scene x) = revalidated (check_scene x) Post_scene"
| "validated_rule (Patch_scene k x) = revalidated (check_scene_update x) (Patch_scene k)"
| "validated_rule (Post_automation x) = revalidated (check_automation x) Post_automation"
| "validated_rule (Patch_automation k x) = revalidated (check_automation_update x) (Patch_automation k)"
| "validated_rule (List_events h t n) = accept (1 \<le> n \<and> n \<le> 500) (List_events h t n)"
| "validated_rule r = Inr r"

fun validated_binding :: "binding_request \<Rightarrow> exn + binding_request" where
  "validated_binding (Post_command k on key) = accept (idempotency_key_ok key) (Post_command k on key)"
| "validated_binding (Post_provisioning h x key) = accept (topic_id h \<and> device_claim_ok x) (Post_provisioning h x key)"
| "validated_binding (Get_provisioning h k) = accept (topic_id h) (Get_provisioning h k)"
| "validated_binding (Cancel_provisioning h k v key) = accept (topic_id h \<and> 0 \<le> v) (Cancel_provisioning h k v key)"
| "validated_binding (Post_claim h x) = accept (topic_id h \<and> device_claim_ok x) (Post_claim h x)"
| "validated_binding (List_physical h) = accept (topic_id h) (List_physical h)"
| "validated_binding (Get_physical h k) = accept (topic_id h \<and> topic_id k) (Get_physical h k)"
| "validated_binding (Activate h k) = accept (topic_id h \<and> topic_id k) (Activate h k)"
| "validated_binding (Deactivate h k) = accept (topic_id h \<and> topic_id k) (Deactivate h k)"
| "validated_binding (Revoke h k) = accept (topic_id h \<and> topic_id k) (Revoke h k)"
| "validated_binding r = Inr r"

fun validated :: "api_request \<Rightarrow> exn + api_request" where
  "validated (Home_request r) = ebind (validated_home r) (\<lambda>x. Inr (Home_request x))"
| "validated (Device_request r) = ebind (validated_device r) (\<lambda>x. Inr (Device_request x))"
| "validated (Rule_request r) = ebind (validated_rule r) (\<lambda>x. Inr (Rule_request x))"
| "validated (Binding_request r) = ebind (validated_binding r) (\<lambda>x. Inr (Binding_request x))"

subsection \<open>Responses\<close>

text \<open>
  The exception handlers: the status of an exception that leaves a handler, 422 for a request
  that fails validation, 500 for every other exception. \<open>PrivateValidationRoute\<close> keeps 422 and
  drops the details; a body is \<open>None\<close> for an error.
\<close>

fun error_status :: "exn \<Rightarrow> nat" where
  "error_status EntityNotFoundError = 404"
| "error_status ConflictError = 409"
| "error_status InvalidReferenceError = 422"
| "error_status UnavailableError = 503"
| "error_status (HTTPException code) = code"
| "error_status RequestValidationError = 422"
| "error_status _ = 500"

definition success_status :: "api_request \<Rightarrow> nat" where
  "success_status r = (case r of
     Home_request x \<Rightarrow>
       (case x of Post_house _ \<Rightarrow> 201 | Post_floor _ \<Rightarrow> 201 | Post_member _ _ _ \<Rightarrow> 201
        | Drop_house _ \<Rightarrow> 204 | Drop_floor _ \<Rightarrow> 204 | Drop_member _ _ \<Rightarrow> 204 | _ \<Rightarrow> 200)
   | Device_request x \<Rightarrow>
       (case x of Post_room _ \<Rightarrow> 201 | Post_device _ \<Rightarrow> 201 | Drop_room _ \<Rightarrow> 204 | Drop_device _ \<Rightarrow> 204 | _ \<Rightarrow> 200)
   | Rule_request x \<Rightarrow>
       (case x of Post_scene _ \<Rightarrow> 201 | Post_automation _ \<Rightarrow> 201 | Drop_scene _ \<Rightarrow> 204
        | Drop_automation _ \<Rightarrow> 204 | _ \<Rightarrow> 200)
   | Binding_request x \<Rightarrow>
       (case x of Post_provisioning _ _ _ \<Rightarrow> 201 | Post_claim _ _ \<Rightarrow> 201 | Post_command _ _ _ \<Rightarrow> 202 | _ \<Rightarrow> 200))"

definition respond :: "('s, nat \<times> 'b) op \<Rightarrow> ('s, nat \<times> 'b option) op" where
  "respond m =
     handle (bnd m (\<lambda>(status, body). ret (status, Some body)))
       (\<lambda>e. if is_exception e then ret (error_status e, None) else raise e)"

text \<open>A request from its \<open>Authorization\<close> header to its response.\<close>

definition handle_request ::
  "'z core_scheme api \<Rightarrow> string option \<Rightarrow> api_request \<Rightarrow> ('z core_scheme, nat \<times> api_body option) op" where
  "handle_request A authorization requested =
     in_session (respond
       (bnd (lift (bearer_token authorization)) (\<lambda>token.
       bnd (get_current_user (ap_crypto A) (ap_clk A 0) token) (\<lambda>user.
       bnd (lift (validated requested)) (\<lambda>r.
       bnd (serve A user r) (\<lambda>body. ret (success_status r, body)))))))"

text \<open>
  \<open>SceneUpdate\<close> does not bound the actions the way \<open>SceneCreate\<close> does: such a request passes
  validation, the candidate of the service does not, and nothing maps that exception.
\<close>

lemma oversized_scene_update:
  assumes "su_actions u = Some xs" and "100 < length xs" and "list_all device_action_ok xs"
    and "opt_ok (bounded 1 255) (su_name u)"
    and "tget s_id k (scenes (work w)) = Some r" and "scene_readable r"
  shows "check_scene_update u = Inr u" and "scene_update_op k u w = (Inl ValidationError, w)"
    and "error_status ValidationError = 500"
proof -
  show "check_scene_update u = Inr u" using assms(1,3,4) by (simp add: check_scene_update_def opt_ok_def)
  have "scene_get k w = (Inr (scene_of_row r), w)"
    using assms(5,6)
    by (simp add: scene_get_def repo_get_def repo_find_def scene_repo_def query_def found_def scene_readable_def bnd_assoc bnd_lift_apply)
  moreover have "check_scene (scene_candidate u (scene_of_row r)) = Inl ValidationError"
    using assms(1,2)
    by (simp add: check_scene_def scene_create_ok_def scene_candidate_def scene_of_row_def row_of_scene_def scene_values_def dflt_def)
  ultimately show "scene_update_op k u w = (Inl ValidationError, w)"
    by (simp add: scene_update_op_def bnd_def lift_def)
qed simp

subsection \<open>Access\<close>

text \<open>
  The access matrix of the interface: the houses and permissions a request stands under, in the
  database it meets. An entity that does not exist has no house; the request fails then.
\<close>

fun house_of_kind :: "db \<Rightarrow> entity_kind \<Rightarrow> string \<Rightarrow> string option" where
  "house_of_kind d House_kind k = map_option h_id (tget h_id k (houses d))"
| "house_of_kind d Floor_kind k = floor_house d k"
| "house_of_kind d Room_kind k = room_house d k"
| "house_of_kind d Device_kind k = device_house d k"
| "house_of_kind d Scene_kind k = map_option s_house_id (tget s_id k (scenes d))"
| "house_of_kind d Automation_kind k = map_option a_house_id (tget a_id k (automations d))"

definition under :: "permission \<Rightarrow> string option \<Rightarrow> (string \<times> permission) list" where
  "under p h = (case h of None \<Rightarrow> [] | Some x \<Rightarrow> [(x, p)])"

definition entity_under :: "db \<Rightarrow> entity_kind \<Rightarrow> permission \<Rightarrow> string option \<Rightarrow> (string \<times> permission) list" where
  "entity_under d kind p k = under p (Option.bind k (house_of_kind d kind))"

fun needs_home :: "db \<Rightarrow> home_request \<Rightarrow> (string \<times> permission) list" where
  "needs_home d (My_permissions h) = [(h, HOUSE_READ)]"
| "needs_home d Who_am_i = []"
| "needs_home d (Post_house _) = []"
| "needs_home d List_houses = []"
| "needs_home d (Get_house h) = [(h, HOUSE_READ)]"
| "needs_home d (Patch_house h _) = [(h, HOUSE_MANAGE)]"
| "needs_home d (Drop_house h) = [(h, HOUSE_MANAGE)]"
| "needs_home d (Post_floor x) = [(fc_house_id x, HOUSE_MANAGE)]"
| "needs_home d List_floors = []"
| "needs_home d (Get_floor k) = entity_under d Floor_kind HOUSE_READ (Some k)"
| "needs_home d (Patch_floor k x) = entity_under d Floor_kind HOUSE_MANAGE (Some k) @ under HOUSE_MANAGE (fu_house_id x)"
| "needs_home d (Drop_floor k) = entity_under d Floor_kind HOUSE_MANAGE (Some k)"
| "needs_home d (List_members h) = [(h, MEMBER_READ)]"
| "needs_home d (Post_member h _ _) = [(h, MEMBER_MANAGE)]"
| "needs_home d (Patch_member h _ _) = [(h, MEMBER_MANAGE)]"
| "needs_home d (Drop_member h _) = [(h, MEMBER_MANAGE)]"

fun needs_device :: "db \<Rightarrow> device_request \<Rightarrow> (string \<times> permission) list" where
  "needs_device d (Post_room x) = entity_under d Floor_kind HOUSE_MANAGE (Some (rc_floor_id x))"
| "needs_device d List_rooms = []"
| "needs_device d (Get_room k) = entity_under d Room_kind HOUSE_READ (Some k)"
| "needs_device d (Patch_room k x) =
     entity_under d Room_kind HOUSE_MANAGE (Some k) @ entity_under d Floor_kind HOUSE_MANAGE (ru_floor_id x)"
| "needs_device d (Drop_room k) = entity_under d Room_kind HOUSE_MANAGE (Some k)"
| "needs_device d (Post_device x) = entity_under d Room_kind DEVICE_MANAGE (Some (dc_room_id x))"
| "needs_device d (List_devices h r _ _) = under DEVICE_READ h @ entity_under d Room_kind DEVICE_READ r"
| "needs_device d (Get_device k) = entity_under d Device_kind DEVICE_READ (Some k)"
| "needs_device d (Patch_device k x) =
     entity_under d Device_kind DEVICE_MANAGE (Some k) @ entity_under d Room_kind DEVICE_MANAGE (du_room_id x)"
| "needs_device d (Drop_device k) = entity_under d Device_kind DEVICE_MANAGE (Some k)"
| "needs_device d (Patch_state k _) = entity_under d Device_kind DEVICE_CONTROL (Some k)"
| "needs_device d (Turn_on k) = entity_under d Device_kind DEVICE_CONTROL (Some k)"
| "needs_device d (Turn_off k) = entity_under d Device_kind DEVICE_CONTROL (Some k)"

fun needs_rule :: "db \<Rightarrow> rule_request \<Rightarrow> (string \<times> permission) list" where
  "needs_rule d (Post_scene x) = [(sc_house_id x, SCENE_MANAGE)]"
| "needs_rule d List_scenes = []"
| "needs_rule d (Get_scene k) = entity_under d Scene_kind SCENE_READ (Some k)"
| "needs_rule d (Patch_scene k x) = entity_under d Scene_kind SCENE_MANAGE (Some k) @ under SCENE_MANAGE (su_house_id x)"
| "needs_rule d (Drop_scene k) = entity_under d Scene_kind SCENE_MANAGE (Some k)"
| "needs_rule d (Run_scene k) = entity_under d Scene_kind SCENE_RUN (Some k)"
| "needs_rule d (Post_automation x) = [(ac_house_id x, AUTOMATION_MANAGE)]"
| "needs_rule d List_automations = []"
| "needs_rule d (Get_automation k) = entity_under d Automation_kind AUTOMATION_READ (Some k)"
| "needs_rule d (Patch_automation k x) =
     entity_under d Automation_kind AUTOMATION_MANAGE (Some k) @ under AUTOMATION_MANAGE (au_house_id x)"
| "needs_rule d (Drop_automation k) = entity_under d Automation_kind AUTOMATION_MANAGE (Some k)"
| "needs_rule d (Enable_automation k) = entity_under d Automation_kind AUTOMATION_MANAGE (Some k)"
| "needs_rule d (Disable_automation k) = entity_under d Automation_kind AUTOMATION_MANAGE (Some k)"
| "needs_rule d (Run_automation k) = entity_under d Automation_kind AUTOMATION_MANAGE (Some k)"
| "needs_rule d (List_events h t _) = under (audit_permission t) h"

fun needs_binding :: "db \<Rightarrow> binding_request \<Rightarrow> (string \<times> permission) list" where
  "needs_binding d (Post_command k _ _) = entity_under d Device_kind DEVICE_CONTROL (Some k)"
| "needs_binding d (Get_command h _) = [(h, DEVICE_READ)]"
| "needs_binding d (Post_provisioning h _ _) = [(h, DEVICE_ONBOARD)]"
| "needs_binding d (Get_provisioning h _) = [(h, DEVICE_ONBOARD)]"
| "needs_binding d (Cancel_provisioning h _ _ _) = [(h, DEVICE_ONBOARD)]"
| "needs_binding d (Post_claim h _) = [(h, DEVICE_ONBOARD)]"
| "needs_binding d (List_physical h) = [(h, DEVICE_READ)]"
| "needs_binding d (Get_physical h _) = [(h, DEVICE_READ)]"
| "needs_binding d (Activate h _) = [(h, DEVICE_ONBOARD)]"
| "needs_binding d (Deactivate h _) = [(h, DEVICE_ONBOARD)]"
| "needs_binding d (Revoke h _) = [(h, DEVICE_ONBOARD)]"

fun needs :: "db \<Rightarrow> api_request \<Rightarrow> (string \<times> permission) list" where
  "needs d (Home_request r) = needs_home d r"
| "needs d (Device_request r) = needs_device d r"
| "needs d (Rule_request r) = needs_rule d r"
| "needs d (Binding_request r) = needs_binding d r"

text \<open>A request is refused when it raises and has written nothing but the event log.\<close>

definition sans_log :: "db \<Rightarrow> db" where
  "sans_log d = d\<lparr>event_logs := []\<rparr>"

definition denied :: "('z world_scheme, 'a) op \<Rightarrow> 'z world_scheme \<Rightarrow> bool" where
  "denied m w \<longleftrightarrow> \<not> is_ok (fst (m w)) \<and> sans_log (committed (snd (m w))) = sans_log (committed w)"

named_theorems refusing \<open>how a refusal travels outwards\<close>

lemma denied_bnd: "denied m w \<Longrightarrow> denied (bnd m f) w"
  by (auto simp: denied_def bnd_def split: prod.splits sum.splits)

lemma denied_step: "m w = (Inr x, w) \<Longrightarrow> denied (f x) w \<Longrightarrow> denied (bnd m f) w"
  by (simp add: denied_def bnd_def)

lemma denied_body_of [refusing]: "denied m w \<Longrightarrow> denied (body_of f m) w"
  unfolding body_of_def by (rule denied_bnd)

lemma denied_found [refusing]:
  "(\<And>x. v (work w) = Some x \<Longrightarrow> denied (f x) w) \<Longrightarrow> denied (bnd (bnd (query v) found) f) w"
  by (cases "v (work w)") (auto simp: denied_def bnd_def query_apply found_apply)

lemma membership_apply: "get_house_membership u h w = (Inr (membership_in (work w) u h), w)"
  by (simp add: get_house_membership_def membership_for_house_def query_apply)

lemma require_apply:
  "has_permission (membership_in (work w) (u_id u) h) p \<Longrightarrow> require A u h p w = (Inr (), w)"
  by (cases "membership_in (work w) (u_id u) h")
    (simp_all add: require_def bnd_def membership_apply has_permission_def)

lemma log_denied_writes:
  assumes "work w = committed w"
  shows "sans_log (committed (snd (log_authorization_denied f u h p w))) = sans_log (committed w)"
proof -
  have "wp (log_authorization_denied f u h p) (\<lambda>_ out. sans_log (committed out) = sans_log (committed w))
      (\<lambda>_ out. sans_log (committed out) = sans_log (committed w)) w"
    using assms
    by (auto simp: log_authorization_denied_def repo_create_def wp_simps event_log_repo_def sans_log_def)
  then show ?thesis by (auto simp: wp_def split: prod.splits sum.splits)
qed

lemma denied_raise: "sans_log (committed (snd (m w))) = sans_log (committed w) \<Longrightarrow> denied (andthen m (raise e)) w"
  by (cases "m w") (auto simp: denied_def andthen_def bnd_def split: sum.splits)

lemma require_denied:
  assumes "work w = committed w" and "\<not> has_permission (membership_in (work w) (u_id u) h) p"
  shows "denied (require A u h p) w"
proof (cases "membership_in (work w) (u_id u) h")
  case None
  then show ?thesis by (simp add: denied_def require_def bnd_def membership_apply)
next
  case (Some m)
  have "denied (andthen (log_authorization_denied (pr_fresh (ap_process A)) (u_id u) h (permission_value p))
      (raise (HTTPException 403))) w"
    using log_denied_writes [OF assms(1)] by (rule denied_raise)
  with Some assms(2) show ?thesis
    unfolding require_def by (intro denied_step [OF membership_apply]) simp
qed

lemma denied_require [refusing]:
  assumes "work w = committed w"
    and "has_permission (membership_in (work w) (u_id u) h) p \<Longrightarrow> denied k w"
  shows "denied (andthen (require A u h p) k) w"
  using assms require_denied [OF assms(1), of u h p A] require_apply [of w u h p A]
  unfolding andthen_def by (metis denied_bnd denied_step)

lemma repo_get_apply: "repo_get R k w = (case tget (repo_key R) k (repo_rows R (work w)) of
    None \<Rightarrow> (Inl EntityNotFoundError, w) | Some r \<Rightarrow> (Inr r, w))"
  by (simp add: repo_get_def repo_find_def bnd_def query_apply found_def split: option.split)

lemma house_for_apply:
  "house_for kind k w = (case house_of_kind (work w) kind k of None \<Rightarrow> (Inl EntityNotFoundError, w) | Some h \<Rightarrow> (Inr h, w))"
proof (cases kind)
  case House_kind
  then show ?thesis
    by (cases "tget h_id k (houses (work w))") (auto simp: bnd_def repo_get_apply house_repo_def dest: tget_SomeD)
next
  case Floor_kind
  then show ?thesis
    by (cases "tget f_id k (floors (work w))") (auto simp: bnd_def repo_get_apply floor_repo_def floor_house_def)
next
  case Room_kind
  then show ?thesis
    by (cases "room_house (work w) k") (auto simp: room_house_id_def bnd_def query_apply found_def)
next
  case Device_kind
  then show ?thesis
    by (cases "device_house (work w) k") (auto simp: device_house_id_def bnd_def query_apply found_def)
next
  case Scene_kind
  then show ?thesis
    by (cases "tget s_id k (scenes (work w))") (auto simp: bnd_def repo_get_apply scene_repo_def)
next
  case Automation_kind
  then show ?thesis
    by (cases "tget a_id k (automations (work w))") (auto simp: bnd_def repo_get_apply automation_repo_def)
qed

lemma denied_require_for [refusing]:
  assumes "work w = committed w"
    and "\<And>h. house_of_kind (work w) kind k = Some h \<Longrightarrow>
      has_permission (membership_in (work w) (u_id u) h) p \<Longrightarrow> denied m w"
  shows "denied (andthen (require_for A u kind k p) m) w"
proof (cases "house_of_kind (work w) kind k")
  case None
  then show ?thesis by (simp add: denied_def require_for_def andthen_def bnd_def house_for_apply)
next
  case (Some h)
  have "denied (andthen (require A u h p) m) w"
    using assms Some by (intro denied_require) auto
  with Some show ?thesis
    by (simp add: require_for_def andthen_def bnd_assoc denied_step [where x = h] house_for_apply)
qed

lemma denied_optional [refusing]:
  assumes "work w = committed w"
    and "\<And>h. x = Some h \<Longrightarrow> has_permission (membership_in (work w) (u_id u) h) p \<Longrightarrow> denied m w"
    and "x = None \<Longrightarrow> denied m w"
  shows "denied (andthen (require_optional A u x p) m) w"
  using assms by (cases x) (auto simp: require_optional_def intro: denied_require)

lemma denied_optional_for [refusing]:
  assumes "work w = committed w"
    and "\<And>k h. x = Some k \<Longrightarrow> house_of_kind (work w) kind k = Some h \<Longrightarrow>
      has_permission (membership_in (work w) (u_id u) h) p \<Longrightarrow> denied m w"
    and "x = None \<Longrightarrow> denied m w"
  shows "denied (andthen (require_optional_for A u kind x p) m) w"
  using assms by (cases x) (auto simp: require_optional_for_def intro: denied_require_for)

lemma denied_allowed [refusing]: "(\<And>hs. denied (f hs) w) \<Longrightarrow> denied (bnd (allowed_houses u p) f) w"
  by (rule denied_step) (auto simp: allowed_houses_def accessible_house_ids_def membership_house_ids_def query_apply)

lemma denied_execute [refusing]:
  "denied (andthen (require A u h DEVICE_ONBOARD) m) w \<Longrightarrow> denied (execute_provisioning A u h m) w"
  by (auto simp: denied_def execute_provisioning_def handle_def rollback_def andthen_def bnd_def raise_def
      split: prod.splits sum.splits)

lemmas home_routes = my_house_permissions_def create_house_route_def list_houses_def get_house_def
  update_house_route_def delete_house_route_def create_floor_route_def list_floors_def get_floor_def
  update_floor_route_def delete_floor_route_def list_members_def add_member_def change_member_def remove_member_def

lemmas device_routes = create_room_route_def list_rooms_def get_room_def update_room_route_def delete_room_route_def
  create_device_route_def list_devices_def get_device_def update_device_route_def delete_device_route_def
  update_state_route_def turn_on_def turn_off_def

lemmas rule_routes = create_scene_route_def list_scenes_def get_scene_def update_scene_route_def delete_scene_route_def
  run_scene_route_def create_automation_route_def list_automations_def get_automation_def update_automation_route_def
  delete_automation_route_def enable_automation_def disable_automation_def run_automation_def list_events_def Let_def

lemmas binding_routes = submit_command_def get_command_def create_provisioning_def get_provisioning_def
  cancel_provisioning_def claim_route_def list_physical_def get_physical_def lifecycle_route_def activate_def
  deactivate_def revoke_def device_house_id_def Let_def

lemmas access_defs = under_def entity_under_def

lemma refused:
  assumes "work w = committed w" and "\<not> has_permission (membership_in (work w) (u_id u) h) p"
  shows refused_home: "(h, p) \<in> set (needs_home (work w) hr) \<Longrightarrow> denied (serve_home A u hr) w"
    and refused_device: "(h, p) \<in> set (needs_device (work w) dr) \<Longrightarrow> denied (serve_device A u dr) w"
    and refused_rule: "(h, p) \<in> set (needs_rule (work w) rr) \<Longrightarrow> denied (serve_rule A u rr) w"
    and refused_binding: "(h, p) \<in> set (needs_binding (work w) br) \<Longrightarrow> denied (serve_binding A u br) w"
  subgoal using assms by (cases hr) (auto simp: home_routes access_defs intro!: refusing split: option.splits)
  subgoal using assms by (cases dr) (auto simp: device_routes access_defs bind_eq_Some_conv intro!: refusing split: option.splits)
  subgoal using assms by (cases rr) (auto simp: rule_routes access_defs intro!: refusing split: option.splits)
  subgoal using assms by (cases br) (auto simp: binding_routes access_defs intro!: refusing split: option.splits)
  done

lemma access_refused:
  assumes "work w = committed w" and "(h, p) \<in> set (needs (work w) r)"
    and "\<not> has_permission (membership_in (work w) (u_id u) h) p"
  shows "denied (serve A u r) w"
  using assms by (cases r) (auto intro: refused)

lemma get_current_user_cases:
  obtains (refused) e where "get_current_user K now token w = (Inl e, w)"
  | (caller) user cl where "get_current_user K now token w = (Inr user, w)"
    "cy_decode K now token = Some cl" "cl_type cl = Access"
    "tget u_id (cl_subject cl) (users (work w)) = Some user" "u_is_active user"
proof (cases "cy_decode K now token")
  case None
  then have "get_current_user K now token w = (Inl (HTTPException 401), w)"
    by (simp add: get_current_user_def access_user_def decode_token_def token_decode_def op_defs)
  then show ?thesis by (rule refused)
next
  case (Some cl)
  have run: "get_current_user K now token w =
    (if cl_type cl = Access then case tget u_id (cl_subject cl) (users (work w)) of
        None \<Rightarrow> (Inl (HTTPException 401), w)
      | Some user \<Rightarrow> if u_is_active user then (Inr user, w) else (Inl (HTTPException 401), w)
     else (Inl (HTTPException 401), w))"
    using Some by (simp add: get_current_user_def access_user_def decode_token_def token_decode_def user_of_def
        query_apply op_defs split: option.split)
  show ?thesis
    using run Some refused caller
    by (cases "cl_type cl = Access"; cases "tget u_id (cl_subject cl) (users (work w))")
      (auto split: if_splits)
qed

lemma denied_raised: "denied (lift (Inl e)) w" "m w = (Inl e, w) \<Longrightarrow> denied (bnd m f) w"
  by (simp_all add: denied_def bnd_def)

lemma denied_response:
  assumes "denied m w"
  shows "sans_log (committed (snd (respond m w))) = sans_log (committed w)"
    and "fst (respond m w) \<noteq> Inr (status, Some b)"
proof -
  obtain e v where m: "m w = (Inl e, v)" "sans_log (committed v) = sans_log (committed w)"
    using assms by (cases "m w"; cases "fst (m w)") (auto simp: denied_def)
  then show "sans_log (committed (snd (respond m w))) = sans_log (committed w)"
    and "fst (respond m w) \<noteq> Inr (status, Some b)"
    by (auto simp: respond_def handle_def bnd_def)
qed

text \<open>
  C13. No data and no change without permission: a request to any endpoint with a caller answers with a
  body, or changes any table but the event log, only when its header carries an access token that
  decodes for an active account of the committed database, the parameters are valid, and the account
  holds every permission the access matrix asks for, in the house that the entity of the request
  belongs to and, for a move, in the target house as well.
\<close>

theorem access_controlled:
  assumes "handle_request A header requested w = (result, out)"
    and "(\<exists>status body. result = Inr (status, Some body)) \<or> sans_log (committed out) \<noteq> sans_log (committed w)"
  shows "\<exists>token cl user r.
    bearer_token header = Inr token \<and>
    cy_decode (ap_crypto A) (ap_clk A 0) token = Some cl \<and> cl_type cl = Access \<and>
    tget u_id (cl_subject cl) (users (committed w)) = Some user \<and> u_is_active user \<and>
    validated requested = Inr r \<and>
    list_all (\<lambda>(h, p). has_permission (membership_in (committed w) (u_id user) h) p) (needs (committed w) r)"
    (is ?granted)
proof (rule ccontr)
  let ?w = "w\<lparr>work := committed w\<rparr>"
  let ?m = "bnd (lift (bearer_token header)) (\<lambda>token.
     bnd (get_current_user (ap_crypto A) (ap_clk A 0) token) (\<lambda>user.
     bnd (lift (validated requested)) (\<lambda>r.
     bnd (serve A user r) (\<lambda>body. ret (success_status r, body)))))"
  assume no: "\<not> ?granted"
  have "denied ?m ?w"
  proof (cases "bearer_token header")
    case (Inr token)
    show ?thesis
      unfolding Inr
    proof (rule denied_step, rule lift_apply, cases rule: get_current_user_cases
        [of "ap_crypto A" "ap_clk A 0" token ?w])
      case (caller user cl)
      show "denied (bnd (get_current_user (ap_crypto A) (ap_clk A 0) token) (\<lambda>user.
          bnd (lift (validated requested)) (\<lambda>r. bnd (serve A user r) (\<lambda>body. ret (success_status r, body))))) ?w"
      proof (rule denied_step [where x = user], rule caller(1), cases "validated requested")
        case (Inr r)
        with no caller \<open>bearer_token header = Inr token\<close>
        have "\<not> list_all (\<lambda>(h, p). has_permission (membership_in (committed w) (u_id user) h) p) (needs (committed w) r)"
          by auto
        then obtain h p where "(h, p) \<in> set (needs (work ?w) r)"
          "\<not> has_permission (membership_in (work ?w) (u_id user) h) p"
          by (auto simp: list_all_iff)
        then have "denied (serve A user r) ?w" by (intro access_refused) auto
        with Inr show "denied (bnd (lift (validated requested))
            (\<lambda>r. bnd (serve A user r) (\<lambda>body. ret (success_status r, body)))) ?w"
          by (auto intro: denied_step denied_bnd)
      qed (auto intro: denied_raised)
    qed (auto intro: denied_raised)
  qed (auto intro: denied_raised)
  from denied_response [OF this] assms show False
    unfolding handle_request_def in_session_def
    by (cases "respond ?m ?w") auto
qed

text \<open>The installation of the witnesses: the owner of one house with an access token.\<close>

definition ex_api :: "core api" where
  "ex_api = \<lparr>ap_process = ex_process, ap_crypto = ex_crypto\<lparr>cy_decode := \<lambda>now t.
       if t = ''t'' then Some (ex_claims\<lparr>cl_type := Access\<rparr>) else None\<rparr>,
     ap_codec = ex_codec, ap_clk = (\<lambda>_. 0), ap_db_now = 0\<rparr>"

definition ex_rename :: api_request where
  "ex_rename = Home_request (Patch_house ''h1'' (Some ''Cabin''))"

definition ex_served :: "(exn + nat \<times> api_body option) \<times> core" where
  "ex_served = handle_request ex_api (Some ''Bearer t'') ex_rename ex_core"

lemma ex_served_ok: "fst ex_served = Inr (200, Some (Houses [\<lparr>h_id = ''h1'', h_name = ''Cabin''\<rparr>]))"
  by code_simp

theorem access_controlled_witness:
  "\<exists>token cl user r. bearer_token (Some ''Bearer t'') = Inr token \<and>
    cy_decode (ap_crypto ex_api) 0 token = Some cl \<and> cl_type cl = Access \<and>
    tget u_id (cl_subject cl) (users (committed ex_core)) = Some user \<and> u_is_active user \<and>
    validated ex_rename = Inr r \<and>
    list_all (\<lambda>(h, p). has_permission (membership_in (committed ex_core) (u_id user) h) p) (needs (committed ex_core) r)"
proof -
  have "handle_request ex_api (Some ''Bearer t'') ex_rename ex_core = (fst ex_served, snd ex_served)"
    by (simp add: ex_served_def)
  from access_controlled [OF this] ex_served_ok show ?thesis by (simp add: ex_api_def)
qed

subsection \<open>Lists\<close>

text \<open>
  What a body shows: for every entity the house it belongs to and the permission to read it there.
\<close>

definition shown_event :: "event_log_row \<Rightarrow> (string option \<times> permission) list" where
  "shown_event x = (ev_house_id x, EVENT_READ) #
     (if ev_event_type x \<in> set security_types then [(ev_house_id x, SECURITY_AUDIT_READ)] else [])"

fun shown :: "db \<Rightarrow> api_body \<Rightarrow> (string option \<times> permission) list" where
  "shown d (Houses xs) = map (\<lambda>x. (Some (h_id x), HOUSE_READ)) xs"
| "shown d (Floors xs) = map (\<lambda>x. (Some (f_house_id x), HOUSE_READ)) xs"
| "shown d (Rooms xs) = map (\<lambda>x. (floor_house d (r_floor_id x), HOUSE_READ)) xs"
| "shown d (Devices xs) = map (\<lambda>x. (device_house d (d_id x), DEVICE_READ)) xs"
| "shown d (Scenes xs) = map (\<lambda>x. (Some (sc_house_id x), SCENE_READ)) xs"
| "shown d (Rules xs) = map (\<lambda>x. (Some (ac_house_id x), AUTOMATION_READ)) xs"
| "shown d (Logged xs) = concat (map shown_event xs)"
| "shown d _ = []"

definition listings :: "api_request \<Rightarrow> bool" where
  "listings r \<longleftrightarrow> (case r of
     Home_request x \<Rightarrow> x = List_houses \<or> x = List_floors
   | Device_request x \<Rightarrow> (case x of List_rooms \<Rightarrow> True | List_devices _ _ _ _ \<Rightarrow> True | _ \<Rightarrow> False)
   | Rule_request x \<Rightarrow>
       (case x of List_scenes \<Rightarrow> True | List_automations \<Rightarrow> True | List_events _ _ _ \<Rightarrow> True | _ \<Rightarrow> False)
   | Binding_request _ \<Rightarrow> False)"

definition may :: "db \<Rightarrow> user_row \<Rightarrow> string option \<times> permission \<Rightarrow> bool" where
  "may d u = (\<lambda>(h, p). case h of None \<Rightarrow> False | Some x \<Rightarrow> has_permission (membership_in d (u_id u) x) p)"

lemma allowed_Inr:
  assumes "db_ok (work w)"
  obtains hs where "allowed_houses u p w = (Inr hs, w)" "\<And>h. h \<in> set hs \<longleftrightarrow> may (work w) u (Some h, p)"
proof -
  obtain hs where hs: "allowed_houses u p w = (Inr hs, w)"
    by (auto simp: allowed_houses_def accessible_house_ids_def membership_house_ids_def query_apply)
  have "h \<in> set hs \<longleftrightarrow> may (work w) u (Some h, p)" for h
    using accessible_houses_exact [OF assms, of "u_id u" p h] hs by (auto simp: allowed_houses_def may_def)
  with hs show thesis by (rule that)
qed

lemma require_Inr: "require A u h p w = (Inr x, out) \<Longrightarrow> out = w \<and> may (work w) u (Some h, p)"
  by (cases "membership_in (work w) (u_id u) h"; cases "has_permission (membership_in (work w) (u_id u) h) p")
    (auto simp: require_def bnd_def membership_apply may_def andthen_def split: prod.splits sum.splits)

lemma require_optional_Inr:
  "require_optional A u x p w = (Inr y, out) \<Longrightarrow> out = w \<and> (\<forall>h. x = Some h \<longrightarrow> may (work w) u (Some h, p))"
  by (cases x) (auto simp: require_optional_def dest: require_Inr)

lemma require_optional_for_Inr: "require_optional_for A u kind x p w = (Inr y, out) \<Longrightarrow> out = w"
  by (cases x) (auto simp: require_optional_for_def require_for_def bnd_Inr_iff house_for_apply
      split: option.splits dest: require_Inr)

lemma for_houses_Inr: "for_houses f rows hs w = (Inr xs, out) \<Longrightarrow> out = w \<and>
    (\<forall>x \<in> set xs. \<exists>h \<in> set hs. f (work w) x = Some h)"
  by (auto simp: for_houses_def query_apply split: if_splits option.splits)

lemma emap_Inr_set: "emap f xs = Inr ys \<Longrightarrow> y \<in> set ys \<Longrightarrow> \<exists>x \<in> set xs. f x = Inr y"
  by (induction xs arbitrary: ys) (auto simp: ebind_Inr_iff)

lemma read_scene_house: "read_scene r = Inr x \<Longrightarrow> sc_house_id x = s_house_id r"
  by (auto simp: read_scene_def check_scene_def scene_of_row_def split: if_splits)

lemma read_rule_house: "read_rule r = Inr x \<Longrightarrow> ac_house_id x = a_house_id r"
  by (auto simp: read_rule_def check_automation_def rule_of_row_def ebind_Inr_iff split: if_splits)

lemma security_types_audited: "t \<in> set security_types \<Longrightarrow> audit_permission (Some t) = SECURITY_AUDIT_READ"
  by (auto simp: security_types_def audit_permission_def starts_with_def)

lemma auditors_read_events: "SECURITY_AUDIT_READ \<in> set (ROLE_PERMISSIONS r) \<Longrightarrow> EVENT_READ \<in> set (ROLE_PERMISSIONS r)"
  by (cases r) (simp_all add: ALL_PERMISSIONS_def)

lemma audit_reads_events: "may d u (h, SECURITY_AUDIT_READ) \<Longrightarrow> may d u (h, EVENT_READ)"
  by (auto simp: may_def has_permission_def auditors_read_events split: option.splits)

lemma body_of_Inr: "body_of f m w = (Inr b, out) \<longleftrightarrow> (\<exists>x. m w = (Inr x, out) \<and> b = f x)"
  by (auto simp: body_of_def bnd_Inr_iff)

lemma bnd_returns: "m w = (Inr x, v) \<Longrightarrow> bnd m f w = f x v"
  by (simp add: bnd_def)

text \<open>The houses a list is restricted to: the chosen one, or all that the caller may read.\<close>

lemma chosen_houses:
  assumes "\<And>h. h \<in> set hs \<longleftrightarrow> may d u (Some h, p)" and "\<And>h. x = Some h \<Longrightarrow> may d u (Some h, p)"
    and "h \<in> set (case x of None \<Rightarrow> hs | Some h \<Rightarrow> [h])"
  shows "may d u (Some h, p)"
  using assms by (cases x) auto

lemma rows_listed:
  assumes "db_ok (work w)" and "bnd (allowed_houses u p) (for_houses f rows) w = (Inr xs, v)" and "x \<in> set xs"
  shows "may (work w) u (f (work w) x, p)"
proof -
  obtain hs where hs: "allowed_houses u p w = (Inr hs, w)" "\<And>h. h \<in> set hs \<longleftrightarrow> may (work w) u (Some h, p)"
    using allowed_Inr [OF assms(1)] by blast
  with assms(2) have "for_houses f rows hs w = (Inr xs, v)" by (simp add: bnd_def)
  from for_houses_Inr [OF this] assms(3) hs(2) show ?thesis by fastforce
qed

lemma devices_filtered:
  "device_list_for_houses hs r t b w = (Inr xs, v) \<Longrightarrow> x \<in> set xs \<Longrightarrow>
   \<exists>k \<in> set hs. device_house (work w) (d_id x) = Some k"
  by (auto simp: device_list_for_houses_def device_filtered_for_houses_def query_apply split: if_splits option.splits)

lemma events_filtered:
  "event_log_filtered_for_houses hs t n audit w = (Inr xs, v) \<Longrightarrow> x \<in> set xs \<Longrightarrow>
   \<exists>k \<in> set hs. ev_house_id x = Some k \<and>
     (case t of None \<Rightarrow> ev_event_type x \<notin> set security_types \<or> k \<in> set audit | Some s \<Rightarrow> ev_event_type x = s)"
  by (cases t) (auto simp: event_log_filtered_for_houses_def query_apply split: if_splits option.splits dest!: in_set_takeD)

lemma devices_listed:
  assumes "db_ok (work w)" and "list_devices A u h r t b w = (Inr xs, v)" and "x \<in> set xs"
  shows "may (work w) u (device_house (work w) (d_id x), DEVICE_READ)"
proof -
  obtain hs where hs: "allowed_houses u DEVICE_READ w = (Inr hs, w)" "\<And>k. k \<in> set hs \<longleftrightarrow> may (work w) u (Some k, DEVICE_READ)"
    using allowed_Inr [OF assms(1)] by blast
  let ?hs = "case h of None \<Rightarrow> hs | Some k \<Rightarrow> [k]"
  have "andthen (require_optional A u h DEVICE_READ) (andthen (require_optional_for A u Room_kind r DEVICE_READ)
      (device_list_for_houses ?hs r t b)) w = (Inr xs, v)"
    using assms(2) by (simp add: list_devices_def bnd_returns [where m = "allowed_houses u DEVICE_READ", OF hs(1)])
  then obtain y z w1 w2 where steps: "require_optional A u h DEVICE_READ w = (Inr y, w1)"
      "require_optional_for A u Room_kind r DEVICE_READ w1 = (Inr z, w2)" "device_list_for_houses ?hs r t b w2 = (Inr xs, v)"
    unfolding andthen_Inr_iff by blast
  note chosen = require_optional_Inr [OF steps(1)]
  have run: "device_list_for_houses ?hs r t b w = (Inr xs, v)"
    using steps(3) require_optional_for_Inr [OF steps(2)] chosen by simp
  from devices_filtered [OF run assms(3)] obtain k where "device_house (work w) (d_id x) = Some k" "k \<in> set ?hs"
    by blast
  moreover have "may (work w) u (Some k, DEVICE_READ)"
    using chosen_houses [OF hs(2) _ \<open>k \<in> set ?hs\<close>] chosen by blast
  ultimately show ?thesis by simp
qed

lemma events_listed:
  assumes "db_ok (work w)" and "list_events A u h t n w = (Inr xs, v)" and "x \<in> set xs"
  shows "list_all (may (work w) u) (shown_event x)"
proof -
  let ?p = "audit_permission t"
  obtain hs where hs: "allowed_houses u ?p w = (Inr hs, w)" "\<And>k. k \<in> set hs \<longleftrightarrow> may (work w) u (Some k, ?p)"
    using allowed_Inr [OF assms(1)] by blast
  obtain audit where audit: "allowed_houses u SECURITY_AUDIT_READ w = (Inr audit, w)"
    "\<And>k. k \<in> set audit \<longleftrightarrow> may (work w) u (Some k, SECURITY_AUDIT_READ)"
    using allowed_Inr [OF assms(1)] by blast
  let ?hs = "case h of None \<Rightarrow> hs | Some k \<Rightarrow> [k]"
  have "andthen (require_optional A u h ?p) (bnd (allowed_houses u SECURITY_AUDIT_READ)
      (\<lambda>as. event_log_filtered_for_houses ?hs t n as)) w = (Inr xs, v)"
    using assms(2) by (simp add: list_events_def Let_def bnd_returns [where m = "allowed_houses u ?p", OF hs(1)])
  then obtain y w1 where steps: "require_optional A u h ?p w = (Inr y, w1)"
      "bnd (allowed_houses u SECURITY_AUDIT_READ) (\<lambda>as. event_log_filtered_for_houses ?hs t n as) w1 = (Inr xs, v)"
    unfolding andthen_Inr_iff by blast
  note chosen = require_optional_Inr [OF steps(1)]
  have run: "event_log_filtered_for_houses ?hs t n audit w = (Inr xs, v)"
    using steps(2) chosen audit(1) by (simp add: bnd_def)
  from events_filtered [OF run assms(3)] obtain k where k: "ev_house_id x = Some k" "k \<in> set ?hs"
    and type_ok: "case t of None \<Rightarrow> ev_event_type x \<notin> set security_types \<or> k \<in> set audit | Some s \<Rightarrow> ev_event_type x = s"
    by blast
  have "may (work w) u (Some k, ?p)"
    using chosen_houses [OF hs(2) _ k(2)] chosen by blast
  moreover have "?p = SECURITY_AUDIT_READ" if "t \<noteq> None" "ev_event_type x \<in> set security_types"
    using that type_ok security_types_audited by auto
  moreover have "?p = EVENT_READ \<or> ?p = SECURITY_AUDIT_READ"
    by (auto simp: audit_permission_def split: option.split)
  ultimately show ?thesis
    using k(1) type_ok audit(2) audit_reads_events
    by (cases t) (auto simp: shown_event_def audit_permission_def)
qed

text \<open>
  C14. Lists are private: whatever the filters, every house, floor, room, device, scene, rule or log entry
  of a list response belongs to a house in which the caller may read that kind of entity, and an
  authentication or authorization event appears only for callers who may read the security audit of
  its house.
\<close>

theorem listings_private:
  assumes "db_ok (work w)" and "listings r" and "serve A u r w = (Inr body, out)"
  shows "list_all (may (work w) u) (shown (work w) body)"
proof (cases r)
  case (Home_request x)
  have "may (work w) u (Some (h_id y), HOUSE_READ)" if "list_houses u w = (Inr xs, v)" "y \<in> set xs" for xs v y
    using rows_listed [OF assms(1) that(1) [unfolded list_houses_def houses_for_ids_def] that(2)] .
  moreover have "may (work w) u (Some (f_house_id y), HOUSE_READ)" if "list_floors u w = (Inr xs, v)" "y \<in> set xs" for xs v y
    using rows_listed [OF assms(1) that(1) [unfolded list_floors_def floors_for_houses_def] that(2)] .
  ultimately show ?thesis
    using assms(2,3) Home_request by (auto simp: listings_def body_of_Inr list_all_iff)
next
  case (Device_request x)
  have "may (work w) u (floor_house (work w) (r_floor_id y), HOUSE_READ)"
    if "list_rooms u w = (Inr xs, v)" "y \<in> set xs" for xs v y
    using rows_listed [OF assms(1) that(1) [unfolded list_rooms_def rooms_for_houses_def] that(2)] .
  then show ?thesis
    using assms(2,3) Device_request devices_listed [OF assms(1)]
    by (auto simp: listings_def body_of_Inr list_all_iff split: device_request.splits)
next
  case (Rule_request x)
  have "may (work w) u (Some (sc_house_id s), SCENE_READ)"
    if run: "list_scenes u w = (Inr xs, v)" and s: "s \<in> set xs" for xs v s
  proof -
    from run obtain rows where "bnd (allowed_houses u SCENE_READ) scenes_for_houses w = (Inr rows, v)"
      "emap read_scene rows = Inr xs"
      by (auto simp: list_scenes_def bnd_Inr_iff)
    with s rows_listed [OF assms(1)] show ?thesis
      unfolding scenes_for_houses_def by (metis emap_Inr_set read_scene_house)
  qed
  moreover have "may (work w) u (Some (ac_house_id s), AUTOMATION_READ)"
    if run: "list_automations u w = (Inr xs, v)" and s: "s \<in> set xs" for xs v s
  proof -
    from run obtain rows where "bnd (allowed_houses u AUTOMATION_READ) automations_for_houses w = (Inr rows, v)"
      "emap read_rule rows = Inr xs"
      by (auto simp: list_automations_def bnd_Inr_iff)
    with s rows_listed [OF assms(1)] show ?thesis
      unfolding automations_for_houses_def by (metis emap_Inr_set read_rule_house)
  qed
  moreover have "may (work w) u hp"
    if "list_events A u h t n w = (Inr xs, v)" "y \<in> set xs" "hp \<in> set (shown_event y)" for h t n xs v y hp
    using events_listed [OF assms(1) that(1,2)] that(3) by (simp add: list_all_iff)
  ultimately show ?thesis
    using assms(2,3) Rule_request
    by (auto simp: listings_def body_of_Inr list_all_iff split: rule_request.splits)
qed (use assms in \<open>simp add: listings_def\<close>)

text \<open>The witness: the owner reads the devices of the installation.\<close>

theorem listings_private_witness:
  "list_all (may (work ex_core) \<lparr>u_id = ''u1'', u_email = ''a@b.c'', u_password_hash = [], u_is_active = True,
      u_is_superuser = False\<rparr>)
    (shown (work ex_core) (Rooms (rooms (work ex_core))))"
proof -
  let ?u = "\<lparr>u_id = ''u1'', u_email = ''a@b.c'', u_password_hash = [], u_is_active = True, u_is_superuser = False\<rparr>"
  have "db_ok (work ex_core)" by code_simp
  moreover have "listings (Device_request List_rooms)" by (simp add: listings_def)
  moreover have "serve ex_api ?u (Device_request List_rooms) ex_core = (Inr (Rooms (rooms (work ex_core))), ex_core)"
    by code_simp
  ultimately show ?thesis by (rule listings_private)
qed

end
