(* ===== verification/Settings.thy ===== *)
theory Settings
  imports Schemas
begin

text \<open>
  \<open>app/core/settings.py\<close>: the settings of the process, their validation and their reading from
  the environment. The JSON reader, the URL parser of the database library and the \<open>.env\<close> file are
  parameters: \<open>parse\<close> is \<open>json.loads\<close> (\<open>None\<close> where it raises), \<open>backend\<close> is
  \<open>make_url(...).get_backend_name()\<close> (\<open>None\<close> where it raises), \<open>file\<close> what \<open>load_dotenv\<close> reads.
\<close>

subsection \<open>Settings\<close>

text \<open>A software device is a JSON list as it was read; validation demands two identifiers.\<close>

record settings =
  st_database_url :: string
  st_app_env :: string
  st_app_debug :: bool
  st_simulator_enabled :: bool
  st_mqtt_enabled :: bool
  st_mqtt_host :: "string option"
  st_mqtt_port :: int
  st_mqtt_username :: "string option"
  st_mqtt_password :: "string option"
  st_mqtt_tls_enabled :: bool
  st_mqtt_keepalive :: int
  st_mqtt_client_id :: "string option"
  st_mqtt_software_devices :: "json list list"
  st_auth_jwt_secret :: string
  st_auth_jwt_algorithm :: string
  st_auth_access_token_minutes :: int
  st_auth_refresh_token_days :: int

definition validate_app_env :: "string \<Rightarrow> exn + unit" where
  "validate_app_env value =
     check (lower value \<in> {''development'', ''test'', ''local'', ''production''}) ValueError"

definition software_device :: "json \<Rightarrow> bool" where
  "software_device v = (case v of JStr s \<Rightarrow> id_pattern is_id_char 64 s | _ \<Rightarrow> False)"

definition software_pair_ok :: "json list \<Rightarrow> bool" where
  "software_pair_ok pair \<longleftrightarrow> length pair = 2 \<and> list_all software_device pair"

definition default_secret :: string where
  "default_secret = ''development-only-change-me-32-bytes''"

definition production :: "settings \<Rightarrow> bool" where
  "production s \<longleftrightarrow> lower (st_app_env s) = ''production''"

definition given :: "string option \<Rightarrow> bool" where
  "given x \<longleftrightarrow> x \<noteq> None \<and> x \<noteq> Some []"

text \<open>\<open>Settings.__post_init__\<close>: the checks in the order of the code.\<close>

definition settings_ok :: "(string \<Rightarrow> string option) \<Rightarrow> settings \<Rightarrow> exn + unit" where
  "settings_ok backend s =
     seq (validate_app_env (st_app_env s))
     (seq (check (list_all software_pair_ok (st_mqtt_software_devices s)) ValueError)
     (seq (check (st_auth_jwt_algorithm s \<in> {''HS256'', ''HS384'', ''HS512''}) ValueError)
     (seq (check (\<not> (st_auth_access_token_minutes s < 1 \<or> st_auth_refresh_token_days s < 1)) ValueError)
     (seq (check (\<not> (production s \<and>
         (py_length (st_auth_jwt_secret s) < 32 \<or> st_auth_jwt_secret s = default_secret \<or>
          contains ''change-me'' (lower (st_auth_jwt_secret s))))) ValueError)
     (seq (check (\<not> production s \<or> backend (st_database_url s) = Some ''postgresql'') ValueError)
     (seq (check (\<not> production s \<or> st_mqtt_enabled s) ValueError)
     (if \<not> st_mqtt_enabled s then Inr ()
      else
        seq (check (given (st_mqtt_host s) \<and> given (st_mqtt_client_id s)) ValueError)
        (seq (check (1 \<le> st_mqtt_port s \<and> st_mqtt_port s \<le> 65535) ValueError)
        (seq (check (1 \<le> st_mqtt_keepalive s \<and> st_mqtt_keepalive s \<le> 65535) ValueError)
        (seq (check ((st_mqtt_username s = None) = (st_mqtt_password s = None)) ValueError)
        (check (\<not> (production s \<and> \<not> st_mqtt_tls_enabled s)) ValueError)))))))))))"

subsection \<open>Reading the environment\<close>

type_synonym process_env = "string \<Rightarrow> string option"

definition boolean_text :: "process_env \<Rightarrow> string \<Rightarrow> bool \<Rightarrow> exn + bool" where
  "boolean_text env name fallback =
     (case env name of
        None \<Rightarrow> Inr fallback
      | Some value \<Rightarrow>
          if lower value \<notin> {''1'', ''0'', ''true'', ''false'', ''yes'', ''no'', ''on'', ''off''} then Inl ValueError
          else Inr (lower value \<in> {''1'', ''true'', ''yes'', ''on''}))"

text \<open>
  \<open>int(text)\<close> on ASCII text: surrounding space, a sign, and digits with single underscores
  between them.
\<close>

fun digit_run :: "int \<Rightarrow> bool \<Rightarrow> string \<Rightarrow> int option" where
  "digit_run n after_digit [] = (if after_digit then Some n else None)"
| "digit_run n after_digit (c # cs) =
     (if is_digit c then digit_run (10 * n + int (digit_value c)) True cs
      else if c = CHR ''_'' \<and> after_digit then digit_run n False cs
      else None)"

definition int_of_text :: "string \<Rightarrow> int option" where
  "int_of_text text = (case strip text of
     [] \<Rightarrow> None
   | c # cs \<Rightarrow>
       if c = CHR ''-'' then map_option uminus (digit_run 0 False cs)
       else if c = CHR ''+'' then digit_run 0 False cs
       else digit_run 0 False (c # cs))"

definition integer_text :: "process_env \<Rightarrow> string \<Rightarrow> int \<Rightarrow> exn + int" where
  "integer_text env name fallback =
     (case env name of
        None \<Rightarrow> Inr fallback
      | Some value \<Rightarrow> (case int_of_text value of None \<Rightarrow> Inl ValueError | Some n \<Rightarrow> Inr n))"

definition optional_text :: "process_env \<Rightarrow> string \<Rightarrow> string option" where
  "optional_text env name = (if given (env name) then env name else None)"

fun as_array :: "json \<Rightarrow> (json list) option" where
  "as_array (JArr xs) = Some xs"
| "as_array _ = None"

definition software_devices :: "(string \<Rightarrow> json option) \<Rightarrow> process_env \<Rightarrow> exn + json list list" where
  "software_devices parse env =
     (case Option.bind (parse (dflt ''[]'' (env ''MQTT_SOFTWARE_DEVICES''))) as_array of
        None \<Rightarrow> Inl ValueError
      | Some pairs \<Rightarrow>
          if list_ex (\<lambda>p. as_array p = None) pairs then Inl ValueError
          else Inr (map (\<lambda>p. dflt [] (as_array p)) pairs))"

text \<open>\<open>load_dotenv(..., override=False)\<close>: the process environment wins.\<close>

definition load_dotenv :: "process_env \<Rightarrow> process_env \<Rightarrow> process_env" where
  "load_dotenv file env = (\<lambda>name. case env name of Some v \<Rightarrow> Some v | None \<Rightarrow> file name)"

definition from_env ::
  "(string \<Rightarrow> string option) \<Rightarrow> (string \<Rightarrow> json option) \<Rightarrow> process_env \<Rightarrow> process_env \<Rightarrow> exn + settings" where
  "from_env backend parse file process =
     (let app_env = dflt ''development'' (process ''APP_ENV'');
          env = (if lower app_env \<in> {''development'', ''test'', ''local''} then load_dotenv file process else process) in
      seq (validate_app_env app_env)
      (seq (validate_app_env (dflt ''development'' (env ''APP_ENV'')))
      (if \<not> given (env ''DATABASE_URL'') then Inl RuntimeError
       else
         ebind (boolean_text env ''APP_DEBUG'' False) (\<lambda>debug.
         ebind (boolean_text env ''KZHOME_SIMULATOR_ENABLED'' False) (\<lambda>simulator.
         ebind (boolean_text env ''MQTT_ENABLED'' False) (\<lambda>mqtt.
         ebind (integer_text env ''MQTT_PORT'' 1883) (\<lambda>port.
         ebind (boolean_text env ''MQTT_TLS_ENABLED'' False) (\<lambda>tls.
         ebind (integer_text env ''MQTT_KEEPALIVE'' 60) (\<lambda>keepalive.
         ebind (software_devices parse env) (\<lambda>software.
         ebind (integer_text env ''AUTH_ACCESS_TOKEN_MINUTES'' 15) (\<lambda>minutes.
         ebind (integer_text env ''AUTH_REFRESH_TOKEN_DAYS'' 30) (\<lambda>days.
         let s = \<lparr>st_database_url = dflt [] (env ''DATABASE_URL''),
                  st_app_env = dflt ''development'' (env ''APP_ENV''),
                  st_app_debug = debug, st_simulator_enabled = simulator, st_mqtt_enabled = mqtt,
                  st_mqtt_host = optional_text env ''MQTT_HOST'', st_mqtt_port = port,
                  st_mqtt_username = optional_text env ''MQTT_USERNAME'',
                  st_mqtt_password = optional_text env ''MQTT_PASSWORD'',
                  st_mqtt_tls_enabled = tls, st_mqtt_keepalive = keepalive,
                  st_mqtt_client_id = optional_text env ''MQTT_CLIENT_ID'',
                  st_mqtt_software_devices = software,
                  st_auth_jwt_secret = dflt default_secret (env ''AUTH_JWT_SECRET''),
                  st_auth_jwt_algorithm = dflt ''HS256'' (env ''AUTH_JWT_ALGORITHM''),
                  st_auth_access_token_minutes = minutes, st_auth_refresh_token_days = days\<rparr> in
         seq (settings_ok backend s) (Inr s)))))))))))))"

text \<open>\<open>lifespan\<close>: whether the virtual devices run; \<open>run_simulator\<close> is the argument of \<open>create_app\<close>.\<close>

definition simulator_started :: "settings \<Rightarrow> bool option \<Rightarrow> bool" where
  "simulator_started s run_simulator \<longleftrightarrow>
     \<not> production s \<and> (case run_simulator of None \<Rightarrow> st_simulator_enabled s | Some b \<Rightarrow> b)"

subsection \<open>Properties\<close>

lemma from_env_Inr:
  "from_env backend parse file process = Inr s \<Longrightarrow> settings_ok backend s = Inr ()"
  by (auto simp: from_env_def Let_def ebind_Inr_iff split: if_splits)

text \<open>
  C29. Production settings are safe: settings that were read for production name a PostgreSQL
  database, enable MQTT with TLS, a host and a client identifier, carry a signing secret of at least
  32 characters that is not the published one, list only exact pairs of identifiers as software
  devices, and never start the virtual devices, whatever the application is asked for. A process
  started for production does not read the file with development values.
\<close>

theorem production_settings_safe:
  assumes "from_env backend parse file process = Inr s" and "production s"
  shows "backend (st_database_url s) = Some ''postgresql'' \<and>
    st_mqtt_enabled s \<and> st_mqtt_tls_enabled s \<and> given (st_mqtt_host s) \<and> given (st_mqtt_client_id s) \<and>
    32 \<le> py_length (st_auth_jwt_secret s) \<and> st_auth_jwt_secret s \<noteq> default_secret \<and>
    \<not> contains ''change-me'' (lower (st_auth_jwt_secret s)) \<and>
    1 \<le> st_auth_access_token_minutes s \<and> 1 \<le> st_auth_refresh_token_days s \<and>
    list_all software_pair_ok (st_mqtt_software_devices s) \<and>
    \<not> simulator_started s run_simulator \<and>
    (process ''APP_ENV'' = Some (st_app_env s) \<longrightarrow> from_env backend parse other process = Inr s)"
proof -
  have "from_env backend parse other process = Inr s" if "process ''APP_ENV'' = Some (st_app_env s)"
  proof -
    have "lower (st_app_env s) \<notin> {''development'', ''test'', ''local''}"
      using assms(2) by (simp add: production_def)
    with that have "from_env backend parse other process = from_env backend parse file process"
      by (simp add: from_env_def dflt_def)
    with assms(1) show ?thesis by simp
  qed
  moreover have "\<not> simulator_started s run_simulator" using assms(2) by (simp add: simulator_started_def)
  ultimately show ?thesis
    using from_env_Inr [OF assms(1)] assms(2) by (simp add: settings_ok_def split: if_splits)
qed

text \<open>The environment of a production host.\<close>

definition ex_production :: process_env where
  "ex_production = map_of
     [(''APP_ENV'', ''production''), (''DATABASE_URL'', ''postgresql://db''), (''MQTT_ENABLED'', ''true''),
      (''MQTT_TLS_ENABLED'', ''on''), (''MQTT_HOST'', ''broker''), (''MQTT_PORT'', '' 8_883''),
      (''MQTT_CLIENT_ID'', ''core''), (''AUTH_JWT_SECRET'', replicate 40 CHR ''k'')]"

definition ex_settings :: "exn + settings" where
  "ex_settings = from_env (\<lambda>_. Some ''postgresql'') (\<lambda>_. Some (JArr [])) (\<lambda>_. None) ex_production"

lemma ex_settings_ok: "case ex_settings of Inl _ \<Rightarrow> False | Inr s \<Rightarrow> production s \<and> st_mqtt_port s = 8883"
  by code_simp

theorem production_settings_safe_witness:
  "\<exists>s. ex_settings = Inr s \<and> st_mqtt_tls_enabled s \<and> \<not> simulator_started s (Some True)"
proof -
  obtain s where s: "ex_settings = Inr s" "production s"
    using ex_settings_ok that by (auto split: sum.splits)
  from production_settings_safe [OF s(1) [unfolded ex_settings_def] s(2), of "Some True"] s show ?thesis by blast
qed

end
