(* ===== verification/Relay.thy ===== *)
theory Relay
  imports Gateway
begin

text \<open>
  The software devices at the other end of the protocol: the relay of \<open>simulator/mqtt_relay.py\<close>, its
  demo variant \<open>app/demo_relay.py\<close>, the motion probe of \<open>simulator/mqtt_motion.py\<close> and the virtual
  devices of \<open>simulator/virtual_device.py\<close>. The broker connection is a parameter: \<open>ra_up n\<close> tells
  whether the n-th publish succeeds; what it accepted is recorded.
\<close>

subsection \<open>The relay\<close>

definition COMMAND_WINDOW :: int where
  "COMMAND_WINDOW = 300000000"

record relay =
  rl_house_id :: string
  rl_device_id :: string
  rl_on :: bool
  rl_seen :: "(string \<times> int \<times> command_envelope \<times> ack_envelope) list"
  rl_attempts :: nat
  rl_sent :: "(string \<times> outgoing \<times> nat \<times> bool) list"

text \<open>\<open>ra_clk n\<close> is the n-th reading of \<open>utc_now\<close> in a call.\<close>

record relay_args =
  ra_lenient :: lenient
  ra_format :: "wall_time \<Rightarrow> string"
  ra_clk :: "nat \<Rightarrow> int"
  ra_up :: "nat \<Rightarrow> bool"

definition relay_publish :: "relay_args \<Rightarrow> string \<Rightarrow> outgoing \<Rightarrow> nat \<Rightarrow> bool \<Rightarrow> (relay, unit) op" where
  "relay_publish R topic payload qos retain =
     bnd (gets rl_attempts) (\<lambda>n.
     andthen (modify (\<lambda>w. w\<lparr>rl_attempts := Suc n\<rparr>))
     (andthen (reject (\<not> ra_up R n) TransportError)
     (modify (\<lambda>w. w\<lparr>rl_sent := rl_sent w @ [(topic, payload, qos, retain)]\<rparr>))))"

definition relay_topic :: "topic_kind \<Rightarrow> (relay, string) op" where
  "relay_topic kind = bnd (gets (\<lambda>w. build_topic (rl_house_id w) (rl_device_id w) kind)) lift"

definition relay_send :: "relay_args \<Rightarrow> topic_kind \<Rightarrow> obj \<Rightarrow> (relay, unit) op" where
  "relay_send R kind document =
     bnd (relay_topic kind) (\<lambda>topic.
     relay_publish R topic (Document document) (tp_qos (TOPIC_POLICY kind)) (tp_retain (TOPIC_POLICY kind)))"

definition relay_status :: "relay_args \<Rightarrow> bool \<Rightarrow> obj" where
  "relay_status R online =
     status_document (ra_format R) \<lparr>te_timestamp = Some (utc_time (ra_clk R 0)), te_online = online,
       te_last_seen = utc_time (ra_clk R 0), te_heartbeat = Some 60\<rparr>"

text \<open>The reading of the clock for a state report follows the one of the command.\<close>

definition relay_state :: "relay_args \<Rightarrow> string \<Rightarrow> (relay, unit) op" where
  "relay_state R correlation_id =
     bnd (gets rl_on) (\<lambda>on.
     relay_send R STATE (state_document (ra_format R)
       \<lparr>se_timestamp = utc_time (ra_clk R 1), se_correlation_id = correlation_id, se_state = [(''on'', JBool on)]\<rparr>))"

text \<open>The checks of a payload up to the envelope.\<close>

definition relay_command :: "relay_args \<Rightarrow> mqtt_message \<Rightarrow> exn + command_envelope" where
  "relay_command R m =
     (if MAX_CONTROL_PAYLOAD < msg_size m then Inl ValueError
      else case map_option loads (msg_document m) of
        None \<Rightarrow> Inl ValueError
      | Some raw \<Rightarrow>
          ebind (validate_json_bounds raw) (\<lambda>_.
          case raw of
            JObj d \<Rightarrow>
              ebind (command_envelope_of (ra_lenient R) d) (\<lambda>c.
              if 128 < byte_length (ce_command_id c) \<or> 128 < byte_length (ce_correlation_id c) then Inl ValueError
              else if utcoffset (ce_timestamp c) = None then Inl ValueError
              else Inr c)
          | _ \<Rightarrow> Inl ValidationError))"

text \<open>Equality of two envelopes: aware times are equal when they are the same instant.\<close>

definition same_time :: "wall_time \<Rightarrow> wall_time \<Rightarrow> bool" where
  "same_time a b \<longleftrightarrow> instant a = instant b \<and> (utcoffset a = None) = (utcoffset b = None)"

definition same_command :: "command_envelope \<Rightarrow> command_envelope \<Rightarrow> bool" where
  "same_command a b \<longleftrightarrow> ce_command_id a = ce_command_id b \<and> ce_correlation_id a = ce_correlation_id b \<and>
     same_time (ce_timestamp a) (ce_timestamp b) \<and>
     (case (ce_expires_at a, ce_expires_at b) of
        (None, None) \<Rightarrow> True | (Some x, Some y) \<Rightarrow> same_time x y | _ \<Rightarrow> False) \<and>
     py_eq (JObj (ce_state a)) (JObj (ce_state b))"

definition relay_error :: "int \<Rightarrow> command_envelope \<Rightarrow> string option" where
  "relay_error now c =
     (let sent = instant (ce_timestamp c) in
      if (case ce_expires_at c of None \<Rightarrow> False
          | Some e \<Rightarrow> utcoffset e = None \<or> \<not> (0 < instant e - sent \<and> instant e - sent \<le> 30000000))
      then Some ''protocol_error''
      else if (case ce_expires_at c of None \<Rightarrow> False | Some e \<Rightarrow> instant e \<le> now) then Some ''timeout''
      else if \<not> (now - COMMAND_WINDOW \<le> sent \<and> sent \<le> now + 30000000) then Some ''timeout''
      else if set (map fst (ce_state c)) \<noteq> {''on''} then Some ''unsupported_capability''
      else if \<not> is_bool (oget ''on'' (ce_state c)) then Some ''invalid_value''
      else None)"

definition relay_ack :: "int \<Rightarrow> command_envelope \<Rightarrow> string option \<Rightarrow> ack_envelope" where
  "relay_ack now c error =
     \<lparr>ae_command_id = ce_command_id c, ae_correlation_id = ce_correlation_id c,
      ae_timestamp = Some (utc_time now),
      ae_status = (if error = None then Ack_applied else Ack_rejected), ae_error_code = error, ae_message = None\<rparr>"

definition relay_execute :: "relay_args \<Rightarrow> int \<Rightarrow> command_envelope \<Rightarrow> (relay, unit) op" where
  "relay_execute R now c =
     (let error = relay_error now c; ack = relay_ack now c error in
      bnd (gets rl_seen) (\<lambda>seen.
      andthen (reject (4096 \<le> length seen) ValueError)
      (andthen (modify (\<lambda>w. if error = None then w\<lparr>rl_on := oget ''on'' (ce_state c) = JBool True\<rparr> else w))
      (andthen (modify (\<lambda>w. w\<lparr>rl_seen := aput (ce_command_id c)
          (max now (instant (ce_timestamp c)) + COMMAND_WINDOW, c, ack) (rl_seen w)\<rparr>))
      (andthen (relay_send R ACK (ack_document (ra_format R) ack))
      (if error = None then relay_state R (ce_correlation_id c) else ret ()))))))"

definition relay_forget :: "int \<Rightarrow> relay \<Rightarrow> relay" where
  "relay_forget now w = w\<lparr>rl_seen := filter (\<lambda>(_, until, _). now \<le> until) (rl_seen w)\<rparr>"

definition relay_handle :: "relay_args \<Rightarrow> mqtt_message \<Rightarrow> (relay, unit) op" where
  "relay_handle R m =
     bnd (relay_topic SET) (\<lambda>own.
     andthen (reject (msg_topic m \<noteq> own \<or> msg_retained m) ValueError)
     (bnd (lift (relay_command R m)) (\<lambda>c.
     let now = ra_clk R 0 in
     andthen (modify (relay_forget now))
     (bnd (gets (\<lambda>w. alookup (ce_command_id c) (rl_seen w))) (\<lambda>previous.
     case previous of
       Some (_, original, ack) \<Rightarrow>
         andthen (reject (\<not> same_command c original) ValueError)
           (relay_send R ACK (ack_document (ra_format R) ack))
     | None \<Rightarrow> relay_execute R now c)))))"

text \<open>\<open>run\<close>: the start, a message, a heartbeat and the end of the connection.\<close>

definition relay_started :: "relay_args \<Rightarrow> string \<Rightarrow> (relay, unit) op" where
  "relay_started R fresh =
     andthen (relay_send R STATUS (relay_status R True)) (relay_state R fresh)"

text \<open>
  Only these two exceptions are caught. A \<open>RecursionError\<close> of the JSON reader on a deeply nested
  payload, which would end the relay, is not modelled: such a payload has no document.
\<close>

definition relay_receive :: "relay_args \<Rightarrow> mqtt_message \<Rightarrow> (relay, unit) op" where
  "relay_receive R m =
     handle (relay_handle R m) (\<lambda>e. if e = ValueError \<or> e = ValidationError then ret () else raise e)"

definition relay_heartbeat :: "relay_args \<Rightarrow> (relay, unit) op" where
  "relay_heartbeat R = relay_send R STATUS (relay_status R True)"

definition relay_stopped :: "relay_args \<Rightarrow> (relay, unit) op" where
  "relay_stopped R = relay_send R STATUS (relay_status R False)"

text \<open>The configuration from the environment; \<open>number\<close> is \<open>int\<close> on text.\<close>

definition relay_configured ::
  "(string \<Rightarrow> int option) \<Rightarrow> (string \<Rightarrow> string option) \<Rightarrow> exn + (string \<times> int)" where
  "relay_configured number env =
     (let needed = (\<lambda>name. case env (''RELAY_'' @ name) of None \<Rightarrow> Inl ValueError
          | Some v \<Rightarrow> if v = [] then Inl ValueError else Inr v) in
      ebind (needed ''MQTT_HOST'') (\<lambda>host.
      ebind (case number (dflt ''8883'' (env ''RELAY_MQTT_PORT'')) of None \<Rightarrow> Inl ValueError | Some n \<Rightarrow> Inr n) (\<lambda>port.
      ebind (needed ''MQTT_USERNAME'') (\<lambda>username.
      ebind (needed ''MQTT_PASSWORD'') (\<lambda>_.
      ebind (needed ''CA_FILE'') (\<lambda>_.
      ebind (needed ''HOUSE_ID'') (\<lambda>house_id.
      ebind (needed ''DEVICE_ID'') (\<lambda>device_id.
      ebind (needed ''MQTT_CLIENT_ID'') (\<lambda>_.
      seq (check (username \<noteq> ''kzhome-core'') ValueError)
      (seq (check (1 \<le> port \<and> port \<le> 65535) ValueError)
      (ebind (build_topic house_id device_id SET) (\<lambda>_. Inr (host, port)))))))))))))"

subsection \<open>The demo relay\<close>

datatype demo_mode = Demo_apply | Demo_fail | Demo_timeout

definition demo_handle :: "relay_args \<Rightarrow> demo_mode \<Rightarrow> mqtt_message \<Rightarrow> (relay, unit) op" where
  "demo_handle R mode m =
     (if mode = Demo_apply then relay_handle R m
      else
        bnd (relay_topic SET) (\<lambda>own.
        andthen (reject (msg_topic m \<noteq> own \<or> msg_retained m) ValueError)
        (bnd (lift (case map_option loads (msg_document m) of
             Some (JObj d) \<Rightarrow> command_envelope_of (ra_lenient R) d | _ \<Rightarrow> Inl ValidationError)) (\<lambda>c.
        if mode = Demo_fail
        then relay_send R ACK (ack_document (ra_format R)
          \<lparr>ae_command_id = ce_command_id c, ae_correlation_id = ce_correlation_id c,
           ae_timestamp = Some (utc_time (ra_clk R 0)), ae_status = Ack_failed, ae_error_code = None, ae_message = None\<rparr>)
        else ret ()))))"

subsection \<open>The motion probe\<close>

definition motion_topic :: "topic_kind \<Rightarrow> exn + string" where
  "motion_topic kind =
     (if kind \<notin> {STATE, STATUS} then Inl ValueError else build_topic ''e2e_house'' ''e2e_motion'' kind)"

definition motion_send :: "relay_args \<Rightarrow> topic_kind \<Rightarrow> obj \<Rightarrow> (relay, unit) op" where
  "motion_send R kind document =
     bnd (lift (motion_topic kind)) (\<lambda>topic.
     relay_publish R topic (Document document) (tp_qos (TOPIC_POLICY kind)) (tp_retain (TOPIC_POLICY kind)))"

definition motion_status :: "relay_args \<Rightarrow> bool \<Rightarrow> obj" where
  "motion_status R online =
     status_document (ra_format R) \<lparr>te_timestamp = Some (utc_time (ra_clk R 0)), te_online = online,
       te_last_seen = utc_time (ra_clk R 0), te_heartbeat = None\<rparr>"

definition motion_state :: "relay_args \<Rightarrow> json \<Rightarrow> string \<Rightarrow> (relay, unit) op" where
  "motion_state R motion correlation_id =
     andthen (reject (\<not> is_bool motion \<or> correlation_id = []) ValueError)
     (motion_send R STATE (state_document (ra_format R)
       \<lparr>se_timestamp = utc_time (ra_clk R 1), se_correlation_id = correlation_id, se_state = [(''motion'', motion)]\<rparr>))"

text \<open>\<open>probe\<close>: online, one report, and offline when the connection ends, however it ends.\<close>

definition motion_probe :: "relay_args \<Rightarrow> json \<Rightarrow> string \<Rightarrow> (relay, unit) op" where
  "motion_probe R motion fresh =
     finally_do (andthen (motion_send R STATUS (motion_status R True)) (motion_state R motion fresh))
       (motion_send R STATUS (motion_status R False))"

subsection \<open>Virtual devices\<close>

definition simulator_steps :: "(string \<times> obj) list" where
  "simulator_steps =
     [(''hall_motion'', [(''motion'', JBool True)]),
      (''bedroom_temperature'', [(''temperature'', JFloat (Fin 23))]),
      (''hall_motion'', [(''motion'', JBool False)]),
      (''main_leak_sensor'', [(''leak'', JBool True)]),
      (''main_leak_sensor'', [(''leak'', JBool False)]),
      (''bedroom_temperature'', [(''temperature'', JFloat (Fin (45 / 2)))])]"

text \<open>One pass over the steps; a step works without a transport and its failure is only logged.\<close>

definition simulator_step :: "'z core_scheme process \<Rightarrow> pyfloat \<Rightarrow> string \<times> obj \<Rightarrow> ('z core_scheme, unit) op" where
  "simulator_step P interval = (\<lambda>(device_id, state).
     andthen (pr_sleep P interval)
     (handle (in_session (void (process_update (P\<lparr>pr_transport := None\<rparr>) device_id state [] 0)))
       (\<lambda>e. if is_exception e then ret () else raise e)))"

definition simulator_pass :: "'z core_scheme process \<Rightarrow> pyfloat \<Rightarrow> ('z core_scheme, unit) op" where
  "simulator_pass P interval = for_each (simulator_step P interval) simulator_steps"

subsection \<open>What a publish leaves alone\<close>

lemma relay_publish_apply: "relay_publish R topic payload qos retain w =
    (if ra_up R (rl_attempts w)
     then (Inr (), w\<lparr>rl_attempts := Suc (rl_attempts w), rl_sent := rl_sent w @ [(topic, payload, qos, retain)]\<rparr>)
     else (Inl TransportError, w\<lparr>rl_attempts := Suc (rl_attempts w)\<rparr>))"
  by (simp add: relay_publish_def op_defs)

lemma relay_send_apply: "relay_send R kind document w =
    (case build_topic (rl_house_id w) (rl_device_id w) kind of
       Inl e \<Rightarrow> (Inl e, w)
     | Inr topic \<Rightarrow> relay_publish R topic (Document document) (tp_qos (TOPIC_POLICY kind)) (tp_retain (TOPIC_POLICY kind)) w)"
  by (simp add: relay_send_def relay_topic_def bnd_def split: sum.split)

lemma relay_send_on: "rl_on (snd (relay_send R kind document w)) = rl_on w"
  and relay_state_on: "rl_on (snd (relay_state R c w)) = rl_on w"
  by (auto simp: relay_state_def relay_send_apply relay_publish_apply split: sum.split)

lemma after_send_on:
  assumes "\<And>v. rl_on (snd (k v)) = rl_on v"
  shows "rl_on (snd (andthen (relay_send R kind document) k w)) = rl_on w"
proof (cases "relay_send R kind document w")
  case (Pair r v)
  then have "rl_on v = rl_on w" using relay_send_on [of R kind document w] by simp
  with Pair assms [of v] show ?thesis by (cases r) (auto simp: andthen_def bnd_def)
qed

lemma relay_execute_on:
  "rl_on (snd (relay_execute R now c w)) = rl_on w \<or>
   (relay_error now c = None \<and> rl_on (snd (relay_execute R now c w)) = (oget ''on'' (ce_state c) = JBool True))"
proof (cases "4096 \<le> length (rl_seen w)")
  case False
  let ?k = "if relay_error now c = None then relay_state R (ce_correlation_id c) else ret ()"
  have "rl_on (snd (?k v)) = rl_on v" for v by (simp add: relay_state_on)
  then have "rl_on (snd (andthen (relay_send R ACK document) ?k v)) = rl_on v" for document v
    by (rule after_send_on)
  with False show ?thesis by (simp add: relay_execute_def Let_def)
qed (simp add: relay_execute_def Let_def)

lemma relay_error_None:
  "relay_error now c = None \<longleftrightarrow>
     (\<forall>e. ce_expires_at c = Some e \<longrightarrow> utcoffset e \<noteq> None \<and> now < instant e \<and>
        0 < instant e - instant (ce_timestamp c) \<and> instant e - instant (ce_timestamp c) \<le> 30000000) \<and>
     now - COMMAND_WINDOW \<le> instant (ce_timestamp c) \<and> instant (ce_timestamp c) \<le> now + 30000000 \<and>
     set (map fst (ce_state c)) = {''on''} \<and> is_bool (oget ''on'' (ce_state c))"
  by (cases "ce_expires_at c") (auto simp: relay_error_def Let_def)

lemma relay_handle_step:
  assumes "build_topic (rl_house_id w) (rl_device_id w) SET = Inr (msg_topic m)" and "\<not> msg_retained m"
    and "relay_command R m = Inr c"
  shows "relay_handle R m w = (case alookup (ce_command_id c) (rl_seen (relay_forget (ra_clk R 0) w)) of
      Some (_, original, ack) \<Rightarrow>
        andthen (reject (\<not> same_command c original) ValueError)
          (relay_send R ACK (ack_document (ra_format R) ack)) (relay_forget (ra_clk R 0) w)
    | None \<Rightarrow> relay_execute R (ra_clk R 0) c (relay_forget (ra_clk R 0) w))"
  using assms
  by (simp add: relay_handle_def relay_topic_def bnd_assoc bnd_lift_apply andthen_reject_apply Let_def
      split: option.split prod.split)

text \<open>
  C27. The relay switches for fresh commands only: when handling a message changes the output, the
  message came live on the relay's own set topic, decodes to a command whose identifier is not
  remembered, its timestamp lies within five minutes before and thirty seconds after the relay's
  clock, its deadline, if it has one, is at most thirty seconds after the timestamp and not reached,
  and its state is the new output.
\<close>

theorem relay_switches_only_fresh:
  assumes "rl_on (snd (relay_handle R m w)) \<noteq> rl_on w"
  shows "\<exists>c. relay_command R m = Inr c \<and> msg_retained m = False \<and>
    build_topic (rl_house_id w) (rl_device_id w) SET = Inr (msg_topic m) \<and>
    alookup (ce_command_id c) (rl_seen (relay_forget (ra_clk R 0) w)) = None \<and>
    ra_clk R 0 - COMMAND_WINDOW \<le> instant (ce_timestamp c) \<and> instant (ce_timestamp c) \<le> ra_clk R 0 + 30000000 \<and>
    (case ce_expires_at c of None \<Rightarrow> True | Some e \<Rightarrow>
       ra_clk R 0 < instant e \<and> instant e - instant (ce_timestamp c) \<le> 30000000) \<and>
    oget ''on'' (ce_state c) = JBool (rl_on (snd (relay_handle R m w)))"
proof -
  let ?w = "relay_forget (ra_clk R 0) w"
  have on: "rl_on ?w = rl_on w" by (simp add: relay_forget_def)
  obtain own where own: "build_topic (rl_house_id w) (rl_device_id w) SET = Inr own"
    using assms by (cases "build_topic (rl_house_id w) (rl_device_id w) SET")
      (auto simp: relay_handle_def relay_topic_def bnd_def)
  have live: "msg_topic m = own" "\<not> msg_retained m"
    using assms own by (auto simp: relay_handle_def relay_topic_def bnd_assoc bnd_lift_apply andthen_reject_apply split: if_splits)
  obtain c where c: "relay_command R m = Inr c"
    using assms own live by (cases "relay_command R m")
      (auto simp: relay_handle_def relay_topic_def bnd_assoc bnd_lift_apply andthen_reject_apply)
  have run: "relay_handle R m w = (case alookup (ce_command_id c) (rl_seen ?w) of
      Some (_, original, ack) \<Rightarrow>
        andthen (reject (\<not> same_command c original) ValueError) (relay_send R ACK (ack_document (ra_format R) ack)) ?w
    | None \<Rightarrow> relay_execute R (ra_clk R 0) c ?w)"
    using own live c by (intro relay_handle_step) simp_all
  have new: "alookup (ce_command_id c) (rl_seen ?w) = None"
  proof (rule ccontr)
    assume "alookup (ce_command_id c) (rl_seen ?w) \<noteq> None"
    then have "rl_on (snd (relay_handle R m w)) = rl_on ?w"
      by (auto simp: run andthen_reject_apply relay_send_on split: prod.split if_splits)
    with assms on show False by simp
  qed
  have err: "relay_error (ra_clk R 0) c = None"
    and out: "rl_on (snd (relay_handle R m w)) = (oget ''on'' (ce_state c) = JBool True)"
    using relay_execute_on [of R "ra_clk R 0" c ?w] assms on new by (auto simp: run)
  note fresh = err [unfolded relay_error_None]
  have "oget ''on'' (ce_state c) = JBool (rl_on (snd (relay_handle R m w)))"
    unfolding out using fresh by (cases "oget ''on'' (ce_state c)") auto
  moreover have "case ce_expires_at c of None \<Rightarrow> True | Some e \<Rightarrow>
      ra_clk R 0 < instant e \<and> instant e - instant (ce_timestamp c) \<le> 30000000"
    using fresh by (simp split: option.split)
  ultimately show ?thesis
    using c own live new fresh by (intro exI [of _ c]) simp
qed

subsection \<open>Replays\<close>

lemma relay_handle_Inr:
  assumes "relay_handle R m w = (Inr u, out)"
  obtains c where "build_topic (rl_house_id w) (rl_device_id w) SET = Inr (msg_topic m)" "\<not> msg_retained m"
    "relay_command R m = Inr c"
proof -
  from assms obtain own c where "build_topic (rl_house_id w) (rl_device_id w) SET = Inr own"
    "msg_topic m = own" "\<not> msg_retained m" "relay_command R m = Inr c"
    by (cases "build_topic (rl_house_id w) (rl_device_id w) SET"; cases "relay_command R m")
      (auto simp: relay_handle_def relay_topic_def bnd_assoc bnd_lift_apply andthen_reject_apply split: if_splits)
  then show thesis by (intro that) auto
qed

text \<open>What an execution that returns has done: the acknowledgement is remembered and sent first.\<close>

lemma relay_execute_Inr:
  assumes "relay_execute R now c w = (Inr u, out)"
  shows "\<exists>topic rest. build_topic (rl_house_id w) (rl_device_id w) ACK = Inr topic \<and>
    rl_house_id out = rl_house_id w \<and> rl_device_id out = rl_device_id w \<and>
    rl_seen out = aput (ce_command_id c) (max now (instant (ce_timestamp c)) + COMMAND_WINDOW, c,
      relay_ack now c (relay_error now c)) (rl_seen w) \<and>
    rl_sent out = rl_sent w @ (topic, Document (ack_document (ra_format R) (relay_ack now c (relay_error now c))), 1, False) # rest"
  using assms
  by (auto simp: relay_execute_def Let_def andthen_Inr_iff relay_state_def relay_send_apply relay_publish_apply
      bnd_Inr_iff split: sum.splits if_splits)

lemma same_command_refl: "py_eq (JObj (ce_state c)) (JObj (ce_state c)) \<Longrightarrow> same_command c c"
  by (auto simp: same_command_def same_time_def simp del: py_eq.simps split: option.split)

lemma remembered:
  "alookup k xs = Some (until, x) \<Longrightarrow> n \<le> until \<Longrightarrow>
   alookup k (filter (\<lambda>(_, until, _). n \<le> until) xs) = Some (until, x :: command_envelope \<times> ack_envelope)"
  by (induction xs) (auto split: if_splits)

lemma relay_command_args [simp]: "relay_command (R\<lparr>ra_clk := k, ra_up := q\<rparr>) m = relay_command R m"
  by (simp add: relay_command_def cong: option.case_cong json.case_cong)

text \<open>
  A repeated command is answered, not executed again: once the relay has handled a command, the same
  message, delivered again while the command is remembered, sends the acknowledgement of the first
  time word for word and nothing else, and leaves the output as it is.
\<close>

theorem relay_replays_ack:
  assumes "relay_handle R m w = (Inr (), out)" and "relay_command R m = Inr c"
    and "alookup (ce_command_id c) (rl_seen (relay_forget (ra_clk R 0) w)) = None"
    and "py_eq (JObj (ce_state c)) (JObj (ce_state c))"
    and "clk 0 \<le> max (ra_clk R 0) (instant (ce_timestamp c)) + COMMAND_WINDOW" and "up (rl_attempts out)"
  shows "\<exists>topic ack again. build_topic (rl_house_id w) (rl_device_id w) ACK = Inr topic \<and>
    ae_command_id ack = ce_command_id c \<and>
    (topic, Document (ack_document (ra_format R) ack), 1, False) \<in> set (rl_sent out) \<and>
    relay_handle (R\<lparr>ra_clk := clk, ra_up := up\<rparr>) m out = (Inr (), again) \<and> rl_on again = rl_on out \<and>
    rl_sent again = rl_sent out @ [(topic, Document (ack_document (ra_format R) ack), 1, False)]"
proof -
  let ?w = "relay_forget (ra_clk R 0) w" and ?R = "R\<lparr>ra_clk := clk, ra_up := up\<rparr>"
  let ?ack = "relay_ack (ra_clk R 0) c (relay_error (ra_clk R 0) c)"
  from relay_handle_Inr [OF assms(1)] obtain c' where
    own: "build_topic (rl_house_id w) (rl_device_id w) SET = Inr (msg_topic m)" "\<not> msg_retained m" .
  from relay_handle_step [OF own assms(2)] assms(1,3)
  have "relay_execute R (ra_clk R 0) c ?w = (Inr (), out)" by simp
  from relay_execute_Inr [OF this] obtain topic rest where
    first: "build_topic (rl_house_id w) (rl_device_id w) ACK = Inr topic"
      "rl_house_id out = rl_house_id w" "rl_device_id out = rl_device_id w"
      "rl_seen out = aput (ce_command_id c) (max (ra_clk R 0) (instant (ce_timestamp c)) + COMMAND_WINDOW, c, ?ack) (rl_seen ?w)"
      "rl_sent out = rl_sent w @ (topic, Document (ack_document (ra_format R) ?ack), 1, False) # rest"
    by (auto simp: relay_forget_def)
  let ?again = "(relay_forget (clk 0) out)\<lparr>rl_attempts := Suc (rl_attempts out),
      rl_sent := rl_sent out @ [(topic, Document (ack_document (ra_format R) ?ack), 1, False)]\<rparr>"
  have "alookup (ce_command_id c) (rl_seen out) =
      Some (max (ra_clk R 0) (instant (ce_timestamp c)) + COMMAND_WINDOW, c, ?ack)"
    by (simp add: first(4) alookup_aput)
  from remembered [OF this assms(5)] have seen: "alookup (ce_command_id c) (rl_seen (relay_forget (clk 0) out)) =
      Some (max (ra_clk R 0) (instant (ce_timestamp c)) + COMMAND_WINDOW, c, ?ack)"
    by (simp add: relay_forget_def)
  have "relay_handle ?R m out = andthen (reject (\<not> same_command c c) ValueError)
      (relay_send ?R ACK (ack_document (ra_format R) ?ack)) (relay_forget (clk 0) out)"
    using relay_handle_step [of out m ?R c] own assms(2) first(2,3) seen by simp
  also have "\<dots> = (Inr (), ?again)"
    using same_command_refl [OF assms(4)] first(1-3) assms(6)
    by (simp add: andthen_reject_apply relay_send_apply relay_publish_apply relay_forget_def)
  finally have "relay_handle ?R m out = (Inr (), ?again)" .
  moreover have "rl_on ?again = rl_on out" by (simp add: relay_forget_def)
  moreover have "ae_command_id ?ack = ce_command_id c" by (simp add: relay_ack_def)
  ultimately show ?thesis
    using first(1,5) by (intro exI [of _ topic] exI [of _ ?ack] exI [of _ ?again]) simp
qed

subsection \<open>From the gateway to the relay and back\<close>

text \<open>The texts of the four times of an exchange are read back as the times they were written for.\<close>

definition readable_time :: "relay_args \<Rightarrow> wall_time \<Rightarrow> bool" where
  "readable_time R t \<longleftrightarrow> lax_datetime (ra_lenient R) (JStr (ra_format R t)) = Some t \<and> length (ra_format R t) \<le> 1024"

lemma relay_reads_command:
  assumes "command_envelope_ok c" and "ce_state c = [(''on'', JBool b)]" and "ce_expires_at c = Some e"
    and "readable_time R (ce_timestamp c)" and "readable_time R e" and "utcoffset (ce_timestamp c) \<noteq> None"
    and "byte_length (ce_command_id c) \<le> 128" and "byte_length (ce_correlation_id c) \<le> 128"
    and "msg_document m = Some (JObj (command_document (ra_format R) c))" and "msg_size m \<le> MAX_CONTROL_PAYLOAD"
  shows "relay_command R m = Inr c"
proof -
  let ?d = "command_document (ra_format R) c"
  have "loads (JObj ?d) = JObj ?d"
    using assms(2,3) by (simp add: command_document_def omerge_def opt_json_def)
  moreover have "validate_json_bounds (JObj ?d) = Inr ()"
    using assms by (simp add: validate_json_bounds_iff command_document_def opt_json_def readable_time_def
        MAX_JSON_DEPTH_def PROTOCOL_VERSION_def byte_length_def)
  moreover have "command_envelope_of (ra_lenient R) ?d = Inr c"
    using assms(1-5)
    by (simp add: command_envelope_of_def command_document_def protocol_envelope_def optional_def
        required_def defaulted_def one_of_def text_between_def dict_between_def command_envelope_ok_def opt_json_def
        readable_time_def)
  ultimately show ?thesis
    using assms(6-10) by (simp add: relay_command_def)
qed

lemma relay_execute_applied:
  assumes "length (rl_seen w) < 4096" and "relay_error now c = None" and "ce_state c = [(''on'', JBool b)]"
    and "build_topic (rl_house_id w) (rl_device_id w) ACK = Inr ta" and "build_topic (rl_house_id w) (rl_device_id w) STATE = Inr ts"
    and "ra_up R (rl_attempts w)" and "ra_up R (Suc (rl_attempts w))"
  shows "\<exists>out. relay_execute R now c w = (Inr (), out) \<and> rl_on out = b \<and>
    rl_sent out = rl_sent w @ [(ta, Document (ack_document (ra_format R) (relay_ack now c None)), 1, False),
      (ts, Document (state_document (ra_format R) \<lparr>se_timestamp = utc_time (ra_clk R 1),
        se_correlation_id = ce_correlation_id c, se_state = [(''on'', JBool b)]\<rparr>), 1, True)]"
  using assms
  by (simp add: relay_execute_def Let_def andthen_reject_apply andthen_def bnd_def relay_state_def relay_send_apply
      relay_publish_apply oget_def)

text \<open>
  The loop closes: a switch command in the shape in which the gateway publishes it, delivered live to
  its relay within its lifetime, is executed; the relay sends an acknowledgement and then a retained
  report, and the decoders of the core read them as \<open>applied\<close> for that command and as the requested
  value under the same correlation identifier.
\<close>

theorem relay_answers_gateway:
  assumes "command_envelope_ok c" and "ce_state c = [(''on'', JBool b)]"
    and "byte_length (ce_command_id c) \<le> 128" and "byte_length (ce_correlation_id c) \<le> 128"
    and "original_deadline (Some (ce_timestamp c)) (ce_expires_at c)" and "ce_expires_at c = Some e"
    and "instant (ce_timestamp c) \<le> ra_clk R 0" and "ra_clk R 0 < instant e"
    and "build_topic (rl_house_id w) (rl_device_id w) SET = Inr (msg_topic m)" and "\<not> msg_retained m"
    and "msg_document m = Some (JObj (command_document (ra_format R) c))" and "msg_size m \<le> MAX_CONTROL_PAYLOAD"
    and "alookup (ce_command_id c) (rl_seen (relay_forget (ra_clk R 0) w)) = None"
    and "length (rl_seen (relay_forget (ra_clk R 0) w)) < 4096"
    and "ra_up R (rl_attempts w)" and "ra_up R (Suc (rl_attempts w))"
    and "list_all (readable_time R) [ce_timestamp c, e, utc_time (ra_clk R 0), utc_time (ra_clk R 1)]"
  shows "\<exists>out ack_topic state_topic ack_sent state_sent ack report.
    relay_handle R m w = (Inr (), out) \<and> rl_on out = b \<and>
    rl_sent out = rl_sent w @ [(ack_topic, Document ack_sent, 1, False), (state_topic, Document state_sent, 1, True)] \<and>
    build_topic (rl_house_id w) (rl_device_id w) ACK = Inr ack_topic \<and>
    build_topic (rl_house_id w) (rl_device_id w) STATE = Inr state_topic \<and>
    ack_envelope_of (ra_lenient R) ack_sent = Inr ack \<and> ae_command_id ack = ce_command_id c \<and>
    ae_status ack = Ack_applied \<and>
    state_envelope_of (ra_lenient R) state_sent = Inr report \<and> se_state report = [(''on'', JBool b)] \<and>
    se_correlation_id report = ce_correlation_id c"
proof -
  let ?w = "relay_forget (ra_clk R 0) w"
  obtain ta ts where topics: "build_topic (rl_house_id ?w) (rl_device_id ?w) ACK = Inr ta"
    "build_topic (rl_house_id ?w) (rl_device_id ?w) STATE = Inr ts"
    using assms(9) by (auto simp: build_topic_Inr relay_forget_def)
  have c: "relay_command R m = Inr c"
    using assms(1-6,11,12,17) by (intro relay_reads_command) (auto simp: original_deadline_def)
  have "relay_error (ra_clk R 0) c = None"
    using assms(2,5-8)
    by (auto simp: relay_error_None original_deadline_def COMMAND_LIFETIME_def COMMAND_WINDOW_def oget_def)
  from relay_execute_applied [OF assms(14) this assms(2) topics] assms(15,16)
  obtain out where out: "relay_execute R (ra_clk R 0) c ?w = (Inr (), out)" "rl_on out = b"
    "rl_sent out = rl_sent w @ [(ta, Document (ack_document (ra_format R) (relay_ack (ra_clk R 0) c None)), 1, False),
      (ts, Document (state_document (ra_format R) \<lparr>se_timestamp = utc_time (ra_clk R 1),
        se_correlation_id = ce_correlation_id c, se_state = [(''on'', JBool b)]\<rparr>), 1, True)]"
    by (auto simp: relay_forget_def)
  have "ack_envelope_of (ra_lenient R) (ack_document (ra_format R) (relay_ack (ra_clk R 0) c None)) =
      Inr (relay_ack (ra_clk R 0) c None)"
    using assms(1,17)
    by (simp add: ack_envelope_of_def ack_document_def relay_ack_def protocol_envelope_def optional_def required_def
        defaulted_def one_of_def text_between_def opt_json_def readable_time_def command_envelope_ok_def
        ack_values_def ack_value_def)
  moreover have "state_envelope_of (ra_lenient R) (state_document (ra_format R) \<lparr>se_timestamp = utc_time (ra_clk R 1),
        se_correlation_id = ce_correlation_id c, se_state = [(''on'', JBool b)]\<rparr>) =
      Inr \<lparr>se_timestamp = utc_time (ra_clk R 1), se_correlation_id = ce_correlation_id c, se_state = [(''on'', JBool b)]\<rparr>"
    using assms(1,17)
    by (simp add: state_envelope_of_def state_document_def protocol_envelope_def required_def defaulted_def one_of_def
        text_between_def dict_between_def readable_time_def command_envelope_ok_def bounded_def MAX_STATE_FIELDS_def)
  ultimately show ?thesis
    using out topics relay_handle_step [OF assms(9,10) c] assms(13)
    by (auto simp: relay_forget_def relay_ack_def)
qed

text \<open>The witnesses: a relay, one switch command and the texts of its times.\<close>

definition ex_relay_args :: relay_args where
  "ex_relay_args =
     \<lparr>ra_lenient = \<lparr>lax_datetime = (\<lambda>v. if v = JStr ''a'' then Some (utc_time 0) else if v = JStr ''b'' then Some (utc_time 30000000)
         else if v = JStr ''c'' then Some (utc_time 1000) else None), lax_int = (\<lambda>_. None)\<rparr>,
      ra_format = (\<lambda>t. if instant t = 0 then ''a'' else if instant t = 30000000 then ''b'' else ''c''),
      ra_clk = (\<lambda>_. 1000), ra_up = (\<lambda>_. True)\<rparr>"

definition ex_plug :: relay where
  "ex_plug = \<lparr>rl_house_id = ''h1'', rl_device_id = ''d1'', rl_on = False, rl_seen = [], rl_attempts = 0, rl_sent = []\<rparr>"

definition ex_switch :: command_envelope where
  "ex_switch = \<lparr>ce_command_id = ''c1'', ce_correlation_id = ''k1'', ce_timestamp = utc_time 0,
     ce_expires_at = Some (utc_time 30000000), ce_state = [(''on'', JBool True)]\<rparr>"

definition ex_switch_message :: mqtt_message where
  "ex_switch_message = \<lparr>msg_topic = ''kzhome/v1/h1/d1/set'', msg_size = 200,
     msg_document = Some (JObj (command_document (ra_format ex_relay_args) ex_switch)), msg_retained = False\<rparr>"

lemma ex_switched: "fst (relay_handle ex_relay_args ex_switch_message ex_plug) = Inr ()"
  "rl_on (snd (relay_handle ex_relay_args ex_switch_message ex_plug))"
  "relay_command ex_relay_args ex_switch_message = Inr ex_switch"
  by code_simp+

theorem relay_switches_only_fresh_witness:
  "\<exists>c. relay_command ex_relay_args ex_switch_message = Inr c \<and> oget ''on'' (ce_state c) = JBool True"
proof -
  have "rl_on (snd (relay_handle ex_relay_args ex_switch_message ex_plug)) \<noteq> rl_on ex_plug"
    using ex_switched(2) by (simp add: ex_plug_def)
  from relay_switches_only_fresh [OF this] ex_switched(2) show ?thesis by auto
qed

theorem relay_replays_ack_witness:
  "\<exists>again. relay_handle (ex_relay_args\<lparr>ra_clk := \<lambda>_. 2000, ra_up := \<lambda>_. True\<rparr>) ex_switch_message
      (snd (relay_handle ex_relay_args ex_switch_message ex_plug)) = (Inr (), again) \<and> rl_on again"
proof -
  have "relay_handle ex_relay_args ex_switch_message ex_plug =
      (Inr (), snd (relay_handle ex_relay_args ex_switch_message ex_plug))"
    using ex_switched(1) by (metis prod.collapse)
  from relay_replays_ack [OF this ex_switched(3), of "\<lambda>_. 2000" "\<lambda>_. True"] ex_switched(2)
  show ?thesis
    by (auto simp: ex_plug_def relay_forget_def ex_switch_def ex_relay_args_def COMMAND_WINDOW_def utc_time_def)
qed

theorem relay_answers_gateway_witness:
  "\<exists>out. relay_handle ex_relay_args ex_switch_message ex_plug = (Inr (), out) \<and> rl_on out \<and> length (rl_sent out) = 2"
proof -
  have "command_envelope_ok ex_switch" "original_deadline (Some (ce_timestamp ex_switch)) (ce_expires_at ex_switch)"
    "build_topic (rl_house_id ex_plug) (rl_device_id ex_plug) SET = Inr (msg_topic ex_switch_message)"
    by code_simp+
  moreover have "list_all (readable_time ex_relay_args) [ce_timestamp ex_switch, utc_time 30000000,
      utc_time (ra_clk ex_relay_args 0), utc_time (ra_clk ex_relay_args 1)]"
    by code_simp
  ultimately show ?thesis
    using relay_answers_gateway [of ex_switch True "utc_time 30000000" ex_relay_args ex_plug ex_switch_message]
    by (auto simp: ex_switch_def ex_plug_def ex_switch_message_def ex_relay_args_def relay_forget_def utc_time_def
        byte_length_def MAX_CONTROL_PAYLOAD_def)
qed

end
