(* ===== verification/Bootstrap.thy ===== *)
theory Bootstrap
  imports Settings Auth Automations "HOL-Library.Sublist"
begin

text \<open>
  The operator commands that fill a database: \<open>app/bootstrap_e2e.py\<close>, which creates one account
  with its house in a single transaction, and \<open>app/seed.py\<close> with the data of \<open>app/demo_data.py\<close>,
  which adds what is missing. They run the repositories and services of the application.
\<close>

subsection \<open>One transaction around a session\<close>

text \<open>
  \<open>with engine.begin()\<close> around a session in mode \<open>rollback_only\<close>: the commits of the repositories
  stay inside the transaction, which an exception rolls back as a whole.
\<close>

definition in_transaction :: "('z world_scheme, 'a) op \<Rightarrow> ('z world_scheme, 'a) op" where
  "in_transaction body = (\<lambda>w. case in_session body w of
       (Inl e, v) \<Rightarrow> (Inl e, v\<lparr>committed := committed w, work := committed w\<rparr>)
     | (Inr x, v) \<Rightarrow> (Inr x, v))"

subsection \<open>The account and its house\<close>

text \<open>\<open>BootstrapError\<close> is a \<open>ValueError\<close>.\<close>

definition ensure_user :: "crypto \<Rightarrow> (nat \<Rightarrow> string) \<Rightarrow> string \<Rightarrow> string \<Rightarrow> ('z world_scheme, user_row) op" where
  "ensure_user K fresh email password =
     bnd (user_by_email email) (\<lambda>known.
     case known of
       Some u \<Rightarrow>
         andthen (reject (\<not> u_is_active u \<or> u_is_superuser u \<or>
           \<not> password_verify (cy_verify K) (u_password_hash u) password) ValueError)
         (ret u)
     | None \<Rightarrow> user_create K fresh email password True False)"

definition ensure_house :: "(nat \<Rightarrow> string) \<Rightarrow> user_row \<Rightarrow> ('z world_scheme, unit) op" where
  "ensure_house fresh user =
     bnd (repo_exists house_repo ''e2e_house'') (\<lambda>known.
     if known then
       bnd (membership_for_house (u_id user) ''e2e_house'') (\<lambda>member.
       reject (case member of None \<Rightarrow> True | Some m \<Rightarrow> m_role m \<noteq> Owner) ValueError)
     else void (create_with_owner fresh \<lparr>h_id = ''e2e_house'', h_name = ''E2E acceptance''\<rparr> (u_id user)))"

definition ensure_floor :: "('z world_scheme, unit) op" where
  "ensure_floor =
     bnd (repo_exists floor_repo ''e2e_floor'') (\<lambda>known.
     if known then
       bnd (repo_get floor_repo ''e2e_floor'') (\<lambda>f. reject (f_house_id f \<noteq> ''e2e_house'') ValueError)
     else void (repo_create floor_repo
       \<lparr>f_id = ''e2e_floor'', f_house_id = ''e2e_house'', f_name = ''E2E floor'', f_order = 0\<rparr>))"

definition ensure_room :: "('z world_scheme, unit) op" where
  "ensure_room =
     bnd (repo_exists room_repo ''e2e_room'') (\<lambda>known.
     if known then
       bnd (repo_get room_repo ''e2e_room'') (\<lambda>r. reject (r_floor_id r \<noteq> ''e2e_floor'') ValueError)
     else void (repo_create room_repo
       \<lparr>r_id = ''e2e_room'', r_floor_id = ''e2e_floor'', r_name = ''E2E room'', r_icon = None\<rparr>))"

definition e2e_relay :: device_create where
  "e2e_relay = \<lparr>dc_id = ''e2e_relay'', dc_name = ''E2E relay'', dc_room_id = ''e2e_room'', dc_type = ''relay'',
     dc_state = [], dc_online = False, dc_capabilities = [''on_off''], dc_metadata = []\<rparr>"

definition ensure_device :: "('z world_scheme, unit) op" where
  "ensure_device =
     bnd (repo_exists device_repo ''e2e_relay'') (\<lambda>known.
     if known then
       bnd (repo_get device_repo ''e2e_relay'') (\<lambda>x.
       reject (d_room_id x \<noteq> ''e2e_room'' \<or> d_type x \<noteq> ''relay'' \<or> d_capabilities x \<noteq> [''on_off'']) ValueError)
     else void (create_device e2e_relay))"

definition ensure_all :: "crypto \<Rightarrow> (nat \<Rightarrow> string) \<Rightarrow> string \<Rightarrow> string \<Rightarrow> ('z world_scheme, unit) op" where
  "ensure_all K fresh email password =
     bnd (ensure_user K fresh email password) (\<lambda>user.
     andthen (ensure_house fresh user)
     (andthen ensure_floor
     (andthen ensure_room
     ensure_device)))"

definition bootstrap :: "crypto \<Rightarrow> (nat \<Rightarrow> string) \<Rightarrow> string \<Rightarrow> string \<Rightarrow> ('z world_scheme, unit) op" where
  "bootstrap K fresh email password =
     andthen (reject (\<not> (MIN_LENGTH \<le> py_length password \<and> py_length password \<le> MAX_LENGTH)) ValueError)
     (bnd (lift (check_login (lower (strip email)) password)) (\<lambda>(checked, _).
     in_transaction (ensure_all K fresh checked password)))"

subsection \<open>Demo data\<close>

text \<open>The UTF-8 bytes of a text given by its code points (below 2048).\<close>

definition utf8 :: "nat list \<Rightarrow> string" where
  "utf8 points = concat (map (\<lambda>n. if n < 128 then [char_of n] else [char_of (192 + n div 64), char_of (128 + n mod 64)]) points)"

definition demo_houses :: "house_row list" where
  "demo_houses = [\<lparr>h_id = ''home1'', h_name = ''KZ Home''\<rparr>]"

definition demo_floors :: "floor_row list" where
  "demo_floors =
     [\<lparr>f_id = ''floor1'', f_house_id = ''home1'',
       f_name = utf8 [1055, 1077, 1088, 1074, 1099, 1081, 32, 1101, 1090, 1072, 1078], f_order = 1\<rparr>,
      \<lparr>f_id = ''floor2'', f_house_id = ''home1'',
       f_name = utf8 [1042, 1090, 1086, 1088, 1086, 1081, 32, 1101, 1090, 1072, 1078], f_order = 2\<rparr>]"

definition demo_rooms :: "room_row list" where
  "demo_rooms =
     [\<lparr>r_id = ''living_room'', r_floor_id = ''floor1'',
       r_name = utf8 [1043, 1086, 1089, 1090, 1080, 1085, 1072, 1103], r_icon = Some ''sofa''\<rparr>,
      \<lparr>r_id = ''hall'', r_floor_id = ''floor1'',
       r_name = utf8 [1050, 1086, 1088, 1080, 1076, 1086, 1088], r_icon = Some ''door''\<rparr>,
      \<lparr>r_id = ''bathroom'', r_floor_id = ''floor1'',
       r_name = utf8 [1042, 1072, 1085, 1085, 1072, 1103], r_icon = Some ''bath''\<rparr>,
      \<lparr>r_id = ''bedroom'', r_floor_id = ''floor2'',
       r_name = utf8 [1057, 1087, 1072, 1083, 1100, 1085, 1103], r_icon = Some ''bed''\<rparr>]"

definition demo_device :: "string \<Rightarrow> nat list \<Rightarrow> string \<Rightarrow> string \<Rightarrow> obj \<Rightarrow> string list \<Rightarrow> device_row" where
  "demo_device device_id name room_id kind state capabilities =
     \<lparr>d_id = device_id, d_name = utf8 name, d_room_id = room_id, d_type = kind, d_state = state,
      d_capabilities = capabilities, d_metadata = [(''protocol'', JStr ''virtual'')], d_online = True\<rparr>"

definition demo_devices :: "device_row list" where
  "demo_devices =
     [demo_device ''living_room_light'' [1057, 1074, 1077, 1090, 32, 1074, 32, 1075, 1086, 1089, 1090, 1080, 1085, 1086, 1081]
        ''living_room'' ''light'' [(''on'', JBool False), (''brightness'', JInt 70)] [''on_off'', ''brightness''],
      demo_device ''hall_motion'' [1044, 1074, 1080, 1078, 1077, 1085, 1080, 1077, 32, 1074, 32, 1082, 1086, 1088, 1080, 1076, 1086, 1088, 1077]
        ''hall'' ''motion_sensor'' [(''motion'', JBool False)] [''motion''],
      demo_device ''bedroom_temperature'' [1058, 1077, 1084, 1087, 1077, 1088, 1072, 1090, 1091, 1088, 1072, 32, 1074, 32, 1089, 1087, 1072, 1083, 1100, 1085, 1077]
        ''bedroom'' ''temperature_sensor'' [(''temperature'', JFloat (Fin (45 / 2)))] [''temperature''],
      demo_device ''living_room_curtain'' [1064, 1090, 1086, 1088, 1099, 32, 1074, 32, 1075, 1086, 1089, 1090, 1080, 1085, 1086, 1081]
        ''living_room'' ''curtain'' [(''position'', JInt 100)] [''open_close'', ''position''],
      demo_device ''main_leak_sensor'' [1044, 1072, 1090, 1095, 1080, 1082, 32, 1087, 1088, 1086, 1090, 1077, 1095, 1082, 1080]
        ''bathroom'' ''leak_sensor'' [(''leak'', JBool False)] [''leak'']]"

definition demo_actions :: "device_action list" where
  "demo_actions =
     [\<lparr>act_device_id = ''living_room_light'', act_state = [(''on'', JBool False)]\<rparr>,
      \<lparr>act_device_id = ''living_room_curtain'', act_state = [(''position'', JInt 0)]\<rparr>]"

definition demo_scenes :: "scene_row list" where
  "demo_scenes =
     [\<lparr>s_id = ''leave_home'', s_name = utf8 [1059, 1096, 1105, 1083, 32, 1080, 1079, 32, 1076, 1086, 1084, 1072],
       s_house_id = ''home1'', s_actions = demo_actions\<rparr>,
      \<lparr>s_id = ''good_night'', s_name = utf8 [1057, 1087, 1086, 1082, 1086, 1081, 1085, 1086, 1081, 32, 1085, 1086, 1095, 1080],
       s_house_id = ''home1'', s_actions = demo_actions\<rparr>]"

definition demo_automations :: "automation_row list" where
  "demo_automations =
     [\<lparr>a_id = ''hall_motion_light'',
       a_name = utf8 [1057, 1074, 1077, 1090, 32, 1074, 32, 1082, 1086, 1088, 1080, 1076, 1086, 1088, 1077, 32, 1087, 1086, 32,
         1076, 1074, 1080, 1078, 1077, 1085, 1080, 1102],
       a_house_id = ''home1'', a_enabled = True,
       a_trigger = \<lparr>tr_device_id = ''hall_motion'', tr_field = ''motion'', tr_operator = ''eq'', tr_value = JBool True\<rparr>,
       a_conditions = [],
       a_actions = [DeviceAction \<lparr>act_device_id = ''living_room_light'', act_state = [(''on'', JBool True)]\<rparr>]\<rparr>]"

definition add_missing :: "'r repo \<Rightarrow> 'r list \<Rightarrow> ('z world_scheme, unit) op" where
  "add_missing R items =
     for_each (\<lambda>item.
       bnd (repo_exists R (repo_key R item)) (\<lambda>known.
       if known then ret () else void (repo_create R item))) items"

definition add_demo_user ::
  "crypto \<Rightarrow> (nat \<Rightarrow> string) \<Rightarrow> string option \<Rightarrow> string option \<Rightarrow> ('z world_scheme, unit) op" where
  "add_demo_user K fresh demo_email demo_password =
     (if given demo_email \<and> given demo_password then
        bnd (user_by_email (dflt [] demo_email)) (\<lambda>known.
        if known \<noteq> None then ret ()
        else void (user_create K fresh (dflt [] demo_email) (dflt [] demo_password) True False))
      else ret ())"

definition seed ::
  "crypto \<Rightarrow> (nat \<Rightarrow> string) \<Rightarrow> settings \<Rightarrow> string option \<Rightarrow> string option \<Rightarrow> ('z world_scheme, unit) op" where
  "seed K fresh s demo_email demo_password =
     andthen (reject (production s) RuntimeError)
     (in_session
       (andthen (add_missing house_repo demo_houses)
       (andthen (add_missing floor_repo demo_floors)
       (andthen (add_missing room_repo demo_rooms)
       (andthen (add_missing device_repo demo_devices)
       (andthen (add_missing scene_repo demo_scenes)
       (andthen (add_missing automation_repo demo_automations)
       (add_demo_user K fresh demo_email demo_password))))))))"

subsection \<open>Databases that only grow\<close>

text \<open>Rows are added at the end of the tables these commands write; every other table is as it was.\<close>

definition grows :: "db \<Rightarrow> db \<Rightarrow> bool" where
  "grows d d' \<longleftrightarrow>
     prefix (houses d) (houses d') \<and> prefix (users d) (users d') \<and> prefix (memberships d) (memberships d') \<and>
     prefix (floors d) (floors d') \<and> prefix (rooms d) (rooms d') \<and> prefix (devices d) (devices d') \<and>
     prefix (scenes d) (scenes d') \<and> prefix (automations d) (automations d') \<and>
     refresh_sessions d' = refresh_sessions d \<and> event_logs d' = event_logs d \<and>
     physical_devices d' = physical_devices d \<and> provisioning_sessions d' = provisioning_sessions d \<and>
     device_commands d' = device_commands d \<and> command_control d' = command_control d"

lemma grows_refl [simp]: "grows d d"
  by (simp add: grows_def)

lemma grows_trans: "grows d d' \<Longrightarrow> grows d' d'' \<Longrightarrow> grows d d''"
  unfolding grows_def by (metis prefix_order.trans)

lemma tget_prefix: "prefix t t' \<Longrightarrow> tget key k t = Some r \<Longrightarrow> tget key k t' = Some r"
  by (auto simp: prefix_def tget_append)

lemma tfind_prefix: "prefix t t' \<Longrightarrow> tfind p t = Some r \<Longrightarrow> tfind p t' = Some r"
  by (auto simp: prefix_def tfind_def find_append)

lemma grows_appends:
  "grows d (houses_update (\<lambda>t. t @ hs) d)" "grows d (users_update (\<lambda>t. t @ us) d)"
  "grows d (memberships_update (\<lambda>t. t @ ms) (houses_update (\<lambda>t. t @ hs) d))"
  "grows d (floors_update (\<lambda>t. t @ fs) d)" "grows d (rooms_update (\<lambda>t. t @ rs) d)"
  "grows d (devices_update (\<lambda>t. t @ ds) d)" "grows d (scenes_update (\<lambda>t. t @ ss) d)"
  "grows d (automations_update (\<lambda>t. t @ rules) d)"
  by (simp_all add: grows_def)

text \<open>A session without uncommitted rows, and the step of such a session to the next one.\<close>

definition synced :: "'z world_scheme \<Rightarrow> bool" where
  "synced w \<longleftrightarrow> work w = committed w"

definition advances :: "'z world_scheme \<Rightarrow> (db \<Rightarrow> bool) \<Rightarrow> 'z world_scheme \<Rightarrow> bool" where
  "advances w P v \<longleftrightarrow> synced v \<and> grows (work w) (work v) \<and> P (work v)"

text \<open>What each step establishes, and keeps while the database grows.\<close>

definition has_user :: "crypto \<Rightarrow> string \<Rightarrow> string \<Rightarrow> user_row \<Rightarrow> db \<Rightarrow> bool" where
  "has_user K email password u d \<longleftrightarrow> tfind (\<lambda>x. u_email x = lower (strip email)) (users d) = Some u \<and>
     u_is_active u \<and> \<not> u_is_superuser u \<and> password_verify (cy_verify K) (u_password_hash u) password"

definition owns_house :: "user_row \<Rightarrow> db \<Rightarrow> bool" where
  "owns_house u d \<longleftrightarrow> tget h_id ''e2e_house'' (houses d) \<noteq> None \<and>
     (\<exists>m. membership_in d (u_id u) ''e2e_house'' = Some m \<and> m_role m = Owner)"

definition has_floor :: "db \<Rightarrow> bool" where
  "has_floor d \<longleftrightarrow> (\<exists>f. tget f_id ''e2e_floor'' (floors d) = Some f \<and> f_house_id f = ''e2e_house'')"

definition has_room :: "db \<Rightarrow> bool" where
  "has_room d \<longleftrightarrow> (\<exists>r. tget r_id ''e2e_room'' (rooms d) = Some r \<and> r_floor_id r = ''e2e_floor'')"

definition has_relay :: "db \<Rightarrow> bool" where
  "has_relay d \<longleftrightarrow> (\<exists>x. tget d_id ''e2e_relay'' (devices d) = Some x \<and> d_room_id x = ''e2e_room'' \<and>
     d_type x = ''relay'' \<and> d_capabilities x = [''on_off''])"

lemma grows_keeps:
  assumes "grows d d'"
  shows "has_user K email password u d \<Longrightarrow> has_user K email password u d'"
    and "owns_house u d \<Longrightarrow> owns_house u d'" and "has_floor d \<Longrightarrow> has_floor d'"
    and "has_room d \<Longrightarrow> has_room d'" and "has_relay d \<Longrightarrow> has_relay d'"
  using assms
  by (auto simp: grows_def has_user_def owns_house_def has_floor_def has_room_def has_relay_def membership_in_def
      intro: tget_prefix tfind_prefix)

lemma ensure_floor_wp: "synced w \<Longrightarrow> wp ensure_floor (\<lambda>_. advances w has_floor) (\<lambda>_ _. True) w"
  by (auto simp: ensure_floor_def void_def repo_exists_def repo_get_def repo_find_def found_def wp_structure repo_defs
      advances_def synced_def has_floor_def tget_append tget_Cons grows_appends split: option.split cong: option.case_cong)

lemma ensure_room_wp: "synced w \<Longrightarrow> wp ensure_room (\<lambda>_. advances w has_room) (\<lambda>_ _. True) w"
  by (auto simp: ensure_room_def void_def repo_exists_def repo_get_def repo_find_def found_def wp_structure repo_defs
      advances_def synced_def has_room_def tget_append tget_Cons grows_appends split: option.split cong: option.case_cong)

lemma ensure_device_wp: "synced w \<Longrightarrow> wp ensure_device (\<lambda>_. advances w has_relay) (\<lambda>_ _. True) w"
  by (auto simp: ensure_device_def create_device_def e2e_relay_def by_device_def validate_room_def void_def
      repo_exists_def repo_get_def repo_find_def found_def wp_structure repo_defs
      advances_def synced_def has_relay_def tget_append tget_Cons grows_appends split: option.split sum.split cong: option.case_cong)

lemma password_hash_Inr: "password_hash hasher password = Inr h \<longleftrightarrow>
    MIN_LENGTH \<le> py_length password \<and> py_length password \<le> MAX_LENGTH \<and> h = hasher password"
  by (auto simp: password_hash_def)

lemma ensure_user_wp:
  assumes "cy_verify K (cy_hash K password) password = Some True" and "synced w"
  shows "wp (ensure_user K fresh email password) (\<lambda>u. advances w (has_user K email password u)) (\<lambda>_ _. True) w"
  using assms
  by (auto simp: ensure_user_def user_create_def user_by_email_def wp_structure repo_defs advances_def synced_def
      has_user_def grows_appends password_hash_Inr password_verify_def tfind_def find_append
      split: option.split sum.split cong: option.case_cong)

lemma new_membership:
  assumes "unique (\<lambda>m. (m_user_id m, m_house_id m)) (memberships d)" and "m \<in> set (memberships d)"
  shows "membership_in d (m_user_id m) (m_house_id m) = Some m"
  using unique_tget [OF assms] by (simp add: membership_in_def tfind_def tget_def)

lemma owns_new_house:
  fixes d :: db and i n :: string and u :: user_row
  defines "d' \<equiv> memberships_update (\<lambda>t. t @ [\<lparr>m_id = i, m_user_id = u_id u, m_house_id = ''e2e_house'', m_role = Owner\<rparr>])
      (houses_update (\<lambda>t. t @ [\<lparr>h_id = ''e2e_house'', h_name = n\<rparr>]) d)"
  assumes "db_ok d'" and "tget h_id ''e2e_house'' (houses d) = None"
  shows "owns_house u d'"
proof -
  let ?m = "\<lparr>m_id = i, m_user_id = u_id u, m_house_id = ''e2e_house'', m_role = Owner\<rparr>"
  have "membership_in d' (m_user_id ?m) (m_house_id ?m) = Some ?m"
    using assms(2) by (intro new_membership) (auto simp: db_ok_def accounts_ok_def d'_def)
  with assms(3) show ?thesis by (simp add: owns_house_def d'_def tget_append tget_Cons)
qed

lemma ensure_house_wp: "synced w \<Longrightarrow> wp (ensure_house fresh u) (\<lambda>_. advances w (owns_house u)) (\<lambda>_ _. True) w"
  by (auto simp: ensure_house_def create_with_owner_def membership_for_house_def void_def repo_exists_def repo_find_def
      wp_structure house_repo_def advances_def synced_def grows_appends owns_new_house
      split: option.split cong: option.case_cong)
    (auto simp: owns_house_def split: option.splits)

text \<open>The whole body: what it establishes, and that it does nothing where that already holds.\<close>

definition e2e_ready :: "crypto \<Rightarrow> string \<Rightarrow> string \<Rightarrow> db \<Rightarrow> bool" where
  "e2e_ready K email password d \<longleftrightarrow>
     (\<exists>u. has_user K email password u d \<and> owns_house u d) \<and> has_floor d \<and> has_room d \<and> has_relay d"

lemma ensure_all_wp:
  assumes "cy_verify K (cy_hash K password) password = Some True" and "synced w"
  shows "wp (ensure_all K fresh email password) (\<lambda>_. advances w (e2e_ready K email password)) (\<lambda>_ _. True) w"
proof -
  have floor: "wp (andthen ensure_floor (andthen ensure_room ensure_device))
      (\<lambda>_. advances v (\<lambda>d. has_floor d \<and> has_room d \<and> has_relay d)) (\<lambda>_ _. True) v" if "synced v" for v :: "'a world_scheme"
    unfolding wp_andthen using that
    by (auto intro!: wp_mono [OF ensure_floor_wp] wp_mono [OF ensure_room_wp] wp_mono [OF ensure_device_wp]
        simp: advances_def) (meson grows_trans grows_keeps)+
  show ?thesis
    unfolding ensure_all_def wp_bnd wp_andthen [of "ensure_house _ _"] using assms
    by (auto intro!: wp_mono [OF ensure_user_wp] wp_mono [OF ensure_house_wp] wp_mono [OF floor]
        simp: advances_def e2e_ready_def) (meson grows_trans grows_keeps)+
qed

lemma ensure_all_ready:
  assumes "e2e_ready K email password (work w)"
  shows "ensure_all K fresh email password w = (Inr (), w)"
  using assms
  by (auto simp: e2e_ready_def has_user_def owns_house_def has_floor_def has_room_def has_relay_def ensure_all_def
      ensure_user_def ensure_house_def ensure_floor_def ensure_room_def ensure_device_def user_by_email_def
      membership_for_house_def repo_exists_def repo_get_def repo_find_def query_def found_def repo_defs bnd_assoc
      andthen_reject_apply bnd_def andthen_def)

lemma in_transaction_wp:
  assumes "wp body (\<lambda>x v. synced v \<and> Q x (work v)) (\<lambda>_ _. True) (w\<lparr>work := committed w\<rparr>)"
  shows "wp (in_transaction body) (\<lambda>x v. synced v \<and> Q x (committed v)) (\<lambda>_ v. synced v \<and> committed v = committed w) w"
  using assms
  by (auto simp: wp_def in_transaction_def in_session_def synced_def split: prod.splits sum.splits)

lemma in_transaction_still:
  assumes "\<And>v :: 'z world_scheme. work v = committed w \<Longrightarrow> body v = (Inr x, v)"
  shows "in_transaction body w = (Inr x, w\<lparr>work := committed w\<rparr>)"
  using assms [of "w\<lparr>work := committed w\<rparr>"] by (simp add: in_transaction_def in_session_def)

text \<open>
  C33. The bootstrap of an account is all or nothing and can be repeated: when it raises, the
  committed database is the one it found. When it succeeds it has only added rows behind the ones
  that were there; the named account is active, is no superuser and has the given password, owns the
  house, and the floor, room and relay of that house are in place; and running it again with the same
  credentials, on any later session over that database, succeeds and changes nothing. Argon2 is
  assumed to accept the password a hash was made from.
\<close>

theorem bootstrap_all_or_nothing:
  fixes w :: "'z world_scheme"
  assumes "cy_verify K (cy_hash K password) password = Some True"
    and run: "bootstrap K fresh email password w = (r, v)"
  shows "case r of
      Inl _ \<Rightarrow> committed v = committed w
    | Inr _ \<Rightarrow> \<exists>checked. check_login (lower (strip email)) password = Inr (checked, password) \<and>
        grows (committed w) (committed v) \<and> e2e_ready K checked password (committed v) \<and>
        (\<forall>fresh' (u :: 'z world_scheme). committed u = committed v \<longrightarrow>
           bootstrap K fresh' email password u = (Inr (), u\<lparr>work := committed u\<rparr>))"
proof (cases "MIN_LENGTH \<le> py_length password \<and> py_length password \<le> MAX_LENGTH \<and>
    is_ok (check_login (lower (strip email)) password)")
  case False
  with run show ?thesis
    by (auto simp: bootstrap_def is_ok_def andthen_reject_apply bnd_lift_apply split: if_splits sum.splits)
next
  case True
  then obtain checked other where c: "check_login (lower (strip email)) password = Inr (checked, other)"
    by (auto simp: is_ok_def split: sum.splits)
  then have other: "other = password" by (auto simp: check_login_def ebind_Inr_iff split: if_splits)
  have body: "bootstrap K fr email password s = in_transaction (ensure_all K fr checked password) s"
    for fr and s :: "'z world_scheme"
    using True by (simp add: bootstrap_def c andthen_reject_apply bnd_lift_apply)
  have "wp (ensure_all K fresh checked password)
      (\<lambda>_ v. synced v \<and> grows (committed w) (work v) \<and> e2e_ready K checked password (work v)) (\<lambda>_ _. True)
      (w\<lparr>work := committed w\<rparr>)"
    by (rule wp_mono [OF ensure_all_wp [OF assms(1)]]) (auto simp: synced_def advances_def)
  from in_transaction_wp [OF this] run body [of fresh w]
  have "case r of Inl _ \<Rightarrow> committed v = committed w
      | Inr _ \<Rightarrow> grows (committed w) (committed v) \<and> e2e_ready K checked password (committed v)"
    by (auto simp: wp_def split: sum.splits)
  moreover have "\<forall>fresh' (u :: 'z world_scheme). committed u = committed v \<longrightarrow>
      bootstrap K fresh' email password u = (Inr (), u\<lparr>work := committed u\<rparr>)"
    if "e2e_ready K checked password (committed v)"
    unfolding body by (intro allI impI in_transaction_still) (simp add: ensure_all_ready that)
  ultimately show ?thesis using c unfolding other by (cases r) (simp, simp only: sum.case, blast)
qed

subsection \<open>Seeding\<close>

text \<open>The repositories whose new rows make a database grow.\<close>

locale growing_repo =
  fixes R :: "'r repo"
  assumes rows_set: "repo_rows R (repo_set R f d) = f (repo_rows R d)"
    and set_grows: "grows d (repo_set R (\<lambda>t. t @ [x]) d)"
    and rows_grow: "grows d d' \<Longrightarrow> prefix (repo_rows R d) (repo_rows R d')"
begin

definition holds_all :: "'r list \<Rightarrow> db \<Rightarrow> bool" where
  "holds_all items d \<longleftrightarrow> list_all (\<lambda>x. tget (repo_key R) (repo_key R x) (repo_rows R d) \<noteq> None) items"

lemma holds_all_grows: "grows d d' \<Longrightarrow> holds_all items d \<Longrightarrow> holds_all items d'"
  using rows_grow [of d d'] tget_prefix by (fastforce simp: holds_all_def list_all_iff)

lemma add_missing_wp:
  "synced w \<Longrightarrow> wp (add_missing R items) (\<lambda>_. advances w (holds_all items)) (\<lambda>_ _. True) w"
proof (induction items arbitrary: w)
  case Nil
  then show ?case by (simp add: add_missing_def advances_def holds_all_def wp_def)
next
  case (Cons x items)
  let ?one = "bnd (repo_exists R (repo_key R x)) (\<lambda>known. if known then ret () else void (repo_create R x))"
  have one: "wp ?one (\<lambda>_. advances w (holds_all [x])) (\<lambda>_ _. True) w"
    using Cons.prems set_grows [of "work w" x]
    by (auto simp: void_def repo_exists_def repo_find_def wp_structure rows_set advances_def synced_def holds_all_def
        tget_append tget_Cons split: option.split cong: option.case_cong)
  show ?case
    unfolding add_missing_def for_each.simps wp_andthen
  proof (rule wp_mono [OF one])
    fix u v assume v: "advances w (holds_all [x]) v"
    then have "synced v" by (simp add: advances_def)
    from Cons.IH [OF this] show "wp (for_each (\<lambda>x. bnd (repo_exists R (repo_key R x))
        (\<lambda>known. if known then ret () else void (repo_create R x))) items)
        (\<lambda>_. advances w (holds_all (x # items))) (\<lambda>_ _. True) v"
      unfolding add_missing_def
      by (rule wp_mono) (use v in \<open>auto simp: advances_def intro: grows_trans dest: holds_all_grows\<close>,
        use v in \<open>auto simp: advances_def holds_all_def dest!: holds_all_grows [of _ _ "[x]"]\<close>)
  qed simp
qed

lemma add_missing_still: "holds_all items (work w) \<Longrightarrow> add_missing R items w = (Inr (), w)"
  by (induction items)
    (simp_all add: holds_all_def add_missing_def repo_exists_def repo_find_def query_def andthen_def bnd_def)

end

interpretation g_houses: growing_repo house_repo
  by unfold_locales (auto simp: house_repo_def grows_appends grows_def)

interpretation g_floors: growing_repo floor_repo
  by unfold_locales (auto simp: floor_repo_def grows_appends grows_def)

interpretation g_rooms: growing_repo room_repo
  by unfold_locales (auto simp: room_repo_def grows_appends grows_def)

interpretation g_devices: growing_repo device_repo
  by unfold_locales (auto simp: device_repo_def grows_appends grows_def)

interpretation g_scenes: growing_repo scene_repo
  by unfold_locales (auto simp: scene_repo_def grows_appends grows_def)

interpretation g_automations: growing_repo automation_repo
  by unfold_locales (auto simp: automation_repo_def grows_appends grows_def)

definition seeded :: "string option \<Rightarrow> string option \<Rightarrow> db \<Rightarrow> bool" where
  "seeded demo_email demo_password d \<longleftrightarrow>
     g_houses.holds_all demo_houses d \<and> g_floors.holds_all demo_floors d \<and> g_rooms.holds_all demo_rooms d \<and>
     g_devices.holds_all demo_devices d \<and> g_scenes.holds_all demo_scenes d \<and>
     g_automations.holds_all demo_automations d \<and>
     (given demo_email \<and> given demo_password \<longrightarrow>
        tfind (\<lambda>u. u_email u = lower (strip (dflt [] demo_email))) (users d) \<noteq> None)"

lemmas seed_steps = g_houses.add_missing_wp g_floors.add_missing_wp g_rooms.add_missing_wp g_devices.add_missing_wp
  g_scenes.add_missing_wp g_automations.add_missing_wp

lemmas seed_kept = g_houses.holds_all_grows g_floors.holds_all_grows g_rooms.holds_all_grows g_devices.holds_all_grows
  g_scenes.holds_all_grows g_automations.holds_all_grows

lemma add_demo_user_wp:
  "synced w \<Longrightarrow> wp (add_demo_user K fresh e p) (\<lambda>_. advances w (\<lambda>d. given e \<and> given p \<longrightarrow>
      tfind (\<lambda>u. u_email u = lower (strip (dflt [] e))) (users d) \<noteq> None)) (\<lambda>_ _. True) w"
  by (auto simp: add_demo_user_def user_create_def user_by_email_def void_def wp_structure repo_defs advances_def synced_def
      grows_appends tfind_def find_append split: option.split sum.split cong: option.case_cong)

text \<open>Seeding only adds rows, leaves everything in place that it names, and is a no-op afterwards.\<close>

lemma seed_body_wp:
  assumes "synced w"
  shows "wp (andthen (add_missing house_repo demo_houses)
       (andthen (add_missing floor_repo demo_floors)
       (andthen (add_missing room_repo demo_rooms)
       (andthen (add_missing device_repo demo_devices)
       (andthen (add_missing scene_repo demo_scenes)
       (andthen (add_missing automation_repo demo_automations)
       (add_demo_user K fresh e p))))))) (\<lambda>_. advances w (seeded e p)) (\<lambda>_ _. True) w"
  unfolding wp_andthen using assms
  by (auto intro!: wp_mono [OF g_houses.add_missing_wp] wp_mono [OF g_floors.add_missing_wp] wp_mono [OF g_rooms.add_missing_wp]
      wp_mono [OF g_devices.add_missing_wp] wp_mono [OF g_scenes.add_missing_wp] wp_mono [OF g_automations.add_missing_wp]
      wp_mono [OF add_demo_user_wp] simp: advances_def seeded_def) (meson grows_trans seed_kept)+

theorem seed_repeatable:
  assumes "seed K fresh s e p w = (Inr (), v)"
  shows "grows (committed w) (committed v)" and "seeded e p (committed v)"
    and "committed u = committed v \<Longrightarrow> seed K fresh' s e p u = (Inr (), u\<lparr>work := committed u\<rparr>)"
proof -
  show "grows (committed w) (committed v)" and s: "seeded e p (committed v)"
    using assms seed_body_wp [of "w\<lparr>work := committed w\<rparr>" K fresh e p]
    by (auto simp: seed_def andthen_reject_apply in_session_def wp_def synced_def advances_def split: prod.splits if_splits)
  have "\<not> production s" using assms by (simp add: seed_def andthen_reject_apply split: if_splits)
  moreover assume "committed u = committed v"
  ultimately show "seed K fresh' s e p u = (Inr (), u\<lparr>work := committed u\<rparr>)"
    using s
    by (simp add: seed_def andthen_reject_apply in_session_def seeded_def andthen_def bnd_def add_demo_user_def
        user_by_email_def query_def g_houses.add_missing_still g_floors.add_missing_still g_rooms.add_missing_still
        g_devices.add_missing_still g_scenes.add_missing_still g_automations.add_missing_still)
qed

subsection \<open>Witnesses\<close>

definition ex_blank :: world where
  "ex_blank = \<lparr>committed = empty_db, work = empty_db, drawn = 0\<rparr>"

definition ex_owner_made :: "(exn + unit) \<times> world" where
  "ex_owner_made = bootstrap ex_crypto ex_fresh ''e2e@example.org'' ''long-enough-secret'' ex_blank"

lemma ex_owner_made_ok: "fst ex_owner_made = Inr ()"
  by code_simp

theorem bootstrap_all_or_nothing_witness:
  "\<exists>v :: world. ex_owner_made = (Inr (), v) \<and> e2e_ready ex_crypto ''e2e@example.org'' ''long-enough-secret'' (committed v)"
proof -
  obtain v where v: "ex_owner_made = (Inr (), v)" using ex_owner_made_ok by (metis prod.collapse)
  have "cy_verify ex_crypto (cy_hash ex_crypto ''long-enough-secret'') ''long-enough-secret'' = Some True"
    by (simp add: ex_crypto_def)
  from bootstrap_all_or_nothing [OF this v [unfolded ex_owner_made_def], unfolded sum.case]
  obtain c where "check_login (lower (strip ''e2e@example.org'')) ''long-enough-secret'' = Inr (c, ''long-enough-secret'')"
    and "e2e_ready ex_crypto c ''long-enough-secret'' (committed v)" by blast
  moreover have "check_login (lower (strip ''e2e@example.org'')) ''long-enough-secret'' = Inr (''e2e@example.org'', ''long-enough-secret'')"
    by code_simp
  ultimately have "e2e_ready ex_crypto ''e2e@example.org'' ''long-enough-secret'' (committed v)" by simp
  with v show ?thesis by blast
qed

end
