(* ===== verification/Demo_Bootstrap.thy ===== *)
theory Demo_Bootstrap
  imports Bootstrap
begin

text \<open>
  \<open>bootstrap_demo\<close> of \<open>app/demo.py\<close>: the demo house on top of the bootstrapped one, in a second
  transaction that a repeat goes through again. \<open>BootstrapError\<close> is a \<open>ValueError\<close>.
\<close>

definition demo_email :: "string \<Rightarrow> bool" where
  "demo_email email \<longleftrightarrow> starts_with ''demo-'' email \<and> ends_with ''@example.invalid'' email"

definition only_demo :: "string \<Rightarrow> ('z world_scheme, unit) op" where
  "only_demo email =
     in_session
       (bnd (repo_list user_repo) (\<lambda>us.
       bnd (repo_list house_repo) (\<lambda>hs.
       reject (list_ex (\<lambda>u. u_email u \<noteq> email) us \<or> list_ex (\<lambda>h. h_id h \<noteq> ''e2e_house'') hs) ValueError)))"

definition rename_defaults :: "('z world_scheme, unit) op" where
  "rename_defaults =
     bnd (repo_get house_repo ''e2e_house'') (\<lambda>h.
     andthen (if h_name h = ''E2E acceptance''
       then void (repo_update house_repo ''e2e_house'' (\<lambda>r. r\<lparr>h_name := utf8 [68, 69, 77, 79, 32, 183, 32, 1074, 1080, 1088, 1090, 1091, 1072, 1083, 1100, 1085, 1099, 1081, 32, 1076, 1086, 1084]\<rparr>))
       else ret ())
     (bnd (repo_get room_repo ''e2e_room'') (\<lambda>r.
     if r_name r = ''E2E room'' then void (repo_update room_repo ''e2e_room'' (\<lambda>x. x\<lparr>r_name := utf8 [83, 73, 77, 32, 183, 32, 1075, 1086, 1089, 1090, 1080, 1085, 1072, 1103]\<rparr>))
     else ret ())))"

definition demo_room :: "('z world_scheme, unit) op" where
  "demo_room =
     bnd (repo_exists room_repo ''demo_room'') (\<lambda>known.
     if \<not> known then
       void (repo_create room_repo \<lparr>r_id = ''demo_room'', r_floor_id = ''e2e_floor'', r_name = utf8 [83, 73, 77, 32, 183, 32, 1089, 1087, 1072, 1083, 1100, 1085, 1103], r_icon = None\<rparr>)
     else bnd (repo_get room_repo ''demo_room'') (\<lambda>r. reject (r_floor_id r \<noteq> ''e2e_floor'') ValueError))"

definition simulated :: obj where
  "simulated = [(''simulated'', JBool True)]"

definition label_relay :: "('z world_scheme, unit) op" where
  "label_relay =
     bnd (repo_get device_repo ''e2e_relay'') (\<lambda>relay.
     if d_name relay = ''E2E relay'' \<and> d_metadata relay = [] then
       void (update_device ''e2e_relay'' \<lparr>du_name = Some (utf8 [83, 73, 77, 32, 183, 32, 1088, 1077, 1083, 1077]), du_room_id = None, du_type = None, du_state = None,
         du_online = None, du_capabilities = None, du_metadata = Some simulated, du_fields_set = [''name'', ''metadata'']\<rparr>)
     else ret ())"

definition motion_definition :: device_create where
  "motion_definition = \<lparr>dc_id = ''e2e_motion'', dc_name = ''E2E motion'', dc_room_id = ''e2e_room'', dc_type = ''motion_sensor'',
     dc_state = [], dc_online = False, dc_capabilities = [''motion''], dc_metadata = []\<rparr>"

definition demo_definitions :: "device_create list" where
  "demo_definitions =
     [motion_definition\<lparr>dc_name := utf8 [83, 73, 77, 32, 183, 32, 1076, 1074, 1080, 1078, 1077, 1085, 1080, 1077], dc_metadata := simulated\<rparr>,
      \<lparr>dc_id = ''demo_temperature'', dc_name = utf8 [83, 73, 77, 32, 183, 32, 1090, 1077, 1084, 1087, 1077, 1088, 1072, 1090, 1091, 1088, 1072, 32, 40, 1089, 1085, 1080, 1084, 1086, 1082, 41],
       dc_room_id = ''demo_room'', dc_type = ''temperature_sensor'', dc_state = [(''temperature'', JFloat (Fin (45 / 2)))],
       dc_online = False, dc_capabilities = [''temperature''], dc_metadata = [(''simulated'', JBool True), (''static_snapshot'', JBool True)]\<rparr>]"

definition ensure_demo_device :: "device_create \<Rightarrow> ('z world_scheme, unit) op" where
  "ensure_demo_device x =
     bnd (repo_exists device_repo (dc_id x)) (\<lambda>known.
     if known then
       bnd (device_get (dc_id x)) (\<lambda>current.
       reject (d_room_id current \<noteq> dc_room_id x \<or> d_type current \<noteq> dc_type x \<or> d_capabilities current \<noteq> dc_capabilities x) ValueError)
     else void (create_device x))"

text \<open>Equality of actions as Python compares them: the state is a dictionary.\<close>

definition same_action :: "device_action \<Rightarrow> device_action \<Rightarrow> bool" where
  "same_action a b \<longleftrightarrow> act_device_id a = act_device_id b \<and> py_eq (JObj (act_state a)) (JObj (act_state b))"

definition relay_scene :: "string \<Rightarrow> bool \<Rightarrow> scene_create" where
  "relay_scene ending on =
     \<lparr>sc_id = ''demo_'' @ ending, sc_name = utf8 [83, 73, 77, 32, 183, 32, 1088, 1077, 1083, 1077, 32] @ ending, sc_house_id = ''e2e_house'',
      sc_actions = [\<lparr>act_device_id = ''e2e_relay'', act_state = [(''on'', JBool on)]\<rparr>]\<rparr>"

definition ensure_scene :: "scene_create \<Rightarrow> ('z world_scheme, unit) op" where
  "ensure_scene x =
     bnd (repo_exists scene_repo (sc_id x)) (\<lambda>known.
     if known then
       bnd (scene_get (sc_id x)) (\<lambda>current.
       reject (sc_house_id current \<noteq> sc_house_id x \<or> \<not> list_all2 same_action (sc_actions current) (sc_actions x)) ValueError)
     else void (scene_create_op x))"

definition rule_definition :: automation_create where
  "rule_definition =
     \<lparr>ac_id = ''e2e_motion_relay'', ac_name = ''E2E motion turns relay on'', ac_house_id = ''e2e_house'', ac_enabled = False,
      ac_trigger = \<lparr>tr_device_id = ''e2e_motion'', tr_field = ''motion'', tr_operator = ''eq'', tr_value = JBool True\<rparr>,
      ac_conditions = [], ac_actions = [DeviceAction \<lparr>act_device_id = ''e2e_relay'', act_state = [(''on'', JBool True)]\<rparr>]\<rparr>"

definition same_trigger :: "trigger \<Rightarrow> trigger \<Rightarrow> bool" where
  "same_trigger t u \<longleftrightarrow> tr_device_id t = tr_device_id u \<and> tr_field t = tr_field u \<and> tr_operator t = tr_operator u \<and>
     py_eq (tr_value t) (tr_value u)"

fun same_step :: "automation_action \<Rightarrow> automation_action \<Rightarrow> bool" where
  "same_step (DeviceAction a) (DeviceAction b) = same_action a b"
| "same_step (DelayAction s) (DelayAction t) = num_eq s t"
| "same_step _ _ = False"

text \<open>The stored rule is compared with a definition that has no conditions.\<close>

definition ensure_rule :: "automation_create \<Rightarrow> ('z world_scheme, unit) op" where
  "ensure_rule x =
     bnd (repo_exists automation_repo (ac_id x)) (\<lambda>known.
     if known then
       bnd (repo_get automation_repo (ac_id x)) (\<lambda>current.
       reject (a_house_id current \<noteq> ac_house_id x \<or> \<not> same_trigger (a_trigger current) (ac_trigger x) \<or>
         a_conditions current \<noteq> ac_conditions x \<or> \<not> list_all2 same_step (a_actions current) (ac_actions x)) ValueError)
     else void (rule_create x))"

definition demo_stage :: "('z world_scheme, unit) op" where
  "demo_stage =
     andthen rename_defaults
     (andthen demo_room
     (andthen label_relay
     (andthen (for_each ensure_demo_device demo_definitions)
     (andthen (for_each ensure_scene [relay_scene ''on'' True, relay_scene ''off'' False])
     (ensure_rule (rule_definition\<lparr>ac_name := utf8 [83, 73, 77, 32, 183, 32, 1076, 1074, 1080, 1078, 1077, 1085, 1080, 1077, 32, 1074, 1082, 1083, 1102, 1095, 1072, 1077, 1090, 32, 1088, 1077, 1083, 1077]\<rparr>))))))"

definition bootstrap_demo :: "crypto \<Rightarrow> (nat \<Rightarrow> string) \<Rightarrow> string \<Rightarrow> string \<Rightarrow> ('z world_scheme, unit) op" where
  "bootstrap_demo K fresh email password =
     andthen (reject (\<not> demo_email email) ValueError)
     (andthen (only_demo email)
     (andthen (bootstrap K fresh email password)
     (in_transaction demo_stage)))"

subsection \<open>What a demo bootstrap leaves alone\<close>

text \<open>A database of somebody else is refused before anything is written.\<close>

lemma bootstrap_demo_refuses_foreign:
  assumes "list_ex (\<lambda>u. u_email u \<noteq> email) (users (committed w)) \<or> list_ex (\<lambda>h. h_id h \<noteq> ''e2e_house'') (houses (committed w))"
  shows "\<exists>v. bootstrap_demo K fresh email password w = (Inl ValueError, v) \<and> committed v = committed w"
  using assms
  by (auto simp: bootstrap_demo_def only_demo_def in_session_def repo_list_def query_def op_defs repo_defs)

text \<open>Neither stage resets the observed state of a device.\<close>

definition observed :: "db \<Rightarrow> db \<Rightarrow> bool" where
  "observed d0 d \<longleftrightarrow> (\<forall>i r0. tget d_id i (devices d0) = Some r0 \<longrightarrow> (\<exists>r. tget d_id i (devices d) = Some r \<and> d_state r = d_state r0))"

lemma observed_same: "observed d0 d \<Longrightarrow> devices d' = devices d \<Longrightarrow> observed d0 d'"
  by (simp add: observed_def)

lemma observed_append: "observed d0 d \<Longrightarrow> observed d0 (devices_update (\<lambda>t. t @ [x]) d)"
  by (fastforce simp: observed_def tget_append)

lemma observed_put:
  assumes "observed d0 d" and "tget d_id i (devices d) = Some r" and "d_state r' = d_state r" "d_id r' = d_id r"
  shows "observed d0 (devices_update (tput d_id r') d)"
proof -
  have i: "d_id r' = i" using tget_SomeD [OF assms(2)] assms(4) by simp
  have put: "tget d_id (d_id r') (tput d_id r' (devices d)) = Some r'" by (rule tget_tput_same) (simp add: i assms(2))
  show ?thesis
    unfolding observed_def
  proof (intro allI impI)
    fix k r0 assume k: "tget d_id k (devices d0) = Some r0"
    then obtain x where x: "tget d_id k (devices d) = Some x" "d_state x = d_state r0" using assms(1) by (auto simp: observed_def)
    show "\<exists>y. tget d_id k (devices (devices_update (tput d_id r') d)) = Some y \<and> d_state y = d_state r0"
    proof (cases "k = i")
      case True
      with put x i assms(2,3) show ?thesis by simp
    next
      case False
      with x i show ?thesis by (simp add: tget_tput_other)
    qed
  qed
qed

lemma pres_repo_create:
  "(\<And>d. P d \<Longrightarrow> P (repo_set R (\<lambda>t. t @ [x]) d)) \<Longrightarrow> preserves (both P) (repo_create R x)"
  unfolding repo_create_def by (intro pres)

lemma pres_repo_update:
  "(\<And>d r. P d \<Longrightarrow> tget (repo_key R) i (repo_rows R d) = Some r \<Longrightarrow> P (repo_set R (tput (repo_key R) (f r)) d)) \<Longrightarrow>
   preserves (both P) (repo_update R i f)"
  by (rule preserves_wp) (auto simp: repo_update_def repo_get_def repo_find_def found_def wp_simps both_def split: option.split)

lemma pres_in_transaction: "preserves (both P) m \<Longrightarrow> preserves (both P) (in_transaction m)"
  using pres_both_in_session [of P m]
  by (auto simp: preserves_def in_transaction_def both_def split: prod.splits sum.splits)

lemma observed_others:
  assumes "observed d0 d"
  shows "observed d0 (houses_update hs d)" "observed d0 (users_update us d)" "observed d0 (memberships_update ms d)"
    "observed d0 (floors_update fs d)" "observed d0 (rooms_update rs d)" "observed d0 (scenes_update ss d)"
    "observed d0 (automations_update rules d)"
  using assms by (simp_all add: observed_def)

lemma creates_observed:
  "preserves (both (observed d0)) (repo_create house_repo h)" "preserves (both (observed d0)) (repo_create floor_repo f)"
  "preserves (both (observed d0)) (repo_create room_repo r)" "preserves (both (observed d0)) (repo_create device_repo x)"
  "preserves (both (observed d0)) (repo_create scene_repo s)" "preserves (both (observed d0)) (repo_create automation_repo a)"
  "preserves (both (observed d0)) (repo_create user_repo u)"
  by (rule pres_repo_create; simp add: repo_defs observed_others observed_append)+

lemma device_update_observed:
  "du_state x = None \<Longrightarrow> preserves (both (observed d0)) (repo_update device_repo i (device_values x))"
  by (rule pres_repo_update) (auto simp: device_repo_def device_values_def dflt_def intro: observed_put)

lemma updates_observed:
  "preserves (both (observed d0)) (repo_update house_repo i f)" "preserves (both (observed d0)) (repo_update room_repo i g)"
  by (rule pres_repo_update; simp add: repo_defs observed_others)+

lemma user_create_observed: "preserves (both (observed d0)) (user_create K fresh email password active super)"
  unfolding user_create_def Let_def by (intro pres creates_observed pres_queries)

lemma create_with_owner_observed: "preserves (both (observed d0)) (create_with_owner fresh h u)"
  unfolding create_with_owner_def by (intro pres observed_others)

lemma create_device_observed: "preserves (both (observed d0)) (create_device x)"
  unfolding create_device_def validate_room_def by (intro pres creates_observed)

lemma bootstrap_observed: "preserves (both (observed d0)) (bootstrap K fresh email password)"
  unfolding bootstrap_def ensure_all_def ensure_user_def ensure_house_def ensure_floor_def ensure_room_def ensure_device_def void_def
  by (intro pres pres_in_transaction creates_observed user_create_observed create_with_owner_observed create_device_observed pres_queries)
    (auto intro!: pres pres_in_transaction creates_observed user_create_observed create_with_owner_observed create_device_observed
      split: prod.split)

lemma update_device_observed:
  assumes "du_state x = None"
  shows "preserves (both (observed d0)) (update_device i x)"
  unfolding update_device_def target_of_room_def structure_mutation_def validate_room_def device_get_def
  by (intro pres device_update_observed [OF assms] pres_queries)

lemma demo_stage_observed: "preserves (both (observed d0)) demo_stage"
proof -
  have scene: "preserves (both (observed d0)) (ensure_scene x)" for x
    unfolding ensure_scene_def scene_get_def scene_create_op_def scene_validate_def same_house_def void_def
    by (intro pres creates_observed pres_queries)
  have fields: "preserves (both (observed d0)) (validate_fields i fs)" for i fs
    unfolding validate_fields_def device_get_def by (intro pres pres_queries)
  have condition: "preserves (both (observed d0)) (validate_condition x)" for x
    by (cases x) (auto intro!: pres fields)
  have action: "preserves (both (observed d0)) (validate_action x)" for x
    by (cases x) (auto intro!: pres fields)
  have rule: "preserves (both (observed d0)) (ensure_rule x)" for x
    unfolding ensure_rule_def rule_create_def rule_validate_def same_house_def device_get_def void_def
    by (intro pres creates_observed pres_queries fields condition action)
  have device: "preserves (both (observed d0)) (ensure_demo_device x)" for x
    unfolding ensure_demo_device_def device_get_def void_def by (intro pres create_device_observed pres_queries)
  show ?thesis
    unfolding demo_stage_def rename_defaults_def demo_room_def label_relay_def void_def
    by (intro pres scene rule device creates_observed updates_observed update_device_observed pres_queries) simp_all
qed

text \<open>However often it is repeated, a device keeps the state it has reported.\<close>

lemma bootstrap_demo_keeps_observed_state:
  assumes "work w = committed w" and "tget d_id i (devices (committed w)) = Some r"
  shows "\<exists>r'. tget d_id i (devices (committed (snd (bootstrap_demo K fresh email password w)))) = Some r' \<and> d_state r' = d_state r"
proof -
  have "preserves (both (observed (committed w))) (bootstrap_demo K fresh email password)"
    unfolding bootstrap_demo_def only_demo_def
    by (intro pres bootstrap_observed pres_in_transaction demo_stage_observed pres_queries)
  moreover have "both (observed (committed w)) w" using assms(1) by (simp add: both_def observed_def)
  ultimately have "both (observed (committed w)) (snd (bootstrap_demo K fresh email password w))" by (rule preservesD)
  with assms(2) show ?thesis by (simp add: both_def observed_def)
qed

end
