(* ===== verification/Acl.thy ===== *)
theory Acl
  imports Gateway
begin

text \<open>
  \<open>deploy/commission_device.py\<close>: the broker permissions of one bound relay. \<open>acl_disk\<close> holds the
  file, the temporary file beside it and whether either path is a symbolic link; \<open>io\<close> tells which
  file operation of a run succeeds. Lines break as \<open>str.splitlines\<close> breaks them.
\<close>

subsection \<open>Lines\<close>

definition line_feed :: char where
  "line_feed = CHR 0x0A"

definition carriage_return :: char where
  "carriage_return = CHR 0x0D"

definition single_break :: "char \<Rightarrow> bool" where
  "single_break c \<longleftrightarrow> ord_of c \<in> {10, 11, 12, 28, 29, 30}"

text \<open>The length of the line boundary a text starts with, 0 where there is none.\<close>

definition break_length :: "string \<Rightarrow> nat" where
  "break_length s =
     (case s of
        [] \<Rightarrow> 0
      | c # cs \<Rightarrow>
          if single_break c then 1
          else if c = carriage_return then (case cs of [] \<Rightarrow> 1 | x # _ \<Rightarrow> if x = line_feed then 2 else 1)
          else if c = CHR 0xC2 then (case cs of [] \<Rightarrow> 0 | x # _ \<Rightarrow> if x = CHR 0x85 then 2 else 0)
          else if c = CHR 0xE2
            then (case cs of x # y # _ \<Rightarrow> if x = CHR 0x80 \<and> y \<in> {CHR 0xA8, CHR 0xA9} then 3 else 0 | _ \<Rightarrow> 0)
          else 0)"

function lines_from :: "string \<Rightarrow> string \<Rightarrow> string list" where
  "lines_from cur s =
     (case s of
        [] \<Rightarrow> if cur = [] then [] else [rev cur]
      | c # cs \<Rightarrow>
          if break_length s = 0 then lines_from (c # cur) cs
          else rev cur # lines_from [] (drop (break_length s) s))"
  by pat_completeness auto
termination
  by (relation "measure (\<lambda>(_, s). length s)") auto

declare lines_from.simps [simp del]

definition splitlines :: "string \<Rightarrow> string list" where
  "splitlines s = lines_from [] s"

definition rstrip :: "string \<Rightarrow> string" where
  "rstrip s = rev (dropWhile is_space (rev s))"

text \<open>Reading a text file translates the line ends.\<close>

fun universal_newlines :: "string \<Rightarrow> string" where
  "universal_newlines [] = []"
| "universal_newlines (c # cs) =
     (if c \<noteq> carriage_return then c # universal_newlines cs
      else if take 1 cs = [line_feed] then universal_newlines cs
      else line_feed # universal_newlines cs)"

subsection \<open>Identities and addresses\<close>

definition account :: "string \<Rightarrow> string" where
  "account device_id = ''kzdevice-'' @ device_id"

definition acl_identity :: "string \<Rightarrow> string \<Rightarrow> exn + string" where
  "acl_identity house_id device_id =
     seq (check (topic_id house_id \<and> topic_id device_id) ValueError) (Inr (account device_id))"

text \<open>\<open>ipaddress.IPv4Address\<close>: four decimal octets without leading zeros.\<close>

definition octet :: "string \<Rightarrow> nat option" where
  "octet s =
     (if s = [] \<or> 3 < length s \<or> \<not> list_all is_digit s \<or> (s \<noteq> ''0'' \<and> take 1 s = ''0'') \<or> 255 < nat_of_digits s
      then None else Some (nat_of_digits s))"

definition ipv4 :: "string \<Rightarrow> nat option" where
  "ipv4 value =
     (case map octet (split_on (CHR ''.'') value) of
        [Some a, Some b, Some c, Some d] \<Rightarrow> Some (((a * 256 + b) * 256 + c) * 256 + d)
      | _ \<Rightarrow> None)"

text \<open>An address is in a network when it shares the first \<open>prefix\<close> bits of it.\<close>

definition in_network :: "nat \<Rightarrow> nat \<Rightarrow> nat \<Rightarrow> bool" where
  "in_network address network prefix \<longleftrightarrow> drop_bit (32 - prefix) address = drop_bit (32 - prefix) network"

definition validate_lan_ip :: "string \<Rightarrow> exn + unit" where
  "validate_lan_ip value =
     (case ipv4 value of
        None \<Rightarrow> Inl ValueError
      | Some address \<Rightarrow>
          check (list_ex (\<lambda>(network, prefix). in_network address (dflt 0 (ipv4 network)) prefix)
            [(''10.0.0.0'', 8), (''172.16.0.0'', 12), (''192.168.0.0'', 16)]) ValueError)"

subsection \<open>The text of the permissions\<close>

definition MARKER :: string where
  "MARKER = ''# Operator-managed physical relay (commission_device.py)''"

text \<open>The base file names each user once and gives rights to named users only.\<close>

fun scan_base :: "string option \<Rightarrow> string list \<Rightarrow> string list \<Rightarrow> exn + unit" where
  "scan_base current_user seen [] = Inr ()"
| "scan_base current_user seen (line # rest) =
     (let directive = strip line in
      if directive = [] \<or> starts_with ''#'' directive then scan_base current_user seen rest
      else if starts_with ''user '' directive then
        (let name = drop 5 directive in
         if name = [] \<or> name \<in> set seen then Inl ValueError
         else scan_base (Some name) (name # seen) rest)
      else if current_user = None \<or>
          \<not> (starts_with ''topic read '' directive \<or> starts_with ''topic write '' directive)
        then Inl ValueError
      else scan_base current_user seen rest)"

definition granted_text :: "string \<Rightarrow> string \<Rightarrow> string \<Rightarrow> string" where
  "granted_text username house_id device_id =
     (let topic = ''kzhome/v1/'' @ house_id @ ''/'' @ device_id @ ''/''; nl = [line_feed] in
      MARKER @ nl @ ''user '' @ username @ nl @
      ''topic read '' @ topic @ ''set'' @ nl @
      concat (map (\<lambda>kind. ''topic write '' @ topic @ kind @ nl) [''ack'', ''state'', ''status'']))"

definition render_acl :: "string \<Rightarrow> string \<Rightarrow> string \<Rightarrow> exn + string" where
  "render_acl base house_id device_id =
     ebind (acl_identity house_id device_id) (\<lambda>username.
     seq (scan_base None [] (splitlines base))
     (seq (check (\<not> (contains MARKER base \<or>
         list_ex (\<lambda>line. strip line = ''user '' @ username) (splitlines base))) ValueError)
     (Inr (rstrip base @ [line_feed, line_feed] @ granted_text username house_id device_id))))"

subsection \<open>The file\<close>

record acl_disk =
  da_linked :: bool
  da_acl :: "string option"
  da_temporary :: "string option"

datatype acl_io =
  Read_acl | Make_directory | Create_temporary | Write_temporary | Change_mode | Replace_acl | Remove_temporary

definition on_disk :: "(acl_io \<Rightarrow> bool) \<Rightarrow> acl_io \<Rightarrow> (acl_disk, unit) op" where
  "on_disk io step = reject (\<not> io step) OSError"

definition remove_temporary :: "(acl_io \<Rightarrow> bool) \<Rightarrow> (acl_disk, unit) op" where
  "remove_temporary io =
     bnd (gets da_temporary) (\<lambda>temporary.
     if temporary = None then ret ()
     else andthen (on_disk io Remove_temporary) (modify (da_temporary_update (\<lambda>_. None))))"

definition replace_acl :: "(acl_io \<Rightarrow> bool) \<Rightarrow> string \<Rightarrow> (acl_disk, unit) op" where
  "replace_acl io desired =
     andthen (on_disk io Make_directory)
     (andthen (on_disk io Create_temporary)
     (andthen (modify (da_temporary_update (\<lambda>_. Some [])))
     (finally_do
       (andthen (on_disk io Write_temporary)
       (andthen (modify (da_temporary_update (\<lambda>_. Some desired)))
       (andthen (on_disk io Change_mode)
       (andthen (on_disk io Replace_acl)
       (modify (\<lambda>f. f\<lparr>da_acl := da_temporary f, da_temporary := None\<rparr>))))))
       (remove_temporary io))))"

definition baseline :: "string \<Rightarrow> string" where
  "baseline base = rstrip base @ [line_feed]"

definition read_acl :: "(acl_io \<Rightarrow> bool) \<Rightarrow> (acl_disk, string option) op" where
  "read_acl io =
     bnd (gets da_acl) (\<lambda>content.
     case content of
       None \<Rightarrow> ret None
     | Some text \<Rightarrow> andthen (on_disk io Read_acl) (ret (Some (universal_newlines text))))"

definition prepare_acl ::
  "(acl_io \<Rightarrow> bool) \<Rightarrow> string \<Rightarrow> string \<Rightarrow> string \<Rightarrow> string \<Rightarrow> (acl_disk, unit) op" where
  "prepare_acl io base house_id device_id action =
     andthen (reject (action \<notin> {''grant'', ''check'', ''revoke''}) ValueError)
     (bnd (lift (render_acl base house_id device_id)) (\<lambda>granted.
     bnd (gets da_linked) (\<lambda>linked.
     andthen (reject linked ValueError)
     (bnd (read_acl io) (\<lambda>current.
     andthen (reject (current \<noteq> None \<and> current \<notin> {Some (baseline base), Some granted}) ValueError)
     (let desired = (if action \<in> {''grant'', ''check''} then granted else baseline base) in
      if action = ''check'' then reject (current \<noteq> Some desired) ValueError
      else if current = Some desired then ret ()
      else replace_acl io desired))))))"

text \<open>\<open>main\<close>: the exit code of the command; every exception becomes 1.\<close>

definition commission ::
  "(acl_io \<Rightarrow> bool) \<Rightarrow> string \<Rightarrow> string option \<Rightarrow> string \<Rightarrow> string \<Rightarrow> string \<Rightarrow> (acl_disk, nat) op" where
  "commission io base lan_ip house_id device_id action =
     handle
       (andthen (lift (case lan_ip of None \<Rightarrow> Inr () | Some ip \<Rightarrow> validate_lan_ip ip))
       (andthen (prepare_acl io (universal_newlines base) house_id device_id action)
       (ret 0)))
       (\<lambda>e. if is_exception e then ret 1 else raise e)"

subsection \<open>Reading the permissions back\<close>

text \<open>
  The rights a broker takes from such a file: each directive after a \<open>user\<close> line belongs to that
  user. This reading is independent of the code. It uses the line breaks and blanks of the
  script; a broker breaks lines at line feeds only and skips further blanks after \<open>user\<close>, which
  agrees on files whose only control characters are line feeds and whose \<open>user\<close> lines have one
  blank, as the rendered ones.
\<close>

definition directives :: "string list \<Rightarrow> string list" where
  "directives lines = filter (\<lambda>l. l \<noteq> [] \<and> \<not> starts_with ''#'' l) (map strip lines)"

fun grants_of :: "string option \<Rightarrow> string list \<Rightarrow> (string option \<times> string) list" where
  "grants_of user [] = []"
| "grants_of user (l # ls) =
     (if starts_with ''user '' l then grants_of (Some (drop 5 l)) ls else (user, l) # grants_of user ls)"

definition acl_grants :: "string \<Rightarrow> (string option \<times> string) list" where
  "acl_grants text = grants_of None (directives (splitlines text))"

lemma directives_append [simp]: "directives [] = []" "directives (xs @ ys) = directives xs @ directives ys"
  by (simp_all add: directives_def)

lemma directives_Cons: "directives xs = directives ys \<Longrightarrow> directives (x # xs) = directives (x # ys)"
  by (simp add: directives_def)

text \<open>Line boundaries do not look past a line feed that follows.\<close>

lemma break_length_le: "break_length s \<le> length s"
  by (auto simp: break_length_def split: list.split)

lemma break_length_before:
  assumes "s \<noteq> []" and "last s \<noteq> carriage_return"
  shows "break_length (s @ line_feed # t) = break_length s"
  using assms by (auto simp: break_length_def line_feed_def split: list.split)

lemma lines_from_Nil [simp]: "lines_from cur [] = (if cur = [] then [] else [rev cur])"
  by (simp add: lines_from.simps)

lemma lines_from_line: "break_length (c # cs) = 0 \<Longrightarrow> lines_from cur (c # cs) = lines_from (c # cur) cs"
  by (subst lines_from.simps) simp

lemma lines_from_break: "break_length s \<noteq> 0 \<Longrightarrow> lines_from cur s = rev cur # lines_from [] (drop (break_length s) s)"
  by (subst lines_from.simps) (auto simp: break_length_def split: list.splits)

lemma lines_from_LF [simp]: "lines_from cur (line_feed # s) = rev cur # lines_from [] s"
  by (subst lines_from.simps) (simp add: break_length_def single_break_def line_feed_def ord_of_def)

lemma last_drop_neq: "last s \<noteq> x \<Longrightarrow> drop n s \<noteq> [] \<Longrightarrow> last (drop n s) \<noteq> x"
  by (simp add: last_drop)

lemma lines_from_before_LF:
  assumes "s = [] \<or> last s \<noteq> carriage_return"
  shows "lines_from cur (s @ line_feed # t) = lines_from cur (s @ [line_feed]) @ lines_from [] t"
  using assms
proof (induction cur s rule: lines_from.induct)
  case (1 cur s)
  show ?case
  proof (cases s)
    case (Cons c cs)
    with 1(3) have "last s \<noteq> carriage_return" by simp
    then have b: "break_length (s @ line_feed # u) = break_length s" for u
      using Cons by (intro break_length_before) auto
    have le: "break_length s \<le> length s" by (rule break_length_le)
    show ?thesis
    proof (cases "break_length s = 0")
      case True
      have "lines_from (c # cur) (cs @ line_feed # t) =
          lines_from (c # cur) (cs @ [line_feed]) @ lines_from [] t"
        using 1(1) [OF Cons True] 1(3) Cons by (cases "cs = []") simp_all
      then show ?thesis
        using b [of t] b [of "[]"] True by (simp add: Cons lines_from_line)
    next
      case False
      have "lines_from [] (drop (break_length s) s @ line_feed # t) =
          lines_from [] (drop (break_length s) s @ [line_feed]) @ lines_from [] t"
        using 1(2) [OF Cons False] 1(3) Cons last_drop_neq [of s carriage_return] by blast
      then show ?thesis
        using b [of t] b [of "[]"] False le by (simp add: lines_from_break)
    qed
  qed simp
qed

text \<open>Trailing white space adds no directive.\<close>

lemma strip_snoc: "is_space c \<Longrightarrow> strip (x @ [c]) = strip x"
proof (cases "\<forall>a\<in>set x. is_space a")
  case True
  assume "is_space c"
  with True have "dropWhile is_space (x @ [c]) = []" and "dropWhile is_space x = []"
    by (simp_all add: dropWhile_eq_Nil_conv)
  then show ?thesis unfolding strip_def by (simp only: refl)
qed (auto simp: strip_def dropWhile_append)

lemma break_length_snoc:
  assumes "is_space c" and "s \<noteq> []" and "\<not> (s = [carriage_return] \<and> c = line_feed)"
  shows "break_length (s @ [c]) = break_length s"
proof -
  have "c \<notin> {CHR 0x85, CHR 0x80, CHR 0xA8, CHR 0xA9}"
    using assms(1) by (auto simp: is_space_def ord_of_def)
  with assms(2,3) show ?thesis
    by (auto simp: break_length_def split: list.split)
qed

lemma directives_snoc:
  assumes "is_space c"
  shows "directives (lines_from cur (s @ [c])) = directives (lines_from cur s)"
proof (induction cur s rule: lines_from.induct)
  case (1 cur s)
  have empty: "directives [[]] = []" by (simp add: directives_def strip_def)
  have line: "directives [x @ [c]] = directives [x]" for x
    by (simp add: directives_def strip_snoc [OF assms])
  show ?case
  proof (cases s)
    case Nil
    then show ?thesis
      using line [of "rev cur"] empty
      by (subst lines_from.simps) (auto simp: break_length_def)
  next
    case (Cons a as)
    consider (crlf) "s = [carriage_return]" "c = line_feed" | (same) "break_length (s @ [c]) = break_length s"
      using break_length_snoc [OF assms, of s] Cons by auto
    then show ?thesis
    proof cases
      case crlf
      then show ?thesis
        by (simp add: lines_from_break break_length_def single_break_def carriage_return_def line_feed_def ord_of_def)
    next
      case same
      show ?thesis
      proof (cases "break_length s = 0")
        case True
        with same 1(1) [OF Cons True] show ?thesis by (simp add: Cons lines_from_line)
      next
        case False
        then have "lines_from cur s = rev cur # lines_from [] (drop (break_length s) s)"
          and "lines_from cur (s @ [c]) = rev cur # lines_from [] (drop (break_length s) s @ [c])"
          using same break_length_le [of s] by (simp_all add: lines_from_break [of s] lines_from_break [of "s @ [c]"])
        with directives_Cons [OF 1(2) [OF Cons False]] show ?thesis by simp
      qed
    qed
  qed
qed

lemma directives_rstrip: "directives (splitlines (rstrip s)) = directives (splitlines s)"
proof (induction s rule: rev_induct)
  case (snoc c s)
  then show ?case
    by (cases "is_space c") (simp_all add: rstrip_def splitlines_def directives_snoc)
qed (simp add: rstrip_def)

lemma rstrip_end: "rstrip s = [] \<or> \<not> is_space (last (rstrip s))"
  using hd_dropWhile [of is_space "rev s"] by (auto simp: rstrip_def last_rev split: list.splits)

text \<open>A line without boundaries, and the text after it.\<close>

definition plain_line :: "string \<Rightarrow> bool" where
  "plain_line s \<longleftrightarrow> s \<noteq> [] \<and> list_all (\<lambda>c. 32 \<le> ord_of c \<and> ord_of c < 127) s \<and>
     \<not> is_space (hd s) \<and> \<not> is_space (last s)"

lemma splitlines_Nil: "splitlines [] = []"
  by (simp add: splitlines_def)

lemma directives_before_LF:
  assumes "s = [] \<or> last s \<noteq> carriage_return"
  shows "directives (splitlines (s @ line_feed # t)) = directives (splitlines s) @ directives (splitlines t)"
proof -
  have "is_space line_feed" by (simp add: is_space_def line_feed_def ord_of_def)
  from directives_snoc [OF this, of "[]" s] show ?thesis
    by (simp add: splitlines_def lines_from_before_LF [OF assms, of "[]" t])
qed

lemma break_length_plain: "32 \<le> ord_of c \<Longrightarrow> ord_of c < 127 \<Longrightarrow> break_length (c # cs) = 0"
  by (auto simp: break_length_def single_break_def carriage_return_def ord_of_def)

lemma lines_from_plain:
  "list_all (\<lambda>c. 32 \<le> ord_of c \<and> ord_of c < 127) s \<Longrightarrow> lines_from cur s = lines_from (rev s @ cur) []"
  by (induction s arbitrary: cur) (simp_all add: lines_from_line break_length_plain del: lines_from_Nil)

lemma strip_trimmed:
  assumes "s \<noteq> []" and "\<not> is_space (hd s)" and "\<not> is_space (last s)"
  shows "strip s = s"
proof -
  have "dropWhile is_space s = s" using assms by (cases s) simp_all
  moreover have "dropWhile is_space (rev s) = rev s"
  proof (cases "rev s")
    case (Cons c cs)
    then have "c = last s" by (metis hd_rev list.sel(1))
    with Cons assms(3) show ?thesis by (metis dropWhile.simps(2))
  qed simp
  ultimately show ?thesis by (simp add: strip_def)
qed

lemma strip_plain: "plain_line s \<Longrightarrow> strip s = s"
  by (simp add: plain_line_def strip_trimmed)

lemma directives_plain: "plain_line s \<Longrightarrow> directives (splitlines s) = (if starts_with ''#'' s then [] else [s])"
  by (simp add: splitlines_def lines_from_plain plain_line_def directives_def strip_plain [unfolded plain_line_def])

subsection \<open>The rendered permissions\<close>

lemma grants_of_append:
  "starts_with ''user '' l \<Longrightarrow> grants_of user (ds @ l # es) = grants_of user ds @ grants_of (Some (drop 5 l)) es"
  by (induction ds arbitrary: user) simp_all

lemma scan_base_grants:
  assumes "scan_base user seen lines = Inr ()"
  shows "None \<notin> fst ` set (grants_of user (directives lines))"
  using assms
proof (induction user seen lines rule: scan_base.induct)
  case (2 user seen line rest)
  have split: "directives (line # rest) =
      (if strip line = [] \<or> starts_with ''#'' (strip line) then directives rest else strip line # directives rest)"
    by (simp add: directives_def)
  show ?case
    using 2 by (auto simp: split Let_def split: if_splits)
qed simp

lemma user_has_line: "(Some u, g) \<in> set (grants_of user ds) \<Longrightarrow> user \<noteq> Some u \<Longrightarrow> ''user '' @ u \<in> set ds"
proof (induction ds arbitrary: user)
  case (Cons l ds)
  show ?case
  proof (cases "starts_with ''user '' l")
    case True
    then have "take 5 l = ''user ''" by (simp add: starts_with_def eval_nat_numeral)
    then have "l = ''user '' @ drop 5 l" using append_take_drop_id [of 5 l] by metis
    with Cons True show ?thesis by (cases "drop 5 l = u") auto
  qed (use Cons in auto)
qed simp

lemma id_char_plain: "is_id_char c \<Longrightarrow> 32 \<le> ord_of c \<and> ord_of c < 127 \<and> \<not> is_space c"
  by (auto simp: char_class_defs is_space_def)

lemma topic_id_plain: "topic_id s \<Longrightarrow> s \<noteq> [] \<and> list_all is_id_char s"
  by (auto simp: topic_id_def id_pattern_def is_id_char_def split: list.splits)

lemma plain_before_LF:
  assumes "plain_line p"
  shows "directives (splitlines (p @ line_feed # t)) = (if starts_with ''#'' p then [] else [p]) @ directives (splitlines t)"
proof -
  have "is_space carriage_return" by (simp add: is_space_def carriage_return_def ord_of_def)
  with assms have "last p \<noteq> carriage_return" by (auto simp: plain_line_def)
  then show ?thesis by (simp add: directives_before_LF directives_plain [OF assms])
qed

lemma topic_id_chars: "topic_id s \<Longrightarrow> list_all (\<lambda>c. 32 \<le> ord_of c \<and> ord_of c < 127) s"
  using topic_id_plain [of s] id_char_plain by (auto simp: list_all_iff)

lemma plain_marker: "plain_line MARKER"
  by (simp add: plain_line_def MARKER_def ord_of_def is_space_def)

lemma plain_user: "topic_id d \<Longrightarrow> plain_line (''user '' @ account d)"
  using topic_id_plain [of d] topic_id_chars [of d] id_char_plain [of "last d"]
  by (simp add: account_def plain_line_def ord_of_def is_space_def list_all_iff)

lemma plain_topic:
  assumes "topic_id h" and "topic_id d" and "k \<in> {''set'', ''ack'', ''state'', ''status''}" and "v \<in> {''read '', ''write ''}"
  shows "plain_line (''topic '' @ v @ ''kzhome/v1/'' @ h @ ''/'' @ d @ ''/'' @ k)"
  using assms topic_id_chars [of h] topic_id_chars [of d]
  by (elim insertE emptyE) (simp_all add: plain_line_def ord_of_def is_space_def)

lemma directives_granted:
  assumes "topic_id h" and "topic_id d"
  shows "directives (splitlines (granted_text (account d) h d)) =
    [''user '' @ account d,
     ''topic read kzhome/v1/'' @ h @ ''/'' @ d @ ''/set'', ''topic write kzhome/v1/'' @ h @ ''/'' @ d @ ''/ack'',
     ''topic write kzhome/v1/'' @ h @ ''/'' @ d @ ''/state'', ''topic write kzhome/v1/'' @ h @ ''/'' @ d @ ''/status'']"
proof -
  note topics = plain_before_LF [OF plain_topic [OF assms], simplified]
  show ?thesis
    using plain_before_LF [OF plain_marker] plain_before_LF [OF plain_user [OF assms(2)]]
      topics [of "''set''" "''read ''"] topics [of "''ack''" "''write ''"]
      topics [of "''state''" "''write ''"] topics [of "''status''" "''write ''"]
    by (simp add: splitlines_Nil granted_text_def Let_def starts_with_def MARKER_def)
qed

lemma render_acl_Inr:
  "render_acl base h d = Inr acl \<longleftrightarrow> topic_id h \<and> topic_id d \<and> scan_base None [] (splitlines base) = Inr () \<and>
     \<not> contains MARKER base \<and> (\<forall>line\<in>set (splitlines base). strip line \<noteq> ''user '' @ account d) \<and>
     acl = rstrip base @ [line_feed, line_feed] @ granted_text (account d) h d"
  by (auto simp: render_acl_def acl_identity_def list_ex_iff ebind_Inr_iff)

lemma directives_rendered:
  assumes "render_acl base h d = Inr acl"
  shows "directives (splitlines acl) = directives (splitlines base) @ directives (splitlines (granted_text (account d) h d))"
proof -
  have "is_space carriage_return" by (simp add: is_space_def carriage_return_def ord_of_def)
  then have "rstrip base = [] \<or> last (rstrip base) \<noteq> carriage_return" using rstrip_end [of base] by auto
  from directives_before_LF [OF this, of "line_feed # granted_text (account d) h d"]
    directives_before_LF [of "[]" "granted_text (account d) h d"] assms
  show ?thesis
    by (simp add: render_acl_Inr directives_rstrip splitlines_Nil)
qed

lemma starts_with_simps [simp]:
  "starts_with [] s" "starts_with (c # p) (x # s) \<longleftrightarrow> c = x \<and> starts_with p s"
  by (auto simp: starts_with_def)

lemma grants_rendered:
  assumes "render_acl base h d = Inr acl"
  shows "acl_grants acl = acl_grants base @ map (Pair (Some (account d)))
    [''topic read kzhome/v1/'' @ h @ ''/'' @ d @ ''/set'', ''topic write kzhome/v1/'' @ h @ ''/'' @ d @ ''/ack'',
     ''topic write kzhome/v1/'' @ h @ ''/'' @ d @ ''/state'', ''topic write kzhome/v1/'' @ h @ ''/'' @ d @ ''/status'']"
proof -
  have ids: "topic_id h" "topic_id d" using assms by (simp_all add: render_acl_Inr)
  show ?thesis
    by (simp add: acl_grants_def directives_rendered [OF assms] directives_granted [OF ids] grants_of_append)
qed

lemma base_spares_device:
  assumes "render_acl base h d = Inr acl"
  shows "(Some (account d), g) \<notin> set (acl_grants base)"
proof
  assume "(Some (account d), g) \<in> set (acl_grants base)"
  from user_has_line [OF this [unfolded acl_grants_def]]
  have "''user '' @ account d \<in> set (directives (splitlines base))" by simp
  then have "\<exists>line\<in>set (splitlines base). strip line = ''user '' @ account d"
    by (auto simp: directives_def)
  with assms show False by (simp add: render_acl_Inr)
qed

text \<open>
  C30. A commissioned relay is confined to its own topics: when the permissions for a bound device
  can be rendered, a broker that reads them lets the device's account read exactly its command topic
  and write exactly its acknowledgement, state and status topics, gives every other account exactly
  the rights of the base file in the same order, and gives no right to an unnamed account.
\<close>

theorem acl_confines_device:
  assumes "render_acl base h d = Inr acl"
  shows "\<exists>t. (\<forall>k. build_topic h d k = Inr (t k)) \<and>
    filter (\<lambda>(u, _). u = Some (account d)) (acl_grants acl) =
      map (Pair (Some (account d)))
        [''topic read '' @ t SET, ''topic write '' @ t ACK, ''topic write '' @ t STATE, ''topic write '' @ t STATUS] \<and>
    filter (\<lambda>(u, _). u \<noteq> Some (account d)) (acl_grants acl) = acl_grants base \<and>
    None \<notin> fst ` set (acl_grants acl)"
proof (intro exI conjI)
  have ids: "valid_identifier h" "valid_identifier d"
    using assms by (auto simp: render_acl_Inr topic_id_def valid_identifier_def id_pattern_def)
  show "\<forall>k. build_topic h d k = Inr (TOPIC_ROOT @ ''/'' @ h @ ''/'' @ d @ ''/'' @ kind_value k)"
    using ids by (simp add: build_topic_Inr)
  have none: "filter (\<lambda>(u, _). u = Some (account d)) (acl_grants base) = []"
    and all: "filter (\<lambda>(u, _). u \<noteq> Some (account d)) (acl_grants base) = acl_grants base"
    using base_spares_device [OF assms] by (auto simp: filter_empty_conv filter_id_conv)
  show "filter (\<lambda>(u, _). u = Some (account d)) (acl_grants acl) = map (Pair (Some (account d)))
      [''topic read '' @ TOPIC_ROOT @ ''/'' @ h @ ''/'' @ d @ ''/'' @ kind_value SET,
       ''topic write '' @ TOPIC_ROOT @ ''/'' @ h @ ''/'' @ d @ ''/'' @ kind_value ACK,
       ''topic write '' @ TOPIC_ROOT @ ''/'' @ h @ ''/'' @ d @ ''/'' @ kind_value STATE,
       ''topic write '' @ TOPIC_ROOT @ ''/'' @ h @ ''/'' @ d @ ''/'' @ kind_value STATUS]"
    by (simp add: grants_rendered [OF assms] none TOPIC_ROOT_def PROTOCOL_VERSION_def)
  show "filter (\<lambda>(u, _). u \<noteq> Some (account d)) (acl_grants acl) = acl_grants base"
    by (simp add: grants_rendered [OF assms] all)
  have "scan_base None [] (splitlines base) = Inr ()" using assms by (simp add: render_acl_Inr)
  from scan_base_grants [OF this] have "None \<notin> fst ` set (acl_grants base)" by (simp add: acl_grants_def)
  then show "None \<notin> fst ` set (acl_grants acl)" by (simp add: grants_rendered [OF assms])
qed

subsection \<open>Writing the file\<close>

lemma universal_newlines_id: "carriage_return \<notin> set s \<Longrightarrow> universal_newlines s = s"
  by (induction s) auto

lemma set_rstrip: "set (rstrip s) \<subseteq> set s"
  by (auto simp: rstrip_def dest: set_dropWhileD)

lemma topic_id_no_return: "topic_id s \<Longrightarrow> carriage_return \<notin> set s"
proof
  assume "topic_id s" and "carriage_return \<in> set s"
  then have "32 \<le> ord_of carriage_return" using topic_id_chars [of s] by (simp add: list_all_iff)
  then show False by (simp add: carriage_return_def ord_of_def)
qed

lemma rendered_newlines:
  assumes "render_acl base h d = Inr acl" and "carriage_return \<notin> set base"
  shows "universal_newlines acl = acl" and "universal_newlines (baseline base) = baseline base"
proof -
  have "carriage_return \<notin> set (rstrip base)" using set_rstrip assms(2) by blast
  moreover have "carriage_return \<notin> set h" "carriage_return \<notin> set d"
    using assms(1) topic_id_no_return by (auto simp: render_acl_Inr)
  ultimately show "universal_newlines acl = acl" and "universal_newlines (baseline base) = baseline base"
    using assms(1)
    by (auto intro!: universal_newlines_id simp: render_acl_Inr baseline_def granted_text_def Let_def
        MARKER_def account_def carriage_return_def line_feed_def)
qed

lemma replace_acl_outcome:
  assumes "replace_acl io desired f = (r, g)"
  shows "da_linked g = da_linked f \<and>
    (case r of Inl _ \<Rightarrow> da_acl g = da_acl f | Inr _ \<Rightarrow> da_acl g = Some desired)"
  using assms
  by (auto simp: replace_acl_def on_disk_def remove_temporary_def finally_do_def op_defs split: if_splits)

lemma read_acl_apply: "read_acl io f = (case da_acl f of
      None \<Rightarrow> (Inr None, f)
    | Some text \<Rightarrow> if io Read_acl then (Inr (Some (universal_newlines text)), f) else (Inl OSError, f))"
  by (simp add: read_acl_def on_disk_def op_defs split: option.split)

definition intended :: "string \<Rightarrow> string \<Rightarrow> string \<Rightarrow> string" where
  "intended base rendered action = (if action = ''revoke'' then baseline base else rendered)"

text \<open>The command from the moment the current content is known.\<close>

definition apply_action :: "(acl_io \<Rightarrow> bool) \<Rightarrow> string \<Rightarrow> string \<Rightarrow> string \<Rightarrow> string option \<Rightarrow> (acl_disk, unit) op" where
  "apply_action io base rendered action current =
     andthen (reject (current \<noteq> None \<and> current \<notin> {Some (baseline base), Some rendered}) ValueError)
       (if action = ''check'' then reject (current \<noteq> Some (intended base rendered action)) ValueError
        else if current = Some (intended base rendered action) then ret ()
        else replace_acl io (intended base rendered action))"

lemma prepare_acl_apply:
  assumes "render_acl base h d = Inr rendered" and "action \<in> {''grant'', ''check'', ''revoke''}" and "\<not> da_linked f"
  shows "prepare_acl io base h d action f =
    (case read_acl io f of (Inl e, g) \<Rightarrow> (Inl e, g) | (Inr current, g) \<Rightarrow> apply_action io base rendered action current g)"
  using assms
  by (auto simp: prepare_acl_def apply_action_def intended_def bnd_lift_apply Let_def bnd_def [of "read_acl io"]
      split: prod.split sum.split)

lemma apply_action_Inr:
  assumes "apply_action io base rendered action current f = (Inr u, g)"
  shows "current \<in> {None, Some (baseline base), Some rendered} \<and>
    (current = Some (intended base rendered action) \<and> g = f \<or>
     action \<noteq> ''check'' \<and> da_acl g = Some (intended base rendered action) \<and> da_linked g = da_linked f)"
  using assms replace_acl_outcome [of io "intended base rendered action" f "Inr u" g]
  unfolding apply_action_def andthen_reject_apply
  by (cases "action = ''check''"; cases "current = Some (intended base rendered action)")
    (simp_all split: if_splits)

lemma prepare_acl_Inr:
  assumes "prepare_acl io base h d action f = (Inr (), g)"
  obtains rendered where "render_acl base h d = Inr rendered" "action \<in> {''grant'', ''check'', ''revoke''}" "\<not> da_linked f"
  using assms by (cases "render_acl base h d") (auto simp: prepare_acl_def bnd_lift_apply andthen_reject_apply split: if_splits)

text \<open>
  The permission file is replaced whole or not at all: a run that fails leaves it as it was,
  whichever file operation failed and whatever it found. A run that succeeds leaves exactly the
  permissions of the action, has met no file but the one without or with the device's rights, has
  changed nothing when it only checks, and can be repeated without touching the disk.
\<close>

theorem acl_prepared_atomically:
  assumes "carriage_return \<notin> set base" and run: "prepare_acl io base h d action f = (r, g)"
  shows "case r of
      Inl _ \<Rightarrow> da_acl g = da_acl f
    | Inr _ \<Rightarrow> \<exists>rendered. render_acl base h d = Inr rendered \<and>
        map_option universal_newlines (da_acl g) = Some (intended base rendered action) \<and>
        (da_acl g = da_acl f \<or> da_acl g = Some (intended base rendered action)) \<and>
        map_option universal_newlines (da_acl f) \<in> {None, Some (baseline base), Some rendered} \<and>
        (action = ''check'' \<longrightarrow> g = f) \<and>
        (\<forall>io'. io' Read_acl \<longrightarrow> prepare_acl io' base h d action g = (Inr (), g))"
proof (cases "\<exists>rendered. render_acl base h d = Inr rendered \<and> action \<in> {''grant'', ''check'', ''revoke''} \<and> \<not> da_linked f")
  case False
  have "r \<noteq> Inr ()" using False run by (metis prepare_acl_Inr)
  moreover have "da_acl g = da_acl f"
    using False run
    by (cases "render_acl base h d") (auto simp: prepare_acl_def bnd_lift_apply andthen_reject_apply split: if_splits)
  ultimately show ?thesis by (cases r) auto
next
  case True
  then obtain rendered where G: "render_acl base h d = Inr rendered"
    and A: "action \<in> {''grant'', ''check'', ''revoke''}" and L: "\<not> da_linked f" by blast
  let ?want = "intended base rendered action"
  have same: "universal_newlines ?want = ?want"
    using rendered_newlines [OF G assms(1)] by (simp add: intended_def)
  show ?thesis
  proof (cases r)
    case (Inl e)
    then show ?thesis
      using run prepare_acl_apply [OF G A L, of io] replace_acl_outcome [of io ?want f "Inl e" g]
      by (auto simp: read_acl_apply apply_action_def andthen_reject_apply op_defs split: option.splits if_splits)
  next
    case (Inr u)
    obtain current where c: "current = map_option universal_newlines (da_acl f)"
      and a: "apply_action io base rendered action current f = (Inr u, g)"
      using run prepare_acl_apply [OF G A L, of io] unfolding Inr read_acl_apply
      by (cases "da_acl f") (simp_all split: if_splits)
    have met: "map_option universal_newlines (da_acl f) \<in> {None, Some (baseline base), Some rendered}"
      using apply_action_Inr [OF a] unfolding c by blast
    consider (kept) "current = Some ?want" "g = f"
      | (written) "action \<noteq> ''check''" "da_acl g = Some ?want" "da_linked g = da_linked f"
      using apply_action_Inr [OF a] by blast
    then have out: "map_option universal_newlines (da_acl g) = Some ?want \<and> (da_acl g = da_acl f \<or> da_acl g = Some ?want) \<and>
        (action = ''check'' \<longrightarrow> g = f) \<and> da_linked g = da_linked f"
    proof cases
      case kept
      show ?thesis using kept(1) [unfolded c] unfolding kept(2) by blast
    next
      case written
      then show ?thesis using same by simp
    qed
    then have "\<forall>io'. io' Read_acl \<longrightarrow> prepare_acl io' base h d action g = (Inr (), g)"
      using L by (auto simp: prepare_acl_apply [OF G A] read_acl_apply apply_action_def intended_def)
    with out met G Inr show ?thesis by auto
  qed
qed

subsection \<open>Witnesses\<close>

definition ex_base :: string where
  "ex_base = ''user kzhome-core'' @ [line_feed] @ ''topic read kzhome/v1/+/+/state'' @ [line_feed]"

definition ex_rendered :: "exn + string" where
  "ex_rendered = render_acl ex_base ''h1'' ''relay1''"

definition ex_disk :: acl_disk where
  "ex_disk = \<lparr>da_linked = False, da_acl = None, da_temporary = None\<rparr>"

lemma ex_rendered_ok: "is_ok ex_rendered"
  by code_simp

lemma ex_prepared: "fst (prepare_acl (\<lambda>_. True) ex_base ''h1'' ''relay1'' ''grant'' ex_disk) = Inr ()"
  by code_simp

theorem acl_confines_device_witness: "\<exists>acl. ex_rendered = Inr acl \<and> None \<notin> fst ` set (acl_grants acl)"
proof -
  obtain acl where acl: "ex_rendered = Inr acl" using ex_rendered_ok unfolding is_ok_def by (auto split: sum.splits)
  from acl_confines_device [OF acl [unfolded ex_rendered_def]] acl show ?thesis by blast
qed

theorem acl_prepared_atomically_witness:
  "\<exists>g. prepare_acl (\<lambda>_. True) ex_base ''h1'' ''relay1'' ''grant'' ex_disk = (Inr (), g) \<and>
    prepare_acl (\<lambda>_. True) ex_base ''h1'' ''relay1'' ''grant'' g = (Inr (), g)"
proof -
  obtain g where g: "prepare_acl (\<lambda>_. True) ex_base ''h1'' ''relay1'' ''grant'' ex_disk = (Inr (), g)"
    using ex_prepared by (metis prod.collapse)
  have "carriage_return \<notin> set ex_base" by (simp add: ex_base_def carriage_return_def line_feed_def)
  from acl_prepared_atomically [OF this g, unfolded sum.case] have "\<forall>io'. io' Read_acl \<longrightarrow>
      prepare_acl io' ex_base ''h1'' ''relay1'' ''grant'' g = (Inr (), g)" by blast
  from spec [OF this, of "\<lambda>_. True"] g show ?thesis by blast
qed

end
