(* ===== verification/Demo.thy ===== *)
theory Demo
  imports Acl
begin

text \<open>
  \<open>deploy/demo.py\<close>: the orchestration of a demo installation. The host is a record of answers:
  \<open>ho_fault n\<close> is the exception of the n-th operation on the host (a Docker or git command, a file
  operation; they are counted across runs), if it has one, and the other fields are what Docker, git
  and the file system answer to the n-th operation. A demo is its directory, the images and the calls of
  \<open>docker compose\<close> so far, and the memory of the process. A \<open>DemoError\<close> is a \<open>ValueError\<close>.
\<close>

subsection \<open>State\<close>

type_synonym vars = "(string \<times> string) list"

text \<open>\<open>state.json\<close>; a file of the directory is a private text, that file, or \<open>compose.env\<close>.\<close>

record metadata =
  md_version :: int
  md_project :: string
  md_env :: vars
  md_password :: string
  md_web_source :: string
  md_web_revision :: string
  md_identity :: "(string \<times> string) option"

datatype content = Private string | Metadata metadata | Variables vars

record plan =
  pl_project :: string
  pl_identity :: "string \<times> string"
  pl_target :: metadata
  pl_previous :: metadata
  pl_backed_up :: bool
  pl_images :: vars
  pl_backup :: string
  pl_private :: vars

record backup =
  bk_files :: "(string \<times> content) list"
  bk_manifest :: "(string \<times> vars) option"

record demo =
  dm_project :: string
  dm_path :: string
  dm_state :: "metadata option"
  dm_env :: vars
  dk_directory :: bool
  dk_files :: "(string \<times> content) list"
  dk_linked :: "string list"
  dk_pending :: "plan option"
  dk_history :: "plan list"
  dk_backups :: "(string \<times> backup) list"
  dk_contexts :: "(string \<times> string list) list"
  dd_images :: vars
  dd_calls :: "(vars \<times> string list) list"
  dd_steps :: nat

text \<open>What \<open>docker compose config\<close> and \<open>docker inspect\<close> report, as far as the code reads it.\<close>

record service =
  sv_environment :: vars
  sv_ports :: "string list"
  sv_named :: bool
  sv_privileged :: bool
  sv_image :: string

record resource =
  re_external :: bool
  re_name :: string

record compose_config =
  cc_services :: "(string \<times> service) list"
  cc_volumes :: "(string \<times> resource) list"
  cc_networks :: "(string \<times> resource) list"

record container =
  ct_labels :: vars
  ct_env :: "string list"
  ct_image :: string
  ct_running :: bool
  ct_mounts :: "(string \<times> string \<times> string) list"

record web_checkout =
  wb_path :: string
  wb_is_core :: bool
  wb_is_directory :: bool
  wb_files :: "string list"
  wb_is_root :: bool
  wb_status :: string
  wb_tracked :: "string list"
  wb_escaping :: "string list"
  wb_head :: string

record host =
  ho_fault :: "nat \<Rightarrow> exn option"
  ho_environ :: vars
  ho_output :: "nat \<Rightarrow> string list \<Rightarrow> string"
  ho_config :: "nat \<Rightarrow> vars \<Rightarrow> compose_config"
  ho_volume :: "nat \<Rightarrow> string \<Rightarrow> string option option"
  ho_container :: "nat \<Rightarrow> string \<Rightarrow> container option"
  ho_image :: "nat \<Rightarrow> string \<Rightarrow> string"
  ho_built :: "nat \<Rightarrow> string \<Rightarrow> string"
  ho_http :: "nat \<Rightarrow> string \<Rightarrow> nat"
  ho_uuid :: "nat \<Rightarrow> string"
  ho_tracked :: "nat \<Rightarrow> string list"
  ho_source :: "string \<Rightarrow> string option"
  ho_sha :: "string \<Rightarrow> string"
  ho_digest :: "content \<Rightarrow> string"
  ho_resolve :: "string \<Rightarrow> string"
  ho_locked :: bool

subsection \<open>The host\<close>

definition host_step :: "host \<Rightarrow> (demo, nat) op" where
  "host_step H =
     bnd (gets dd_steps) (\<lambda>n.
     andthen (modify (dd_steps_update (\<lambda>_. Suc n)))
     (case ho_fault H n of Some e \<Rightarrow> raise e | None \<Rightarrow> ret n))"

definition merge_vars :: "vars \<Rightarrow> vars \<Rightarrow> vars" where
  "merge_vars old new = foldl (\<lambda>env (k, v). aput k v env) old new"

text \<open>\<open>Demo.load\<close>: the environment of the compose calls.\<close>

definition process_vars :: "vars \<Rightarrow> string \<Rightarrow> vars \<Rightarrow> vars" where
  "process_vars environ project env =
     apop ''COMPOSE_PROFILES'' (apop ''COMPOSE_FILE''
       (aput ''COMPOSE_PROJECT_NAME'' project (merge_vars environ env)))"

definition load_demo :: "host \<Rightarrow> (demo, unit) op" where
  "load_demo H =
     bnd (gets dk_directory) (\<lambda>directory.
     bnd (gets (\<lambda>d. alookup ''state.json'' (dk_files d))) (\<lambda>file.
     andthen (reject (directory \<and> file = None) ValueError)
     (bnd (host_step H) (\<lambda>_.
     case file of
       Some (Metadata m) \<Rightarrow>
         andthen (modify (dm_state_update (\<lambda>_. Some m)))
         (bnd (gets dm_project) (\<lambda>project.
         andthen (reject (md_project m \<noteq> project \<or> md_version m \<noteq> 14) ValueError)
         (modify (dm_env_update (\<lambda>_. process_vars (ho_environ H) project (md_env m))))))
     | _ \<Rightarrow> raise OSError))))"

definition loaded :: "host \<Rightarrow> (demo, metadata) op" where
  "loaded H =
     andthen (bnd (gets dm_state) (\<lambda>s. if s = None then load_demo H else ret ()))
     (bnd (gets dm_state) (\<lambda>s. case s of None \<Rightarrow> raise OSError | Some m \<Rightarrow> ret m))"

text \<open>\<open>Demo.dc\<close>: a call is on record as soon as it is made; its number selects the answer.\<close>

definition compose :: "host \<Rightarrow> string list \<Rightarrow> (demo, nat) op" where
  "compose H args =
     bnd (loaded H) (\<lambda>m.
     andthen (reject (alookup ''DEMO_PLATFORM'' (md_env m) = None) KeyError)
     (andthen (modify (\<lambda>d. d\<lparr>dd_calls := dd_calls d @ [(dm_env d, args)]\<rparr>))
     (host_step H)))"

definition compose_output :: "host \<Rightarrow> string list \<Rightarrow> (demo, string) op" where
  "compose_output H args = bnd (compose H args) (\<lambda>n. ret (ho_output H n args))"

subsection \<open>Isolation\<close>

definition project_resource :: "string \<Rightarrow> string \<Rightarrow> resource \<Rightarrow> bool" where
  "project_resource project key r \<longleftrightarrow> \<not> re_external r \<and> re_name r = project @ ''_'' @ key"

definition guard_volume :: "host \<Rightarrow> string \<Rightarrow> string \<times> resource \<Rightarrow> (demo, unit) op" where
  "guard_volume H project = (\<lambda>(key, volume).
     andthen (reject (\<not> project_resource project key volume) ValueError)
     (bnd (host_step H) (\<lambda>n.
     case ho_volume H n (project @ ''_'' @ key) of
       None \<Rightarrow> ret ()
     | Some label \<Rightarrow> reject (label \<noteq> Some project) ValueError)))"

definition ports_ok :: "compose_config \<Rightarrow> exn + unit" where
  "ports_ok cfg =
     (let ports = (\<lambda>name. case alookup name (cc_services cfg) of None \<Rightarrow> Inl KeyError | Some s \<Rightarrow> Inr (sv_ports s)) in
      ebind (ports ''postgres'') (\<lambda>p1. seq (check (p1 = []) ValueError)
      (ebind (ports ''mosquitto'') (\<lambda>p2. seq (check (p2 = []) ValueError)
      (ebind (ports ''core'') (\<lambda>p3. seq (check (list_all (\<lambda>ip. ip = ''127.0.0.1'') p3) ValueError)
      (ebind (ports ''proxy'') (\<lambda>p4. check (list_all (\<lambda>ip. ip = ''127.0.0.1'') p4) ValueError))))))))"

definition config_json :: "string list" where
  "config_json = [''config'', ''--format'', ''json'']"

definition configured :: "host \<Rightarrow> (demo, compose_config) op" where
  "configured H = bnd (compose H config_json) (\<lambda>n. bnd (gets dm_env) (\<lambda>env. ret (ho_config H n env)))"

definition guard_demo :: "host \<Rightarrow> (demo, unit) op" where
  "guard_demo H =
     bnd (configured H) (\<lambda>cfg.
     bnd (gets dm_project) (\<lambda>project.
     andthen (for_each (guard_volume H project) (cc_volumes cfg))
     (lift (ports_ok cfg))))"

subsection \<open>The Web checkout\<close>

definition web_required :: "string list" where
  "web_required = [''package.json'', ''package-lock.json'', ''index.html'']"

definition check_web :: "host \<Rightarrow> web_checkout \<Rightarrow> (demo, string list) op" where
  "check_web H web =
     andthen (reject (wb_is_core web \<or> \<not> wb_is_directory web) ValueError)
     (andthen (reject (\<not> list_all (\<lambda>name. name \<in> set (wb_files web)) web_required) ValueError)
     (andthen (void (host_step H))
     (andthen (reject (\<not> wb_is_root web) ValueError)
     (andthen (void (host_step H))
     (andthen (reject (wb_status web \<noteq> []) ValueError)
     (andthen (void (host_step H))
     (andthen (reject (\<not> list_all (\<lambda>name. name \<in> set (wb_tracked web)) web_required) ValueError)
     (ret (filter (\<lambda>name. name \<noteq> []) (wb_tracked web))))))))))"

text \<open>A tracked file is copied unless a part of its path starts with \<open>.env\<close>.\<close>

definition private_name :: "string \<Rightarrow> bool" where
  "private_name name \<longleftrightarrow> list_ex (starts_with ''.env'') (split_on (CHR ''/'') name)"

primrec stage_files :: "host \<Rightarrow> web_checkout \<Rightarrow> string \<Rightarrow> string list \<Rightarrow> (demo, unit) op" where
  "stage_files H web target [] = ret ()"
| "stage_files H web target (name # names) =
     andthen (reject (name \<in> set (wb_escaping web)) ValueError)
     (andthen
       (if private_name name then ret ()
        else bnd (host_step H) (\<lambda>_. modify (\<lambda>d. d\<lparr>dk_contexts :=
          aput target (dflt [] (alookup target (dk_contexts d)) @ [name]) (dk_contexts d)\<rparr>)))
     (stage_files H web target names))"

definition stage_web :: "host \<Rightarrow> web_checkout \<Rightarrow> string \<Rightarrow> (demo, string) op" where
  "stage_web H web target =
     bnd (check_web H web) (\<lambda>names.
     andthen (stage_files H web target names)
     (bnd (host_step H) (\<lambda>_.
     andthen (modify (\<lambda>d. d\<lparr>dk_contexts :=
       aput target (dflt [] (alookup target (dk_contexts d)) @ [''Dockerfile'']) (dk_contexts d)\<rparr>))
     (bnd (host_step H) (\<lambda>_. ret (wb_head web))))))"

subsection \<open>Names and the proxy\<close>

text \<open>\<open>kzhome-demo(?:-[a-z0-9]+)*\<close>.\<close>

definition valid_project :: "string \<Rightarrow> bool" where
  "valid_project project \<longleftrightarrow>
     project = ''kzhome-demo'' \<or>
     (starts_with ''kzhome-demo-'' project \<and>
      list_all (\<lambda>part. part \<noteq> [] \<and> list_all (\<lambda>c. is_digit c \<or> is_lower c) part)
        (split_on (CHR ''-'') (drop 12 project)))"

text \<open>\<open>str.replace\<close>: from left to right, without overlap.\<close>

fun replace_text :: "string \<Rightarrow> string \<Rightarrow> nat \<Rightarrow> string \<Rightarrow> string" where
  "replace_text old new skip [] = []"
| "replace_text old new (Suc skip) (c # cs) = replace_text old new skip cs"
| "replace_text old new 0 (c # cs) =
     (if old \<noteq> [] \<and> starts_with old (c # cs) then new @ replace_text old new (length old - 1) cs
      else c # replace_text old new 0 cs)"

definition slashes :: "string \<Rightarrow> string" where
  "slashes s = replace_text [CHR 0x5C] ''/'' 0 s"

definition proxy_config :: "string \<Rightarrow> exn + string" where
  "proxy_config source =
     (if \<not> contains ''listen 443 ssl;'' source \<or> \<not> contains ''proxy_pass http://kzhome_core/;'' source then Inl ValueError
      else Inr (replace_text ''X-Forwarded-Proto https;'' ''X-Forwarded-Proto http;'' 0
        (replace_text ''listen 443 ssl;'' ''listen 8080;'' 0
          (join_with line_feed (filter (\<lambda>line. \<not> starts_with ''ssl_'' (strip line)) (splitlines source))))
        @ [line_feed]))"

subsection \<open>Running the demo\<close>

definition hex64 :: "string \<Rightarrow> bool" where
  "hex64 value = matches_n is_hex_char 64 value"

definition psql :: "string \<Rightarrow> string list" where
  "psql statement = [''exec'', ''-T'', ''postgres'', ''psql'', ''-U'', ''postgres'', ''-d'', ''kzhome'', ''-Atc'', statement]"

definition role_query :: string where
  "role_query = ''SELECT 1 FROM pg_roles WHERE rolname='' @ [CHR 0x27] @ ''kzhome'' @ [CHR 0x27]"

definition migrate_args :: "string list" where
  "migrate_args = [''run'', ''--rm'', ''--no-deps'', ''-T'', ''core'', ''python'', ''-m'', ''alembic'', ''upgrade'', ''head'']"

definition bootstrap_args :: "string list" where
  "bootstrap_args = [''run'', ''--rm'', ''--no-deps'', ''-T'', ''core'', ''python'', ''-m'', ''app.demo'', ''bootstrap'']"

definition read_private :: "host \<Rightarrow> string \<Rightarrow> (demo, string) op" where
  "read_private H name =
     bnd (host_step H) (\<lambda>_.
     bnd (gets (\<lambda>d. alookup name (dk_files d))) (\<lambda>file.
     case file of Some (Private secret) \<Rightarrow> ret secret | _ \<Rightarrow> raise OSError))"

definition verify_page :: "host \<Rightarrow> string \<Rightarrow> (demo, unit) op" where
  "verify_page H page = bnd (host_step H) (\<lambda>n. reject (ho_http H n page \<noteq> 200) ValueError)"

definition verify_demo :: "host \<Rightarrow> (demo, unit) op" where
  "verify_demo H =
     andthen (guard_demo H)
     (andthen (bnd (loaded H) (\<lambda>m. reject (alookup ''DEMO_WEB_PORT'' (md_env m) = None) KeyError))
     (andthen (for_each (verify_page H) [''/'', ''/rooms/demo'', ''/core-api/health'', ''/core-api/ready''])
     (void (compose H [''ps'', ''-a'']))))"

definition bootstrap_database :: "host \<Rightarrow> (demo, unit) op" where
  "bootstrap_database H =
     andthen (guard_demo H)
     (andthen (void (read_private H ''user.json''))
     (void (compose H bootstrap_args)))"

definition create_role :: "host \<Rightarrow> (demo, unit) op" where
  "create_role H =
     bnd (compose_output H (psql role_query)) (\<lambda>existing.
     if existing = ''1'' then ret ()
     else
       bnd (loaded H) (\<lambda>m.
       andthen (reject (\<not> hex64 (md_password m)) ValueError)
       (void (compose H
         [''exec'', ''-T'', ''postgres'', ''psql'', ''-U'', ''postgres'', ''-d'', ''kzhome'', ''-v'', ''ON_ERROR_STOP=1'']))))"

definition start_demo :: "host \<Rightarrow> bool \<Rightarrow> (demo, unit) op" where
  "start_demo H build =
     andthen (guard_demo H)
     (andthen
       (if build then
          bnd (compose_output H [''ps'', ''-a'', ''-q'', ''core'']) (\<lambda>existing.
          andthen (reject (existing \<noteq> []) ValueError)
          (void (compose H [''build'', ''core'', ''proxy''])))
        else ret ())
     (andthen (void (compose H [''stop'', ''proxy'', ''core'']))
     (andthen (void (compose H [''up'', ''-d'', ''--wait'', ''postgres'', ''mosquitto'']))
     (andthen (create_role H)
     (andthen (void (compose H migrate_args))
     (andthen (bootstrap_database H)
     (andthen (void (compose H [''up'', ''-d'', ''--wait'', ''core'', ''proxy'']))
     (verify_demo H))))))))"

end
