(* ===== verification/Upgrade.thy ===== *)
theory Upgrade
  imports Demo
begin

text \<open>
  \<open>deploy/demo_upgrade.py\<close>: the forward-only upgrade of a prepared demo. Its checks, the backup
  and the plan in \<open>upgrade.pending.json\<close> from which an interrupted upgrade is resumed. A run of the
  command is a process with fresh memory over the directory and images the runs before it left.
\<close>

subsection \<open>The checks\<close>

definition PRIVATE :: "string list" where
  "PRIVATE = [''user.json'', ''simulation.json'', ''proxy.conf'', ''mqtt/ca.crt'', ''mqtt/ca.key'',
     ''mqtt/server.crt'', ''mqtt/server.key'', ''mqtt/passwords'', ''mqtt/acl'']"

definition kept_files :: "string list" where
  "kept_files = PRIVATE @ [''state.json'', ''compose.env'']"

definition source_name :: "string \<Rightarrow> bool" where
  "source_name name \<longleftrightarrow> name \<noteq> [] \<and>
     (list_ex (\<lambda>p. starts_with p name) [''app/'', ''simulator/'', ''deploy/'', ''alembic/''] \<or>
      name \<in> {''Dockerfile'', ''requirements.txt'', ''alembic.ini'', ''compose.production.yaml'',
        ''compose.demo.yaml'', ''compose.arm64.yaml''})"

fun insert_name :: "string \<Rightarrow> string list \<Rightarrow> string list" where
  "insert_name x [] = [x]"
| "insert_name x (y # ys) = (if str_lt x y then x # y # ys else if x = y then y # ys else y # insert_name x ys)"

text \<open>\<open>sorted(set(names))\<close> of the tracked source, each name with the bytes of its file.\<close>

definition source_text :: "(string \<Rightarrow> string option) \<Rightarrow> string list \<Rightarrow> string" where
  "source_text source names =
     concat (map (\<lambda>name. case source name of None \<Rightarrow> [] | Some bytes \<Rightarrow> name @ bytes)
       (filter source_name (foldr insert_name names [])))"

definition source_id :: "host \<Rightarrow> web_checkout \<Rightarrow> (demo, string \<times> string) op" where
  "source_id H web =
     bnd (host_step H) (\<lambda>n.
     bnd (host_step H) (\<lambda>_.
     ret (ho_sha H (source_text (ho_source H) (ho_tracked H n)), wb_head web)))"

definition database_url :: "string \<Rightarrow> string" where
  "database_url password = ''postgresql+psycopg://kzhome:'' @ password @ ''@postgres:5432/kzhome''"

definition expected_core :: "metadata \<Rightarrow> compose_config \<Rightarrow> exn + unit" where
  "expected_core m cfg =
     (case alookup ''core'' (cc_services cfg) of
        None \<Rightarrow> Inl KeyError
      | Some core \<Rightarrow>
          let get = (\<lambda>k. alookup k (sv_environment core)) in
          check (get ''DATABASE_URL'' = Some (database_url (md_password m)) \<and> get ''MQTT_TLS_ENABLED'' = Some ''true'' \<and>
            get ''MQTT_HOST'' = Some ''mosquitto'' \<and> get ''APP_ENV'' = Some ''production'') ValueError)"

definition expected_services :: "string \<Rightarrow> compose_config \<Rightarrow> exn + unit" where
  "expected_services project cfg =
     seq (check (set (map fst (cc_services cfg)) = {''core'', ''proxy'', ''postgres'', ''mosquitto''}) ValueError)
     (seq (check (list_all (\<lambda>(key, r). project_resource project key r) (cc_networks cfg)) ValueError)
     (check (list_all (\<lambda>(_, s). \<not> sv_named s \<and> \<not> sv_privileged s) (cc_services cfg)) ValueError))"

text \<open>\<open>entry.split("=", 1)\<close>; \<open>dict\<close> refuses an entry without the sign.\<close>

definition split_entry :: "string \<Rightarrow> exn + string \<times> string" where
  "split_entry entry =
     (case dropWhile (\<lambda>c. c \<noteq> CHR ''='') entry of
        [] \<Rightarrow> Inl ValueError
      | _ # v \<Rightarrow> Inr (takeWhile (\<lambda>c. c \<noteq> CHR ''='') entry, v))"

definition container_vars :: "container \<Rightarrow> exn + vars" where
  "container_vars item = ebind (emap split_entry (ct_env item)) (\<lambda>entries. Inr (merge_vars [] entries))"

definition own_container :: "metadata \<Rightarrow> string \<Rightarrow> string \<Rightarrow> container \<Rightarrow> exn + unit" where
  "own_container m project service item =
     ebind (container_vars item) (\<lambda>current.
     seq (check (\<not> (service = ''core'' \<and>
       list_ex (\<lambda>k. alookup k current \<noteq> alookup k (md_env m)) [''DATABASE_URL'', ''AUTH_JWT_SECRET'', ''MQTT_PASSWORD''])) ValueError)
     (check (alookup ''com.docker.compose.project'' (ct_labels item) = Some project \<and>
       alookup ''com.docker.compose.service'' (ct_labels item) = Some service) ValueError))"

definition mount_ok :: "string \<Rightarrow> string \<Rightarrow> string \<times> string \<times> string \<Rightarrow> bool" where
  "mount_ok project service = (\<lambda>(kind, name, destination).
     kind \<noteq> ''volume'' \<or> starts_with (project @ ''_'') name \<or>
     (service = ''mosquitto'' \<and> destination = ''/mosquitto/log'' \<and> hex64 name))"

definition check_container :: "host \<Rightarrow> metadata \<Rightarrow> string \<Rightarrow> compose_config \<Rightarrow> string \<Rightarrow> (demo, unit) op" where
  "check_container H m project cfg service =
     bnd (compose_output H [''ps'', ''-a'', ''-q'', service]) (\<lambda>identifier.
     andthen (reject (identifier = [] \<or> line_feed \<in> set identifier) ValueError)
     (bnd (host_step H) (\<lambda>n.
     case ho_container H n identifier of
       None \<Rightarrow> raise OSError
     | Some item \<Rightarrow>
         andthen (lift (own_container m project service item))
         (if service \<in> {''postgres'', ''mosquitto''} then
            case alookup service (cc_services cfg) of
              None \<Rightarrow> raise KeyError
            | Some s \<Rightarrow>
                bnd (host_step H) (\<lambda>k.
                andthen (reject (ct_image item \<noteq> ho_image H k (sv_image s) \<or> \<not> ct_running item) ValueError)
                (reject (\<not> list_all (mount_ok project service) (ct_mounts item)) ValueError))
          else ret ()))))"

definition revisions :: "string list" where
  "revisions = [''0005_device_onboarding'', ''0006_command_lifecycle'', ''0007_control_authority'']"

definition version_query :: "string list" where
  "version_query = psql ''SELECT version_num FROM alembic_version''"

definition check_upgrade :: "host \<Rightarrow> web_checkout \<Rightarrow> (demo, string \<times> string) op" where
  "check_upgrade H web =
     andthen (guard_demo H)
     (andthen (void (check_web H web))
     (andthen (reject (\<not> list_all (\<lambda>name. name \<in> set (wb_files web))
        [''src/data/core/permissions.ts'', ''src/data/core/relay-control.ts'']) ValueError)
     (bnd (gets (\<lambda>d. list_all (\<lambda>name. alookup name (dk_files d) \<noteq> None \<and> name \<notin> set (dk_linked d)) kept_files)) (\<lambda>present.
     andthen (reject (\<not> present) ValueError)
     (bnd (configured H) (\<lambda>cfg.
     bnd (loaded H) (\<lambda>m.
     bnd (gets dm_project) (\<lambda>project.
     bnd (gets dm_path) (\<lambda>path.
     andthen (reject (\<not> hex64 (md_password m)) ValueError)
     (andthen (lift (expected_core m cfg))
     (andthen (case alookup ''DEMO_INPUT_DIR'' (md_env m) of
         None \<Rightarrow> raise KeyError | Some dir \<Rightarrow> reject (ho_resolve H dir \<noteq> ho_resolve H path) ValueError)
     (andthen (lift (expected_services project cfg))
     (andthen (for_each (check_container H m project cfg) [''core'', ''proxy'', ''postgres'', ''mosquitto''])
     (bnd (compose_output H version_query) (\<lambda>revision.
     andthen (reject (revision \<notin> set revisions) ValueError)
     (source_id H web))))))))))))))))"

subsection \<open>The backup\<close>

definition put_backup :: "string \<Rightarrow> (backup \<Rightarrow> backup) \<Rightarrow> demo \<Rightarrow> demo" where
  "put_backup dir f d = d\<lparr>dk_backups :=
     aput dir (f (dflt \<lparr>bk_files = [], bk_manifest = None\<rparr> (alookup dir (dk_backups d)))) (dk_backups d)\<rparr>"

definition copy_file :: "host \<Rightarrow> string \<Rightarrow> string \<Rightarrow> (demo, unit) op" where
  "copy_file H dir name =
     bnd (host_step H) (\<lambda>_.
     bnd (gets (\<lambda>d. alookup name (dk_files d))) (\<lambda>file.
     case file of
       None \<Rightarrow> raise OSError
     | Some c \<Rightarrow> modify (put_backup dir (\<lambda>b. b\<lparr>bk_files := bk_files b @ [(name, c)]\<rparr>))))"

definition dump_args :: "string list" where
  "dump_args = [''exec'', ''-T'', ''postgres'', ''pg_dump'', ''-U'', ''postgres'', ''-d'', ''kzhome'', ''-Fc'']"

definition list_args :: "string list" where
  "list_args = [''exec'', ''-T'', ''postgres'', ''pg_restore'', ''--list'']"

definition stop_args :: "string list" where
  "stop_args = [''stop'', ''proxy'', ''core'']"

definition start_args :: "string list" where
  "start_args = [''start'', ''core'', ''proxy'']"

definition digests :: "host \<Rightarrow> (string \<times> content) list \<Rightarrow> vars" where
  "digests H files = map (\<lambda>(name, c). (name, ho_digest H c)) files"

definition fill_backup :: "host \<Rightarrow> string \<Rightarrow> (demo, string) op" where
  "fill_backup H dir =
     andthen (for_each (copy_file H dir) kept_files)
     (bnd (compose_output H dump_args) (\<lambda>dump.
     andthen (reject (dump = []) ValueError)
     (andthen (modify (put_backup dir (\<lambda>b. b\<lparr>bk_files := bk_files b @ [(''database.dump'', Private dump)]\<rparr>)))
     (andthen (void (compose H list_args))
     (andthen (void (host_step H))
     (bnd (gets dm_project) (\<lambda>project.
     andthen (modify (put_backup dir (\<lambda>b. b\<lparr>bk_manifest := Some (project, digests H (bk_files b))\<rparr>)))
     (ret dir))))))))"

definition backup_demo :: "host \<Rightarrow> bool \<Rightarrow> (demo, string) op" where
  "backup_demo H restart =
     andthen (guard_demo H)
     (bnd (host_step H) (\<lambda>n.
     let dir = ho_uuid H n in
     bnd (gets (\<lambda>d. alookup dir (dk_backups d))) (\<lambda>existing.
     andthen (reject (existing \<noteq> None) OSError)
     (andthen (modify (put_backup dir (\<lambda>b. b)))
     (andthen (void (compose H stop_args))
     (finally_do (fill_backup H dir)
       (if restart then void (compose H start_args) else ret ())))))))"

subsection \<open>The upgrade\<close>

definition image_keys :: "string list" where
  "image_keys = [''DEMO_CORE_IMAGE'', ''DEMO_WEB_IMAGE'']"

definition image_id :: "vars \<Rightarrow> vars \<Rightarrow> string \<Rightarrow> exn + string \<times> string" where
  "image_id images env key =
     (case alookup key env of
        None \<Rightarrow> Inl KeyError
      | Some tag \<Rightarrow> (case alookup tag images of None \<Rightarrow> Inl OSError | Some i \<Rightarrow> Inr (tag, i)))"

definition image_ids :: "host \<Rightarrow> vars \<Rightarrow> (demo, vars) op" where
  "image_ids H env =
     andthen (void (host_step H))
     (andthen (void (host_step H))
     (bnd (gets (\<lambda>d. emap (image_id (dd_images d) env) image_keys)) lift))"

text \<open>\<open>atomic\<close>: the new text is written beside the file and takes its place.\<close>

definition atomic_write :: "host \<Rightarrow> (demo \<Rightarrow> demo) \<Rightarrow> (demo, unit) op" where
  "atomic_write H f = andthen (void (host_step H)) (andthen (void (host_step H)) (modify f))"

definition put_file :: "string \<Rightarrow> content \<Rightarrow> demo \<Rightarrow> demo" where
  "put_file name c d = d\<lparr>dk_files := aput name c (dk_files d)\<rparr>"

definition upgraded_env :: "string \<Rightarrow> string \<Rightarrow> string \<Rightarrow> vars \<Rightarrow> vars" where
  "upgraded_env project suffix context env =
     (let core = ''kz-home-core:'' @ project @ ''-upgrade-'' @ suffix in
      merge_vars env
        [(''DEMO_WEB_CONTEXT'', context), (''DEMO_CORE_IMAGE'', core),
         (''DEMO_WEB_IMAGE'', ''kz-home-web:'' @ project @ ''-upgrade-'' @ suffix), (''CORE_ARM64_IMAGE'', core)])"

definition upgrade_target ::
  "metadata \<Rightarrow> string \<Rightarrow> web_checkout \<Rightarrow> string \<times> string \<Rightarrow> string \<Rightarrow> string \<Rightarrow> metadata" where
  "upgrade_target previous project web source suffix context =
     previous\<lparr>md_web_revision := snd source, md_web_source := wb_path web, md_identity := Some source,
       md_env := upgraded_env project suffix context (md_env previous)\<rparr>"

definition build_args :: "string list" where
  "build_args = [''build'', ''core'', ''proxy'']"

text \<open>A build gives both tags of the environment it runs in an image.\<close>

definition build_images :: "host \<Rightarrow> vars \<Rightarrow> (demo, unit) op" where
  "build_images H env =
     bnd (compose H build_args) (\<lambda>n.
     modify (\<lambda>d. d\<lparr>dd_images := foldl (\<lambda>images key. case alookup key env of
       None \<Rightarrow> images | Some tag \<Rightarrow> aput tag (ho_built H n tag) images) (dd_images d) image_keys\<rparr>))"

definition build_plan :: "host \<Rightarrow> web_checkout \<Rightarrow> string \<times> string \<Rightarrow> (demo, plan) op" where
  "build_plan H web source =
     bnd (loaded H) (\<lambda>previous.
     bnd (host_step H) (\<lambda>n.
     bnd (gets dm_project) (\<lambda>project.
     bnd (gets dm_path) (\<lambda>path.
     let suffix = ho_uuid H n; context = path @ ''/web-upgrade-'' @ suffix;
         target = upgrade_target previous project web source suffix (slashes context) in
     bnd (stage_web H web context) (\<lambda>_.
     andthen (modify (\<lambda>d. d\<lparr>dm_env := merge_vars (dm_env d) (md_env target)\<rparr>))
     (andthen (build_images H (md_env target))
     (bnd (image_ids H (md_env target)) (\<lambda>images.
     let plan = \<lparr>pl_project = project, pl_identity = source, pl_target = target, pl_previous = previous,
           pl_backed_up = False, pl_images = images, pl_backup = [], pl_private = []\<rparr> in
     andthen (atomic_write H (dk_pending_update (\<lambda>_. Some plan)))
     (ret plan)))))))))"

definition file_digest :: "host \<Rightarrow> (string \<times> content) list \<Rightarrow> string \<Rightarrow> exn + string \<times> string" where
  "file_digest H files name =
     (case alookup name files of None \<Rightarrow> Inl OSError | Some c \<Rightarrow> Inr (name, ho_digest H c))"

definition record_backup :: "host \<Rightarrow> plan \<Rightarrow> (demo, plan) op" where
  "record_backup H plan =
     (if pl_backed_up plan then ret plan
      else
        andthen (load_demo H)
        (bnd (backup_demo H False) (\<lambda>dir.
        bnd (gets (\<lambda>d. emap (file_digest H (dk_files d)) PRIVATE)) (\<lambda>private.
        bnd (lift private) (\<lambda>marks.
        let plan' = plan\<lparr>pl_backed_up := True, pl_backup := dir, pl_private := marks\<rparr> in
        andthen (atomic_write H (dk_pending_update (\<lambda>_. Some plan')))
        (ret plan'))))))"

text \<open>No digest differs; a file that is missing raises.\<close>

fun intact :: "host \<Rightarrow> (string \<times> content) list \<Rightarrow> vars \<Rightarrow> exn + bool" where
  "intact H files [] = Inr True"
| "intact H files ((name, s) # marks) =
     (case alookup name files of
        None \<Rightarrow> Inl OSError
      | Some c \<Rightarrow> if ho_digest H c = s then intact H files marks else Inr False)"

text \<open>
  \<open>dk_backups\<close> holds the directories under \<open>backups\<close> of this demo and nothing else. A plan that names
  any other directory, which the source refuses by its path, finds no backup here.
\<close>

definition verify_backup :: "host \<Rightarrow> plan \<Rightarrow> (demo, unit) op" where
  "verify_backup H plan =
     bnd (host_step H) (\<lambda>_.
     bnd (gets (\<lambda>d. alookup (pl_backup plan) (dk_backups d))) (\<lambda>found_backup.
     bnd (gets dm_project) (\<lambda>project.
     bnd (gets dk_files) (\<lambda>files.
     case Option.bind found_backup (\<lambda>b. map_option (\<lambda>m. (b, m)) (bk_manifest b)) of
       None \<Rightarrow> raise OSError
     | Some (b, owner, marks) \<Rightarrow>
         andthen (reject (owner \<noteq> project) ValueError)
         (bnd (lift (intact H (bk_files b) marks)) (\<lambda>copies_intact.
         andthen (reject (\<not> copies_intact) ValueError)
         (bnd (lift (intact H files (pl_private plan))) (\<lambda>inputs_intact.
         reject (\<not> inputs_intact) ValueError))))))))"

definition up_args :: "string list" where
  "up_args = [''up'', ''-d'', ''--no-deps'', ''--pull'', ''never'', ''--wait'', ''core'', ''proxy'']"

definition finish_upgrade :: "host \<Rightarrow> plan \<Rightarrow> (demo, unit) op" where
  "finish_upgrade H built =
     bnd (image_ids H (md_env (pl_target built))) (\<lambda>images.
     andthen (reject (images \<noteq> pl_images built) ValueError)
     (bnd (record_backup H built) (\<lambda>plan.
     andthen (verify_backup H plan)
     (andthen (void (compose H stop_args))
     (andthen (modify (\<lambda>d. d\<lparr>dm_env := merge_vars (dm_env d) (md_env (pl_target plan))\<rparr>))
     (andthen (void (compose H migrate_args))
     (andthen (atomic_write H (put_file ''state.json'' (Metadata (pl_target plan))))
     (andthen (atomic_write H (put_file ''compose.env'' (Variables (md_env (pl_target plan)))))
     (andthen (load_demo H)
     (andthen (void (compose H up_args))
     (andthen (verify_demo H)
     (atomic_write H (\<lambda>d. d\<lparr>dk_pending := None, dk_history := dk_history d @ [plan]\<rparr>)))))))))))))"

definition apply_upgrade :: "host \<Rightarrow> web_checkout \<Rightarrow> (demo, unit) op" where
  "apply_upgrade H web =
     bnd (check_upgrade H web) (\<lambda>source.
     bnd (gets dk_pending) (\<lambda>pending_plan.
     case pending_plan of
       Some plan \<Rightarrow>
         bnd (gets dm_project) (\<lambda>project.
         andthen (reject (pl_project plan \<noteq> project \<or> pl_identity plan \<noteq> source) ValueError)
         (finish_upgrade H plan))
     | None \<Rightarrow>
         bnd (loaded H) (\<lambda>m.
         if md_identity m = Some source then verify_demo H
         else bnd (build_plan H web source) (finish_upgrade H))))"

definition upgrade :: "host \<Rightarrow> web_checkout \<Rightarrow> (demo, unit) op" where
  "upgrade H web = andthen (reject (ho_locked H) ValueError) (apply_upgrade H web)"

text \<open>The branch of \<open>main\<close>: a new process loads the metadata and checks the isolation first.\<close>

definition upgrade_command :: "host \<Rightarrow> web_checkout \<Rightarrow> (demo, unit) op" where
  "upgrade_command H web =
     andthen (modify (\<lambda>d. d\<lparr>dm_state := None, dm_env := []\<rparr>))
     (andthen (load_demo H)
     (andthen (guard_demo H)
     (upgrade H web)))"

end
