(* ===== verification/Upgrade_Safety.thy ===== *)
theory Upgrade_Safety
  imports Upgrade
begin

text \<open>
  What an upgrade keeps and that it finishes: the invariant \<open>safe\<close> of a demo between any two
  operations of any interrupted run, and the resumption on a host on which nothing fails.
\<close>

subsection \<open>What every operation leaves alone\<close>

text \<open>The calls an upgrade makes, apart from the migration.\<close>

definition quiet_calls :: "string list set" where
  "quiet_calls = {config_json, [''ps'', ''-a''], stop_args, start_args, build_args, dump_args, list_args, up_args, version_query} \<union>
     range (\<lambda>service. [''ps'', ''-a'', ''-q'', service])"

lemma quiet_members [simp]:
  "config_json \<in> quiet_calls" "[''ps'', ''-a''] \<in> quiet_calls" "stop_args \<in> quiet_calls" "start_args \<in> quiet_calls"
  "build_args \<in> quiet_calls" "dump_args \<in> quiet_calls" "list_args \<in> quiet_calls" "up_args \<in> quiet_calls"
  "version_query \<in> quiet_calls" "[''ps'', ''-a'', ''-q'', service] \<in> quiet_calls"
  by (auto simp: quiet_calls_def)

text \<open>
  \<open>sure P W m R\<close>: the operation keeps \<open>P\<close>, its result satisfies \<open>R\<close>, and it can only raise when
  \<open>W\<close> fails. With \<open>W\<close> the willingness of the host, one derivation shows both what an upgrade keeps
  and that nothing but the host stops it.
\<close>

definition sure :: "('s \<Rightarrow> bool) \<Rightarrow> bool \<Rightarrow> ('s, 'a) op \<Rightarrow> ('a \<Rightarrow> bool) \<Rightarrow> bool" where
  "sure P W m R \<longleftrightarrow> (\<forall>d. P d \<longrightarrow> wp m (\<lambda>x d'. P d' \<and> R x) (\<lambda>_ d'. P d' \<and> \<not> W) d)"

lemma sure_bnd: "sure P W m R \<Longrightarrow> (\<And>x. R x \<Longrightarrow> sure P W (k x) R') \<Longrightarrow> sure P W (bnd m k) R'"
  unfolding sure_def wp_bnd by (blast intro: wp_mono)

lemma sure_andthen: "sure P W m (\<lambda>_. True) \<Longrightarrow> sure P W k R' \<Longrightarrow> sure P W (andthen m k) R'"
  unfolding andthen_def by (rule sure_bnd)

lemma sure_andthen_reject: "(b \<Longrightarrow> \<not> W) \<Longrightarrow> (\<not> b \<Longrightarrow> sure P W k R) \<Longrightarrow> sure P W (andthen (reject b e) k) R"
  by (cases b) (simp_all add: sure_def wp_simps)

lemma sure_ret: "R x \<Longrightarrow> sure P W (ret x) R"
  and sure_raise: "\<not> W \<Longrightarrow> sure P W (raise e) R'"
  and sure_reject: "(b \<Longrightarrow> \<not> W) \<Longrightarrow> sure P W (reject b e) (\<lambda>_. True)"
  and sure_gets: "(\<And>d. P d \<Longrightarrow> T (f d)) \<Longrightarrow> sure P W (gets f) T"
  and sure_modify: "(\<And>d. P d \<Longrightarrow> P (g d)) \<Longrightarrow> sure P W (modify g) (\<lambda>_. True)"
  by (simp_all add: sure_def wp_simps)

lemma sure_lift: "(\<And>e. r = Inl e \<Longrightarrow> \<not> W) \<Longrightarrow> (\<And>x. r = Inr x \<Longrightarrow> R x) \<Longrightarrow> sure P W (lift r) R"
  by (auto simp: sure_def wp_simps split: sum.split)

lemma sure_if: "(b \<Longrightarrow> sure P W m R) \<Longrightarrow> (\<not> b \<Longrightarrow> sure P W k R) \<Longrightarrow> sure P W (if b then m else k) R"
  by simp

lemma sure_option: "(x = None \<Longrightarrow> sure P W m R) \<Longrightarrow> (\<And>y. x = Some y \<Longrightarrow> sure P W (f y) R) \<Longrightarrow>
    sure P W (case x of None \<Rightarrow> m | Some y \<Rightarrow> f y) R"
  by (cases x) simp_all

lemma sure_weaken: "sure P W m R \<Longrightarrow> (\<And>x. R x \<Longrightarrow> R' x) \<Longrightarrow> sure P W m R'"
  unfolding sure_def by (blast intro: wp_mono)

lemma sure_void: "sure P W m R \<Longrightarrow> sure P W (void m) (\<lambda>_. True)"
  unfolding void_def by (erule sure_bnd) (simp add: sure_ret)

lemma sure_for_each: "(\<And>x. x \<in> set xs \<Longrightarrow> sure P W (f x) (\<lambda>_. True)) \<Longrightarrow> sure P W (for_each f xs) (\<lambda>_. True)"
  by (induction xs) (auto intro: sure_ret sure_andthen)

lemmas sure_rules = sure_andthen_reject sure_ret sure_raise sure_reject sure_lift sure_if sure_option sure_void

text \<open>Two metadata of one installation: only the images, the Web context and the provenance differ.\<close>

definition upgrade_keys :: "string list" where
  "upgrade_keys = [''DEMO_WEB_CONTEXT'', ''DEMO_CORE_IMAGE'', ''DEMO_WEB_IMAGE'', ''CORE_ARM64_IMAGE'']"

definition continues :: "metadata \<Rightarrow> metadata \<Rightarrow> bool" where
  "continues m0 m \<longleftrightarrow> md_version m = md_version m0 \<and> md_project m = md_project m0 \<and> md_password m = md_password m0 \<and>
     (\<forall>k. k \<notin> set upgrade_keys \<longrightarrow> alookup k (md_env m) = alookup k (md_env m0))"

text \<open>A host on which nothing stops an upgrade of the installation to the source \<open>i\<close>.\<close>

definition willing_checkout :: "host \<Rightarrow> web_checkout \<Rightarrow> string \<times> string \<Rightarrow> bool" where
  "willing_checkout H web i \<longleftrightarrow> (\<forall>n. ho_fault H n = None) \<and> \<not> ho_locked H \<and>
     \<not> wb_is_core web \<and> wb_is_directory web \<and> wb_is_root web \<and> wb_status web = [] \<and> wb_escaping web = [] \<and>
     list_all (\<lambda>name. name \<in> set (wb_files web) \<and> name \<in> set (wb_tracked web)) web_required \<and>
     list_all (\<lambda>name. name \<in> set (wb_files web)) [''src/data/core/permissions.ts'', ''src/data/core/relay-control.ts''] \<and>
     (\<forall>n. (ho_sha H (source_text (ho_source H) (ho_tracked H n)), wb_head web) = i)"

definition willing_config :: "host \<Rightarrow> metadata \<Rightarrow> compose_config \<Rightarrow> bool" where
  "willing_config H m0 cfg \<longleftrightarrow>
     ports_ok cfg = Inr () \<and> expected_core m0 cfg = Inr () \<and> expected_services (md_project m0) cfg = Inr () \<and>
     list_all (\<lambda>(key, r). project_resource (md_project m0) key r) (cc_volumes cfg)"

definition willing_container :: "host \<Rightarrow> metadata \<Rightarrow> string \<Rightarrow> container \<Rightarrow> bool" where
  "willing_container H m0 service item \<longleftrightarrow> own_container m0 (md_project m0) service item = Inr () \<and>
     (service \<in> {''postgres'', ''mosquitto''} \<longrightarrow> ct_running item \<and>
       list_all (mount_ok (md_project m0) service) (ct_mounts item) \<and>
       (\<forall>n env k. \<exists>s. alookup service (cc_services (ho_config H n env)) = Some s \<and> ct_image item = ho_image H k (sv_image s)))"

definition container_query :: "string \<Rightarrow> string list" where
  "container_query service = [''ps'', ''-a'', ''-q'', service]"

definition willing_host :: "host \<Rightarrow> metadata \<Rightarrow> string \<Rightarrow> bool" where
  "willing_host H m0 place \<longleftrightarrow> (\<forall>n env. willing_config H m0 (ho_config H n env)) \<and>
     (\<forall>n name. ho_volume H n name \<in> {None, Some (Some (md_project m0))}) \<and>
     (\<forall>n page. ho_http H n page = 200) \<and> (\<forall>n. ho_output H n version_query \<in> set revisions) \<and>
     (\<forall>n. ho_output H n dump_args \<noteq> []) \<and>
     (\<forall>n k. \<forall>service \<in> {''core'', ''proxy'', ''postgres'', ''mosquitto''}.
        ho_output H n (container_query service) \<noteq> [] \<and> line_feed \<notin> set (ho_output H n (container_query service)) \<and>
        (\<exists>item. ho_container H k (ho_output H n (container_query service)) = Some item \<and> willing_container H m0 service item)) \<and>
     md_version m0 = 14 \<and> hex64 (md_password m0) \<and>
     alookup ''DEMO_PLATFORM'' (md_env m0) \<noteq> None \<and> alookup ''DEMO_WEB_PORT'' (md_env m0) \<noteq> None \<and>
     (\<exists>dir. alookup ''DEMO_INPUT_DIR'' (md_env m0) = Some dir \<and> ho_resolve H dir = ho_resolve H place)"

lemma continues_facts:
  assumes "continues m0 m"
  shows "expected_core m cfg = expected_core m0 cfg" and "own_container m project service item = own_container m0 project service item"
    and "alookup ''DEMO_PLATFORM'' (md_env m) = alookup ''DEMO_PLATFORM'' (md_env m0)"
    and "alookup ''DEMO_WEB_PORT'' (md_env m) = alookup ''DEMO_WEB_PORT'' (md_env m0)"
    and "alookup ''DEMO_INPUT_DIR'' (md_env m) = alookup ''DEMO_INPUT_DIR'' (md_env m0)"
    and "md_password m = md_password m0" "md_version m = md_version m0" "md_project m = md_project m0"
  using assms by (simp_all add: continues_def expected_core_def own_container_def upgrade_keys_def cong: option.case_cong)

text \<open>
  What a process finds on the disk: the plan, the backups, the images and the files. A complete
  backup holds the private inputs, the metadata and a database dump, with their digests.
\<close>

type_synonym disk = "plan option \<times> (string \<times> backup) list \<times> vars \<times> (string \<times> content) list"

definition disk :: "demo \<Rightarrow> disk" where
  "disk d = (dk_pending d, dk_backups d, dd_images d, dk_files d)"

lemma disk_simps [simp]:
  "disk (d\<lparr>dd_steps := n\<rparr>) = disk d" "disk (d\<lparr>dk_contexts := x\<rparr>) = disk d" "disk (d\<lparr>dm_env := e\<rparr>) = disk d"
  "disk (d\<lparr>dm_state := s\<rparr>) = disk d" "disk (d\<lparr>dd_calls := l\<rparr>) = disk d"
  by (simp_all add: disk_def)

definition faithful :: "(content \<Rightarrow> string) \<Rightarrow> demo \<Rightarrow> metadata \<Rightarrow> backup \<Rightarrow> bool" where
  "faithful D d0 m0 b \<longleftrightarrow>
     bk_manifest b = Some (md_project m0, map (\<lambda>(name, c). (name, D c)) (bk_files b)) \<and> distinct (map fst (bk_files b)) \<and>
     (\<forall>name \<in> set PRIVATE. alookup name (bk_files b) = alookup name (dk_files d0) \<and> alookup name (bk_files b) \<noteq> None) \<and>
     (\<exists>m. alookup ''state.json'' (bk_files b) = Some (Metadata m) \<and> continues m0 m) \<and>
     (\<exists>dump. alookup ''database.dump'' (bk_files b) = Some (Private dump) \<and> dump \<noteq> [])"

definition complete_in :: "(string \<times> backup) list \<Rightarrow> string \<Rightarrow> bool" where
  "complete_in backups dir \<longleftrightarrow> (\<exists>b. alookup dir backups = Some b \<and> bk_manifest b \<noteq> None)"

text \<open>A pending plan names its images as they are, and a complete backup once it has one.\<close>

definition plan_ok :: "(content \<Rightarrow> string) \<Rightarrow> demo \<Rightarrow> metadata \<Rightarrow> (string \<times> backup) list \<Rightarrow> vars \<Rightarrow> plan \<Rightarrow> bool" where
  "plan_ok D d0 m0 backups images p \<longleftrightarrow>
     pl_project p = md_project m0 \<and> continues m0 (pl_target p) \<and> md_identity (pl_target p) = Some (pl_identity p) \<and>
     emap (image_id images (md_env (pl_target p))) image_keys = Inr (pl_images p) \<and>
     (pl_backed_up p \<longrightarrow> complete_in backups (pl_backup p) \<and>
       list_all (\<lambda>(name, s). name \<in> set PRIVATE \<and> map_option D (alookup name (dk_files d0)) = Some s) (pl_private p))"

fun fine :: "(content \<Rightarrow> string) \<Rightarrow> demo \<Rightarrow> metadata \<Rightarrow> disk \<Rightarrow> bool" where
  "fine D d0 m0 (pending_plan, backups, images, files) \<longleftrightarrow>
     (\<forall>name \<in> set PRIVATE. alookup name files = alookup name (dk_files d0)) \<and> alookup ''compose.env'' files \<noteq> None \<and>
     (\<forall>dir b. alookup dir backups = Some b \<longrightarrow> bk_manifest b \<noteq> None \<longrightarrow> faithful D d0 m0 b) \<and>
     (\<forall>p. pending_plan = Some p \<longrightarrow> plan_ok D d0 m0 backups images p)"

fun allowed_calls :: "disk \<Rightarrow> string list set" where
  "allowed_calls (pending_plan, backups, images, files) =
     quiet_calls \<union> (if \<exists>dir. complete_in backups dir then {migrate_args} else {})"

fun files_of :: "disk \<Rightarrow> (string \<times> content) list" where
  "files_of (pending_plan, backups, images, files) = files"

lemma files_of_disk: "files_of (disk d) = dk_files d"
  by (simp add: disk_def)

text \<open>
  \<open>phase D d0 m0 K M c d\<close>: the demo \<open>d\<close> continues \<open>d0\<close> with the disk \<open>K\<close>, whose \<open>state.json\<close>
  is \<open>c\<close>; what the process remembers of it is in \<open>M\<close>. A demo is safe between any two operations.
\<close>

definition recall :: "metadata \<Rightarrow> (metadata \<Rightarrow> bool) \<Rightarrow> metadata \<Rightarrow> metadata \<Rightarrow> bool" where
  "recall m0 M c m \<longleftrightarrow> continues m0 m \<and> (M m \<or> m = c)"

definition phase ::
  "(content \<Rightarrow> string) \<Rightarrow> demo \<Rightarrow> metadata \<Rightarrow> disk \<Rightarrow> (metadata \<Rightarrow> bool) \<Rightarrow> metadata \<Rightarrow> demo \<Rightarrow> bool" where
  "phase D d0 m0 K M c d \<longleftrightarrow>
     dm_project d = md_project m0 \<and> dm_path d = dm_path d0 \<and> dk_linked d = dk_linked d0 \<and>
     disk d = K \<and> fine D d0 m0 K \<and> alookup ''state.json'' (files_of K) = Some (Metadata c) \<and> continues m0 c \<and>
     (\<forall>m. dm_state d = Some m \<longrightarrow> recall m0 M c m) \<and> (\<forall>(e, args) \<in> set (dd_calls d). args \<in> allowed_calls K)"

definition safe :: "(content \<Rightarrow> string) \<Rightarrow> demo \<Rightarrow> metadata \<Rightarrow> demo \<Rightarrow> bool" where
  "safe D d0 m0 d \<longleftrightarrow> (\<exists>c. phase D d0 m0 (disk d) (\<lambda>_. True) c d)"

text \<open>A host willing to upgrade, over the private inputs of the demo.\<close>

definition willing_run :: "(content \<Rightarrow> string) \<Rightarrow> demo \<Rightarrow> metadata \<Rightarrow> host \<Rightarrow> web_checkout \<Rightarrow> string \<times> string \<Rightarrow> bool" where
  "willing_run D d0 m0 H web i \<longleftrightarrow> willing_checkout H web i \<and> willing_host H m0 (dm_path d0) \<and>
     list_all (\<lambda>name. alookup name (dk_files d0) \<noteq> None) PRIVATE \<and> list_all (\<lambda>name. name \<notin> set (dk_linked d0)) kept_files"

text \<open>
  The operations that touch only the bookkeeping of the process, over any invariant that ignores it.
\<close>

locale bookkeeping =
  fixes P :: "demo \<Rightarrow> bool" and W :: bool and H :: host and web :: web_checkout
    and i :: "string \<times> string" and m0 :: metadata and place :: string
    and A :: "string list set" and M :: "metadata \<Rightarrow> bool" and c :: metadata
  assumes steps: "P d \<Longrightarrow> P (d\<lparr>dd_steps := n\<rparr>)"
    and contexts: "P d \<Longrightarrow> P (d\<lparr>dk_contexts := x\<rparr>)"
    and environments: "P d \<Longrightarrow> P (d\<lparr>dm_env := e\<rparr>)"
    and reads: "P d \<Longrightarrow> P (d\<lparr>dm_state := Some c\<rparr>)"
    and quiet: "quiet_calls \<subseteq> A"
    and calls: "P d \<Longrightarrow> args \<in> A \<Longrightarrow> P (d\<lparr>dd_calls := dd_calls d @ [(e, args)]\<rparr>)"
    and stored: "P d \<Longrightarrow> alookup ''state.json'' (dk_files d) = Some (Metadata c) \<and> continues m0 c"
    and remembered: "P d \<Longrightarrow> dm_state d = Some m \<Longrightarrow> M m"
    and within: "M m \<Longrightarrow> continues m0 m"
    and identified: "P d \<Longrightarrow> dm_project d = md_project m0 \<and> dm_path d = place"
    and complete: "P d \<Longrightarrow> W \<Longrightarrow> list_all (\<lambda>name. alookup name (dk_files d) \<noteq> None \<and> name \<notin> set (dk_linked d)) kept_files"
    and checkout: "W \<Longrightarrow> willing_checkout H web i"
    and willing: "W \<Longrightarrow> willing_host H m0 place"
begin

lemma quiet_allowed [simp]:
  "config_json \<in> A" "[''ps'', ''-a''] \<in> A" "stop_args \<in> A" "build_args \<in> A" "dump_args \<in> A" "list_args \<in> A" "up_args \<in> A"
  "version_query \<in> A" "[''ps'', ''-a'', ''-q'', service] \<in> A"
  using quiet by (auto intro!: subsetD [OF quiet])

lemma sure_step: "sure P W (host_step H) (\<lambda>_. True)"
  unfolding host_step_def sure_def
  by (auto simp: wp_simps steps split: option.split dest!: checkout simp: willing_checkout_def)

lemma sure_load: "sure P W (load_demo H) (\<lambda>_. True)"
  unfolding load_demo_def
proof (rule sure_bnd [OF sure_gets [where T = "\<lambda>_. True"]], simp,
    rule sure_bnd [OF sure_gets [where T = "\<lambda>f. f = Some (Metadata c) \<and> continues m0 c"]], erule stored)
  fix directory :: bool and json_file :: "content option"
  assume m: "json_file = Some (Metadata c) \<and> continues m0 c"
  then have v: "W \<Longrightarrow> md_version c = 14" using willing continues_facts(7) [of m0 c] by (simp add: willing_host_def)
  show "sure P W (andthen (reject (directory \<and> json_file = None) ValueError) (bnd (host_step H) (\<lambda>_. case json_file of
      Some (Metadata m) \<Rightarrow>
         andthen (modify (dm_state_update (\<lambda>_. Some m)))
         (bnd (gets dm_project) (\<lambda>project.
         andthen (reject (md_project m \<noteq> project \<or> md_version m \<noteq> 14) ValueError)
         (modify (dm_env_update (\<lambda>_. process_vars (ho_environ H) project (md_env m))))))
     | _ \<Rightarrow> raise OSError))) (\<lambda>_. True)"
    using m v continues_facts(8) [of m0 c] reads environments
    by (auto intro!: sure_rules sure_bnd [OF sure_step] sure_andthen [OF sure_modify] sure_modify
        sure_bnd [OF sure_gets [where T = "\<lambda>p. p = md_project m0"]] simp: identified)
qed

lemma sure_loaded: "sure P W (loaded H) M"
proof -
  have remembers: "dm_state v \<noteq> None" if "fst (load_demo H d) = Inr ()" "v = snd (load_demo H d)" for d v
    using that by (auto simp: load_demo_def op_defs split: prod.splits sum.splits option.splits content.splits if_splits)
  show ?thesis
    unfolding sure_def
  proof (intro allI impI)
    fix d assume d: "P d"
    show "wp (loaded H) (\<lambda>x d'. P d' \<and> M x) (\<lambda>_ d'. P d' \<and> \<not> W) d"
    proof (cases "dm_state d")
      case (Some m)
      with d show ?thesis by (simp add: loaded_def wp_simps remembered)
    next
      case None
      from d have "wp (load_demo H) (\<lambda>_ d'. P d') (\<lambda>_ d'. P d' \<and> \<not> W) d" using sure_load by (simp add: sure_def)
      with None remembers [of d] show ?thesis
        by (auto simp: loaded_def wp_simps wp_def [of "load_demo H"] remembered split: prod.splits sum.splits option.splits)
    qed
  qed
qed

lemma installed:
  assumes "M m"
  shows "W \<Longrightarrow> alookup ''DEMO_PLATFORM'' (md_env m) \<noteq> None" and "W \<Longrightarrow> alookup ''DEMO_WEB_PORT'' (md_env m) \<noteq> None"
  using willing by (simp_all add: willing_host_def continues_facts(3,4) [OF within [OF assms]])

lemma sure_compose: "args \<in> A \<Longrightarrow> sure P W (compose H args) (\<lambda>_. True)"
  unfolding compose_def
  by (intro sure_bnd [OF sure_loaded] sure_andthen_reject sure_andthen [OF sure_modify] sure_step)
    (auto dest: installed intro: calls)

lemma sure_configured: "sure P W (configured H) (\<lambda>cfg. W \<longrightarrow> willing_config H m0 cfg)"
  unfolding configured_def
  by (intro sure_bnd [OF sure_compose] sure_bnd [OF sure_gets [where T = "\<lambda>_. True"]] sure_ret)
    (use willing in \<open>auto simp: willing_host_def\<close>)

lemma sure_output: "args \<in> A \<Longrightarrow> (\<And>n. W \<Longrightarrow> T (ho_output H n args)) \<Longrightarrow>
    sure P W (compose_output H args) (\<lambda>out. W \<longrightarrow> T out)"
  unfolding compose_output_def by (intro sure_bnd [OF sure_compose] sure_ret) auto

lemma sure_guard: "sure P W (guard_demo H) (\<lambda>_. True)"
  unfolding guard_demo_def
proof (rule sure_bnd [OF sure_configured], rule sure_bnd [OF sure_gets [where T = "\<lambda>p. p = md_project m0"]])
  fix cfg project
  assume cfg: "W \<longrightarrow> willing_config H m0 cfg" and project: "project = md_project m0"
  have volume: "sure P W (guard_volume H project (key, volume)) (\<lambda>_. True)" if "(key, volume) \<in> set (cc_volumes cfg)" for key volume
    unfolding guard_volume_def prod.case
    by (intro sure_andthen_reject sure_bnd [OF sure_step] sure_option sure_ret sure_reject)
      (use that cfg project willing in \<open>auto simp: willing_config_def list_all_iff willing_host_def, metis insert_iff option.inject option.simps(3) singletonD\<close>)
  show "sure P W (andthen (for_each (guard_volume H project) (cc_volumes cfg)) (lift (ports_ok cfg))) (\<lambda>_. True)"
    using cfg by (intro sure_andthen [OF sure_for_each] sure_lift) (auto simp: willing_config_def intro: volume)
qed (simp add: identified)

lemma sure_check_web: "sure P W (check_web H web) (\<lambda>_. True)"
  unfolding check_web_def
  by (intro sure_andthen_reject sure_andthen [OF sure_void [OF sure_step]] sure_ret)
    (use checkout in \<open>auto simp: willing_checkout_def list_all_iff\<close>)

lemma sure_stage: "sure P W (stage_web H web target) (\<lambda>_. True)"
proof -
  have files: "sure P W (stage_files H web target names) (\<lambda>_. True)" for names
  proof (induction names)
    case Nil
    show ?case unfolding stage_files.simps by (intro sure_ret) simp
  next
    case (Cons name names)
    have "W \<Longrightarrow> wb_escaping web = []" using checkout by (simp add: willing_checkout_def)
    then show ?case
      unfolding stage_files.simps
      by (intro sure_andthen_reject sure_andthen [OF sure_if] sure_ret sure_bnd [OF sure_step] sure_modify contexts Cons.IH) auto
  qed
  show ?thesis
    unfolding stage_web_def
    by (intro sure_bnd [OF sure_check_web] sure_andthen [OF files] sure_bnd [OF sure_step] sure_andthen [OF sure_modify] sure_ret contexts)
      simp
qed

lemma sure_verify: "sure P W (verify_demo H) (\<lambda>_. True)"
  unfolding verify_demo_def verify_page_def
  by (intro sure_andthen [OF sure_guard] sure_andthen [OF sure_bnd [OF sure_loaded]] sure_andthen [OF sure_for_each]
      sure_reject sure_bnd [OF sure_step] sure_void [OF sure_compose])
    (use willing in \<open>auto simp: willing_host_def dest: installed\<close>)

lemma sure_container:
  assumes m: "continues m0 m" and cfg: "W \<longrightarrow> willing_config H m0 cfg" and service: "service \<in> {''core'', ''proxy'', ''postgres'', ''mosquitto''}"
    and shown: "\<exists>n env. cfg = ho_config H n env"
  shows "sure P W (check_container H m (md_project m0) cfg service) (\<lambda>_. True)"
proof -
  let ?good = "\<lambda>out. out \<noteq> [] \<and> line_feed \<notin> set out \<and>
      (\<forall>k. \<exists>item. ho_container H k out = Some item \<and> willing_container H m0 service item)"
  have out: "W \<Longrightarrow> ?good (ho_output H n [''ps'', ''-a'', ''-q'', service])" for n
    using willing service unfolding willing_host_def container_query_def by blast
  show ?thesis
    unfolding check_container_def
  proof (rule sure_bnd [OF sure_output [where T = ?good, OF _ out]], simp, assumption)
    fix shown_id
    assume good: "W \<longrightarrow> ?good shown_id"
    have container: "sure P W (andthen (lift (own_container m (md_project m0) service item))
        (if service \<in> {''postgres'', ''mosquitto''} then
            case alookup service (cc_services cfg) of
              None \<Rightarrow> raise KeyError
            | Some s \<Rightarrow>
                bnd (host_step H) (\<lambda>k.
                andthen (reject (ct_image item \<noteq> ho_image H k (sv_image s) \<or> \<not> ct_running item) ValueError)
                (reject (\<not> list_all (mount_ok (md_project m0) service) (ct_mounts item)) ValueError))
          else ret ())) (\<lambda>_. True)" if item: "W \<longrightarrow> willing_container H m0 service item" for item
    proof (intro sure_andthen [OF sure_lift] sure_if sure_bnd [OF sure_step] sure_option sure_raise sure_andthen_reject sure_reject sure_ret)
      fix e assume "own_container m (md_project m0) service item = Inl e"
      with item show "\<not> W" by (auto simp: willing_container_def continues_facts(2) [OF m])
    next
      assume "service \<in> {''postgres'', ''mosquitto''}" and none: "alookup service (cc_services cfg) = None"
      with item shown show "\<not> W" unfolding willing_container_def by (metis option.distinct(1))
    next
      fix s k
      assume infra: "service \<in> {''postgres'', ''mosquitto''}" and s: "alookup service (cc_services cfg) = Some s"
      with item shown have "W \<Longrightarrow> ct_image item = ho_image H k (sv_image s)" unfolding willing_container_def by (metis option.inject)
      with item infra show "ct_image item \<noteq> ho_image H k (sv_image s) \<or> \<not> ct_running item \<Longrightarrow> \<not> W"
        and "\<not> list_all (mount_ok (md_project m0) service) (ct_mounts item) \<Longrightarrow> \<not> W"
        by (auto simp: willing_container_def)
    qed simp_all
    show "sure P W (andthen (reject (shown_id = [] \<or> line_feed \<in> set shown_id) ValueError)
        (bnd (host_step H) (\<lambda>n. case ho_container H n shown_id of
           None \<Rightarrow> raise OSError
         | Some item \<Rightarrow>
             andthen (lift (own_container m (md_project m0) service item))
             (if service \<in> {''postgres'', ''mosquitto''} then
                case alookup service (cc_services cfg) of
                  None \<Rightarrow> raise KeyError
                | Some s \<Rightarrow>
                    bnd (host_step H) (\<lambda>k.
                    andthen (reject (ct_image item \<noteq> ho_image H k (sv_image s) \<or> \<not> ct_running item) ValueError)
                    (reject (\<not> list_all (mount_ok (md_project m0) service) (ct_mounts item)) ValueError))
              else ret ())))) (\<lambda>_. True)"
      using good by (intro sure_andthen_reject sure_bnd [OF sure_step] sure_option sure_raise container) (auto, metis option.distinct(1), metis option.inject)
  qed
qed

lemma sure_shown: "sure P W (configured H) (\<lambda>cfg. (W \<longrightarrow> willing_config H m0 cfg) \<and> (\<exists>n env. cfg = ho_config H n env))"
  unfolding configured_def
  by (intro sure_bnd [OF sure_compose] sure_bnd [OF sure_gets [where T = "\<lambda>_. True"]] sure_ret)
    (use willing in \<open>auto simp: willing_host_def\<close>)

lemma sure_project: "sure P W (gets dm_project) (\<lambda>p. p = md_project m0)"
  and sure_place: "sure P W (gets dm_path) (\<lambda>p. p = place)"
  by (simp_all add: sure_gets identified)

lemma willing_facts:
  assumes W
  shows "hex64 (md_password m0)" and "ho_output H n version_query \<in> set revisions"
    and "list_all (\<lambda>name. name \<in> set (wb_files web)) [''src/data/core/permissions.ts'', ''src/data/core/relay-control.ts'']"
    and "alookup ''DEMO_INPUT_DIR'' (md_env m0) \<noteq> None"
    and "alookup ''DEMO_INPUT_DIR'' (md_env m0) = Some dir \<Longrightarrow> ho_resolve H dir = ho_resolve H place"
    and "willing_config H m0 cfg \<Longrightarrow> expected_core m0 cfg = Inr ()"
    and "willing_config H m0 cfg \<Longrightarrow> expected_services (md_project m0) cfg = Inr ()"
  using assms checkout willing by (auto simp: willing_checkout_def willing_host_def willing_config_def)

lemma sure_check: "sure P W (check_upgrade H web) (\<lambda>source. W \<longrightarrow> source = i)"
proof -
  have source: "sure P W (source_id H web) (\<lambda>source. W \<longrightarrow> source = i)"
    unfolding source_id_def
    by (intro sure_bnd [OF sure_step] sure_ret) (use checkout in \<open>simp add: willing_checkout_def\<close>)
  have present: "sure P W (gets (\<lambda>d. list_all (\<lambda>name. alookup name (dk_files d) \<noteq> None \<and> name \<notin> set (dk_linked d)) kept_files))
      (\<lambda>present. W \<longrightarrow> present)"
    by (rule sure_gets) (use complete in blast)
  show ?thesis
    unfolding check_upgrade_def
  proof (intro sure_andthen [OF sure_guard] sure_andthen [OF sure_void [OF sure_check_web]] sure_andthen_reject
      sure_bnd [OF present] sure_bnd [OF sure_shown] sure_bnd [OF sure_loaded] sure_bnd [OF sure_project] sure_bnd [OF sure_place]
      sure_andthen [OF sure_lift] sure_andthen [OF sure_option] sure_andthen [OF sure_for_each] sure_raise sure_reject
      sure_bnd [OF sure_output [where T = "\<lambda>r. r \<in> set revisions"]] source willing_facts(2) quiet_members)
  qed (auto simp: continues_facts willing_facts intro: sure_container dest: willing_facts within)
qed

end

interpretation during: bookkeeping "phase D d0 m0 K M c" "willing_run D d0 m0 H web i \<and> V" H web i m0 "dm_path d0"
    "allowed_calls K" "recall m0 M c" c
  for D d0 m0 K M c H web i V
proof unfold_locales
  fix d assume d: "phase D d0 m0 K M c d"
  then have files: "dk_files d = files_of K" by (auto simp: phase_def files_of_disk)
  show "alookup ''state.json'' (dk_files d) = Some (Metadata c) \<and> continues m0 c" using d files by (simp add: phase_def)
  show "list_all (\<lambda>name. alookup name (dk_files d) \<noteq> None \<and> name \<notin> set (dk_linked d)) kept_files"
    if "willing_run D d0 m0 H web i \<and> V"
    using d that files by (cases K) (auto simp: phase_def willing_run_def kept_files_def list_all_iff)
next
  show "quiet_calls \<subseteq> allowed_calls K" by (cases K) auto
qed (auto simp: phase_def recall_def willing_run_def)

end
