(* ===== verification/Upgrade_Runs.thy ===== *)
theory Upgrade_Runs
  imports Upgrade_Safety
begin

text \<open>
  The steps of an upgrade that change the disk, and the two theorems of the component: every
  interrupted run leaves the demo safe, and a willing host completes what the runs before it began.
\<close>

subsection \<open>Steps between phases\<close>

text \<open>
  \<open>goes F W P m Q\<close>: from \<open>P\<close> the operation returns with \<open>Q\<close>, or it raises with \<open>F\<close>, and then \<open>W\<close> fails.
\<close>

definition goes :: "('s \<Rightarrow> bool) \<Rightarrow> bool \<Rightarrow> ('s \<Rightarrow> bool) \<Rightarrow> ('s, 'a) op \<Rightarrow> ('a \<Rightarrow> 's \<Rightarrow> bool) \<Rightarrow> bool" where
  "goes F W P m Q \<longleftrightarrow> (\<forall>d. P d \<longrightarrow> wp m Q (\<lambda>_ d'. F d' \<and> \<not> W) d)"

lemma goes_bnd: "goes F W P m R \<Longrightarrow> (\<And>x. goes F W (R x) (k x) Q) \<Longrightarrow> goes F W P (bnd m k) Q"
  unfolding goes_def wp_bnd by (blast intro: wp_mono)

lemma goes_then: "goes F W P m (\<lambda>_. R) \<Longrightarrow> goes F W R k Q \<Longrightarrow> goes F W P (andthen m k) Q"
  unfolding andthen_def by (rule goes_bnd)

lemma goes_sure: "sure P W m R \<Longrightarrow> (\<And>d. P d \<Longrightarrow> F d) \<Longrightarrow> goes F W P m (\<lambda>x d. P d \<and> R x)"
  unfolding goes_def sure_def by (blast intro: wp_mono)

lemma goes_pre: "goes F W P' m Q \<Longrightarrow> (\<And>d. P d \<Longrightarrow> P' d) \<Longrightarrow> goes F W P m Q"
  unfolding goes_def by blast

lemma goes_post: "goes F W P m Q' \<Longrightarrow> (\<And>x d. Q' x d \<Longrightarrow> Q x d) \<Longrightarrow> goes F W P m Q"
  unfolding goes_def by (blast intro: wp_mono)

lemma goes_assume: "(R \<Longrightarrow> goes F W P m Q) \<Longrightarrow> goes F W (\<lambda>d. P d \<and> R) m Q"
  unfolding goes_def by blast

lemma goes_known: "(\<And>d. P d \<Longrightarrow> R) \<Longrightarrow> (R \<Longrightarrow> goes F W P m Q) \<Longrightarrow> goes F W P m Q"
  unfolding goes_def by blast

lemma goes_ex: "(\<And>b. R b \<Longrightarrow> goes F W (P' b) m Q) \<Longrightarrow> goes F W (\<lambda>d. \<exists>b. R b \<and> P' b d) m Q"
  unfolding goes_def by blast

lemma goes_record_cases: "(\<And>b. a1 \<Longrightarrow> a2 \<Longrightarrow> a3 \<Longrightarrow> goes F W (P' b) m Q) \<Longrightarrow> goes F W (\<lambda>d. a1 \<and> a2 \<and> a3 \<and> (\<exists>b. P' b d)) m Q"
  unfolding goes_def by blast

lemma goes_sure_bnd: "sure P W m R \<Longrightarrow> (\<And>d. P d \<Longrightarrow> F d) \<Longrightarrow> (\<And>x. R x \<Longrightarrow> goes F W P (k x) Q) \<Longrightarrow> goes F W P (bnd m k) Q"
  by (rule goes_bnd [OF goes_sure]) (auto intro: goes_assume)

lemma goes_sure_then: "sure P W m (\<lambda>_. True) \<Longrightarrow> (\<And>d. P d \<Longrightarrow> F d) \<Longrightarrow> goes F W P k Q \<Longrightarrow> goes F W P (andthen m k) Q"
  unfolding andthen_def by (rule goes_sure_bnd)

lemma goes_reject: "(b \<Longrightarrow> \<not> W) \<Longrightarrow> (\<And>d. P d \<Longrightarrow> F d) \<Longrightarrow> (\<not> b \<Longrightarrow> goes F W P k Q) \<Longrightarrow>
    goes F W P (andthen (reject b e) k) Q"
  by (cases b) (simp_all add: goes_def wp_simps)

lemma goes_ret: "(\<And>d. P d \<Longrightarrow> Q x d) \<Longrightarrow> goes F W P (ret x) Q"
  and goes_modify: "(\<And>d. P d \<Longrightarrow> Q' () (g d)) \<Longrightarrow> goes F W P (modify g) Q'"
  by (simp_all add: goes_def wp_simps)

text \<open>The triples of a run, over what \<open>willing_run\<close> and a condition \<open>V\<close> on the disk it starts from ensure.\<close>

abbreviation proceeds ::
  "host \<Rightarrow> web_checkout \<Rightarrow> string \<times> string \<Rightarrow> demo \<Rightarrow> metadata \<Rightarrow> bool \<Rightarrow> (demo \<Rightarrow> bool) \<Rightarrow> (demo, 'a) op \<Rightarrow>
   ('a \<Rightarrow> demo \<Rightarrow> bool) \<Rightarrow> bool" where
  "proceeds H web i d0 m0 V \<equiv>
     goes (safe (ho_digest H) d0 m0) (willing_run (ho_digest H) d0 m0 H web i \<and> V)"

lemma phase_safe: "phase D d0 m0 K M c d \<Longrightarrow> safe D d0 m0 d"
  unfolding safe_def phase_def recall_def by blast

lemma sure_bind: "sure (phase D d0 m0 K M c) W m R \<Longrightarrow>
      (\<And>x. R x \<Longrightarrow> goes (safe D d0 m0) W (phase D d0 m0 K M c) (k x) Q) \<Longrightarrow>
      goes (safe D d0 m0) W (phase D d0 m0 K M c) (bnd m k) Q"
  and sure_then: "sure (phase D d0 m0 K M c) W n (\<lambda>_. True) \<Longrightarrow> goes (safe D d0 m0) W (phase D d0 m0 K M c) l Q \<Longrightarrow>
      goes (safe D d0 m0) W (phase D d0 m0 K M c) (andthen n l) Q"
  and refuse: "(a \<Longrightarrow> \<not> W) \<Longrightarrow> (\<not> a \<Longrightarrow> goes (safe D d0 m0) W (phase D d0 m0 K M c) l Q) \<Longrightarrow>
      goes (safe D d0 m0) W (phase D d0 m0 K M c) (andthen (reject a e) l) Q"
  by (erule goes_sure_bnd goes_sure_then goes_reject, erule phase_safe, assumption)+

lemma phase_disk:
  assumes "phase D d0 m0 K M c d"
    and "dm_project d' = dm_project d" "dm_path d' = dm_path d" "dk_linked d' = dk_linked d" "dm_state d' = dm_state d"
      "dd_calls d' = dd_calls d"
    and "disk d' = K'" "fine D d0 m0 K'" "alookup ''state.json'' (files_of K') = Some (Metadata c')" "continues m0 c'"
    and "\<And>m. M m \<or> m = c \<Longrightarrow> M' m \<or> m = c'" "allowed_calls K \<subseteq> allowed_calls K'"
  shows "phase D d0 m0 K' M' c' d'"
  using assms unfolding phase_def recall_def by (simp only: ) blast

lemma goes_atomic:
  "(\<And>d. phase (ho_digest H) d0 m0 K M c d \<Longrightarrow> Q () (f d)) \<Longrightarrow>
   proceeds H web i d0 m0 V (phase (ho_digest H) d0 m0 K M c) (atomic_write H f) Q"
  unfolding atomic_write_def by (intro sure_then [OF sure_void [OF during.sure_step]] goes_modify)

lemma sure_image_ids:
  assumes "willing_run (ho_digest H) d0 m0 H web i \<and> V \<Longrightarrow> \<exists>x. emap (image_id I env) image_keys = Inr x"
  shows "sure (phase (ho_digest H) d0 m0 (q, B, I, F) M c) (willing_run (ho_digest H) d0 m0 H web i \<and> V) (image_ids H env)
    (\<lambda>x. emap (image_id I env) image_keys = Inr x)"
  unfolding image_ids_def
  by (intro sure_andthen [OF sure_void [OF during.sure_step]]
      sure_bnd [OF sure_gets [where T = "\<lambda>r. r = emap (image_id I env) image_keys"]] sure_lift)
    (use assms in \<open>auto simp: phase_def disk_def\<close>)

subsection \<open>The backup\<close>

lemma aput_aput: "aput k v' (aput k v kvs) = aput k v' kvs"
  by (induction k v kvs rule: aput.induct) auto

lemma fine_put:
  assumes "fine D d0 m0 (q, B, I, F)" and "\<And>p. q = Some p \<Longrightarrow> \<not> pl_backed_up p"
    and "bk_manifest b \<noteq> None \<Longrightarrow> faithful D d0 m0 b"
  shows "fine D d0 m0 (q, aput dir b B, I, F)"
  using assms by (auto simp: plan_ok_def alookup_aput)

lemma allowed_put:
  assumes "\<And>b. alookup dir B = Some b \<Longrightarrow> bk_manifest b = None"
  shows "allowed_calls (q, B, I, F) \<subseteq> allowed_calls (q', aput dir b' B, I', F')"
  using assms by (auto simp: complete_in_def alookup_aput) (metis option.distinct(1))

lemma put_backup_phase:
  assumes "phase D d0 m0 (q, aput dir b B, I, F) M c d" and "\<And>p. q = Some p \<Longrightarrow> \<not> pl_backed_up p"
    and "bk_manifest b = None" and "bk_manifest (f b) \<noteq> None \<Longrightarrow> faithful D d0 m0 (f b)"
  shows "phase D d0 m0 (q, aput dir (f b) B, I, F) M c (put_backup dir f d)"
proof -
  have d: "disk d = (q, aput dir b B, I, F)" "fine D d0 m0 (q, aput dir b B, I, F)" using assms(1) by (simp_all add: phase_def)
  show ?thesis
  proof (rule phase_disk [OF assms(1)])
    show "disk (put_backup dir f d) = (q, aput dir (f b) B, I, F)"
      using d(1) by (simp add: put_backup_def disk_def dflt_def alookup_aput aput_aput)
    show "fine D d0 m0 (q, aput dir (f b) B, I, F)"
      using fine_put [OF d(2) assms(2,4), where dir = dir] by (simp add: aput_aput)
    show "allowed_calls (q, aput dir b B, I, F) \<subseteq> allowed_calls (q, aput dir (f b) B, I, F)"
      using allowed_put [of dir "aput dir b B" q I F q "f b" I F] assms(3) by (simp add: alookup_aput aput_aput)
  qed (use assms(1) in \<open>auto simp: phase_def put_backup_def\<close>)
qed

lemma new_backup_phase:
  assumes "phase D d0 m0 (q, B, I, F) M c d" and "\<And>p. q = Some p \<Longrightarrow> \<not> pl_backed_up p" and "alookup dir B = None"
  shows "phase D d0 m0 (q, aput dir \<lparr>bk_files = [], bk_manifest = None\<rparr> B, I, F) M c (put_backup dir (\<lambda>b. b) d)"
proof -
  have d: "disk d = (q, B, I, F)" "fine D d0 m0 (q, B, I, F)" using assms(1) by (simp_all add: phase_def)
  show ?thesis
  proof (rule phase_disk [OF assms(1)])
    show "disk (put_backup dir (\<lambda>b. b) d) = (q, aput dir \<lparr>bk_files = [], bk_manifest = None\<rparr> B, I, F)"
      using d(1) assms(3) by (simp add: put_backup_def disk_def dflt_def)
    show "fine D d0 m0 (q, aput dir \<lparr>bk_files = [], bk_manifest = None\<rparr> B, I, F)" by (rule fine_put [OF d(2) assms(2)]) simp_all
    show "allowed_calls (q, B, I, F) \<subseteq> allowed_calls (q, aput dir \<lparr>bk_files = [], bk_manifest = None\<rparr> B, I, F)"
      by (rule allowed_put) (use assms(3) in simp)
  qed (use assms(1) in \<open>auto simp: phase_def put_backup_def\<close>)
qed

definition copied :: "(string \<times> content) list \<Rightarrow> string list \<Rightarrow> (string \<times> content) list" where
  "copied F names = map (\<lambda>name. (name, the (alookup name F))) names"

definition all_in :: "(string \<times> content) list \<Rightarrow> string list \<Rightarrow> bool" where
  "all_in F names \<longleftrightarrow> (\<forall>name \<in> set names. alookup name F \<noteq> None)"

lemma goes_copy:
  assumes "\<And>p. q = Some p \<Longrightarrow> \<not> pl_backed_up p" and "bk_manifest b = None"
    and "willing_run (ho_digest H) d0 m0 H web i \<and> V \<Longrightarrow> alookup name F \<noteq> None"
  shows "proceeds H web i d0 m0 V (phase (ho_digest H) d0 m0 (q, aput dir b B, I, F) M c) (copy_file H dir name)
    (\<lambda>_ d. phase (ho_digest H) d0 m0 (q, aput dir (b\<lparr>bk_files := bk_files b @ copied F [name]\<rparr>) B, I, F) M c d \<and> all_in F [name])"
  unfolding copy_file_def
proof (intro sure_bind [OF during.sure_step] sure_bind [OF sure_gets [where T = "\<lambda>x. x = alookup name F"]])
  fix found assume found: "found = alookup name F"
  show "proceeds H web i d0 m0 V (phase (ho_digest H) d0 m0 (q, aput dir b B, I, F) M c)
      (case found of None \<Rightarrow> raise OSError | Some x \<Rightarrow> modify (put_backup dir (\<lambda>b. b\<lparr>bk_files := bk_files b @ [(name, x)]\<rparr>)))
      (\<lambda>_ d. phase (ho_digest H) d0 m0 (q, aput dir (b\<lparr>bk_files := bk_files b @ copied F [name]\<rparr>) B, I, F) M c d \<and> all_in F [name])"
  proof (cases found)
    case None
    then show ?thesis using found assms(3) by (auto simp: goes_def wp_simps intro: phase_safe)
  next
    case (Some x)
    then show ?thesis
      using found assms(1,2) put_backup_phase [where f = "\<lambda>b. b\<lparr>bk_files := bk_files b @ [(name, x)]\<rparr>"]
      by (auto simp: copied_def all_in_def intro!: goes_modify)
  qed
qed (simp_all add: phase_def disk_def)

lemma goes_copies:
  assumes "\<And>p. q = Some p \<Longrightarrow> \<not> pl_backed_up p" and "bk_manifest b = None"
    and "willing_run (ho_digest H) d0 m0 H web i \<and> V \<Longrightarrow> all_in F names"
  shows "proceeds H web i d0 m0 V (phase (ho_digest H) d0 m0 (q, aput dir b B, I, F) M c) (for_each (copy_file H dir) names)
    (\<lambda>_ d. phase (ho_digest H) d0 m0 (q, aput dir (b\<lparr>bk_files := bk_files b @ copied F names\<rparr>) B, I, F) M c d \<and> all_in F names)"
  using assms(2,3)
proof (induction names arbitrary: b)
  case Nil
  show ?case unfolding for_each.simps by (rule goes_ret) (simp add: copied_def all_in_def)
next
  case (Cons name names)
  from Cons.prems have here: "willing_run (ho_digest H) d0 m0 H web i \<and> V \<Longrightarrow> alookup name F \<noteq> None"
    and there: "willing_run (ho_digest H) d0 m0 H web i \<and> V \<Longrightarrow> all_in F names" by (auto simp: all_in_def)
  show ?case
    unfolding for_each.simps
    by (rule goes_then [OF goes_copy [OF assms(1) Cons.prems(1) here]], assumption, assumption, rule goes_assume,
        rule goes_post [OF Cons.IH [OF _ there]])
      (use Cons.prems in \<open>auto simp: copied_def all_in_def\<close>)
qed

lemma willing_dump: "willing_run D d0 m0 H web i \<Longrightarrow> ho_output H n dump_args \<noteq> []"
  and willing_fresh: "willing_run D d0 m0 H web i \<Longrightarrow> name \<in> set PRIVATE \<Longrightarrow> alookup name (dk_files d0) \<noteq> None"
  by (simp_all add: willing_run_def willing_host_def list_all_iff)

lemma copied_lookup: "name \<in> set names \<Longrightarrow> all_in F names \<Longrightarrow> alookup name (copied F names) = alookup name F"
  by (induction names) (auto simp: copied_def all_in_def)

lemma faithful_copies:
  assumes "fine D d0 m0 (q, B, I, F)" and "all_in F kept_files" and "alookup ''state.json'' F = Some (Metadata c)" "continues m0 c"
    and "dump \<noteq> []" and "bk_files b = copied F kept_files @ [(''database.dump'', Private dump)]"
    and "bk_manifest b = Some (md_project m0, map (\<lambda>(name, c). (name, D c)) (bk_files b))"
  shows "faithful D d0 m0 b"
proof -
  have lookup: "alookup name (bk_files b) = alookup name F" if "name \<in> set kept_files" for name
    using that assms(2,6) copied_lookup [OF that assms(2)] by (auto simp: alookup_append all_in_def split: option.split)
  have PRIVATE_files: "alookup name (bk_files b) = alookup name (dk_files d0)" "alookup name (bk_files b) \<noteq> None"
    if "name \<in> set PRIVATE" for name
    using that assms(1,2) lookup [of name] by (auto simp: kept_files_def all_in_def)
  have state: "alookup ''state.json'' (bk_files b) = Some (Metadata c)"
    using lookup [of "''state.json''"] assms(3) by (simp add: kept_files_def)
  have "map fst (bk_files b) = kept_files @ [''database.dump'']" by (simp add: assms(6) copied_def o_def)
  then have "distinct (map fst (bk_files b))" by (simp only:) (simp add: kept_files_def PRIVATE_def)
  moreover have "alookup ''database.dump'' (copied F kept_files) = None"
    by (simp add: alookup_None_iff copied_def kept_files_def PRIVATE_def)
  then have "alookup ''database.dump'' (bk_files b) = Some (Private dump)" by (simp add: assms(6) alookup_append)
  ultimately show ?thesis using assms(4,5,7) PRIVATE_files state unfolding faithful_def by blast
qed

lemma phase_kept: "phase D d0 m0 (q, B, I, F) M c d \<Longrightarrow> willing_run D d0 m0 H web i \<Longrightarrow> all_in F kept_files"
  by (auto simp: phase_def willing_run_def all_in_def kept_files_def list_all_iff)

lemma goes_fill:
  assumes "\<And>p. q = Some p \<Longrightarrow> \<not> pl_backed_up p"
  shows "proceeds H web i d0 m0 V (phase (ho_digest H) d0 m0 (q, aput dir \<lparr>bk_files = [], bk_manifest = None\<rparr> B, I, F) M c) (fill_backup H dir)
    (\<lambda>x d. x = dir \<and> (\<exists>b. bk_manifest b \<noteq> None \<and> phase (ho_digest H) d0 m0 (q, aput dir b B, I, F) M c d))"
proof -
  let ?W = "willing_run (ho_digest H) d0 m0 H web i \<and> V"
  define b0 where "b0 = \<lparr>bk_files = [], bk_manifest = None\<rparr>"
  define b1 where "b1 = b0\<lparr>bk_files := copied F kept_files\<rparr>"
  define b2 where "b2 dump = b1\<lparr>bk_files := copied F kept_files @ [(''database.dump'', Private dump)]\<rparr>" for dump
  define b3 where "b3 dump = (b2 dump)\<lparr>bk_manifest := Some (md_project m0, digests H (bk_files (b2 dump)))\<rparr>" for dump
  let ?at = "\<lambda>b. phase (ho_digest H) d0 m0 (q, aput dir b B, I, F) M c"
  have manifests: "bk_manifest b0 = None" "bk_manifest b1 = None" "bk_manifest (b2 dump) = None" for dump
    by (simp_all add: b0_def b1_def b2_def)
  have "proceeds H web i d0 m0 V (?at b0) (for_each (copy_file H dir) kept_files)
      (\<lambda>_ d. ?at b1 d \<and> all_in F kept_files)" if "?W \<Longrightarrow> all_in F kept_files"
    using goes_copies [OF assms manifests(1) that] by (simp add: b1_def b0_def)
  then have copies: "proceeds H web i d0 m0 V (?at b0) (for_each (copy_file H dir) kept_files) (\<lambda>_ d. ?at b1 d \<and> all_in F kept_files)"
    by (rule goes_known [rotated, where R = "?W \<longrightarrow> all_in F kept_files"]) (auto dest: phase_kept)
  have last: "proceeds H web i d0 m0 V (?at (b2 dump))
      (andthen (void (compose H list_args)) (andthen (void (host_step H)) (bnd (gets dm_project) (\<lambda>project.
       andthen (modify (put_backup dir (\<lambda>b. b\<lparr>bk_manifest := Some (project, digests H (bk_files b))\<rparr>))) (ret dir)))))
      (\<lambda>x d. x = dir \<and> (\<exists>b. bk_manifest b \<noteq> None \<and> ?at b d))"
    if files: "all_in F kept_files" and dump: "dump \<noteq> []" for dump
  proof (intro sure_then [OF sure_void [OF during.sure_compose]] sure_then [OF sure_void [OF during.sure_step]] sure_bind [OF during.sure_project])
    fix project assume project: "project = md_project m0"
    have "?at (b3 dump) (put_backup dir (\<lambda>b. b\<lparr>bk_manifest := Some (project, digests H (bk_files b))\<rparr>) d)" if d: "?at (b2 dump) d" for d
    proof -
      have "fine (ho_digest H) d0 m0 (q, aput dir (b2 dump) B, I, F)" "alookup ''state.json'' F = Some (Metadata c)" "continues m0 c"
        using d by (simp_all add: phase_def)
      then have "faithful (ho_digest H) d0 m0 (b3 dump)"
        by (rule faithful_copies [OF _ files _ _ dump]) (simp_all add: b3_def b2_def digests_def)
      then show ?thesis
        using put_backup_phase [OF d assms manifests(3), where f = "\<lambda>b. b\<lparr>bk_manifest := Some (project, digests H (bk_files b))\<rparr>"]
        by (simp add: b3_def project)
    qed
    moreover have "bk_manifest (b3 dump) \<noteq> None" by (simp add: b3_def)
    ultimately show "proceeds H web i d0 m0 V (?at (b2 dump))
        (andthen (modify (put_backup dir (\<lambda>b. b\<lparr>bk_manifest := Some (project, digests H (bk_files b))\<rparr>))) (ret dir))
        (\<lambda>x d. x = dir \<and> (\<exists>b. bk_manifest b \<noteq> None \<and> ?at b d))"
      by (intro goes_then [OF goes_modify [where Q' = "\<lambda>_. ?at (b3 dump)"]] goes_ret) auto
  qed simp
  have put: "?at (b2 dump) (put_backup dir (\<lambda>b. b\<lparr>bk_files := bk_files b @ [(''database.dump'', Private dump)]\<rparr>) d)" if "?at b1 d" for d dump
    using put_backup_phase [OF that assms manifests(2), where f = "\<lambda>b. b\<lparr>bk_files := bk_files b @ [(''database.dump'', Private dump)]\<rparr>"]
    by (simp add: b2_def b1_def b0_def)
  have put_goes: "proceeds H web i d0 m0 V (?at b1)
      (modify (put_backup dir (\<lambda>b. b\<lparr>bk_files := bk_files b @ [(''database.dump'', Private dump)]\<rparr>))) (\<lambda>_. ?at (b2 dump))" for dump
    by (rule goes_modify) (rule put)
  have dumped: "proceeds H web i d0 m0 V (?at b1)
      (bnd (compose_output H dump_args) (\<lambda>dump.
       andthen (reject (dump = []) ValueError)
       (andthen (modify (put_backup dir (\<lambda>b. b\<lparr>bk_files := bk_files b @ [(''database.dump'', Private dump)]\<rparr>)))
       (andthen (void (compose H list_args)) (andthen (void (host_step H)) (bnd (gets dm_project) (\<lambda>project.
       andthen (modify (put_backup dir (\<lambda>b. b\<lparr>bk_manifest := Some (project, digests H (bk_files b))\<rparr>))) (ret dir))))))))
      (\<lambda>x d. x = dir \<and> (\<exists>b. bk_manifest b \<noteq> None \<and> ?at b d))" if "all_in F kept_files"
    by (intro sure_bind [OF during.sure_output [where T = "\<lambda>dump. dump \<noteq> []"]] refuse goes_then [OF put_goes] last that)
      (auto dest: willing_dump)
  show ?thesis
    unfolding fill_backup_def b0_def [symmetric] by (rule goes_then [OF copies goes_assume [OF dumped]])
qed

lemma goes_backup:
  assumes "\<And>p. q = Some p \<Longrightarrow> \<not> pl_backed_up p" and "\<And>n. V \<Longrightarrow> alookup (ho_uuid H n) B = None"
  shows "proceeds H web i d0 m0 V (phase (ho_digest H) d0 m0 (q, B, I, F) M c) (backup_demo H False)
    (\<lambda>dir d. \<exists>b. bk_manifest b \<noteq> None \<and> phase (ho_digest H) d0 m0 (q, aput dir b B, I, F) M c d)"
proof -
  have no_restart: "finally_do m (ret ()) = m" for m :: "(demo, string) op"
    by (auto simp: fun_eq_iff finally_do_def ret_def split: prod.splits)
  have new: "proceeds H web i d0 m0 V (phase (ho_digest H) d0 m0 (q, B, I, F) M c) (modify (put_backup dir (\<lambda>b. b)))
      (\<lambda>_. phase (ho_digest H) d0 m0 (q, aput dir \<lparr>bk_files = [], bk_manifest = None\<rparr> B, I, F) M c)"
    if "alookup dir B = None" for dir
    by (rule goes_modify) (rule new_backup_phase [OF _ assms(1) that])
  show ?thesis
    unfolding backup_demo_def Let_def if_False no_restart
  proof (rule sure_then [OF during.sure_guard], rule sure_bind [OF during.sure_step], rule sure_bind)
    fix n
    show "sure (phase (ho_digest H) d0 m0 (q, B, I, F) M c) (willing_run (ho_digest H) d0 m0 H web i \<and> V)
        (gets (\<lambda>d. alookup (ho_uuid H n) (dk_backups d))) (\<lambda>x. x = alookup (ho_uuid H n) B)"
      by (rule sure_gets) (simp add: phase_def disk_def)
    fix existing assume "existing = alookup (ho_uuid H n) B"
    with assms(2) show "proceeds H web i d0 m0 V (phase (ho_digest H) d0 m0 (q, B, I, F) M c)
        (andthen (reject (existing \<noteq> None) OSError)
          (andthen (modify (put_backup (ho_uuid H n) (\<lambda>b. b)))
          (andthen (void (compose H stop_args)) (fill_backup H (ho_uuid H n)))))
        (\<lambda>dir d. \<exists>b. bk_manifest b \<noteq> None \<and> phase (ho_digest H) d0 m0 (q, aput dir b B, I, F) M c d)"
      by (intro refuse goes_then [OF new] sure_then [OF sure_void [OF during.sure_compose]] goes_post [OF goes_fill] assms(1)) auto
  qed
qed

subsection \<open>The plan\<close>

lemma emap_digests:
  assumes "emap (file_digest H files) names = Inr marks" and "\<And>name. name \<in> set names \<Longrightarrow> name \<in> set PRIVATE \<and> alookup name files = alookup name (dk_files d0)"
  shows "list_all (\<lambda>(name, s). name \<in> set PRIVATE \<and> map_option (ho_digest H) (alookup name (dk_files d0)) = Some s) marks"
  using assms
proof (induction names arbitrary: marks)
  case (Cons name names)
  then show ?case by (auto simp: file_digest_def ebind_def split: sum.splits option.splits)
qed simp

lemma emap_digests_exist: "all_in files names \<Longrightarrow> \<exists>marks. emap (file_digest H files) names = Inr marks"
  by (induction names) (auto simp: file_digest_def all_in_def)

text \<open>Replacing the plan, whatever it was, by one that fits the disk.\<close>

lemma plan_phase:
  assumes "phase D d0 m0 (q, B, I, F) M c d" and "\<And>p. q' = Some p \<Longrightarrow> plan_ok D d0 m0 B I p"
    and "disk d' = (q', B, I, F)" and "dm_project d' = dm_project d" "dm_path d' = dm_path d" "dk_linked d' = dk_linked d"
      "dm_state d' = dm_state d" "dd_calls d' = dd_calls d"
  shows "phase D d0 m0 (q', B, I, F) M c d'"
  by (rule phase_disk [OF assms(1) assms(4-8) assms(3)]) (use assms(1,2) in \<open>auto simp: phase_def\<close>)

lemma goes_record:
  assumes ok: "plan_ok (ho_digest H) d0 m0 B I p" and fresh: "\<And>n. V \<Longrightarrow> alookup (ho_uuid H n) B = None"
  shows "proceeds H web i d0 m0 V (phase (ho_digest H) d0 m0 (Some p, B, I, F) M c) (record_backup H p)
    (\<lambda>p' d. pl_backed_up p' \<and> pl_target p' = pl_target p \<and> pl_identity p' = pl_identity p \<and>
      (\<exists>B. phase (ho_digest H) d0 m0 (Some p', B, I, F) M c d))"
proof (cases "pl_backed_up p")
  case True
  then show ?thesis unfolding record_backup_def by (auto intro!: goes_ret)
next
  case False
  let ?Q = "\<lambda>p' d. pl_backed_up p' \<and> pl_target p' = pl_target p \<and> pl_identity p' = pl_identity p \<and>
      (\<exists>B. phase (ho_digest H) d0 m0 (Some p', B, I, F) M c d)"
  let ?rest = "\<lambda>dir. bnd (gets (\<lambda>d. emap (file_digest H (dk_files d)) PRIVATE)) (\<lambda>private.
      bnd (lift private) (\<lambda>marks.
      let plan' = p\<lparr>pl_backed_up := True, pl_backup := dir, pl_private := marks\<rparr> in
      andthen (atomic_write H (dk_pending_update (\<lambda>_. Some plan'))) (ret plan')))"
  have rest: "proceeds H web i d0 m0 V (phase (ho_digest H) d0 m0 (Some p, aput dir b B, I, F) M c) (?rest dir) ?Q"
    if b: "bk_manifest b \<noteq> None" for dir b
  proof (rule sure_bind [OF sure_gets [where T = "\<lambda>x. x = emap (file_digest H F) PRIVATE"]], simp add: phase_def disk_def)
    fix marks_found assume found: "marks_found = emap (file_digest H F) PRIVATE"
    have marks: "proceeds H web i d0 m0 V (phase (ho_digest H) d0 m0 (Some p, aput dir b B, I, F) M c)
        (let plan' = p\<lparr>pl_backed_up := True, pl_backup := dir, pl_private := marks\<rparr> in
         andthen (atomic_write H (dk_pending_update (\<lambda>_. Some plan'))) (ret plan')) ?Q" if found_marks: "marks_found = Inr marks" for marks
      unfolding Let_def
    proof (rule goes_then [OF goes_atomic goes_ret])
      let ?p = "p\<lparr>pl_backed_up := True, pl_backup := dir, pl_private := marks\<rparr>"
      fix d assume d: "phase (ho_digest H) d0 m0 (Some p, aput dir b B, I, F) M c d"
      then have "\<forall>name \<in> set PRIVATE. alookup name F = alookup name (dk_files d0)" by (simp add: phase_def)
      then have "plan_ok (ho_digest H) d0 m0 (aput dir b B) I ?p"
        using ok b emap_digests [of H F PRIVATE marks d0] found found_marks
        by (auto simp: plan_ok_def complete_in_def alookup_aput)
      with d show "phase (ho_digest H) d0 m0 (Some ?p, aput dir b B, I, F) M c (dk_pending_update (\<lambda>_. Some ?p) d)"
        by (intro plan_phase [OF d]) (simp_all add: phase_def disk_def)
    qed auto
    show "proceeds H web i d0 m0 V (phase (ho_digest H) d0 m0 (Some p, aput dir b B, I, F) M c)
        (bnd (lift marks_found) (\<lambda>marks. let plan' = p\<lparr>pl_backed_up := True, pl_backup := dir, pl_private := marks\<rparr> in
         andthen (atomic_write H (dk_pending_update (\<lambda>_. Some plan'))) (ret plan'))) ?Q"
    proof (rule goes_known [where R = "willing_run (ho_digest H) d0 m0 H web i \<longrightarrow> all_in F kept_files"])
      assume kept: "willing_run (ho_digest H) d0 m0 H web i \<longrightarrow> all_in F kept_files"
      have "willing_run (ho_digest H) d0 m0 H web i \<Longrightarrow> \<exists>marks. marks_found = Inr marks"
        using kept emap_digests_exist [of F PRIVATE H] found by (auto simp: all_in_def kept_files_def)
      then show ?thesis by (intro sure_bind [OF sure_lift] marks) auto
    qed (auto dest: phase_kept)
  qed
  have "proceeds H web i d0 m0 V (phase (ho_digest H) d0 m0 (Some p, B, I, F) M c)
      (andthen (load_demo H) (bnd (backup_demo H False) ?rest)) ?Q"
    by (intro sure_then [OF during.sure_load] goes_bnd [OF goes_backup] goes_ex rest) (use False fresh in auto)
  then show ?thesis using False unfolding record_backup_def by simp
qed

lemma intact_all: "list_all (\<lambda>(name, s). map_option (ho_digest H) (alookup name files) = Some s) marks \<Longrightarrow> intact H files marks = Inr True"
  by (induction marks) auto

lemma intact_digests: "distinct (map fst files) \<Longrightarrow> intact H files (map (\<lambda>(name, c). (name, ho_digest H c)) files) = Inr True"
  by (rule intact_all) (auto simp: list_all_iff alookup_def)

lemma verified:
  assumes "fine (ho_digest H) d0 m0 (Some p, B, I, F)" and "pl_backed_up p"
  obtains b where "alookup (pl_backup p) B = Some b" "bk_manifest b = Some (md_project m0, map (\<lambda>(name, c). (name, ho_digest H c)) (bk_files b))"
    "intact H (bk_files b) (map (\<lambda>(name, c). (name, ho_digest H c)) (bk_files b)) = Inr True" "intact H F (pl_private p) = Inr True"
    "migrate_args \<in> allowed_calls (Some p, B, I, F)"
proof -
  obtain b where b: "alookup (pl_backup p) B = Some b" "bk_manifest b \<noteq> None"
    using assms by (auto simp: plan_ok_def complete_in_def)
  then have faithful: "faithful (ho_digest H) d0 m0 b" using assms(1) by (simp del: split_paired_Ex)
  have marks: "list_all (\<lambda>(name, s). name \<in> set PRIVATE \<and> map_option (ho_digest H) (alookup name (dk_files d0)) = Some s) (pl_private p)"
    and same: "\<forall>name \<in> set PRIVATE. alookup name F = alookup name (dk_files d0)"
    using assms by (simp_all add: plan_ok_def)
  have "intact H F (pl_private p) = Inr True" by (rule intact_all, rule list.pred_mono_strong [OF marks]) (use same in auto)
  moreover have "complete_in B (pl_backup p)" using b by (simp add: complete_in_def)
  then have "migrate_args \<in> allowed_calls (Some p, B, I, F)" by auto
  ultimately show thesis using that b(1) faithful intact_digests by (simp add: faithful_def)
qed

lemma sure_verify_backup:
  assumes "fine (ho_digest H) d0 m0 (Some p, B, I, F)" and "pl_backed_up p"
  shows "sure (phase (ho_digest H) d0 m0 (Some p, B, I, F) M c) (willing_run (ho_digest H) d0 m0 H web i \<and> V) (verify_backup H p) (\<lambda>_. True)"
proof -
  obtain b where b: "alookup (pl_backup p) B = Some b" "bk_manifest b = Some (md_project m0, map (\<lambda>(name, c). (name, ho_digest H c)) (bk_files b))"
    "intact H (bk_files b) (map (\<lambda>(name, c). (name, ho_digest H c)) (bk_files b)) = Inr True" "intact H F (pl_private p) = Inr True"
    using verified [OF assms] by metis
  have good: "sure (phase (ho_digest H) d0 m0 (Some p, B, I, F) M c) (willing_run (ho_digest H) d0 m0 H web i \<and> V)
      (case Option.bind found_backup (\<lambda>b. map_option (\<lambda>m. (b, m)) (bk_manifest b)) of
         None \<Rightarrow> raise OSError
       | Some (b, owner, marks) \<Rightarrow>
           andthen (reject (owner \<noteq> project) ValueError)
           (bnd (lift (intact H (bk_files b) marks)) (\<lambda>copies_intact.
           andthen (reject (\<not> copies_intact) ValueError)
           (bnd (lift (intact H files (pl_private p))) (\<lambda>inputs_intact.
           reject (\<not> inputs_intact) ValueError))))) (\<lambda>_. True)"
    if "found_backup = Some b" "project = md_project m0" "files = F" for found_backup project files
    using that b by (simp add: sure_def wp_simps)
  show ?thesis
    unfolding verify_backup_def
    by (rule sure_bnd [OF during.sure_step], rule sure_bnd [OF sure_gets [where T = "\<lambda>x. x = Some b"]],
        use b in \<open>simp add: phase_def disk_def\<close>, rule sure_bnd [OF during.sure_project],
        rule sure_bnd [OF sure_gets [where T = "\<lambda>x. x = F"]], simp add: phase_def disk_def, rule good)
qed

subsection \<open>The end of an upgrade\<close>

definition finished :: "(content \<Rightarrow> string) \<Rightarrow> demo \<Rightarrow> metadata \<Rightarrow> string \<times> string \<Rightarrow> demo \<Rightarrow> bool" where
  "finished D d0 m0 j d \<longleftrightarrow> safe D d0 m0 d \<and> dk_pending d = None \<and>
     (\<exists>m. alookup ''state.json'' (dk_files d) = Some (Metadata m) \<and> md_identity m = Some j)"

lemma put_file_phase:
  assumes "phase D d0 m0 (q, B, I, F) M c d" and "name \<notin> set PRIVATE"
    and "alookup ''state.json'' (aput name x F) = Some (Metadata c')" "continues m0 c'"
  shows "phase D d0 m0 (q, B, I, aput name x F) (\<lambda>_. True) c' (put_file name x d)"
  by (rule phase_disk [OF assms(1)]) (use assms in \<open>auto simp: phase_def put_file_def disk_def alookup_aput\<close>)

lemma goes_finish:
  assumes ok: "plan_ok (ho_digest H) d0 m0 B I p" and fresh: "\<And>n. V \<Longrightarrow> alookup (ho_uuid H n) B = None"
  shows "proceeds H web i d0 m0 V (phase (ho_digest H) d0 m0 (Some p, B, I, F) M c) (finish_upgrade H p)
    (\<lambda>_. finished (ho_digest H) d0 m0 (pl_identity p))"
proof -
  let ?P = "phase (ho_digest H) d0 m0"
  let ?m = "pl_target p"
  have images: "emap (image_id I (md_env ?m)) image_keys = Inr (pl_images p)" and m: "continues m0 ?m" and
      j: "md_identity ?m = Some (pl_identity p)" using ok by (simp_all add: plan_ok_def)
  have last: "finished (ho_digest H) d0 m0 (pl_identity p) (d\<lparr>dk_pending := None, dk_history := dk_history d @ [p']\<rparr>)"
    if d: "?P (Some p', B', I, F') M' ?m d" for d p' B' F' M'
  proof -
    have "?P (None, B', I, F') M' ?m (d\<lparr>dk_pending := None, dk_history := dk_history d @ [p']\<rparr>)"
      by (rule plan_phase [OF d]) (use d in \<open>simp_all add: phase_def disk_def\<close>)
    from phase_safe [OF this] show ?thesis using j d by (simp add: finished_def phase_def disk_def)
  qed
  have tail: "proceeds H web i d0 m0 V (?P (Some p', B', I, F) M c)
      (andthen (verify_backup H p')
      (andthen (void (compose H stop_args))
      (andthen (modify (\<lambda>d. d\<lparr>dm_env := merge_vars (dm_env d) (md_env ?m)\<rparr>))
      (andthen (void (compose H migrate_args))
      (andthen (atomic_write H (put_file ''state.json'' (Metadata ?m)))
      (andthen (atomic_write H (put_file ''compose.env'' (Variables (md_env ?m))))
      (andthen (load_demo H)
      (andthen (void (compose H up_args))
      (andthen (verify_demo H)
      (atomic_write H (\<lambda>d. d\<lparr>dk_pending := None, dk_history := dk_history d @ [p']\<rparr>)))))))))))
      (\<lambda>_. finished (ho_digest H) d0 m0 (pl_identity p))"
    if p': "pl_backed_up p'" for p' B'
  proof (rule goes_known)
    show "fine (ho_digest H) d0 m0 (Some p', B', I, F)" if "?P (Some p', B', I, F) M c d" for d using that by (simp add: phase_def)
    assume fine: "fine (ho_digest H) d0 m0 (Some p', B', I, F)"
    have migrate: "migrate_args \<in> allowed_calls (Some p', B', I, F)" using verified [OF fine p'] by metis
    have state: "?P (Some p', B', I, aput ''state.json'' (Metadata ?m) F) (\<lambda>_. True) ?m (put_file ''state.json'' (Metadata ?m) d)"
      if "?P (Some p', B', I, F) M c d" for d
      by (rule put_file_phase [OF that _ _ m]) (simp_all add: PRIVATE_def alookup_aput)
    have environment: "?P (Some p', B', I, aput ''compose.env'' (Variables (md_env ?m)) (aput ''state.json'' (Metadata ?m) F)) (\<lambda>_. True) ?m
        (put_file ''compose.env'' (Variables (md_env ?m)) d)"
      if "?P (Some p', B', I, aput ''state.json'' (Metadata ?m) F) (\<lambda>_. True) ?m d" for d
      by (rule put_file_phase [OF that _ _ m]) (simp_all add: PRIVATE_def alookup_aput)
    show ?thesis
      by (rule sure_then [OF sure_verify_backup [OF fine p']], rule sure_then [OF sure_void [OF during.sure_compose]], simp,
          rule sure_then [OF sure_modify], erule during.environments, rule sure_then [OF sure_void [OF during.sure_compose]], rule migrate,
          rule goes_then, rule goes_atomic, erule state, rule goes_then, rule goes_atomic, erule environment,
          rule sure_then [OF during.sure_load], rule sure_then [OF sure_void [OF during.sure_compose]], simp,
          rule sure_then [OF during.sure_verify], rule goes_atomic, erule last)
  qed
  show ?thesis
    unfolding finish_upgrade_def
  proof (rule sure_bind [OF sure_image_ids], use images in simp, rule refuse, use images in simp, rule goes_bnd [OF goes_record [OF ok fresh]], assumption)
    fix p'
    show "proceeds H web i d0 m0 V
        (\<lambda>d. pl_backed_up p' \<and> pl_target p' = ?m \<and> pl_identity p' = pl_identity p \<and> (\<exists>B. ?P (Some p', B, I, F) M c d))
        (andthen (verify_backup H p')
        (andthen (void (compose H stop_args))
        (andthen (modify (\<lambda>d. d\<lparr>dm_env := merge_vars (dm_env d) (md_env (pl_target p'))\<rparr>))
        (andthen (void (compose H migrate_args))
        (andthen (atomic_write H (put_file ''state.json'' (Metadata (pl_target p'))))
        (andthen (atomic_write H (put_file ''compose.env'' (Variables (md_env (pl_target p')))))
        (andthen (load_demo H)
        (andthen (void (compose H up_args))
        (andthen (verify_demo H)
        (atomic_write H (\<lambda>d. d\<lparr>dk_pending := None, dk_history := dk_history d @ [p']\<rparr>)))))))))))
        (\<lambda>_. finished (ho_digest H) d0 m0 (pl_identity p))"
      by (rule goes_record_cases) (simp only: tail)
  qed
qed

subsection \<open>Building a plan\<close>

lemma merge_vars_other: "k \<notin> fst ` set new \<Longrightarrow> alookup k (merge_vars old new) = alookup k old"
  unfolding merge_vars_def by (induction new arbitrary: old) (auto simp: alookup_aput)

lemma target_continues: "continues m0 m \<Longrightarrow> continues m0 (upgrade_target m project web source suffix context)"
  by (auto simp: continues_def upgrade_target_def upgraded_env_def Let_def merge_vars_other upgrade_keys_def)

lemma target_images:
  "alookup ''DEMO_CORE_IMAGE'' (upgraded_env project suffix context env) = Some (''kz-home-core:'' @ project @ ''-upgrade-'' @ suffix)"
  "alookup ''DEMO_WEB_IMAGE'' (upgraded_env project suffix context env) = Some (''kz-home-web:'' @ project @ ''-upgrade-'' @ suffix)"
  by (simp_all add: upgraded_env_def Let_def merge_vars_def alookup_aput)

lemma goes_build_images:
  assumes "alookup ''DEMO_CORE_IMAGE'' env = Some core" and "alookup ''DEMO_WEB_IMAGE'' env = Some site"
  shows "proceeds H web i d0 m0 V (phase (ho_digest H) d0 m0 (None, B, I, F) M c) (build_images H env)
    (\<lambda>_ d. \<exists>I'. (\<exists>x. emap (image_id I' env) image_keys = Inr x) \<and> phase (ho_digest H) d0 m0 (None, B, I', F) M c d)"
  unfolding build_images_def
proof (rule sure_bind [OF during.sure_compose], simp, rule goes_modify)
  fix n d
  let ?I = "foldl (\<lambda>images key. case alookup key env of None \<Rightarrow> images | Some tag \<Rightarrow> aput tag (ho_built H n tag) images) I image_keys"
  assume d: "phase (ho_digest H) d0 m0 (None, B, I, F) M c d"
  have "\<exists>x. emap (image_id ?I env) image_keys = Inr x" using assms by (simp add: image_keys_def image_id_def alookup_aput)
  moreover have "phase (ho_digest H) d0 m0 (None, B, ?I, F) M c
      (d\<lparr>dd_images := foldl (\<lambda>images key. case alookup key env of None \<Rightarrow> images | Some tag \<Rightarrow> aput tag (ho_built H n tag) images)
         (dd_images d) image_keys\<rparr>)"
    by (rule phase_disk [OF d]) (use d in \<open>auto simp: phase_def disk_def\<close>)
  ultimately show "\<exists>I'. (\<exists>x. emap (image_id I' env) image_keys = Inr x) \<and> phase (ho_digest H) d0 m0 (None, B, I', F) M c
      (d\<lparr>dd_images := foldl (\<lambda>images key. case alookup key env of None \<Rightarrow> images | Some tag \<Rightarrow> aput tag (ho_built H n tag) images)
         (dd_images d) image_keys\<rparr>)" by blast
qed

lemma goes_build_plan:
  "proceeds H web i d0 m0 V (phase (ho_digest H) d0 m0 (None, B, I, F) M c) (build_plan H web source)
    (\<lambda>p d. pl_identity p = source \<and> (\<exists>I'. plan_ok (ho_digest H) d0 m0 B I' p \<and> phase (ho_digest H) d0 m0 (Some p, B, I', F) M c d))"
  unfolding build_plan_def Let_def
proof (rule sure_bind [OF during.sure_loaded], rule sure_bind [OF during.sure_step], rule sure_bind [OF during.sure_project],
    rule sure_bind [OF during.sure_place], rule sure_bind [OF during.sure_stage], rule sure_then [OF sure_modify], erule during.environments)
  fix previous n project place
  assume previous: "recall m0 M c previous" and project: "project = md_project m0"
  let ?m = "upgrade_target previous project web source (ho_uuid H n) (slashes (place @ ''/web-upgrade-'' @ ho_uuid H n))"
  let ?plan = "\<lambda>images. \<lparr>pl_project = project, pl_identity = source, pl_target = ?m, pl_previous = previous,
      pl_backed_up = False, pl_images = images, pl_backup = [], pl_private = []\<rparr>"
  let ?Q = "\<lambda>p d. pl_identity p = source \<and> (\<exists>I'. plan_ok (ho_digest H) d0 m0 B I' p \<and> phase (ho_digest H) d0 m0 (Some p, B, I', F) M c d)"
  have m: "continues m0 ?m" using previous by (intro target_continues) (simp add: recall_def)
  have env: "md_env ?m = upgraded_env project (ho_uuid H n) (slashes (place @ ''/web-upgrade-'' @ ho_uuid H n)) (md_env previous)"
    and identity: "md_identity ?m = Some source" by (simp_all add: upgrade_target_def)
  have plan: "proceeds H web i d0 m0 V (phase (ho_digest H) d0 m0 (None, B, I', F) M c)
      (andthen (atomic_write H (dk_pending_update (\<lambda>_. Some (?plan images)))) (ret (?plan images))) ?Q"
    if images: "emap (image_id I' (md_env ?m)) image_keys = Inr images" for I' images
  proof (rule goes_then [OF goes_atomic goes_ret])
    have ok: "plan_ok (ho_digest H) d0 m0 B I' (?plan images)" using images m identity project by (simp add: plan_ok_def)
    show "phase (ho_digest H) d0 m0 (Some (?plan images), B, I', F) M c (dk_pending_update (\<lambda>_. Some (?plan images)) d)"
      if d: "phase (ho_digest H) d0 m0 (None, B, I', F) M c d" for d
      by (rule plan_phase [OF d]) (use d ok in \<open>simp_all add: phase_def disk_def\<close>)
    show "?Q (?plan images) d" if "phase (ho_digest H) d0 m0 (Some (?plan images), B, I', F) M c d" for d using that ok by auto
  qed
  show "proceeds H web i d0 m0 V (phase (ho_digest H) d0 m0 (None, B, I, F) M c)
      (andthen (build_images H (md_env ?m)) (bnd (image_ids H (md_env ?m)) (\<lambda>images.
       andthen (atomic_write H (dk_pending_update (\<lambda>_. Some (?plan images)))) (ret (?plan images))))) ?Q"
    by (rule goes_then, rule goes_build_images, unfold env, rule target_images, rule target_images, fold env, rule goes_ex,
        rule sure_bind [OF sure_image_ids], assumption, erule plan)
qed

subsection \<open>A run\<close>

text \<open>What the outcome of a run says of the source it installs.\<close>

lemma goes_apply:
  assumes fresh: "\<And>n. V \<Longrightarrow> alookup (ho_uuid H n) B = None" and same: "\<And>p. V \<Longrightarrow> q = Some p \<Longrightarrow> pl_identity p = i"
  shows "proceeds H web i d0 m0 V (phase (ho_digest H) d0 m0 (q, B, I, F) (\<lambda>_. False) c) (apply_upgrade H web)
    (\<lambda>_ d. \<exists>j. (willing_run (ho_digest H) d0 m0 H web i \<and> V \<longrightarrow> j = i) \<and> finished (ho_digest H) d0 m0 j d)"
  unfolding apply_upgrade_def
proof (rule sure_bind [OF during.sure_check], rule sure_bind [OF sure_gets [where T = "\<lambda>x. x = q"]], simp add: phase_def disk_def)
  fix source found
  assume source: "willing_run (ho_digest H) d0 m0 H web i \<and> V \<longrightarrow> source = i" and found: "found = q"
  let ?P = "phase (ho_digest H) d0 m0" and ?Q = "\<lambda>_ d. \<exists>j. (willing_run (ho_digest H) d0 m0 H web i \<and> V \<longrightarrow> j = i) \<and> finished (ho_digest H) d0 m0 j d"
  have run: "proceeds H web i d0 m0 V (?P (Some p, B, I', F) (\<lambda>_. False) c) (finish_upgrade H p) ?Q"
    if "plan_ok (ho_digest H) d0 m0 B I' p" "pl_identity p = source" for p I'
  proof (rule goes_post [OF goes_finish [OF that(1) fresh]])
    fix x d assume "finished (ho_digest H) d0 m0 (pl_identity p) d"
    with source that(2) show "?Q x d" by blast
  qed
  have resume: "proceeds H web i d0 m0 V (?P (q, B, I, F) (\<lambda>_. False) c)
      (bnd (gets dm_project) (\<lambda>project. andthen (reject (pl_project p \<noteq> project \<or> pl_identity p \<noteq> source) ValueError) (finish_upgrade H p))) ?Q"
    if q: "q = Some p" for p
  proof (rule goes_known [where R = "plan_ok (ho_digest H) d0 m0 B I p"])
    show "plan_ok (ho_digest H) d0 m0 B I p" if "?P (q, B, I, F) (\<lambda>_. False) c d" for d using that q by (simp add: phase_def)
    assume ok: "plan_ok (ho_digest H) d0 m0 B I p"
    have match: "willing_run (ho_digest H) d0 m0 H web i \<and> V \<Longrightarrow> pl_identity p = source" using source same q by metis
    have project: "pl_project p = md_project m0" using ok by (simp add: plan_ok_def)
    show ?thesis
      by (rule sure_bind [OF during.sure_project], rule refuse) (use match project q in \<open>auto simp del: split_paired_Ex intro!: run [OF ok]\<close>)
  qed
  have build: "proceeds H web i d0 m0 V (?P (None, B, I, F) (\<lambda>_. False) c) (bnd (build_plan H web source) (finish_upgrade H)) ?Q"
  proof (rule goes_bnd [OF goes_build_plan])
    fix p
    show "proceeds H web i d0 m0 V (\<lambda>d. pl_identity p = source \<and>
        (\<exists>I'. plan_ok (ho_digest H) d0 m0 B I' p \<and> ?P (Some p, B, I', F) (\<lambda>_. False) c d)) (finish_upgrade H p) ?Q"
      using run [of _ p] unfolding goes_def by blast
  qed
  have again: "proceeds H web i d0 m0 V (?P (None, B, I, F) (\<lambda>_. False) c) (verify_demo H) ?Q" if "md_identity c = Some source"
  proof (rule goes_post [OF goes_sure [OF during.sure_verify phase_safe]], assumption)
    fix x d assume d: "?P (None, B, I, F) (\<lambda>_. False) c d \<and> True"
    then have "finished (ho_digest H) d0 m0 source d" using that phase_safe by (auto simp: finished_def phase_def disk_def)
    with source show "?Q x d" by blast
  qed
  show "proceeds H web i d0 m0 V (?P (q, B, I, F) (\<lambda>_. False) c)
      (case found of
         Some plan \<Rightarrow> bnd (gets dm_project) (\<lambda>project.
           andthen (reject (pl_project plan \<noteq> project \<or> pl_identity plan \<noteq> source) ValueError) (finish_upgrade H plan))
       | None \<Rightarrow> bnd (loaded H) (\<lambda>m. if md_identity m = Some source then verify_demo H else bnd (build_plan H web source) (finish_upgrade H))) ?Q"
  proof (cases q)
    case None
    have "proceeds H web i d0 m0 V (?P (None, B, I, F) (\<lambda>_. False) c)
        (bnd (loaded H) (\<lambda>m. if md_identity m = Some source then verify_demo H else bnd (build_plan H web source) (finish_upgrade H))) ?Q"
      by (rule sure_bind [OF during.sure_loaded]) (use again build in \<open>auto simp: recall_def\<close>)
    with None found show ?thesis by simp
  next
    case (Some p)
    with resume [OF Some] found show ?thesis by simp
  qed
qed

lemma goes_command:
  assumes "safe (ho_digest H) d0 m0 d" and "\<And>n. V \<Longrightarrow> alookup (ho_uuid H n) (dk_backups d) = None"
    and "\<And>p. V \<Longrightarrow> dk_pending d = Some p \<Longrightarrow> pl_identity p = i"
  shows "wp (upgrade_command H web)
    (\<lambda>_ d'. \<exists>j. (willing_run (ho_digest H) d0 m0 H web i \<and> V \<longrightarrow> j = i) \<and> finished (ho_digest H) d0 m0 j d')
    (\<lambda>_ d'. safe (ho_digest H) d0 m0 d' \<and> \<not> (willing_run (ho_digest H) d0 m0 H web i \<and> V)) d"
proof -
  from assms(1) obtain c where "phase (ho_digest H) d0 m0 (disk d) (\<lambda>_. True) c d" by (auto simp: safe_def)
  then have reset: "phase (ho_digest H) d0 m0 (disk d) (\<lambda>_. False) c (d\<lparr>dm_state := None, dm_env := []\<rparr>)"
    by (simp add: phase_def disk_def)
  have "proceeds H web i d0 m0 V (phase (ho_digest H) d0 m0 (disk d) (\<lambda>_. False) c)
      (andthen (load_demo H) (andthen (guard_demo H) (upgrade H web)))
      (\<lambda>_ d'. \<exists>j. (willing_run (ho_digest H) d0 m0 H web i \<and> V \<longrightarrow> j = i) \<and> finished (ho_digest H) d0 m0 j d')"
    unfolding upgrade_def disk_def
    by (rule sure_then [OF during.sure_load], rule sure_then [OF during.sure_guard], rule refuse,
        simp add: willing_run_def willing_checkout_def, rule goes_apply) (use assms(2,3) in auto)
  with reset show ?thesis unfolding upgrade_command_def goes_def wp_andthen wp_modify by blast
qed

subsection \<open>Interrupted runs\<close>

definition after_runs :: "(host \<times> web_checkout) list \<Rightarrow> demo \<Rightarrow> demo" where
  "after_runs runs d0 = foldl (\<lambda>d (H, web). snd (upgrade_command H web d)) d0 runs"

text \<open>A demo as \<open>prepare\<close> leaves it: metadata and environment written, nothing pending.\<close>

definition prepared :: "demo \<Rightarrow> metadata \<Rightarrow> bool" where
  "prepared d0 m0 \<longleftrightarrow> dm_project d0 = md_project m0 \<and> dm_state d0 \<in> {None, Some m0} \<and> dk_pending d0 = None \<and> dk_backups d0 = [] \<and>
     list_all (\<lambda>(env, args). args \<in> quiet_calls) (dd_calls d0) \<and>
     alookup ''state.json'' (dk_files d0) = Some (Metadata m0) \<and> alookup ''compose.env'' (dk_files d0) \<noteq> None"

lemma prepared_safe: "prepared d0 m0 \<Longrightarrow> safe D d0 m0 d0"
  by (fastforce simp: safe_def phase_def prepared_def disk_def continues_def recall_def list_all_iff intro!: exI [of _ m0])

lemma safe_after:
  assumes "safe D d0 m0 d" and "list_all (\<lambda>(H, _). ho_digest H = D) runs"
  shows "safe D d0 m0 (after_runs runs d)"
  using assms
proof (induction runs arbitrary: d)
  case (Cons run runs)
  obtain H web where run: "run = (H, web)" by (cases run)
  from Cons.prems have "safe (ho_digest H) d0 m0 d" by (simp add: run)
  from goes_command [OF this, where V = False and web = web]
  have "safe (ho_digest H) d0 m0 (snd (upgrade_command H web d))"
    by (auto simp: wp_def finished_def split: prod.splits sum.splits)
  with Cons show ?case by (simp add: run after_runs_def)
qed (simp add: after_runs_def)

text \<open>
  C31. However many runs of \<open>deploy.demo upgrade\<close> are made and wherever each of them is interrupted (any
  Docker, git or file operation may fail or be killed), the private inputs stay the ones of the
  prepared demo, \<open>state.json\<close> is always the metadata of the same installation with the same secrets,
  a backup that has a manifest is a faithful copy with a database dump, and the runs call nothing of
  Docker Compose but the listed reads, builds, stops and starts (never \<open>down\<close>, a volume removal or
  the bootstrap) and the migration, which is called only once a complete backup exists.
\<close>

theorem interrupted_upgrades_lose_nothing:
  assumes "prepared d0 m0" and "list_all (\<lambda>(H, _). ho_digest H = D) runs" and "d = after_runs runs d0"
  shows "(\<forall>name \<in> set PRIVATE. alookup name (dk_files d) = alookup name (dk_files d0)) \<and>
    (\<exists>m. alookup ''state.json'' (dk_files d) = Some (Metadata m) \<and> continues m0 m) \<and>
    (\<forall>dir b. alookup dir (dk_backups d) = Some b \<longrightarrow> bk_manifest b \<noteq> None \<longrightarrow> faithful D d0 m0 b) \<and>
    (\<forall>(env, args) \<in> set (dd_calls d). args \<in> quiet_calls \<or> args = migrate_args \<and> (\<exists>dir. complete_in (dk_backups d) dir))"
proof -
  from safe_after [OF prepared_safe [OF assms(1)] assms(2)] obtain c where "phase D d0 m0 (disk d) (\<lambda>_. True) c d"
    unfolding assms(3) by (auto simp: safe_def)
  then show ?thesis by (force simp: phase_def disk_def split: if_splits)
qed

text \<open>
  C32. Interrupted upgrades are resumed: after any interrupted runs, a run for the source of the plan
  they left (or for any source, when they left none) on a host where no operation fails and whose
  containers, configuration and checkout pass the checks returns, clears the plan, and leaves
  \<open>state.json\<close> with the identity of that source. Nothing an interrupted run leaves behind (a partial
  backup, built images, a staged context, half of the metadata) stops it.
\<close>

theorem interrupted_upgrade_resumes:
  assumes "prepared d0 m0" and "list_all (\<lambda>(H', _). ho_digest H' = ho_digest H) runs" and "d = after_runs runs d0"
    and "willing_run (ho_digest H) d0 m0 H web i"
    and "dk_pending d = None \<or> map_option pl_identity (dk_pending d) = Some i"
    and "\<And>n. alookup (ho_uuid H n) (dk_backups d) = None"
  shows "\<exists>d' m. upgrade_command H web d = (Inr (), d') \<and> dk_pending d' = None \<and>
    alookup ''state.json'' (dk_files d') = Some (Metadata m) \<and> md_identity m = Some i \<and> continues m0 m"
proof -
  have safe: "safe (ho_digest H) d0 m0 d" unfolding assms(3) by (rule safe_after [OF prepared_safe [OF assms(1)] assms(2)])
  have same: "pl_identity p = i" if "dk_pending d = Some p" for p using assms(5) that by simp
  have "wp (upgrade_command H web) (\<lambda>_ d'. finished (ho_digest H) d0 m0 i d') (\<lambda>_ _. False) d"
    by (rule wp_mono [OF goes_command [OF safe, where V = True and web = web and i = i]])
      (use assms(4,6) same in \<open>simp_all del: split_paired_Ex\<close>)
  then obtain d' where d': "upgrade_command H web d = (Inr (), d')" "finished (ho_digest H) d0 m0 i d'"
    by (auto simp: wp_def split: prod.splits sum.splits)
  then obtain c where "phase (ho_digest H) d0 m0 (disk d') (\<lambda>_. True) c d'" by (auto simp: finished_def safe_def)
  with d' show ?thesis by (auto simp: finished_def phase_def disk_def)
qed

subsection \<open>An example installation\<close>

definition example_metadata :: metadata where
  "example_metadata = \<lparr>md_version = 14, md_project = ''kzhome-demo'',
     md_env = [(''DEMO_PLATFORM'', ''linux/amd64''), (''DEMO_WEB_PORT'', ''8080''), (''DEMO_INPUT_DIR'', ''/demo''),
       (''DATABASE_URL'', database_url (replicate 64 (CHR ''a''))), (''AUTH_JWT_SECRET'', ''s''), (''MQTT_PASSWORD'', ''p''),
       (''DEMO_CORE_IMAGE'', ''core''), (''DEMO_WEB_IMAGE'', ''site'')],
     md_password = replicate 64 (CHR ''a''), md_web_source = ''/web'', md_web_revision = ''r1'', md_identity = None\<rparr>"

definition example_demo :: demo where
  "example_demo = \<lparr>dm_project = ''kzhome-demo'', dm_path = ''/demo'', dm_state = None, dm_env = [], dk_directory = True,
     dk_files = map (\<lambda>name. (name, Private name)) PRIVATE @
       [(''state.json'', Metadata example_metadata), (''compose.env'', Variables (md_env example_metadata))],
     dk_linked = [], dk_pending = None, dk_history = [], dk_backups = [], dk_contexts = [], dd_images = [], dd_calls = [], dd_steps = 0\<rparr>"

definition example_services :: compose_config where
  "example_services = \<lparr>
     cc_services = map (\<lambda>name. (name, \<lparr>sv_environment = [(''DATABASE_URL'', database_url (replicate 64 (CHR ''a''))),
         (''MQTT_TLS_ENABLED'', ''true''), (''MQTT_HOST'', ''mosquitto''), (''APP_ENV'', ''production'')],
       sv_ports = [], sv_named = False, sv_privileged = False, sv_image = name\<rparr>)) [''core'', ''proxy'', ''postgres'', ''mosquitto''],
     cc_volumes = [(''data'', \<lparr>re_external = False, re_name = ''kzhome-demo_data''\<rparr>)],
     cc_networks = [(''net'', \<lparr>re_external = False, re_name = ''kzhome-demo_net''\<rparr>)]\<rparr>"

definition example_container :: "string \<Rightarrow> container" where
  "example_container name = \<lparr>ct_labels = [(''com.docker.compose.project'', ''kzhome-demo''), (''com.docker.compose.service'', name)],
     ct_env = [''DATABASE_URL='' @ database_url (replicate 64 (CHR ''a'')), ''AUTH_JWT_SECRET=s'', ''MQTT_PASSWORD=p''],
     ct_image = name, ct_running = True, ct_mounts = [(''volume'', ''kzhome-demo_data'', ''/data'')]\<rparr>"

definition example_web :: web_checkout where
  "example_web = \<lparr>wb_path = ''/web'', wb_is_core = False, wb_is_directory = True,
     wb_files = web_required @ [''src/data/core/permissions.ts'', ''src/data/core/relay-control.ts''], wb_is_root = True,
     wb_status = [], wb_tracked = web_required, wb_escaping = [], wb_head = ''r2''\<rparr>"

definition example_host :: "nat option \<Rightarrow> string \<Rightarrow> host" where
  "example_host stop uuid = \<lparr>ho_fault = (\<lambda>n. case stop of None \<Rightarrow> None | Some k \<Rightarrow> if k \<le> n then Some OSError else None),
     ho_environ = [], ho_output = (\<lambda>n args.
       if args = version_query then ''0006_command_lifecycle'' else if args = dump_args then ''PGDMP''
       else if take 3 args = [''ps'', ''-a'', ''-q''] then concat (drop 3 args) else []),
     ho_config = (\<lambda>n env. example_services), ho_volume = (\<lambda>n name. Some (Some ''kzhome-demo'')),
     ho_container = (\<lambda>n name. Some (example_container name)), ho_image = (\<lambda>n name. name), ho_built = (\<lambda>n tag. ''id'' @ tag),
     ho_http = (\<lambda>n page. 200), ho_uuid = (\<lambda>n. uuid), ho_tracked = (\<lambda>n. []), ho_source = (\<lambda>name. None), ho_sha = (\<lambda>text. ''sha''),
     ho_digest = (\<lambda>c. case c of Private text \<Rightarrow> text | Metadata m \<Rightarrow> md_web_revision m | Variables env \<Rightarrow> []),
     ho_resolve = (\<lambda>dir. dir), ho_locked = False\<rparr>"

lemma example_prepared: "prepared example_demo example_metadata"
  by (simp add: prepared_def example_demo_def example_metadata_def PRIVATE_def)

lemma example_config: "willing_config (example_host stop uuid) example_metadata (ho_config (example_host stop uuid) n env)"
proof -
  have "ho_config (example_host stop uuid) n env = example_services" by (simp add: example_host_def)
  moreover have "ports_ok example_services = Inr ()" "expected_core example_metadata example_services = Inr ()"
    "expected_services (md_project example_metadata) example_services = Inr ()"
    "list_all (\<lambda>(key, r). project_resource (md_project example_metadata) key r) (cc_volumes example_services)"
    by code_simp+
  ultimately show ?thesis by (simp add: willing_config_def)
qed

lemma example_own:
  "list_all (\<lambda>service. own_container example_metadata ''kzhome-demo'' service (example_container service) = Inr ())
     [''core'', ''proxy'', ''postgres'', ''mosquitto'']"
  by code_simp

lemma example_containers: "list_all (\<lambda>service. ho_output (example_host stop uuid) n (container_query service) = service \<and>
     willing_container (example_host stop uuid) example_metadata service (example_container service))
     [''core'', ''proxy'', ''postgres'', ''mosquitto'']"
proof -
  have answer: "ho_output (example_host stop uuid) n (container_query service) = service" for service
    by (simp add: example_host_def container_query_def version_query_def psql_def dump_args_def)
  have project: "md_project example_metadata = ''kzhome-demo''" by (simp add: example_metadata_def)
  have mounts: "list_all (mount_ok ''kzhome-demo'' service) (ct_mounts (example_container service))" "ct_running (example_container service)" for service
    by (simp_all add: example_container_def mount_ok_def starts_with_def)
  have image: "\<exists>s. alookup service (cc_services (ho_config (example_host stop uuid) n env)) = Some s \<and>
      ct_image (example_container service) = ho_image (example_host stop uuid) k (sv_image s)"
    if "service \<in> {''postgres'', ''mosquitto''}" for service n env k
    using that by (auto simp: example_host_def example_services_def example_container_def)
  show ?thesis using example_own answer mounts image by (simp add: willing_container_def project list_all_iff)
qed

lemma example_willing: "willing_run D example_demo example_metadata (example_host None uuid) example_web (''sha'', ''r2'')"
proof -
  have "willing_checkout (example_host None uuid) example_web (''sha'', ''r2'')"
    by (simp add: willing_checkout_def example_host_def example_web_def web_required_def)
  moreover have "willing_host (example_host None uuid) example_metadata (dm_path example_demo)"
    unfolding willing_host_def
  proof (intro conjI allI ballI)
    fix n k service assume "service \<in> {''core'', ''proxy'', ''postgres'', ''mosquitto''}"
    then have "ho_output (example_host None uuid) n (container_query service) = service"
      "willing_container (example_host None uuid) example_metadata service (example_container service)"
      "service \<noteq> []" "line_feed \<notin> set service"
      using example_containers [of None uuid n] by (auto simp: line_feed_def)
    then show "ho_output (example_host None uuid) n (container_query service) \<noteq> []"
      "line_feed \<notin> set (ho_output (example_host None uuid) n (container_query service))"
      "\<exists>item. ho_container (example_host None uuid) k (ho_output (example_host None uuid) n (container_query service)) = Some item \<and>
        willing_container (example_host None uuid) example_metadata service item"
      by (simp_all add: example_host_def)
  qed (simp_all add: example_config, simp_all add: example_host_def example_metadata_def example_demo_def version_query_def psql_def
      dump_args_def revisions_def hex64_def, code_simp)
  ultimately show ?thesis
    by (simp add: willing_run_def example_demo_def kept_files_def PRIVATE_def)
qed

text \<open>A run killed in the middle of its backup: the plan is there, the backup has no manifest.\<close>

definition killed_run :: "nat \<Rightarrow> (host \<times> web_checkout) list" where
  "killed_run k = [(example_host (Some k) ''b1'', example_web)]"

definition killed_demo :: demo where
  "killed_demo = after_runs (killed_run 43) example_demo"

definition remains :: "demo \<Rightarrow> (string \<times> string) option \<times> (string \<times> bool) list" where
  "remains d = (map_option pl_identity (dk_pending d), map (\<lambda>(dir, b). (dir, bk_manifest b = None)) (dk_backups d))"

lemma killed_in_backup: "remains killed_demo = (Some (''sha'', ''r2''), [(''b1'', True)])"
  by code_simp

lemma example_digests: "list_all (\<lambda>(H, _). ho_digest H = ho_digest (example_host None ''b2'')) (killed_run k)"
  by (simp add: killed_run_def example_host_def)

theorem interrupted_upgrades_lose_nothing_witness:
  "list_all (\<lambda>name. alookup name (dk_files killed_demo) = Some (Private name)) PRIVATE \<and>
   (\<exists>m. alookup ''state.json'' (dk_files killed_demo) = Some (Metadata m) \<and> continues example_metadata m) \<and>
   list_all (\<lambda>(env, args). args \<in> insert migrate_args quiet_calls) (dd_calls killed_demo)"
proof -
  have "list_all (\<lambda>name. alookup name (dk_files example_demo) = Some (Private name)) PRIVATE"
    by (simp add: example_demo_def PRIVATE_def)
  then show ?thesis
    using interrupted_upgrades_lose_nothing [OF example_prepared example_digests killed_demo_def] by (fastforce simp: list_all_iff)
qed

theorem interrupted_upgrade_resumes_witness:
  "\<exists>d' m. upgrade_command (example_host None ''b2'') example_web killed_demo = (Inr (), d') \<and>
     dk_pending d' = None \<and> alookup ''state.json'' (dk_files d') = Some (Metadata m) \<and> md_identity m = Some (''sha'', ''r2'') \<and>
     continues example_metadata m"
proof (rule interrupted_upgrade_resumes [OF example_prepared example_digests killed_demo_def example_willing])
  show "dk_pending killed_demo = None \<or> map_option pl_identity (dk_pending killed_demo) = Some (''sha'', ''r2'')"
    using killed_in_backup by (simp add: remains_def)
  have "map fst (map (\<lambda>(dir, b). (dir, bk_manifest b = None)) (dk_backups killed_demo)) = [''b1'']"
    using killed_in_backup by (simp add: remains_def)
  then have "map fst (dk_backups killed_demo) = [''b1'']" by (simp add: o_def case_prod_unfold)
  then have "fst ` set (dk_backups killed_demo) = {''b1''}" by (metis list.set(1,2) set_map)
  then show "alookup (ho_uuid (example_host None ''b2'') n) (dk_backups killed_demo) = None" for n
    by (simp add: alookup_None_iff example_host_def)
qed

end
