(* ===== verification/Demo_Setup.thy ===== *)
theory Demo_Setup
  imports Upgrade_Runs
begin

text \<open>
  \<open>Demo.prepare\<close> and the dispatch of \<open>deploy/demo.py\<close>. The secrets module, the CSV reader and what the
  OpenSSL and Mosquitto helper containers write are parameters. A file that cannot be written is left
  out, where the operating system may leave it truncated.
\<close>

subsection \<open>Checks of a new installation\<close>

record setup_tools =
  su_windows :: bool
  su_secret :: "nat \<Rightarrow> string"
  su_sid :: "string \<Rightarrow> string option"
  su_made :: "nat \<Rightarrow> string \<Rightarrow> string"

definition required_assets :: "string \<Rightarrow> string list" where
  "required_assets platform =
     [''compose.production.yaml'', ''compose.demo.yaml'', ''deploy/demo-web.Dockerfile'', ''deploy/mosquitto/acl'',
      ''deploy/mosquitto/start.sh'', ''deploy/mosquitto/mosquitto.conf'', ''deploy/nginx/arm64.conf''] @
     (if platform = ''linux/arm64'' then [''compose.arm64.yaml''] else [])"

definition leading_number :: "string \<Rightarrow> (nat \<times> string) option" where
  "leading_number s = (case takeWhile is_digit s of [] \<Rightarrow> None | ds \<Rightarrow> Some (nat_of_digits ds, dropWhile is_digit s))"

definition after_dot :: "string \<Rightarrow> string option" where
  "after_dot s = (case s of c # cs \<Rightarrow> if c = CHR ''.'' then Some cs else None | [] \<Rightarrow> None)"

text \<open>\<open>v?(\d+)\.(\d+)\.(\d+)(?:[-+].*)?\<close>, compared with \<open>(2, 24, 4)\<close>.\<close>

definition compose_numbers :: "string \<Rightarrow> (nat \<times> nat \<times> nat) option" where
  "compose_numbers version =
     Option.bind (leading_number (if take 1 version = ''v'' then drop 1 version else version)) (\<lambda>(major, r1).
     Option.bind (after_dot r1) (\<lambda>r2. Option.bind (leading_number r2) (\<lambda>(minor, r3).
     Option.bind (after_dot r3) (\<lambda>r4. Option.bind (leading_number r4) (\<lambda>(patch, rest).
     if rest = [] \<or> (take 1 rest \<in> {''-'', ''+''} \<and> line_feed \<notin> set rest) then Some (major, minor, patch) else None)))))"

definition compose_recent :: "string \<Rightarrow> bool" where
  "compose_recent version =
     (case compose_numbers version of
        None \<Rightarrow> False
      | Some (major, minor, patch) \<Rightarrow> 2 < major \<or> (major = 2 \<and> (24 < minor \<or> (minor = 24 \<and> 4 \<le> patch))))"

text \<open>\<open>S-1-(?:\d+-)+\d+\<close>.\<close>

definition valid_sid :: "string \<Rightarrow> bool" where
  "valid_sid sid \<longleftrightarrow> starts_with ''S-1-'' sid \<and>
     (let parts = split_on (CHR ''-'') (drop 4 sid) in
      2 \<le> length parts \<and> list_all (\<lambda>part. part \<noteq> [] \<and> list_all is_digit part) parts)"

definition protect_windows :: "host \<Rightarrow> setup_tools \<Rightarrow> (demo, unit) op" where
  "protect_windows H S =
     bnd (host_step H) (\<lambda>n.
     case su_sid S (ho_output H n [''whoami'', ''/user'', ''/fo'', ''csv'', ''/nh'']) of
       None \<Rightarrow> raise ValueError
     | Some sid \<Rightarrow> andthen (reject (\<not> valid_sid sid) ValueError) (void (host_step H)))"

subsection \<open>The private inputs\<close>

definition write_text :: "host \<Rightarrow> string \<Rightarrow> content \<Rightarrow> (demo, unit) op" where
  "write_text H name c = andthen (void (host_step H)) (modify (put_file name c))"

text \<open>\<open>private_write\<close>: the mode is restricted after the text is written.\<close>

definition private_write :: "host \<Rightarrow> string \<Rightarrow> content \<Rightarrow> (demo, unit) op" where
  "private_write H name c = andthen (write_text H name c) (void (host_step H))"

definition dumps_strings :: "(string \<times> string) list \<Rightarrow> string" where
  "dumps_strings members = ''{'' @ commas '', '' (map (\<lambda>(k, v). quote k @ '': '' @ quote v) members) @ ''}''"

definition demo_values :: "string \<Rightarrow> string \<Rightarrow> setup_tools \<Rightarrow> string \<Rightarrow> nat \<Rightarrow> nat \<Rightarrow> vars" where
  "demo_values project place S platform api_port web_port =
     [(''POSTGRES_PASSWORD'', su_secret S 5), (''DATABASE_URL'', database_url (su_secret S 0)),
      (''AUTH_JWT_SECRET'', su_secret S 6), (''MQTT_PASSWORD'', su_secret S 1), (''MQTT_CLIENT_ID'', project @ ''-core''),
      (''TZ'', ''UTC''), (''MQTT_ACL_FILE'', slashes (place @ ''/mqtt/acl'')), (''DEMO_INPUT_DIR'', slashes place),
      (''DEMO_WEB_CONTEXT'', slashes (place @ ''/web'')), (''DEMO_PLATFORM'', platform),
      (''DEMO_CORE_IMAGE'', ''kz-home-core:'' @ project @ ''-v0.14''), (''DEMO_WEB_IMAGE'', ''kz-home-web:'' @ project @ ''-v0.14''),
      (''DEMO_API_PORT'', int_text (int api_port)), (''DEMO_WEB_PORT'', int_text (int web_port)),
      (''HTTPS_BIND_IP'', ''127.0.0.1''), (''CORE_ARM64_IMAGE'', ''kz-home-core:'' @ project @ ''-v0.14'')]"

definition password_lines :: "setup_tools \<Rightarrow> string" where
  "password_lines S =
     ''kzhome-core:'' @ su_secret S 1 @ [line_feed] @ ''relay-simulator:'' @ su_secret S 2 @ [line_feed] @
     ''motion-simulator:'' @ su_secret S 3 @ [line_feed]"

definition server_ext :: string where
  "server_ext = ''subjectAltName=DNS:mosquitto'' @ [line_feed] @ ''basicConstraints=CA:FALSE'' @ [line_feed] @
     ''keyUsage=digitalSignature,keyEncipherment'' @ [line_feed] @ ''extendedKeyUsage=serverAuth'' @ [line_feed]"

text \<open>A helper container writes its files into the mounted directory.\<close>

definition run_helper :: "host \<Rightarrow> setup_tools \<Rightarrow> string list \<Rightarrow> (demo, unit) op" where
  "run_helper H S names =
     bnd (host_step H) (\<lambda>n.
     modify (\<lambda>d. foldl (\<lambda>e name. put_file name (Private (su_made S n name)) e) d names))"

definition write_inputs ::
  "host \<Rightarrow> setup_tools \<Rightarrow> web_checkout \<Rightarrow> string \<Rightarrow> string \<Rightarrow> string \<Rightarrow> nat \<Rightarrow> nat \<Rightarrow> string \<Rightarrow> (demo, unit) op" where
  "write_inputs H S web project place platform api_port web_port proxy =
     andthen (void (host_step H))
     (bnd (stage_web H web (place @ ''/web'')) (\<lambda>revision.
     andthen (write_text H ''proxy.conf'' (Private proxy))
     (bnd (gets dd_steps) (\<lambda>n.
     let values = demo_values project place S platform api_port web_port in
     andthen (private_write H ''user.json'' (Private (dumps_strings
       [(''email'', ''demo-'' @ ho_uuid H n @ ''@example.invalid''), (''password'', su_secret S 4)])))
     (andthen (private_write H ''simulation.json'' (Private (dumps_strings [(''relay'', su_secret S 2), (''motion'', su_secret S 3)])))
     (andthen (private_write H ''compose.env'' (Variables values))
     (andthen (private_write H ''mqtt/passwords'' (Private (password_lines S)))
     (andthen (case ho_source H ''deploy/mosquitto/acl'' of
         None \<Rightarrow> raise OSError | Some text \<Rightarrow> write_text H ''mqtt/acl'' (Private text))
     (andthen (write_text H ''mqtt/server.ext'' (Private server_ext))
     (andthen (run_helper H S [''mqtt/ca.key'', ''mqtt/ca.crt'', ''mqtt/server.key'', ''mqtt/server.csr'', ''mqtt/server.crt''])
     (andthen (run_helper H S [''mqtt/passwords''])
     (private_write H ''state.json'' (Metadata
       \<lparr>md_version = 14, md_project = project, md_env = values, md_password = su_secret S 0, md_web_source = wb_path web,
        md_web_revision = revision, md_identity = None\<rparr>)))))))))))))"

definition docker_info :: "string list" where
  "docker_info = [''docker'', ''info'', ''--format'', ''{{.OSType}}'']"

definition compose_version :: "string list" where
  "compose_version = [''docker'', ''compose'', ''version'', ''--short'']"

definition mount_breaking :: "string \<Rightarrow> bool" where
  "mount_breaking place \<longleftrightarrow> list_ex (\<lambda>c. c \<in> set place) [CHR '','', carriage_return, line_feed, CHR 0x27]"

definition prepare_demo :: "host \<Rightarrow> setup_tools \<Rightarrow> web_checkout \<Rightarrow> string \<Rightarrow> nat \<Rightarrow> nat \<Rightarrow> (demo, unit) op" where
  "prepare_demo H S web platform api_port web_port =
     bnd (gets dk_directory) (\<lambda>exists.
     if exists then andthen (load_demo H) (guard_demo H)
     else
       andthen (void (check_web H web))
       (andthen (reject (\<not> list_all (\<lambda>name. ho_source H name \<noteq> None) (required_assets platform)) ValueError)
       (andthen (void (host_step H))
       (bnd (lift (case ho_source H ''deploy/nginx/arm64.conf'' of None \<Rightarrow> Inl OSError | Some source \<Rightarrow> proxy_config source)) (\<lambda>proxy.
       bnd (gets dm_path) (\<lambda>place.
       andthen (reject (mount_breaking place) ValueError)
       (bnd (host_step H) (\<lambda>n.
       andthen (reject (ho_output H n docker_info \<noteq> ''linux'') ValueError)
       (bnd (host_step H) (\<lambda>k.
       andthen (reject (\<not> compose_recent (ho_output H k compose_version)) ValueError)
       (andthen (void (host_step H))
       (andthen (modify (dk_directory_update (\<lambda>_. True)))
       (andthen (void (host_step H))
       (andthen (if su_windows S then protect_windows H S else ret ())
       (bnd (gets dm_project) (\<lambda>project.
       andthen (write_inputs H S web project place platform api_port web_port proxy)
       (andthen (load_demo H)
       (guard_demo H))))))))))))))))))"

subsection \<open>The command line\<close>

text \<open>The actions of \<open>main\<close>, but for the virtual relay, the simulation and the credentials.\<close>

datatype demo_action = Prepare | Start | Stop | Restart | Update | Bootstrap_demo | Verify | Upgrade_check | Backup | Upgrade_demo

record demo_args =
  ar_project :: string
  ar_web :: web_checkout
  ar_arm64 :: bool
  ar_api_port :: nat
  ar_web_port :: nat
  ar_run :: bool

definition ports_valid :: "nat \<Rightarrow> nat \<Rightarrow> bool" where
  "ports_valid api_port web_port \<longleftrightarrow> 1024 \<le> api_port \<and> api_port \<le> 65535 \<and> 1024 \<le> web_port \<and> web_port \<le> 65535 \<and> api_port \<noteq> web_port"

fun perform :: "host \<Rightarrow> web_checkout \<Rightarrow> demo_action \<Rightarrow> (demo, unit) op" where
  "perform H web Start = start_demo H True"
| "perform H web Stop = void (compose H [''stop''])"
| "perform H web Restart = andthen (void (compose H [''stop''])) (start_demo H False)"
| "perform H web Update = raise ValueError"
| "perform H web Bootstrap_demo = bootstrap_database H"
| "perform H web Verify = verify_demo H"
| "perform H web Upgrade_check = void (check_upgrade H web)"
| "perform H web Backup = andthen (reject (ho_locked H) ValueError) (void (backup_demo H True))"
| "perform H web Upgrade_demo = upgrade H web"
| "perform H web Prepare = raise ValueError"

definition demo_command :: "host \<Rightarrow> setup_tools \<Rightarrow> demo_args \<Rightarrow> demo_action \<Rightarrow> (demo, unit) op" where
  "demo_command H S args action =
     andthen (reject (\<not> valid_project (ar_project args)) ValueError)
     (andthen (modify (\<lambda>d. d\<lparr>dm_project := ar_project args, dm_state := None, dm_env := []\<rparr>))
     (if action = Prepare then
        andthen (reject (\<not> ports_valid (ar_api_port args) (ar_web_port args)) ValueError)
        (prepare_demo H S (ar_web args) (if ar_arm64 args then ''linux/arm64'' else ''linux/amd64'') (ar_api_port args) (ar_web_port args))
      else andthen (load_demo H) (andthen (guard_demo H) (perform H (ar_web args) action))))"

text \<open>The exit status: 2 for a command line the parser refuses, 1 for any failure.\<close>

definition demo_main :: "host \<Rightarrow> setup_tools \<Rightarrow> demo_args \<Rightarrow> demo_action \<Rightarrow> demo \<Rightarrow> nat \<times> demo" where
  "demo_main H S args action d =
     (if \<not> ar_run args then (2, d)
      else (case demo_command H S args action d of (Inr _, d') \<Rightarrow> (0, d') | (Inl _, d') \<Rightarrow> (1, d')))"

lemma upgrade_from_command_line:
  "valid_project (dm_project d) \<Longrightarrow> ar_project args = dm_project d \<Longrightarrow>
   demo_command H S args Upgrade_demo d = upgrade_command H (ar_web args) d"
  by (simp add: demo_command_def upgrade_command_def andthen_reject_apply)

subsection \<open>What an interrupted prepare leaves\<close>

text \<open>A new directory before \<open>state.json\<close> is written, with the named files in place.\<close>

definition blank :: "string \<Rightarrow> string list \<Rightarrow> demo \<Rightarrow> bool" where
  "blank project names d \<longleftrightarrow> dm_project d = project \<and> alookup ''state.json'' (dk_files d) = None \<and> all_in (dk_files d) names \<and>
     dm_state d = None \<and> dk_pending d = None \<and> dk_backups d = [] \<and> dd_calls d = []"

definition ready :: "metadata \<Rightarrow> demo \<Rightarrow> bool" where
  "ready m d \<longleftrightarrow> prepared d m \<and> all_in (dk_files d) PRIVATE"

definition whole_or_absent :: "string \<Rightarrow> demo \<Rightarrow> bool" where
  "whole_or_absent project d \<longleftrightarrow> alookup ''state.json'' (dk_files d) = None \<or> (\<exists>m. ready m d \<and> md_project m = project)"

lemma pres_host_step: "(\<And>d n. P d \<Longrightarrow> P (d\<lparr>dd_steps := n\<rparr>)) \<Longrightarrow> preserves P (host_step H)"
  unfolding host_step_def by (intro pres pres_option) (auto split: option.split)

lemma pres_void: "preserves P m \<Longrightarrow> preserves P (void m)"
  unfolding void_def by (intro pres)

lemma pres_stage_web:
  assumes "\<And>d n. P d \<Longrightarrow> P (d\<lparr>dd_steps := n\<rparr>)" and "\<And>d x. P d \<Longrightarrow> P (d\<lparr>dk_contexts := x\<rparr>)"
  shows "preserves P (check_web H web)" and "preserves P (stage_web H web target)"
proof -
  show check: "preserves P (check_web H web)"
    unfolding check_web_def by (intro pres pres_void pres_host_step assms(1))
  have "preserves P (stage_files H web target names)" for names
  proof (induction names)
    case Nil
    show ?case unfolding stage_files.simps by (rule pres_ret)
  next
    case (Cons name names)
    show ?case unfolding stage_files.simps by (intro pres pres_host_step assms Cons.IH)
  qed
  then show "preserves P (stage_web H web target)"
    unfolding stage_web_def by (intro pres check pres_host_step assms)
qed

lemma blank_steps: "blank project names d \<Longrightarrow> blank project names (d\<lparr>dd_steps := n\<rparr>)"
  and blank_contexts: "blank project names d \<Longrightarrow> blank project names (d\<lparr>dk_contexts := x\<rparr>)"
  and blank_whole: "blank project names d \<Longrightarrow> whole_or_absent project d"
  by (simp_all add: blank_def whole_or_absent_def)

lemma blank_put: "blank project names d \<Longrightarrow> name \<noteq> ''state.json'' \<Longrightarrow> blank project (name # names) (put_file name c d)"
  by (auto simp: blank_def put_file_def all_in_def alookup_aput)

lemma goes_preserves: "preserves P m \<Longrightarrow> (\<And>d. P d \<Longrightarrow> F d) \<Longrightarrow> goes F False P m (\<lambda>_. P)"
  unfolding goes_def wp_def preserves_def by (auto split: prod.split sum.split)

lemma goes_wp: "goes F False P m Q \<longleftrightarrow> (\<forall>d. P d \<longrightarrow> wp m Q (\<lambda>_. F) d)"
  by (simp add: goes_def)

abbreviation installs :: "string \<Rightarrow> (demo \<Rightarrow> bool) \<Rightarrow> (demo, 'a) op \<Rightarrow> ('a \<Rightarrow> demo \<Rightarrow> bool) \<Rightarrow> bool" where
  "installs project \<equiv> goes (whole_or_absent project) False"

lemma installs_step: "installs project (blank project names) (host_step H) (\<lambda>_. blank project names)"
  by (intro goes_preserves pres_host_step blank_steps blank_whole)

lemma installs_void: "installs project P m (\<lambda>_. Q) \<Longrightarrow> installs project P (void m) (\<lambda>_. Q)"
  unfolding void_def by (rule goes_bnd) (auto intro: goes_ret)

lemma installs_write:
  assumes "name \<noteq> ''state.json''"
  shows "installs project (blank project names) (write_text H name c) (\<lambda>_. blank project (name # names))"
    and "installs project (blank project names) (private_write H name c) (\<lambda>_. blank project (name # names))"
proof -
  show written: "installs project (blank project names) (write_text H name c) (\<lambda>_. blank project (name # names))" for names
    unfolding write_text_def
    by (rule goes_then [OF installs_void [OF installs_step]], rule goes_modify, erule blank_put, rule assms)
  show "installs project (blank project names) (private_write H name c) (\<lambda>_. blank project (name # names))"
    unfolding private_write_def by (rule goes_then [OF written installs_void [OF installs_step]])
qed

lemma installs_helper:
  assumes "''state.json'' \<notin> set made"
  shows "installs project (blank project names) (run_helper H S made) (\<lambda>_. blank project (rev made @ names))"
proof -
  have "blank project (rev made @ names) (foldl (\<lambda>e name. put_file name (Private (su_made S n name)) e) d made)"
    if "blank project names d" for n d
    using that assms
  proof (induction made arbitrary: names d)
    case (Cons a made)
    then have "blank project (a # names) (put_file a (Private (su_made S n a)) d)" by (auto intro: blank_put)
    from Cons.IH [OF this] Cons.prems show ?case by simp
  qed simp
  then show ?thesis unfolding run_helper_def by (intro goes_bnd [OF installs_step] goes_modify)
qed

text \<open>Once \<open>state.json\<close> is there, the other files are.\<close>

lemma ready_keeps: "ready m d \<Longrightarrow> ready m (d\<lparr>dd_steps := n\<rparr>)" "ready m d \<Longrightarrow> ready m (d\<lparr>dm_env := e\<rparr>)"
  "ready m d \<Longrightarrow> ready m (d\<lparr>dm_state := Some m\<rparr>)"
  "ready m d \<Longrightarrow> args \<in> quiet_calls \<Longrightarrow> ready m (d\<lparr>dd_calls := dd_calls d @ [(e, args)]\<rparr>)"
  by (simp_all add: ready_def prepared_def)

lemma ready_load: "preserves (ready m) (load_demo H)"
proof (rule preservesI)
  fix d assume d: "ready m d"
  then have "alookup ''state.json'' (dk_files d) = Some (Metadata m)" by (simp add: ready_def prepared_def)
  with d show "ready m (snd (load_demo H d))"
    by (auto simp: load_demo_def host_step_def op_defs split: option.split intro!: ready_keeps)
qed

lemma ready_loaded: "preserves (ready m) (loaded H)"
  unfolding loaded_def by (intro pres ready_load pres_option)

lemma ready_volume: "preserves (ready m) (guard_volume H project kv)"
  unfolding guard_volume_def by (cases kv, simp only: prod.case) (intro pres pres_option pres_host_step ready_keeps)

lemma ready_volumes: "preserves (ready m) (for_each (guard_volume H project) volumes)"
proof (induction volumes)
  case Nil
  show ?case unfolding for_each.simps by (rule pres_ret)
next
  case (Cons volume volumes)
  then show ?case unfolding for_each.simps by (intro pres ready_volume)
qed

lemma ready_guard: "preserves (ready m) (guard_demo H)"
  unfolding guard_demo_def configured_def compose_def
  by (intro pres ready_loaded ready_volumes pres_host_step ready_keeps) auto

lemma ready_whole: "ready m d \<Longrightarrow> whole_or_absent (md_project m) d"
  by (auto simp: whole_or_absent_def)

lemma installs_metadata:
  assumes "insert ''compose.env'' (set PRIVATE) \<subseteq> set names"
  shows "installs (md_project m) (blank (md_project m) names) (private_write H ''state.json'' (Metadata m)) (\<lambda>_. ready m)"
  unfolding private_write_def write_text_def
proof (intro goes_then [OF goes_then [OF installs_void [OF installs_step] goes_modify]])
  fix d assume "blank (md_project m) names d"
  with assms show "ready m (put_file ''state.json'' (Metadata m) d)"
    by (auto simp: blank_def ready_def prepared_def put_file_def all_in_def alookup_aput)
next
  show "installs (md_project m) (ready m) (void (host_step H)) (\<lambda>_. ready m)"
    by (intro goes_preserves pres_void pres_host_step ready_keeps ready_whole)
qed

lemma installs_state:
  assumes "md_project m = project" and "insert ''compose.env'' (set PRIVATE) \<subseteq> set names"
  shows "installs project (blank project names) (private_write H ''state.json'' (Metadata m)) (\<lambda>_ d. \<exists>m. md_project m = project \<and> ready m d)"
  by (rule goes_post [OF installs_metadata [OF assms(2), where m = m, unfolded assms(1)]]) (use assms(1) in blast)

lemma installs_inputs:
  "installs project (blank project []) (write_inputs H S web project place platform api_port web_port proxy)
     (\<lambda>_ d. \<exists>m. md_project m = project \<and> ready m d)"
proof -
  have acl: "installs project (blank project names) (case ho_source H ''deploy/mosquitto/acl'' of
         None \<Rightarrow> raise OSError | Some content_text \<Rightarrow> write_text H ''mqtt/acl'' (Private content_text)) (\<lambda>_. blank project (''mqtt/acl'' # names))" for names
  proof (cases "ho_source H ''deploy/mosquitto/acl''")
    case None
    then show ?thesis by (simp add: goes_def wp_simps blank_whole)
  next
    case (Some content_text)
    then show ?thesis by (simp add: installs_write(1))
  qed
  show ?thesis
    unfolding write_inputs_def Let_def
    by (rule goes_then [OF installs_void [OF installs_step]],
        rule goes_bnd [OF goes_preserves [OF pres_stage_web(2) blank_whole]], erule blank_steps, erule blank_contexts, assumption,
        rule goes_then [OF installs_write(1)], simp, rule goes_bnd [OF goes_preserves [OF pres_gets blank_whole]], assumption,
        (rule goes_then [OF installs_write(2)], simp)+, rule goes_then [OF acl], rule goes_then [OF installs_write(1)], simp,
        rule goes_then [OF installs_helper], simp, rule goes_then [OF installs_helper], simp, rule installs_state)
      (simp_all add: PRIVATE_def)
qed

text \<open>
  A \<open>prepare\<close> that stops anywhere leaves no \<open>state.json\<close>, which every later command refuses, or
  a whole installation from which an upgrade can start; with an existing directory it changes no file.
\<close>

lemma prepare_whole_or_absent:
  assumes "blank project [] d" and "\<not> dk_directory d"
  shows "case prepare_demo H S web platform api_port web_port d of
      (Inr _, d') \<Rightarrow> \<exists>m. prepared d' m \<and> all_in (dk_files d') PRIVATE \<and> md_project m = project
    | (Inl _, d') \<Rightarrow> alookup ''state.json'' (dk_files d') = None \<or> (\<exists>m. prepared d' m \<and> all_in (dk_files d') PRIVATE \<and> md_project m = project)"
proof -
  have step: "installs project (blank project []) (host_step H) (\<lambda>_. blank project [])" by (rule installs_step)
  have windows: "installs project (blank project []) (if su_windows S then protect_windows H S else ret ()) (\<lambda>_. blank project [])"
    unfolding protect_windows_def
    by (intro goes_preserves pres pres_option pres_void pres_host_step blank_steps blank_whole)
  have finish: "installs project (\<lambda>d. \<exists>m. md_project m = project \<and> ready m d) (andthen (load_demo H) (guard_demo H))
      (\<lambda>_ d. \<exists>m. md_project m = project \<and> ready m d)"
    by (rule goes_ex, rule goes_post [OF goes_preserves]) (auto intro: pres ready_load ready_guard ready_whole)
  let ?B = "blank project []"
  have named: "installs project ?B (gets dm_project) (\<lambda>x d. ?B d \<and> x = project)"
    by (simp add: goes_def wp_simps blank_def)
  have made: "installs project ?B (modify (dk_directory_update (\<lambda>_. True))) (\<lambda>_. ?B)"
    by (rule goes_modify) (simp add: blank_def)
  have refused: "installs project ?B k Q \<Longrightarrow> installs project ?B (andthen (reject b e) k) Q" for b e Q and k :: "(demo, unit) op"
    by (rule goes_then [OF goes_preserves [OF pres_reject blank_whole]])
  have checked: "installs project ?B (void (check_web H web)) (\<lambda>_. ?B)"
    by (intro goes_preserves pres_void pres_stage_web(1) blank_steps blank_contexts blank_whole)
  have read: "(\<And>x. installs project ?B (k x) Q) \<Longrightarrow> installs project ?B (bnd (lift r) k) Q" for r Q and k :: "string \<Rightarrow> (demo, unit) op"
    by (rule goes_bnd [OF goes_preserves [OF pres_lift blank_whole]])
  have located: "(\<And>x. installs project ?B (k x) Q) \<Longrightarrow> installs project ?B (bnd (gets dm_path) k) Q" for Q and k :: "string \<Rightarrow> (demo, unit) op"
    by (rule goes_bnd [OF goes_preserves [OF pres_gets blank_whole]])
  have "wp (prepare_demo H S web platform api_port web_port) (\<lambda>_ d. \<exists>m. md_project m = project \<and> ready m d) (\<lambda>_. whole_or_absent project) d"
    unfolding prepare_demo_def wp_bnd wp_gets
  proof (subst if_not_P [OF assms(2)], rule mp [OF spec [OF iffD1 [OF goes_wp]]])
    show "?B d" by (rule assms(1))
    show "installs project ?B
      (andthen (void (check_web H web))
       (andthen (reject (\<not> list_all (\<lambda>name. ho_source H name \<noteq> None) (required_assets platform)) ValueError)
       (andthen (void (host_step H))
       (bnd (lift (case ho_source H ''deploy/nginx/arm64.conf'' of None \<Rightarrow> Inl OSError | Some source \<Rightarrow> proxy_config source)) (\<lambda>proxy.
       bnd (gets dm_path) (\<lambda>place.
       andthen (reject (mount_breaking place) ValueError)
       (bnd (host_step H) (\<lambda>n.
       andthen (reject (ho_output H n docker_info \<noteq> ''linux'') ValueError)
       (bnd (host_step H) (\<lambda>k.
       andthen (reject (\<not> compose_recent (ho_output H k compose_version)) ValueError)
       (andthen (void (host_step H))
       (andthen (modify (dk_directory_update (\<lambda>_. True)))
       (andthen (void (host_step H))
       (andthen (if su_windows S then protect_windows H S else ret ())
       (bnd (gets dm_project) (\<lambda>project.
       andthen (write_inputs H S web project place platform api_port web_port proxy)
       (andthen (load_demo H)
       (guard_demo H)))))))))))))))))) (\<lambda>_ d. \<exists>m. md_project m = project \<and> ready m d)"
      by (rule goes_then [OF checked], rule refused, rule goes_then [OF installs_void [OF step]], rule read, rule located, rule refused,
          rule goes_bnd [OF step], rule refused, rule goes_bnd [OF step], rule refused, rule goes_then [OF installs_void [OF step]],
          rule goes_then [OF made], rule goes_then [OF installs_void [OF step]], rule goes_then [OF windows], rule goes_bnd [OF named],
          rule goes_assume, simp only:, rule goes_then [OF installs_inputs finish])
  qed
  then show ?thesis by (simp add: wp_def ready_def whole_or_absent_def conj_commute conj_left_commute split: prod.splits sum.splits)
qed

lemma prepare_keeps_existing:
  assumes "dk_directory d"
  shows "dk_files (snd (prepare_demo H S web platform api_port web_port d)) = dk_files d"
proof -
  define P where "P e \<longleftrightarrow> dk_files e = dk_files d" for e :: demo
  have load: "preserves P (load_demo H)"
    unfolding load_demo_def by (intro pres pres_option pres_host_step) (auto simp: P_def split: option.splits content.splits intro!: pres)
  have loaded: "preserves P (loaded H)" unfolding loaded_def by (intro pres load pres_option)
  have volume: "preserves P (guard_volume H project kv)" for project kv
    unfolding guard_volume_def by (cases kv, simp only: prod.case) (intro pres pres_option pres_host_step, simp add: P_def)
  have volumes: "preserves P (for_each (guard_volume H project) vs)" for project vs
  proof (induction vs)
    case Nil
    show ?case unfolding for_each.simps by (rule pres_ret)
  next
    case (Cons v vs)
    then show ?case unfolding for_each.simps by (intro pres volume)
  qed
  have guard: "preserves P (guard_demo H)"
    unfolding guard_demo_def configured_def compose_def by (intro pres loaded volumes pres_host_step) (auto simp: P_def)
  have "preserves P (andthen (load_demo H) (guard_demo H))" by (intro pres load guard)
  from preservesD [OF this, of d] show ?thesis using assms by (simp add: prepare_demo_def P_def bnd_def gets_def)
qed

end
