(* ===== verification/Spec2Isabelle.thy ===== *)
theory Spec2Isabelle
  imports Mqtt_Topics State_Validator Provisioning Command_Properties Auth Devices Wiring Gateway Api
    Settings Relay Demo_Bootstrap Demo_Setup
begin

text \<open>
  A verification development of the KZ Home core: the FastAPI application under \<open>src/app\<close>, the software
  devices under \<open>src/simulator\<close> that speak its protocol, and the operator tools under \<open>src/deploy\<close>.

  \<^bold>\<open>The program.\<close> A house is a tree of floors, rooms and devices in one relational database. Users log
  in, belong to houses with a role, and reach everything over HTTP; a WebSocket sends them the events
  of their houses. A device is virtual, or bound to a physical one that was registered in the
  inventory and claimed once. Commands to devices leave through an MQTT gateway, and a durable ledger
  keeps what is known of each; a command to a physical device needs a permit that the control authority
  gives at most once, in a short window of a clock of its own. Devices answer with acknowledgements and
  reports; reports raise events, events start automations, automations change devices and raise
  further events. The operator tools create, upgrade and commission an installation.

  \<^bold>\<open>How it is modelled.\<close> An operation is a function from a state to a result or an exception and the state
  at that point (\<open>Prelude\<close>: \<open>op\<close>, \<open>ret\<close>, \<open>raise\<close>, \<open>bnd\<close>, \<open>handle\<close>), so that every \<open>raise\<close> and early
  return of the source is a branch and an exception keeps what was assigned before it. The state is one
  extensible record: \<open>Database\<close> has the committed tables and the session's view of them, and the
  control authority, the process and the gateway add their fields. A table is the list of its rows; a
  commit checks the constraints the schema declares. Rows and requests are records with the fields of
  the source, enumerations are datatypes, strings are UTF-8 bytes, JSON values follow Python's equality
  and order, times are microseconds as integers. Every definition is executable; the witnesses evaluate
  them on small installations (\<open>Examples\<close> and the end of each theory).

  \<^bold>\<open>The theories.\<close>

  Foundations. \<open>Prelude\<close>: operations, weakest preconditions, preservation, keyed lists. \<open>Interfaces\<close>: the
  locales shared by components (\<open>absorbing_machine\<close>, \<open>progress_machine\<close>, \<open>invariant_machine\<close>,
  \<open>latching_clock\<close>, \<open>row_table\<close>), each interpreted where a component provides it. \<open>Text\<close>, \<open>Json\<close>,
  \<open>Json_Text\<close>: strings, JSON values with their bounds, and the texts the program writes. \<open>Database\<close>,
  \<open>Repositories\<close>: \<open>app/models\<close>, \<open>app/core/errors.py\<close> and \<open>app/repositories\<close>. \<open>Schemas\<close>, \<open>Security\<close>,
  \<open>Settings\<close>: \<open>app/schemas\<close>, \<open>app/security.py\<close> and \<open>app/core/settings.py\<close>.

  Accounts and structure. \<open>Auth\<close> (\<open>auth_service.py\<close>): users, memberships, rotating sessions. \<open>Devices\<close>
  (\<open>device_service.py\<close>, \<open>crud_service.py\<close>): structure and device state. \<open>State_Validator\<close>: which fields
  and values a device may take. \<open>Automations\<close> (\<open>scene_service.py\<close>, \<open>automation_service.py\<close>): scenes,
  rules and the cascade of one event. \<open>Events\<close> (\<open>app/events\<close>, \<open>event_log_service.py\<close>, \<open>websocket.py\<close>).
  \<open>Wiring\<close> (\<open>app/main.py\<close>, \<open>readiness_service.py\<close>): the subscribers, automation tasks and callbacks.

  Physical devices. \<open>Onboarding\<close> (\<open>onboarding_service.py\<close>): inventory, claim, lifecycle, the guard of
  bindings. \<open>Provisioning_State\<close>, \<open>Provisioning\<close>: the state machine of an attempt and its service.
  \<open>Clocks\<close>, \<open>Control_Models\<close>, \<open>Control_Authority\<close>: the two clocks, the permit request, the authority.
  \<open>Commands\<close>, \<open>Command_Ledger\<close>, \<open>Command_Properties\<close> (\<open>command_service.py\<close>): the ledger, the locale of
  what its operations keep, and the properties. \<open>Mqtt_Topics\<close>, \<open>Mqtt_Models\<close>, \<open>Gateway\<close>
  (\<open>app/transports\<close>): topics, envelopes, the gateway and its connection loop. \<open>Relay\<close>
  (\<open>simulator/mqtt_relay.py\<close> and the other software devices): the other end of the protocol.

  Interface and tools. \<open>Api\<close> (\<open>app/api\<close>): requests as data, their guards, validation and statuses.
  \<open>Bootstrap\<close>, \<open>Demo_Bootstrap\<close> (\<open>app/bootstrap_e2e.py\<close>, \<open>app/seed.py\<close>, \<open>app/demo.py\<close>): filling a
  database. \<open>Acl\<close> (\<open>deploy/commission_device.py\<close>): the broker permissions of one relay. \<open>Demo\<close>,
  \<open>Demo_Setup\<close> (\<open>deploy/demo.py\<close>): the demo installation. \<open>Upgrade\<close>, \<open>Upgrade_Safety\<close>, \<open>Upgrade_Runs\<close>
  (\<open>deploy/demo_upgrade.py\<close>): its upgrade, the invariant of interrupted runs, their resumption.

  \<^bold>\<open>What is shown.\<close>

  Commands (C1 to C9 and \<open>expired_read_resolves\<close>): an applied command carries its evidence, a permit is
  granted once, inside its window and before its command expires, the closed gate denies, requests are rate limited, ledger rows are
  permanent and refine an abstract life cycle, nothing is sent before it is committed, a repeated
  submission reads the first command, a device with a pending command is sent no other, a command
  resolves when read after its deadline.
  These hold in every interleaving of the operations, by the invariants of \<open>Command_Ledger\<close>.
  Onboarding and provisioning: a device is claimed at most once and stays bound; an attempt follows the
  abstract machine and its terminal states are final. Access: a request of the API has an effect or an
  answer only with the permission of the house it concerns; lists show nothing of other houses; the
  fan-out is checked at every event. Gateway and devices: only software devices are sent commands,
  inbound frames publish only replies, the relay switches only for fresh, own, unretained commands.
  Structure: bound devices stay in their house, the generic device requests do not write the state of a
  physical device. Automations: the tasks an event starts end, a failing rule is reported and stops no
  other, stored rules can be read, the time window is the cyclic interval. Accounts: refresh rotates, a house keeps an owner. The
  audit log is redacted and complete, production settings are safe, the broker permissions confine a device, the
  bootstrap is all or nothing, clocks are monotone and latch their faults, topics parse back, the JSON
  bounds agree with their recursive definition. Upgrades: interrupted runs lose nothing, migrate only
  behind a complete backup, and are resumed. Many further lemmas of the components (the atomic
  replacement of the permission file, the answers of the relay, the whole or absent \<open>prepare\<close>, the
  refusal of a foreign database by the demo bootstrap) are in the theories.

  \<^bold>\<open>Interleavings and time.\<close> A handler between two commits runs as one step: the source takes row locks
  or conditional updates there. Sequences of operations are arbitrary lists of calls; awaited calls in
  the middle of a handler let other transactions run (\<open>in_session\<close>). The clocks are read through an
  environment that may answer anything; the two clock theories say what the program makes of it. A
  host operation of the demo tools may fail at any point (\<open>ho_fault\<close>).

  \<^bold>\<open>Bounds and fuel.\<close> No loop needs fuel but the connection loop of the gateway, which runs over a given
  list of rounds, and the pool of automation tasks: every action raises its event one level deeper and
  level 8 starts no task, so the pool drains (\<open>automations_terminate\<close>). This bounds what happens inside
  the process: a device report starts over at level zero, so a loop through physical devices is not
  bounded by the level. Integers are
  Python's; the bounds that matter (payload sizes, depths, rates, windows) are the source's constants.

  \<^bold>\<open>Parameters.\<close> Third-party code is an argument of the definitions: Argon2, PyJWT and SHA-256 (\<open>crypto\<close>,
  \<open>codec\<close>, \<open>sha256\<close>), the random identifiers (\<open>fresh\<close>), pydantic's lax conversions (\<open>lenient\<close>), the MQTT
  library and the broker, sockets, the JSON and URL readers of the settings, Docker, git and the file
  system of the demo tools (\<open>host\<close>, \<open>setup_tools\<close>). A property that relies on one of them says so in a
  hypothesis, which its witness satisfies with a concrete function.

  \<^bold>\<open>Where the model is coarser.\<close> Lower case, blanks and digits are the ASCII ones. The ticks of
  \<open>time.monotonic\<close> are exact rationals, and times outside the range of \<open>datetime\<close> do not raise
  \<open>OverflowError\<close>. The transport an installation is given only sends (\<open>out_transport\<close>): a device's report
  enters through the gateway as a step of its own, never inside the call that sent the command. A
  payload nested too deeply for the JSON reader has no document, so the \<open>RecursionError\<close> of the
  software relay does not occur. The rights of a broker file (\<open>acl_grants\<close>) are read with the line
  breaks of the script. A backup is a name under the \<open>backups\<close> directory of its demo.

  \<^bold>\<open>Not modelled.\<close> The acceptance clients (\<open>simulator/e2e_acceptance.py\<close>, \<open>e2e_automation.py\<close> but for its two
  definitions, \<open>physical_acceptance.py\<close>, \<open>commissioning_probe.py\<close>) drive a running installation over the
  network and compare what comes back: they have no state of the system and no operation of it. The
  simulation of \<open>app/demo.py\<close> runs them. \<open>app/db\<close> and \<open>alembic\<close> call SQLAlchemy and Alembic; the schema
  they produce is modelled from \<open>app/models\<close>. Of \<open>deploy/demo.py\<close>, the virtual relay and the simulation
  (a foreground \<open>docker run\<close>), the credentials printed to a terminal and the diagnostics are left out.
  \<open>app/services/structure_service.py\<close> and \<open>app/automation.py\<close> raise \<open>ImportError\<close> when they are imported, and
  \<open>app/models.py\<close> is shadowed by the package of that name. Logging, printed messages, argument parsing,
  signal handling, TLS contexts, engine creation and timestamps that no decision reads are left out of
  the components that have them.
\<close>

end
